(* ===== verification/Json_Encode.thy ===== *)
theory Json_Encode
  imports Scoped_Prelude
begin

text \<open>
  Python values as they occur in model rows, JSON values, and \<open>json.dumps\<close> as the library
  calls it: \<open>sort_keys=True\<close>, separators \<open>(",", ":")\<close> and the default \<open>ensure_ascii=True\<close>.
  \<open>plain\<close> is \<open>pyscoped/audit.py:plain\<close>. Floating-point values and characters beyond
  Latin-1 are outside the value type. The main fact is that the encoding is injective up
  to the order of object keys (\<open>json_dumps_inj\<close>), which the digest chain rests on.
\<close>

section \<open>Values\<close>

text \<open>
  A value of a model column. \<open>PExt t s\<close> is a value of a type \<open>DjangoJSONEncoder\<close> knows
  beyond JSON's own (\<open>Decimal\<close>, \<open>UUID\<close>, \<open>date\<close>, ...): its type's name and the text it
  is rendered as.
\<close>

datatype pyval = PNone | PBool bool | PInt int | PStr string | PExt string string

text \<open>
  \<open>ORDER BY pk\<close> needs an order on values: by kind, then integers numerically and text by its
  characters.
\<close>

fun pyval_key :: "pyval \<Rightarrow> nat \<times> int \<times> string \<times> string" where
  "pyval_key PNone = (0, 0, [], [])"
| "pyval_key (PBool b) = (1, (if b then 1 else 0), [], [])"
| "pyval_key (PInt i) = (2, i, [], [])"
| "pyval_key (PStr s) = (3, 0, s, [])"
| "pyval_key (PExt t s) = (4, 0, s, t)"

lemma pyval_key_inj: "pyval_key a = pyval_key b \<Longrightarrow> a = b"
  by (cases a; cases b) (auto split: if_splits)

instantiation pyval :: linorder
begin

definition less_eq_pyval :: "pyval \<Rightarrow> pyval \<Rightarrow> bool" where
  "less_eq_pyval a b \<longleftrightarrow> pyval_key a \<le> pyval_key b"

definition less_pyval :: "pyval \<Rightarrow> pyval \<Rightarrow> bool" where
  "less_pyval a b \<longleftrightarrow> pyval_key a < pyval_key b"

instance
proof
  fix x y z :: pyval
  show "(x < y) = (x \<le> y \<and> \<not> y \<le> x)"
    unfolding less_eq_pyval_def less_pyval_def by (rule less_le_not_le)
  show "x \<le> x" by (simp add: less_eq_pyval_def)
  show "x \<le> y \<Longrightarrow> y \<le> z \<Longrightarrow> x \<le> z"
    unfolding less_eq_pyval_def by (rule order_trans)
  show "x \<le> y \<Longrightarrow> y \<le> x \<Longrightarrow> x = y"
    unfolding less_eq_pyval_def using pyval_key_inj antisym by blast
  show "x \<le> y \<or> y \<le> x" unfolding less_eq_pyval_def by (rule linear)
qed

end

text \<open>A column of a row is read as \<open>getattr(row, attname)\<close>.\<close>

datatype json =
    JNull
  | JBool bool
  | JInt int
  | JStr string
  | JArr "json list"
  | JObj "(string \<times> json) list"

text \<open>Python's \<open>str\<close> on column values.\<close>

fun py_str :: "pyval \<Rightarrow> string" where
  "py_str PNone = ''None''"
| "py_str (PBool b) = (if b then ''True'' else ''False'')"
| "py_str (PInt i) = show_int i"
| "py_str (PStr s) = s"
| "py_str (PExt t s) = s"

text \<open>
  \<open>plain\<close>: a round trip through \<open>json.dumps(cls=DjangoJSONEncoder)\<close> and \<open>json.loads\<close>. A
  scalar column value becomes the JSON value of the same kind, an extended one its text.
\<close>

fun plain :: "pyval \<Rightarrow> json" where
  "plain PNone = JNull"
| "plain (PBool b) = JBool b"
| "plain (PInt i) = JInt i"
| "plain (PStr s) = JStr s"
| "plain (PExt t s) = JStr s"

section \<open>String literals\<close>

definition hex_char :: "nat \<Rightarrow> char" where
  "hex_char d = (if d < 10 then char_of (48 + d) else char_of (87 + d))"

definition hex_val :: "char \<Rightarrow> nat" where
  "hex_val c = (let n = of_char c in if n < 58 then n - 48 else n - 87)"

definition esc_char :: "char \<Rightarrow> string" where
  "esc_char c =
     (if c = CHR 0x22 then [CHR 0x5C, CHR 0x22]
      else if c = CHR 0x5C then [CHR 0x5C, CHR 0x5C]
      else if c = CHR 0x0A then [CHR 0x5C, CHR ''n'']
      else if c = CHR 0x0D then [CHR 0x5C, CHR ''r'']
      else if c = CHR 0x09 then [CHR 0x5C, CHR ''t'']
      else if c = CHR 0x0C then [CHR 0x5C, CHR ''f'']
      else if c = CHR 0x08 then [CHR 0x5C, CHR ''b'']
      else if 32 \<le> (of_char c :: nat) \<and> (of_char c :: nat) \<le> 126 then [c]
      else [CHR 0x5C, CHR ''u'', CHR ''0'', CHR ''0'',
            hex_char (of_char c div 16), hex_char (of_char c mod 16)])"

fun esc_string :: "string \<Rightarrow> string" where
  "esc_string [] = []"
| "esc_string (c # cs) = esc_char c @ esc_string cs"

definition quote_string :: "string \<Rightarrow> string" where
  "quote_string s = CHR 0x22 # esc_string s @ [CHR 0x22]"

text \<open>Reading one escaped character back.\<close>

definition unesc_char :: "string \<Rightarrow> (char \<times> string) option" where
  "unesc_char s =
     (case s of
        [] \<Rightarrow> None
      | c # cs \<Rightarrow>
          if c \<noteq> CHR 0x5C then Some (c, cs)
          else (case cs of
                  [] \<Rightarrow> None
                | d # ds \<Rightarrow>
                    if d = CHR ''n'' then Some (CHR 0x0A, ds)
                    else if d = CHR ''r'' then Some (CHR 0x0D, ds)
                    else if d = CHR ''t'' then Some (CHR 0x09, ds)
                    else if d = CHR ''f'' then Some (CHR 0x0C, ds)
                    else if d = CHR ''b'' then Some (CHR 0x08, ds)
                    else if d = CHR ''u''
                    then Some (char_of (16 * hex_val (ds ! 2) + hex_val (ds ! 3)), drop 4 ds)
                    else Some (d, ds)))"

lemma hex_val_hex_char: "d < 16 \<Longrightarrow> hex_val (hex_char d) = d"
  by (simp add: hex_val_def hex_char_def Let_def)

lemma hex_round_trip:
  "char_of (16 * hex_val (hex_char (of_char c div 16)) + hex_val (hex_char (of_char c mod 16))) = (c :: char)"
proof -
  have "of_char c < (256 :: nat)" by (rule nat_of_char_less_256)
  then have "of_char c div 16 < (16 :: nat)" by (simp add: div_less_iff_less_mult)
  then show ?thesis by (simp add: hex_val_hex_char)
qed

lemma unesc_esc_char: "unesc_char (esc_char c @ r) = Some (c, r)"
proof (cases "c \<in> {CHR 0x22, CHR 0x5C, CHR 0x0A, CHR 0x0D, CHR 0x09, CHR 0x0C, CHR 0x08}")
  case True
  then show ?thesis by (auto simp: unesc_char_def esc_char_def)
next
  case False
  show ?thesis
  proof (cases "32 \<le> (of_char c :: nat) \<and> (of_char c :: nat) \<le> 126")
    case True
    with False show ?thesis by (simp add: unesc_char_def esc_char_def)
  next
    case range: False
    with False have "esc_char c = [CHR 0x5C, CHR ''u'', CHR ''0'', CHR ''0'',
            hex_char (of_char c div 16), hex_char (of_char c mod 16)]"
      unfolding esc_char_def by (simp only: if_False if_True insert_iff empty_iff) simp
    then show ?thesis by (simp add: unesc_char_def hex_round_trip)
  qed
qed

lemma esc_char_prefix: "esc_char c @ r = esc_char d @ s \<Longrightarrow> c = d \<and> r = s"
  by (metis unesc_esc_char option.inject prod.inject)

lemma esc_char_not_quote: "esc_char c @ r \<noteq> CHR 0x22 # s"
  by (auto simp: esc_char_def)

lemma esc_string_prefix:
  "esc_string s @ CHR 0x22 # r = esc_string t @ CHR 0x22 # r' \<Longrightarrow> s = t \<and> r = r'"
proof (induction s arbitrary: t)
  case Nil
  then show ?case
  proof (cases t)
    case (Cons d ds)
    with Nil have "esc_char d @ (esc_string ds @ CHR 0x22 # r') = CHR 0x22 # r" by simp
    then show ?thesis using esc_char_not_quote by blast
  qed simp
next
  case (Cons c cs)
  show ?case
  proof (cases t)
    case Nil
    with Cons.prems have "esc_char c @ (esc_string cs @ CHR 0x22 # r) = CHR 0x22 # r'" by simp
    then show ?thesis using esc_char_not_quote by blast
  next
    case t: (Cons d ds)
    with Cons.prems
    have "esc_char c @ (esc_string cs @ CHR 0x22 # r) = esc_char d @ (esc_string ds @ CHR 0x22 # r')"
      by simp
    then have "c = d" "esc_string cs @ CHR 0x22 # r = esc_string ds @ CHR 0x22 # r'"
      using esc_char_prefix by blast+
    with Cons.IH t show ?thesis by blast
  qed
qed

lemma quote_string_prefix: "quote_string s @ r = quote_string t @ r' \<Longrightarrow> s = t \<and> r = r'"
  unfolding quote_string_def by simp (blast dest: esc_string_prefix)

section \<open>Encoding\<close>

fun json_enc :: "json \<Rightarrow> string"
  and json_enc_items :: "json list \<Rightarrow> string"
  and json_enc_members :: "(string \<times> json) list \<Rightarrow> string" where
  "json_enc JNull = ''null''"
| "json_enc (JBool b) = (if b then ''true'' else ''false'')"
| "json_enc (JInt i) = show_int i"
| "json_enc (JStr s) = quote_string s"
| "json_enc (JArr xs) = CHR ''['' # json_enc_items xs @ '']''"
| "json_enc (JObj kvs) = CHR ''{'' # json_enc_members kvs @ ''}''"
| "json_enc_items [] = []"
| "json_enc_items (x # xs) = json_enc x @ (if xs = [] then [] else '','' @ json_enc_items xs)"
| "json_enc_members [] = []"
| "json_enc_members (kv # kvs) =
     quote_string (fst kv) @ '':'' @ json_enc (snd kv) @
     (if kvs = [] then [] else '','' @ json_enc_members kvs)"

text \<open>\<open>sort_keys=True\<close>: every object, at every depth, is written in key order.\<close>

fun json_canon :: "json \<Rightarrow> json"
  and json_canon_items :: "json list \<Rightarrow> json list"
  and json_canon_members :: "(string \<times> json) list \<Rightarrow> (string \<times> json) list" where
  "json_canon JNull = JNull"
| "json_canon (JBool b) = JBool b"
| "json_canon (JInt i) = JInt i"
| "json_canon (JStr s) = JStr s"
| "json_canon (JArr xs) = JArr (json_canon_items xs)"
| "json_canon (JObj kvs) = JObj (sort_key fst (json_canon_members kvs))"
| "json_canon_items [] = []"
| "json_canon_items (x # xs) = json_canon x # json_canon_items xs"
| "json_canon_members [] = []"
| "json_canon_members (kv # kvs) = (fst kv, json_canon (snd kv)) # json_canon_members kvs"

definition json_dumps :: "json \<Rightarrow> string" where
  "json_dumps j = json_enc (json_canon j)"

lemma json_canon_members_map:
  "json_canon_members kvs = map (\<lambda>kv. (fst kv, json_canon (snd kv))) kvs"
  by (induction kvs) auto

section \<open>The encoding is injective\<close>

text \<open>
  A JSON text is self-delimiting but for numbers, which end at the first character that is
  not a digit. \<open>delimited r\<close>: what follows a number does not continue it.
\<close>

definition delimited :: "string \<Rightarrow> bool" where
  "delimited r \<longleftrightarrow> (case r of [] \<Rightarrow> True | c # _ \<Rightarrow> \<not> is_digit c)"

lemma delimited_simps [simp]:
  "delimited []" "delimited (c # cs) \<longleftrightarrow> \<not> is_digit c"
  by (simp_all add: delimited_def)

lemma takeWhile_digits:
  "list_all is_digit xs \<Longrightarrow> delimited r \<Longrightarrow> takeWhile is_digit (xs @ r) = xs"
  by (induction xs) (auto simp: delimited_def split: list.splits)

lemma show_nat_prefix:
  assumes "delimited r" "delimited s" "show_nat m @ r = show_nat n @ s"
  shows "m = n \<and> r = s"
proof -
  have "show_nat m = show_nat n"
    using takeWhile_digits [OF show_nat_digits assms(1), of m]
      takeWhile_digits [OF show_nat_digits assms(2), of n] assms(3) by simp
  with assms(3) show ?thesis by (simp add: show_nat_inj)
qed

lemma show_nat_hd: "\<exists>c cs. show_nat n = c # cs \<and> is_digit c"
  using show_nat_digits [of n] show_nat_nonempty [of n] by (cases "show_nat n") auto

lemma not_digit [simp]:
  "\<not> is_digit CHR ''-''" "\<not> is_digit CHR '',''" "\<not> is_digit CHR '']''" "\<not> is_digit CHR ''}''"
  "\<not> is_digit CHR 0x22" "\<not> is_digit CHR ''n''" "\<not> is_digit CHR ''t''" "\<not> is_digit CHR ''f''"
  "\<not> is_digit CHR ''[''" "\<not> is_digit CHR ''{''"
  by (simp_all add: is_digit_def)

lemma show_int_prefix:
  assumes "delimited r" "delimited s" "show_int i @ r = show_int j @ s"
  shows "i = j \<and> r = s"
proof -
  obtain c cs where ci: "show_nat (nat i) = c # cs" "is_digit c" using show_nat_hd by blast
  obtain d ds where dj: "show_nat (nat j) = d # ds" "is_digit d" using show_nat_hd by blast
  have mixed: "(i < 0) = (j < 0)"
    using assms(3) ci dj by (auto simp: show_int_def split: if_splits)
  show ?thesis
  proof (cases "i < 0")
    case True
    with mixed assms(3) have "show_nat (nat (- i)) @ r = show_nat (nat (- j)) @ s"
      by (simp add: show_int_def)
    then have "nat (- i) = nat (- j) \<and> r = s" by (rule show_nat_prefix [OF assms(1,2)])
    with True mixed show ?thesis by auto
  next
    case False
    with mixed assms(3) have "show_nat (nat i) @ r = show_nat (nat j) @ s"
      by (simp add: show_int_def)
    then have "nat i = nat j \<and> r = s" by (rule show_nat_prefix [OF assms(1,2)])
    with False mixed show ?thesis by auto
  qed
qed

text \<open>The first character of a JSON text tells the kind of its value.\<close>

definition first_kind :: "char \<Rightarrow> nat" where
  "first_kind c =
     (if c = CHR ''n'' then 0 else if c = CHR ''t'' \<or> c = CHR ''f'' then 1
      else if c = CHR 0x22 then 3 else if c = CHR ''['' then 4 else if c = CHR ''{'' then 5 else 2)"

fun json_kind :: "json \<Rightarrow> nat" where
  "json_kind JNull = 0"
| "json_kind (JBool b) = 1"
| "json_kind (JInt i) = 2"
| "json_kind (JStr s) = 3"
| "json_kind (JArr xs) = 4"
| "json_kind (JObj kvs) = 5"

lemma json_enc_first: "\<exists>c cs. json_enc j = c # cs \<and> first_kind c = json_kind j"
proof (cases j)
  case (JInt i)
  obtain c cs where "show_nat (nat i) = c # cs" "is_digit c" using show_nat_hd by blast
  then have "\<not> i < 0 \<Longrightarrow> first_kind c = 2" by (auto simp: first_kind_def)
  with \<open>show_nat (nat i) = c # cs\<close> JInt show ?thesis
    by (auto simp: show_int_def first_kind_def)
qed (auto simp: first_kind_def quote_string_def)

lemma json_enc_same_kind: "json_enc a @ r = json_enc b @ s \<Longrightarrow> json_kind a = json_kind b"
  using json_enc_first [of a] json_enc_first [of b] by auto

lemma json_enc_nonempty: "json_enc j \<noteq> []"
  using json_enc_first [of j] by auto

lemma json_enc_items_first: "xs \<noteq> [] \<Longrightarrow> \<exists>c cs. json_enc_items xs @ r = c # cs \<and> c \<noteq> CHR '']''"
proof (cases xs)
  case (Cons x ys)
  obtain c cs where "json_enc x = c # cs" "first_kind c = json_kind x"
    using json_enc_first by blast
  have "c \<noteq> CHR '']''"
  proof
    assume "c = CHR '']''"
    with \<open>first_kind c = json_kind x\<close> obtain i where "x = JInt i"
      by (cases x) (auto simp: first_kind_def)
    with \<open>json_enc x = c # cs\<close> \<open>c = CHR '']''\<close> show_nat_hd [of "nat i"] show False
      by (auto simp: show_int_def split: if_splits)
  qed
  with \<open>json_enc x = c # cs\<close> Cons show ?thesis by auto
qed simp

lemma json_enc_prefix:
  "delimited r \<Longrightarrow> delimited s \<Longrightarrow> json_enc a @ r = json_enc b @ s \<Longrightarrow> a = b \<and> r = s"
  and json_enc_items_prefix:
  "json_enc_items xs @ CHR '']'' # r = json_enc_items ys @ CHR '']'' # s \<Longrightarrow> xs = ys \<and> r = s"
  and json_enc_members_prefix:
  "json_enc_members kvs @ CHR ''}'' # r = json_enc_members lws @ CHR ''}'' # s \<Longrightarrow> kvs = lws \<and> r = s"
proof (induction a and xs and kvs arbitrary: b r s and ys r s and lws r s
    rule: json_enc_json_enc_items_json_enc_members.induct)
  case 1
  then show ?case using json_enc_same_kind [OF 1(3)] by (cases b) auto
next
  case (2 x)
  then show ?case using json_enc_same_kind [OF 2(3)] by (cases b) (auto split: if_splits)
next
  case (3 i)
  then show ?case using json_enc_same_kind [OF 3(3)] show_int_prefix [OF 3(1,2)] by (cases b) auto
next
  case (4 t)
  then show ?case using json_enc_same_kind [OF 4(3)] by (cases b) (auto dest: quote_string_prefix)
next
  case (5 xs)
  from json_enc_same_kind [OF "5.prems"(3)] obtain ys where "b = JArr ys" by (cases b) auto
  with "5.prems"(3) "5.IH" [of r ys s] show ?case by simp
next
  case (6 kvs)
  from json_enc_same_kind [OF "6.prems"(3)] obtain lws where "b = JObj lws" by (cases b) auto
  with "6.prems"(3) "6.IH" [of r lws s] show ?case by simp
next
  case 7
  then show ?case using json_enc_items_first [of ys "CHR '']'' # s"] by (cases "ys = []") auto
next
  case (8 x xs)
  show ?case
  proof (cases ys)
    case Nil
    with "8.prems" show ?thesis using json_enc_items_first [of "x # xs" "CHR '']'' # r"] by auto
  next
    case (Cons y zs)
    have eq: "json_enc x @ ((if xs = [] then [] else '','' @ json_enc_items xs) @ CHR '']'' # r)
        = json_enc y @ ((if zs = [] then [] else '','' @ json_enc_items zs) @ CHR '']'' # s)"
      using "8.prems" Cons by simp
    have xy: "x = y \<and> (if xs = [] then [] else '','' @ json_enc_items xs) @ CHR '']'' # r
        = (if zs = [] then [] else '','' @ json_enc_items zs) @ CHR '']'' # s"
      by (rule "8.IH"(1) [OF _ _ eq]) auto
    then show ?thesis using "8.IH"(2) [of r zs s] Cons by (auto split: if_splits)
  qed
next
  case 9
  then show ?case by (cases lws) (auto simp: quote_string_def)
next
  case (10 kv kvs)
  show ?case
  proof (cases lws)
    case Nil
    with "10.prems" show ?thesis by (auto simp: quote_string_def)
  next
    case (Cons lw mws)
    let ?tl = "\<lambda>kvs. if kvs = [] then [] else '','' @ json_enc_members kvs"
    have "quote_string (fst kv) @ ('':'' @ json_enc (snd kv) @ ?tl kvs @ CHR ''}'' # r)
        = quote_string (fst lw) @ ('':'' @ json_enc (snd lw) @ ?tl mws @ CHR ''}'' # s)"
      using "10.prems" Cons by simp
    then have key: "fst kv = fst lw"
      and eq: "json_enc (snd kv) @ (?tl kvs @ CHR ''}'' # r) = json_enc (snd lw) @ (?tl mws @ CHR ''}'' # s)"
      by (auto dest: quote_string_prefix)
    have val: "snd kv = snd lw \<and> ?tl kvs @ CHR ''}'' # r = ?tl mws @ CHR ''}'' # s"
      by (rule "10.IH"(1) [OF _ _ eq]) auto
    then show ?thesis using "10.IH"(2) [of r mws s] key Cons
      by (auto split: if_splits intro: prod_eqI)
  qed
qed

lemma json_enc_inj: "json_enc a = json_enc b \<Longrightarrow> a = b"
  using json_enc_prefix [of "[]" "[]" a b] by simp

text \<open>
  Two values with the same text are equal up to the order of the keys of their objects.
\<close>

lemma json_dumps_inj: "json_dumps a = json_dumps b \<longleftrightarrow> json_canon a = json_canon b"
  unfolding json_dumps_def using json_enc_inj by auto

text \<open>Reading a member of an object back from its canonical form.\<close>

lemma map_of_canon_members: "map_of (json_canon_members kvs) k = map_option json_canon (map_of kvs k)"
  by (induction kvs) auto

lemma map_of_sort_key: "distinct (map fst kvs) \<Longrightarrow> map_of (sort_key fst kvs) = map_of kvs"
  by (rule map_of_eqI) (auto intro!: map_of_eqI simp: distinct_map)

lemma json_canon_lookup:
  assumes "json_canon (JObj kvs) = json_canon (JObj lws)"
    and "distinct (map fst kvs)" "distinct (map fst lws)"
  shows "map_option json_canon (map_of kvs k) = map_option json_canon (map_of lws k)"
proof -
  have "map_of (sort_key fst (json_canon_members xs)) = map_of (json_canon_members xs)"
    if "distinct (map fst xs)" for xs :: "(string \<times> json) list"
    by (rule map_of_sort_key) (use that in \<open>simp add: json_canon_members_map comp_def\<close>)
  with assms have "map_of (json_canon_members kvs) = map_of (json_canon_members lws)"
    by (metis json.inject(5) json_canon.simps(6))
  then show ?thesis by (metis map_of_canon_members)
qed

end
