(* ===== verification/Scope_Context.thy ===== *)
theory Scope_Context
  imports Json_Encode
begin

text \<open>
  \<open>pyscoped/exceptions.py\<close>, \<open>pyscoped/context.py\<close>, \<open>pyscoped/integration.py\<close> and
  \<open>pyscoped/middleware.py\<close>: identities, the attributed scope context, the context variable
  that holds it, the \<open>scope\<close> manager, the \<open>in_scope\<close> decorator and the request middleware.

  The context variable \<open>_current\<close> is a cell of type \<open>scope_ctx option\<close>. Code that runs with
  access to it is a function from the cell to its outcome and the cell it leaves. Resolver,
  view and stream source are the application's own code: they are parameters.
\<close>

section \<open>Exceptions\<close>

datatype py_error =
    MissingContext
  | ScopeViolation
  | UnsupportedOperation
  | HistoryConflict
  | ImproperlyConfigured
  | ValueError
  | TypeError
  | RuntimeError
  | ValidationError
  | IntegrityError
  | FieldDoesNotExist
  | AppError string

section \<open>Identities\<close>

text \<open>
  What \<open>identity\<close> accepts: a plain value, or an object with a \<open>pk\<close> attribute and possibly an
  \<open>is_authenticated\<close> attribute.
\<close>

datatype subject = Val pyval | Obj (obj_pk: pyval) (obj_authenticated: "bool option")

definition is_space :: "char \<Rightarrow> bool" where
  "is_space c \<longleftrightarrow>
     (let n = (of_char c :: nat)
      in (9 \<le> n \<and> n \<le> 13) \<or> (28 \<le> n \<and> n \<le> 32) \<or> n = 133 \<or> n = 160)"

fun identity_value :: "pyval \<Rightarrow> py_error + string" where
  "identity_value PNone = Inl ValueError"
| "identity_value (PBool b) = Inl ValueError"
| "identity_value v =
     (let result = py_str v
      in if list_all is_space result \<or> length result > 255 then Inl ValueError
         else Inr result)"

fun identity :: "subject \<Rightarrow> py_error + string" where
  "identity (Obj pk auth) = (if auth = Some False then Inl ValueError else identity_value pk)"
| "identity (Val v) = identity_value v"

definition valid_identity :: "string \<Rightarrow> bool" where
  "valid_identity s \<longleftrightarrow> \<not> list_all is_space s \<and> length s \<le> 255"

lemma identity_value_valid: "identity_value v = Inr s \<Longrightarrow> valid_identity s \<and> s = py_str v"
  by (cases v) (auto simp: valid_identity_def Let_def split: if_splits)

lemma identity_valid: "identity x = Inr s \<Longrightarrow> valid_identity s"
  by (cases x) (auto dest: identity_value_valid split: if_splits)

lemma identity_str: "identity_value (PStr s) = (if valid_identity s then Inr s else Inl ValueError)"
  by (auto simp: valid_identity_def Let_def)

lemma valid_identity_nonempty: "valid_identity s \<Longrightarrow> s \<noteq> []"
  by (auto simp: valid_identity_def)

section \<open>Contexts\<close>

text \<open>
  A \<open>ScopeContext\<close> is an object: \<open>ctx_oid\<close> is its identity, which Python's \<open>is\<close> compares.
\<close>

record scope_ctx =
  ctx_oid :: nat
  ctx_actor :: string
  ctx_scope :: string
  ctx_reason :: string
  ctx_request_id :: string

fun py_string :: "pyval \<Rightarrow> py_error + string" where
  "py_string (PStr s) = Inr s"
| "py_string _ = Inl ValueError"

definition scope_context :: "nat \<Rightarrow> subject \<Rightarrow> subject \<Rightarrow> pyval \<Rightarrow> pyval \<Rightarrow> py_error + scope_ctx" where
  "scope_context oid actor scope reason request_id =
     bindE (identity actor) (\<lambda>a.
     bindE (identity scope) (\<lambda>s.
     bindE (py_string reason) (\<lambda>r.
     bindE (py_string request_id) (\<lambda>q.
       if length q > 255 then Inl ValueError
       else Inr \<lparr>ctx_oid = oid, ctx_actor = a, ctx_scope = s, ctx_reason = r, ctx_request_id = q\<rparr>))))"

definition valid_context :: "scope_ctx \<Rightarrow> bool" where
  "valid_context c \<longleftrightarrow>
     valid_identity (ctx_actor c) \<and> valid_identity (ctx_scope c) \<and> length (ctx_request_id c) \<le> 255"

lemma scope_context_valid: "scope_context oid a s r q = Inr c \<Longrightarrow> valid_context c \<and> ctx_oid c = oid"
  by (auto simp: scope_context_def valid_context_def result_simps identity_valid split: if_splits)

type_synonym cell = "scope_ctx option"
type_synonym 'a comp = "cell \<Rightarrow> (py_error + 'a) \<times> cell"

definition current_context :: "bool \<Rightarrow> cell \<Rightarrow> py_error + scope_ctx option" where
  "current_context required c = (if c = None \<and> required then Inl MissingContext else Inr c)"

text \<open>\<open>current_context()\<close> with its default \<open>required=True\<close>.\<close>

definition require_context :: "cell \<Rightarrow> py_error + scope_ctx" where
  "require_context c = (case c of None \<Rightarrow> Inl MissingContext | Some ctx \<Rightarrow> Inr ctx)"

lemma require_context_Inr [result_simps]: "require_context c = Inr ctx \<longleftrightarrow> c = Some ctx"
  by (auto simp: require_context_def split: option.splits)

lemma require_context_current:
  "current_context True c = bindE (require_context c) (\<lambda>ctx. Inr (Some ctx))"
  by (auto simp: current_context_def require_context_def split: option.splits)

text \<open>
  \<open>_bind\<close>: run a block with the cell set, and put the previous value back whatever happens.
\<close>

definition bind_context :: "cell \<Rightarrow> 'a comp \<Rightarrow> 'a comp" where
  "bind_context ctx body c = (fst (body ctx), c)"

section \<open>The scope manager\<close>

record scope_manager =
  sm_context :: scope_ctx
  sm_token :: "cell option"

definition scope_new :: "nat \<Rightarrow> subject \<Rightarrow> subject \<Rightarrow> pyval \<Rightarrow> pyval \<Rightarrow> py_error + scope_manager" where
  "scope_new oid actor scope reason request_id =
     bindE (scope_context oid actor scope reason request_id) (\<lambda>ctx.
       Inr \<lparr>sm_context = ctx, sm_token = None\<rparr>)"

text \<open>\<open>type(self)(**context.__dict__)\<close>: a fresh manager for the same four values.\<close>

definition scope_of_context :: "nat \<Rightarrow> scope_ctx \<Rightarrow> py_error + scope_manager" where
  "scope_of_context oid ctx =
     scope_new oid (Val (PStr (ctx_actor ctx))) (Val (PStr (ctx_scope ctx)))
       (PStr (ctx_reason ctx)) (PStr (ctx_request_id ctx))"

definition recreate_cm :: "nat \<Rightarrow> scope_manager \<Rightarrow> py_error + scope_manager" where
  "recreate_cm oid m = scope_of_context oid (sm_context m)"

definition scope_enter :: "scope_manager \<Rightarrow> cell \<Rightarrow> py_error + scope_manager \<times> cell" where
  "scope_enter m c =
     (if sm_token m \<noteq> None then Inl RuntimeError
      else Inr (m\<lparr>sm_token := Some c\<rparr>, Some (sm_context m)))"

definition scope_exit :: "scope_manager \<Rightarrow> cell \<Rightarrow> py_error + scope_manager \<times> cell" where
  "scope_exit m c =
     (case sm_token m of
        None \<Rightarrow> Inl TypeError
      | Some old \<Rightarrow> Inr (m\<lparr>sm_token := None\<rparr>, old))"

text \<open>The \<open>with\<close> statement: enter, run the block, exit even when the block raised.\<close>

definition with_scope :: "scope_manager \<Rightarrow> 'a comp \<Rightarrow> cell \<Rightarrow> (py_error + 'a) \<times> scope_manager \<times> cell" where
  "with_scope m body c =
     (case scope_enter m c of
        Inl e \<Rightarrow> (Inl e, m, c)
      | Inr (m1, c1) \<Rightarrow>
          (let (r, c2) = body c1
           in case scope_exit m1 c2 of
                Inl e \<Rightarrow> (Inl e, m1, c2)
              | Inr (m2, c3) \<Rightarrow> (r, m2, c3)))"

lemma with_scope_eq:
  "with_scope m body c =
     (if sm_token m = None then (fst (body (Some (sm_context m))), m, c)
      else (Inl RuntimeError, m, c))"
  by (auto simp: with_scope_def scope_enter_def scope_exit_def split_beta)

datatype fun_kind = PlainFunction | CoroutineFunction | GeneratorFunction | AsyncGenFunction

definition is_generator_kind :: "fun_kind \<Rightarrow> bool" where
  "is_generator_kind k \<longleftrightarrow> k = GeneratorFunction \<or> k = AsyncGenFunction"

text \<open>
  \<open>scope(...)\<close> used as a decorator. Each call of the decorated function enters a manager of
  its own (\<open>oid\<close> is the identity of that call's context).
\<close>

definition scope_decorate ::
  "scope_manager \<Rightarrow> fun_kind \<Rightarrow> 'a comp \<Rightarrow> py_error + (nat \<Rightarrow> 'a comp)" where
  "scope_decorate m kind body =
     (if is_generator_kind kind then Inl UnsupportedOperation
      else Inr (\<lambda>oid c.
        case recreate_cm oid m of
          Inl e \<Rightarrow> (Inl e, c)
        | Inr m' \<Rightarrow> (let (r, _, c') = with_scope m' body c in (r, c'))))"

section \<open>Context resolvers\<close>

text \<open>What an application's resolver returned.\<close>

datatype resolved = RNone | ROther | RContext scope_ctx

fun validate_context :: "resolved \<Rightarrow> py_error + scope_ctx" where
  "validate_context (RContext ctx) = Inr ctx"
| "validate_context _ = Inl ImproperlyConfigured"

definition in_scope :: "resolved comp \<Rightarrow> fun_kind \<Rightarrow> 'a comp \<Rightarrow> py_error + (nat \<Rightarrow> 'a comp)" where
  "in_scope resolver kind body =
     (if is_generator_kind kind then Inl UnsupportedOperation
      else Inr (\<lambda>oid c.
        case resolver c of
          (Inl e, c1) \<Rightarrow> (Inl e, c1)
        | (Inr x, c1) \<Rightarrow>
            (case bindE (validate_context x) (scope_of_context oid) of
               Inl e \<Rightarrow> (Inl e, c1)
             | Inr m \<Rightarrow> (let (r, _, c2) = with_scope m body c1 in (r, c2)))))"

section \<open>Request middleware\<close>

text \<open>
  A streaming response's content is an iterator: \<open>src_next\<close> computes the next chunk from the
  iterator's state (\<open>None\<close> is \<open>StopIteration\<close>), \<open>src_close\<close> is its \<open>close\<close> method.
\<close>

record ('s, 'c) source =
  src_next :: "'s \<Rightarrow> cell \<Rightarrow> (py_error + 'c option) \<times> 's \<times> cell"
  src_close :: "'s \<Rightarrow> cell \<Rightarrow> (py_error + unit) \<times> cell"

datatype ('s, 'c) response =
    Whole 'c
  | Streaming "('s, 'c) source" 's
  | Rebound "('s, 'c) source" 's cell

text \<open>
  \<open>_stream\<close>: a streaming response is returned with its content wrapped in the \<open>chunks\<close>
  generator, which remembers the context; any other response unchanged.
\<close>

fun mw_stream :: "('s, 'c) response \<Rightarrow> cell \<Rightarrow> ('s, 'c) response" where
  "mw_stream (Streaming src s) ctx = Rebound src s ctx"
| "mw_stream r ctx = r"

text \<open>The state of a \<open>chunks\<close> generator: suspended at its \<open>yield\<close>, or finished.\<close>

datatype 's chunks = Running 's | Finished

text \<open>
  One \<open>next()\<close> of the generator. The source runs with the bound context, the caller's cell
  is put back before the chunk is yielded; at the end, and when the source raises, the
  source is closed with the context bound again.
\<close>

definition chunks_next ::
  "('s, 'c) source \<Rightarrow> cell \<Rightarrow> 's chunks \<Rightarrow> cell \<Rightarrow> (py_error + 'c option) \<times> 's chunks \<times> cell" where
  "chunks_next src ctx g c =
     (case g of
        Finished \<Rightarrow> (Inr None, Finished, c)
      | Running s \<Rightarrow>
          (let (r, s', _) = src_next src s ctx
           in case r of
                Inr (Some chunk) \<Rightarrow> (Inr (Some chunk), Running s', c)
              | Inr None \<Rightarrow>
                  (case bind_context ctx (src_close src s') c of
                     (Inl e, c') \<Rightarrow> (Inl e, Finished, c')
                   | (Inr _, c') \<Rightarrow> (Inr None, Finished, c'))
              | Inl e \<Rightarrow>
                  (case bind_context ctx (src_close src s') c of
                     (Inl e', c') \<Rightarrow> (Inl e', Finished, c')
                   | (Inr _, c') \<Rightarrow> (Inl e, Finished, c'))))"

text \<open>
  \<open>__call__\<close> (and \<open>__acall__\<close>, which differs only in its awaits). \<open>get_response\<close> also sees
  the request's \<open>pyscoped_context\<close> attribute.
\<close>

definition mw_call ::
  "('r \<Rightarrow> resolved comp) \<Rightarrow> ('r \<Rightarrow> scope_ctx option \<Rightarrow> ('s, 'c) response comp) \<Rightarrow> 'r \<Rightarrow> ('s, 'c) response comp" where
  "mw_call resolver get_response request c =
     (case resolver request None of
        (Inl e, _) \<Rightarrow> (Inl e, c)
      | (Inr RNone, c1) \<Rightarrow>
          (case get_response request None c1 of
             (Inl e, _) \<Rightarrow> (Inl e, c)
           | (Inr resp, _) \<Rightarrow> (Inr (mw_stream resp None), c))
      | (Inr x, c1) \<Rightarrow>
          (case validate_context x of
             Inl e \<Rightarrow> (Inl e, c)
           | Inr ctx \<Rightarrow>
               (case bind_context (Some ctx) (get_response request (Some ctx)) c1 of
                  (Inl e, _) \<Rightarrow> (Inl e, c)
                | (Inr resp, _) \<Rightarrow> (Inr (mw_stream resp (Some ctx)), c))))"

text \<open>Construction of the middleware: the configured resolver must be callable.\<close>

definition mw_init :: "bool \<Rightarrow> py_error + unit" where
  "mw_init resolver_callable = (if resolver_callable then Inr () else Inl ImproperlyConfigured)"

section \<open>Facts about contexts\<close>

lemma scope_of_context_valid:
  assumes "valid_context ctx"
  shows "scope_of_context oid ctx = Inr \<lparr>sm_context = ctx\<lparr>ctx_oid := oid\<rparr>, sm_token = None\<rparr>"
  using assms by (simp add: scope_of_context_def scope_new_def scope_context_def identity_str valid_context_def
      del: identity_value.simps)

lemma chunks_next_cell: "snd (snd (chunks_next src ctx g c)) = c"
  by (auto simp: chunks_next_def bind_context_def split: chunks.splits sum.splits option.splits prod.splits)

lemma chunks_next_outer: "fst (chunks_next src ctx g c) = fst (chunks_next src ctx g c')"
  by (auto simp: chunks_next_def bind_context_def split: chunks.splits sum.splits option.splits prod.splits)

lemma chunks_next_gen: "fst (snd (chunks_next src ctx g c)) = fst (snd (chunks_next src ctx g c'))"
  by (auto simp: chunks_next_def bind_context_def split: chunks.splits sum.splits option.splits prod.splits)

lemma mw_call_cell: "snd (mw_call resolver view req c) = c"
  by (auto simp: mw_call_def bind_context_def split: sum.splits resolved.splits prod.splits)

lemma mw_call_outer: "fst (mw_call resolver view req c) = fst (mw_call resolver view req c')"
  by (auto simp: mw_call_def bind_context_def split: sum.splits resolved.splits prod.splits)

end
