(* ===== verification/Hash_Chain.thy ===== *)
theory Hash_Chain
  imports Scoped_Prelude
begin

text \<open>
  The interface shared by the two audit logs of the repository (\<open>pyscoped/audit.py\<close> and
  \<open>legacy/v1/scoped/audit\<close>): records that carry the digest of their predecessor and a digest
  of their own content. The locale \<open>hash_chain\<close> asks only that the digested content
  determines the predecessor's digest; its theorem is that two chains of the same length
  with the same final digest have the same content, or exhibit a collision of the hash.
  No assumption is made about the hash function.
\<close>

fun linked :: "('e \<Rightarrow> string) \<Rightarrow> ('e \<Rightarrow> string) \<Rightarrow> ('e \<Rightarrow> string) \<Rightarrow> string \<Rightarrow> 'e list \<Rightarrow> bool" where
  "linked prev_of dig_of expected p [] = True"
| "linked prev_of dig_of expected p (e # es) =
     (prev_of e = p \<and> dig_of e = expected e \<and> linked prev_of dig_of expected (dig_of e) es)"

fun last_digest :: "('e \<Rightarrow> string) \<Rightarrow> string \<Rightarrow> 'e list \<Rightarrow> string" where
  "last_digest dig_of p [] = p"
| "last_digest dig_of p (e # es) = last_digest dig_of (dig_of e) es"

lemma last_digest_append [simp]: "last_digest d p (es @ fs) = last_digest d (last_digest d p es) fs"
  by (induction es arbitrary: p) auto

lemma linked_append [simp]:
  "linked pr d x p (es @ fs) \<longleftrightarrow> linked pr d x p es \<and> linked pr d x (last_digest d p es) fs"
  by (induction es arbitrary: p) auto

lemma linked_expected: "linked pr d x p es \<Longrightarrow> e \<in> set es \<Longrightarrow> d e = x e"
  by (induction es arbitrary: p) auto

lemma last_digest_last: "es \<noteq> [] \<Longrightarrow> last_digest d p es = d (last es)"
  by (induction es arbitrary: p) auto

locale hash_chain =
  fixes prev_of :: "'e \<Rightarrow> string"
    and dig_of :: "'e \<Rightarrow> string"
    and body :: "'e \<Rightarrow> 'b"
    and H :: "'b \<Rightarrow> string"
    and ok :: "'e \<Rightarrow> bool"
  assumes body_prev: "ok e \<Longrightarrow> ok f \<Longrightarrow> body e = body f \<Longrightarrow> prev_of e = prev_of f"
begin

lemma linked_agree:
  assumes "linked prev_of dig_of (\<lambda>e. H (body e)) p es" "linked prev_of dig_of (\<lambda>e. H (body e)) q fs"
    and "\<forall>e \<in> set es. ok e" "\<forall>f \<in> set fs. ok f"
    and "length es = length fs" "es = [] \<or> last_digest dig_of p es = last_digest dig_of q fs"
  shows "map body es = map body fs
    \<or> (\<exists>e \<in> set es. \<exists>f \<in> set fs. body e \<noteq> body f \<and> H (body e) = H (body f))"
  using assms
proof (induction es arbitrary: fs rule: rev_induct)
  case Nil
  then show ?case by simp
next
  case (snoc e es)
  from snoc.prems(5) obtain fs' f where fs: "fs = fs' @ [f]"
    by (metis append_Nil2 append_butlast_last_id length_0_conv snoc_eq_iff_butlast)
  have same: "H (body e) = H (body f)" using snoc.prems(1,2,6) fs by simp
  show ?case
  proof (cases "body e = body f")
    case False
    with same fs show ?thesis by auto
  next
    case True
    then have "prev_of e = prev_of f" using body_prev snoc.prems(3,4) fs by simp
    then have "last_digest dig_of p es = last_digest dig_of q fs'"
      using snoc.prems(1,2) fs by simp
    then have "map body es = map body fs'
      \<or> (\<exists>e \<in> set es. \<exists>f \<in> set fs'. body e \<noteq> body f \<and> H (body e) = H (body f))"
      using snoc.prems fs by (intro snoc.IH) auto
    with True fs show ?thesis by auto
  qed
qed

lemma linked_tamper_evident:
  assumes "linked prev_of dig_of (\<lambda>e. H (body e)) p es" "linked prev_of dig_of (\<lambda>e. H (body e)) p fs"
    and "\<forall>e \<in> set es. ok e" "\<forall>f \<in> set fs. ok f"
    and "length es = length fs" "last_digest dig_of p es = last_digest dig_of p fs"
    and "\<And>e f. e \<in> set es \<Longrightarrow> f \<in> set fs \<Longrightarrow> H (body e) = H (body f) \<Longrightarrow> body e = body f"
  shows "map body es = map body fs"
  using linked_agree [OF assms(1-5)] assms(6,7) by blast

end

end
