(* ===== verification/Audit_Core.thy ===== *)
theory Audit_Core
  imports Scope_Context Hash_Chain
begin

text \<open>
  \<open>pyscoped/audit.py\<close> and the two tables of \<open>pyscoped/models.py\<close>: registrations, rows,
  snapshots, the scope and relationship checks, the event digest and \<open>append_event\<close>, with
  the invariant that every history is a digest chain that ends in its resource's head.

  Django is a parameter: what a field's \<open>to_python\<close> and \<open>get_db_prep_value\<close> do, how
  \<open>get_field\<close> resolves names and what SHA-256 and the timestamp rendering return are
  functions stored in the model's metadata and in \<open>host\<close>. One database alias is modelled.
  Audit rows are addressed by their unique key (model label, object pk) instead of the
  surrogate integer key.
\<close>

section \<open>Model metadata and registrations\<close>

datatype on_delete = Cascade | Protect | Restrict | DoNothing | OtherOnDelete

record field_info =
  f_name :: string
  f_attname :: string
  f_concrete :: bool
  f_many_to_many :: bool
  f_primary_key :: bool
  f_null :: bool
  f_is_relation :: bool
  f_related_model :: string
  f_target_attname :: string
  f_on_delete :: on_delete
  f_to_python :: "pyval \<Rightarrow> pyval option"
  f_target_to_python :: "pyval \<Rightarrow> pyval option"
  f_prep :: "pyval \<Rightarrow> pyval"

record manager_info =
  mg_name :: string
  mg_scoped_manager :: bool
  mg_scoped_queryset :: bool

record related_info =
  rel_model :: string
  rel_accessor :: string
  rel_one_to_one :: bool
  rel_hidden :: bool

record model_meta =
  m_label :: string
  m_fields :: "field_info list"
  m_get_field :: "string \<Rightarrow> field_info option"
  m_pk_name :: string
  m_pk_attname :: string
  m_abstract :: bool
  m_proxy :: bool
  m_parents :: bool
  m_composite_pk :: bool
  m_managers :: "manager_info list"
  m_any_many_to_many :: bool
  m_related_objects :: "related_info list"

datatype mode = AuditMode | EnforceMode

record registration =
  r_model :: model_meta
  r_scope_field :: string
  r_fields :: "string list"
  r_mode :: mode

text \<open>\<open>_registry\<close>: a dict from models (here their labels) to registrations, in insertion order.\<close>

type_synonym registry = "(string \<times> registration) list"

definition get_field :: "model_meta \<Rightarrow> string \<Rightarrow> py_error + field_info" where
  "get_field m name = (case m_get_field m name of None \<Rightarrow> Inl FieldDoesNotExist | Some f \<Rightarrow> Inr f)"

definition scope_attname :: "registration \<Rightarrow> py_error + string" where
  "scope_attname cfg = bindE (get_field (r_model cfg) (r_scope_field cfg)) (\<lambda>f. Inr (f_attname f))"

definition registered_models :: "registry \<Rightarrow> registration list" where
  "registered_models reg = map snd reg"

definition lookup_registration :: "registry \<Rightarrow> model_meta \<Rightarrow> py_error + registration" where
  "lookup_registration reg m =
     (case map_of reg (m_label m) of None \<Rightarrow> Inl ImproperlyConfigured | Some cfg \<Rightarrow> Inr cfg)"

section \<open>Rows and the database\<close>

text \<open>A model instance or a row: its columns by attribute name.\<close>

type_synonym row = "string \<Rightarrow> pyval"

definition row_pk :: "model_meta \<Rightarrow> row \<Rightarrow> pyval" where
  "row_pk m r = r (m_pk_attname m)"

type_synonym res_key = "string \<times> string"

record resource =
  res_scope :: string
  res_revision :: nat
  res_digest :: string

record event =
  ev_key :: res_key
  ev_revision :: nat
  ev_scope :: string
  ev_actor :: string
  ev_action :: string
  ev_before :: json
  ev_after :: json
  ev_occurred_at :: int
  ev_reason :: string
  ev_request_id :: string
  ev_previous_digest :: string
  ev_digest :: string

record db =
  db_rows :: "string \<Rightarrow> row list"
  db_resources :: "res_key \<Rightarrow> resource option"
  db_events :: "event list"

record host =
  h_sha256 :: "string \<Rightarrow> string"
  h_iso :: "int \<Rightarrow> string"

definition set_rows :: "string \<Rightarrow> row list \<Rightarrow> db \<Rightarrow> db" where
  "set_rows label rs d = d\<lparr>db_rows := (db_rows d)(label := rs)\<rparr>"

lemma set_rows_audit [frame_simps, simp]:
  "db_resources (set_rows l rs d) = db_resources d" "db_events (set_rows l rs d) = db_events d"
  "db_rows (set_rows l rs d) = (db_rows d)(l := rs)"
  by (simp_all add: set_rows_def)

definition load_row :: "model_meta \<Rightarrow> pyval \<Rightarrow> db \<Rightarrow> row option" where
  "load_row m pk d =
     (if pk = PNone then None else find (\<lambda>r. row_pk m r = pk) (db_rows d (m_label m)))"

text \<open>\<open>snapshot\<close>: the allowlisted columns, rendered as JSON; \<open>None\<close> (here \<open>JNull\<close>) for no row.\<close>

definition snapshot :: "registration \<Rightarrow> row \<Rightarrow> py_error + json" where
  "snapshot cfg r =
     bindE (mapE (\<lambda>name. bindE (get_field (r_model cfg) name) (\<lambda>f. Inr (name, plain (r (f_attname f)))))
       (remdups (r_fields cfg))) (\<lambda>kvs. Inr (json_canon (JObj kvs)))"

definition snapshot_opt :: "registration \<Rightarrow> row option \<Rightarrow> py_error + json" where
  "snapshot_opt cfg ro = (case ro of None \<Rightarrow> Inr JNull | Some r \<Rightarrow> snapshot cfg r)"

section \<open>Scope checks\<close>

definition to_python :: "(pyval \<Rightarrow> pyval option) \<Rightarrow> string \<Rightarrow> py_error + pyval" where
  "to_python conv s = (case conv (PStr s) of None \<Rightarrow> Inl ValidationError | Some v \<Rightarrow> Inr v)"

definition scope_conv :: "field_info \<Rightarrow> pyval \<Rightarrow> pyval option" where
  "scope_conv f = (if f_is_relation f then f_target_to_python f else f_to_python f)"

definition check_scope :: "registration \<Rightarrow> row \<Rightarrow> scope_ctx \<Rightarrow> py_error + string" where
  "check_scope cfg inst ctx =
     bindE (scope_attname cfg) (\<lambda>a.
     bindE (identity_value (inst a)) (\<lambda>actual.
     bindE (get_field (r_model cfg) (r_scope_field cfg)) (\<lambda>f.
       if r_mode cfg \<noteq> EnforceMode then Inr actual
       else bindE (to_python (scope_conv f) actual) (\<lambda>x.
            bindE (to_python (scope_conv f) (ctx_scope ctx)) (\<lambda>y.
              if x \<noteq> y then Inl ScopeViolation else Inr actual)))))"

definition protected_models :: "registry \<Rightarrow> (string \<times> registration) list" where
  "protected_models reg = filter (\<lambda>(l, cfg). r_mode cfg = EnforceMode) reg"

definition check_relation ::
  "registry \<Rightarrow> row \<Rightarrow> scope_ctx \<Rightarrow> db \<Rightarrow> field_info \<Rightarrow> py_error + unit" where
  "check_relation reg inst ctx d f =
     (if \<not> f_is_relation f then Inr ()
      else case map_of (protected_models reg) (f_related_model f) of
             None \<Rightarrow> Inr ()
           | Some target \<Rightarrow>
               (let v = inst (f_attname f)
                in if v = PNone then Inr ()
                   else case find (\<lambda>r. r (f_target_attname f) = v) (db_rows d (f_related_model f)) of
                          None \<Rightarrow> Inr ()
                        | Some related \<Rightarrow> bindE (check_scope target related ctx) (\<lambda>_. Inr ())))"

definition check_relations ::
  "registry \<Rightarrow> registration \<Rightarrow> row \<Rightarrow> scope_ctx \<Rightarrow> db \<Rightarrow> py_error + unit" where
  "check_relations reg cfg inst ctx d =
     (if r_mode cfg \<noteq> EnforceMode then Inr ()
      else allE (check_relation reg inst ctx d) (m_fields (r_model cfg)))"

section \<open>Events\<close>

definition event_payload :: "host \<Rightarrow> event \<Rightarrow> json" where
  "event_payload h e = JObj
     [(''revision'', JInt (int (ev_revision e))),
      (''scope'', JStr (ev_scope e)),
      (''actor'', JStr (ev_actor e)),
      (''action'', JStr (ev_action e)),
      (''before'', ev_before e),
      (''after'', ev_after e),
      (''occurred_at'', JStr (h_iso h (ev_occurred_at e))),
      (''reason'', JStr (ev_reason e)),
      (''request_id'', JStr (ev_request_id e)),
      (''previous_digest'', JStr (ev_previous_digest e)),
      (''model_label'', JStr (fst (ev_key e))),
      (''object_pk'', JStr (snd (ev_key e)))]"

definition event_body :: "host \<Rightarrow> event \<Rightarrow> string" where
  "event_body h e = json_dumps (event_payload h e)"

definition event_digest :: "host \<Rightarrow> event \<Rightarrow> string" where
  "event_digest h e = h_sha256 h (event_body h e)"

text \<open>The resource row \<open>get_or_create\<close> finds or creates.\<close>

definition get_or_create :: "res_key \<Rightarrow> string \<Rightarrow> db \<Rightarrow> resource" where
  "get_or_create key scope d =
     (case db_resources d key of
        Some res \<Rightarrow> res
      | None \<Rightarrow> \<lparr>res_scope = scope, res_revision = 0, res_digest = ''''\<rparr>)"

text \<open>\<open>save(force_insert=True)\<close>: the unique constraint on (resource, revision) rejects a repeat.\<close>

definition insert_event :: "event \<Rightarrow> db \<Rightarrow> py_error + db" where
  "insert_event e d =
     (if list_ex (\<lambda>f. ev_key f = ev_key e \<and> ev_revision f = ev_revision e) (db_events d)
      then Inl IntegrityError else Inr (d\<lparr>db_events := db_events d @ [e]\<rparr>))"

definition append_event ::
  "host \<Rightarrow> registration \<Rightarrow> row \<Rightarrow> string \<Rightarrow> json \<Rightarrow> json \<Rightarrow> scope_ctx \<Rightarrow> int \<Rightarrow> db \<Rightarrow> py_error + db" where
  "append_event h cfg r action before after ctx now d =
     bindE (identity_value (row_pk (r_model cfg) r)) (\<lambda>opk.
     bindE (scope_attname cfg) (\<lambda>a.
     bindE (identity_value (r a)) (\<lambda>scope.
       let key = (m_label (r_model cfg), opk);
           res = get_or_create key scope d
       in if res_scope res \<noteq> scope then Inl ScopeViolation
          else let e0 = \<lparr>ev_key = key, ev_revision = res_revision res + 1, ev_scope = scope,
                         ev_actor = ctx_actor ctx, ev_action = action, ev_before = before,
                         ev_after = after, ev_occurred_at = now, ev_reason = ctx_reason ctx,
                         ev_request_id = ctx_request_id ctx, ev_previous_digest = res_digest res,
                         ev_digest = ''''\<rparr>;
                   e = e0\<lparr>ev_digest := event_digest h e0\<rparr>
               in bindE (insert_event e d) (\<lambda>d1.
                    Inr (d1\<lparr>db_resources := (db_resources d1)
                      (key \<mapsto> res\<lparr>res_revision := ev_revision e, res_digest := ev_digest e\<rparr>)\<rparr>)))))"

text \<open>
  The append-only interface of \<open>AuditEvent\<close> and its manager: every mutation other than the
  first save of a new event is refused.
\<close>

datatype event_call = EvSave bool | EvDelete | EvQsUpdate | EvQsDelete | EvBulkUpdate | EvBulkCreate

fun event_api :: "event_call \<Rightarrow> event \<Rightarrow> db \<Rightarrow> py_error + db" where
  "event_api (EvSave adding) e d = (if \<not> adding then Inl UnsupportedOperation else insert_event e d)"
| "event_api _ e d = Inl UnsupportedOperation"

section \<open>The chain invariant\<close>

definition events_of :: "res_key \<Rightarrow> db \<Rightarrow> event list" where
  "events_of key d = filter (\<lambda>e. ev_key e = key) (db_events d)"

definition chain_ok :: "host \<Rightarrow> db \<Rightarrow> res_key \<Rightarrow> bool" where
  "chain_ok h d key =
     (let es = events_of key d
      in case db_resources d key of
           None \<Rightarrow> es = []
         | Some res \<Rightarrow>
             map ev_revision es = [1..<Suc (length es)] \<and>
             linked ev_previous_digest ev_digest (event_digest h) '''' es \<and>
             list_all (\<lambda>e. ev_scope e = res_scope res) es \<and>
             res_revision res = length es \<and> res_digest res = last_digest ev_digest '''' es)"

definition audit_inv :: "host \<Rightarrow> db \<Rightarrow> bool" where
  "audit_inv h d \<longleftrightarrow> (\<forall>key. chain_ok h d key)"

definition empty_db :: "(string \<Rightarrow> row list) \<Rightarrow> db" where
  "empty_db rows = \<lparr>db_rows = rows, db_resources = (\<lambda>_. None), db_events = []\<rparr>"

lemma audit_invD: "audit_inv h d \<Longrightarrow> chain_ok h d key"
  unfolding audit_inv_def by blast

lemma audit_inv_empty: "audit_inv h (empty_db rows)"
  by (simp add: audit_inv_def chain_ok_def events_of_def empty_db_def Let_def)

lemma chain_ok_cong:
  "db_resources d key = db_resources d' key \<Longrightarrow> events_of key d = events_of key d' \<Longrightarrow>
   chain_ok h d key = chain_ok h d' key"
  by (simp add: chain_ok_def)

lemma audit_inv_set_rows [simp]: "audit_inv h (set_rows l rs d) = audit_inv h d"
  by (simp add: audit_inv_def chain_ok_def events_of_def)

lemma event_digest_update [simp]: "event_digest h (e\<lparr>ev_digest := x\<rparr>) = event_digest h e"
  by (simp add: event_digest_def event_body_def event_payload_def)

text \<open>What a successful \<open>append_event\<close> does, in one place.\<close>

definition describes :: "registration \<Rightarrow> row \<Rightarrow> string \<Rightarrow> json \<Rightarrow> json \<Rightarrow> scope_ctx \<Rightarrow> event \<Rightarrow> bool" where
  "describes cfg r action before after ctx e \<longleftrightarrow>
     identity_value (row_pk (r_model cfg) r) = Inr (snd (ev_key e)) \<and>
     fst (ev_key e) = m_label (r_model cfg) \<and>
     bindE (scope_attname cfg) (\<lambda>a. identity_value (r a)) = Inr (ev_scope e) \<and>
     ev_actor e = ctx_actor ctx \<and> ev_reason e = ctx_reason ctx \<and> ev_request_id e = ctx_request_id ctx \<and>
     ev_action e = action \<and> ev_before e = before \<and> ev_after e = after"

definition appended :: "host \<Rightarrow> registration \<Rightarrow> row \<Rightarrow> string \<Rightarrow> json \<Rightarrow> json \<Rightarrow> scope_ctx \<Rightarrow> db \<Rightarrow> event \<Rightarrow> bool" where
  "appended h cfg r action before after ctx d e \<longleftrightarrow>
     describes cfg r action before after ctx e \<and>
     res_scope (get_or_create (ev_key e) (ev_scope e) d) = ev_scope e \<and>
     ev_revision e = res_revision (get_or_create (ev_key e) (ev_scope e) d) + 1 \<and>
     ev_previous_digest e = res_digest (get_or_create (ev_key e) (ev_scope e) d) \<and>
     ev_digest e = event_digest h e"

lemma append_event_Inr:
  assumes "append_event h cfg r action before after ctx now d = Inr d'"
  shows "\<exists>e. appended h cfg r action before after ctx d e \<and>
    \<not> list_ex (\<lambda>f. ev_key f = ev_key e \<and> ev_revision f = ev_revision e) (db_events d) \<and>
    d' = d\<lparr>db_events := db_events d @ [e],
           db_resources := (db_resources d)(ev_key e \<mapsto>
             \<lparr>res_scope = ev_scope e, res_revision = ev_revision e, res_digest = ev_digest e\<rparr>)\<rparr>"
proof -
  from assms obtain opk a scope where o: "identity_value (row_pk (r_model cfg) r) = Inr opk"
    and a: "scope_attname cfg = Inr a" and s: "identity_value (r a) = Inr scope"
    by (auto simp: append_event_def result_simps)
  define key where "key = (m_label (r_model cfg), opk)"
  define res where "res = get_or_create key scope d"
  define e0 where "e0 = \<lparr>ev_key = key, ev_revision = res_revision res + 1, ev_scope = scope,
                         ev_actor = ctx_actor ctx, ev_action = action, ev_before = before,
                         ev_after = after, ev_occurred_at = now, ev_reason = ctx_reason ctx,
                         ev_request_id = ctx_request_id ctx, ev_previous_digest = res_digest res,
                         ev_digest = ''''\<rparr>"
  define e where "e = e0\<lparr>ev_digest := event_digest h e0\<rparr>"
  have fields: "ev_key e = key" "ev_revision e = res_revision res + 1" "ev_scope e = scope"
    "ev_actor e = ctx_actor ctx" "ev_action e = action" "ev_before e = before" "ev_after e = after"
    "ev_reason e = ctx_reason ctx" "ev_request_id e = ctx_request_id ctx"
    "ev_previous_digest e = res_digest res"
    by (simp_all add: e_def e0_def)
  have dig: "ev_digest e = event_digest h e" by (simp add: e_def)
  from assms o a s have sc: "res_scope res = scope"
    by (auto simp: append_event_def Let_def key_def res_def split: if_splits)
  have "append_event h cfg r action before after ctx now d =
    bindE (insert_event e d) (\<lambda>d1. Inr (d1\<lparr>db_resources := (db_resources d1)
      (key \<mapsto> res\<lparr>res_revision := ev_revision e, res_digest := ev_digest e\<rparr>)\<rparr>))"
    using sc by (simp add: append_event_def o a s Let_def key_def res_def e_def e0_def)
  with assms obtain d1 where ins: "insert_event e d = Inr d1"
    and d': "d' = d1\<lparr>db_resources := (db_resources d1)
      (key \<mapsto> res\<lparr>res_revision := ev_revision e, res_digest := ev_digest e\<rparr>)\<rparr>"
    by (auto simp: result_simps)
  have "res\<lparr>res_revision := ev_revision e, res_digest := ev_digest e\<rparr> =
    \<lparr>res_scope = ev_scope e, res_revision = ev_revision e, res_digest = ev_digest e\<rparr>"
    using sc fields by (cases res) simp
  then show ?thesis
    using ins d' fields dig o a s sc unfolding appended_def describes_def insert_event_def
    by (intro exI [of _ e]) (auto simp: key_def res_def split: if_splits)
qed

lemma append_event_describes:
  "append_event h cfg r action before after ctx now d = Inr d' \<Longrightarrow>
   \<exists>e. db_events d' = db_events d @ [e] \<and> describes cfg r action before after ctx e"
  by (drule append_event_Inr) (auto simp: appended_def)

lemma append_event_rows: "append_event h cfg r ac b af ctx now d = Inr d' \<Longrightarrow> db_rows d' = db_rows d"
  by (drule append_event_Inr) auto

lemma chain_ok_append:
  assumes inv: "chain_ok h d (ev_key e)"
    and e: "appended h cfg r action before after ctx d e"
    and d': "d' = d\<lparr>db_events := db_events d @ [e],
           db_resources := (db_resources d)(ev_key e \<mapsto>
             \<lparr>res_scope = ev_scope e, res_revision = ev_revision e, res_digest = ev_digest e\<rparr>)\<rparr>"
  shows "chain_ok h d' (ev_key e)"
proof -
  let ?es = "events_of (ev_key e) d"
  have es': "events_of (ev_key e) d' = ?es @ [e]" by (simp add: events_of_def d')
  show ?thesis
  proof (cases "db_resources d (ev_key e)")
    case None
    with inv have "?es = []" by (simp add: chain_ok_def)
    with None e es' show ?thesis
      by (simp add: chain_ok_def appended_def get_or_create_def d')
  next
    case (Some res)
    with inv e es' show ?thesis
      by (simp add: chain_ok_def appended_def get_or_create_def d' Let_def)
  qed
qed

lemma chain_ok_append_other:
  assumes "chain_ok h d key" "key \<noteq> ev_key e"
    and "d' = d\<lparr>db_events := db_events d @ [e], db_resources := (db_resources d)(ev_key e \<mapsto> res)\<rparr>"
  shows "chain_ok h d' key"
  using assms by (subst chain_ok_cong [of _ _ d]) (auto simp: events_of_def)

lemma append_event_inv:
  assumes "append_event h cfg r action before after ctx now d = Inr d'" "audit_inv h d"
  shows "audit_inv h d'"
proof -
  from append_event_Inr [OF assms(1)] obtain e where
    e: "appended h cfg r action before after ctx d e"
    and d': "d' = d\<lparr>db_events := db_events d @ [e],
           db_resources := (db_resources d)(ev_key e \<mapsto>
             \<lparr>res_scope = ev_scope e, res_revision = ev_revision e, res_digest = ev_digest e\<rparr>)\<rparr>"
    by blast
  show ?thesis unfolding audit_inv_def
  proof
    fix key
    show "chain_ok h d' key"
    proof (cases "key = ev_key e")
      case True
      with chain_ok_append [OF audit_invD [OF assms(2)] e d'] show ?thesis by simp
    next
      case False
      show ?thesis by (rule chain_ok_append_other [OF audit_invD [OF assms(2)] False d'])
    qed
  qed
qed

text \<open>
  In a state that satisfies the invariant the unique constraint never fires, so the append
  fails only for the reasons the code names: an unusable identity, an unknown scope field, or
  a history that belongs to another scope.
\<close>

lemma chain_ok_no_clash:
  assumes "audit_inv h d" "res = get_or_create key sc d"
  shows "\<not> list_ex (\<lambda>f. ev_key f = key \<and> ev_revision f = res_revision res + 1) (db_events d)"
proof
  assume "list_ex (\<lambda>f. ev_key f = key \<and> ev_revision f = res_revision res + 1) (db_events d)"
  then obtain f where f: "f \<in> set (events_of key d)" "ev_revision f = res_revision res + 1"
    by (auto simp: list_ex_iff events_of_def)
  have ok: "chain_ok h d key" by (rule audit_invD [OF assms(1)])
  show False
  proof (cases "db_resources d key")
    case None
    with ok f show False by (simp add: chain_ok_def)
  next
    case (Some r)
    with ok have "map ev_revision (events_of key d) = [1..<Suc (length (events_of key d))]"
      and len: "res_revision res = length (events_of key d)"
      using assms(2) by (simp_all add: chain_ok_def get_or_create_def Let_def)
    then have "ev_revision f \<in> set [1..<Suc (length (events_of key d))]"
      using f(1) by (metis image_eqI set_map)
    with f(2) len show False by simp
  qed
qed

lemma append_event_succeeds:
  assumes "audit_inv h d"
    and "identity_value (row_pk (r_model cfg) r) = Inr opk"
    and "scope_attname cfg = Inr a" "identity_value (r a) = Inr scope"
    and "res_scope (get_or_create (m_label (r_model cfg), opk) scope d) = scope"
  shows "\<exists>d'. append_event h cfg r action before after ctx now d = Inr d'"
  using assms chain_ok_no_clash [OF assms(1) refl, of "(m_label (r_model cfg), opk)" scope]
  by (auto simp: append_event_def Let_def insert_event_def)

section \<open>What the digest covers\<close>

text \<open>
  Two events have the same content when every digested field agrees, snapshots up to key
  order and the time up to its rendering.
\<close>

definition same_content :: "host \<Rightarrow> event \<Rightarrow> event \<Rightarrow> bool" where
  "same_content h e f \<longleftrightarrow>
     ev_key e = ev_key f \<and> ev_revision e = ev_revision f \<and> ev_scope e = ev_scope f \<and>
     ev_actor e = ev_actor f \<and> ev_action e = ev_action f \<and>
     json_canon (ev_before e) = json_canon (ev_before f) \<and>
     json_canon (ev_after e) = json_canon (ev_after f) \<and>
     h_iso h (ev_occurred_at e) = h_iso h (ev_occurred_at f) \<and>
     ev_reason e = ev_reason f \<and> ev_request_id e = ev_request_id f \<and>
     ev_previous_digest e = ev_previous_digest f"

lemma event_body_same_content:
  assumes "event_body h e = event_body h f"
  shows "same_content h e f"
proof -
  have canon: "json_canon (event_payload h e) = json_canon (event_payload h f)"
    using assms by (simp add: event_body_def json_dumps_inj)
  let ?get = "\<lambda>x k. map_option json_canon (map_of (case event_payload h x of JObj kvs \<Rightarrow> kvs | _ \<Rightarrow> []) k)"
  have get: "?get e k = ?get f k" for k
    using canon unfolding event_payload_def json.case
    by (rule json_canon_lookup) simp_all
  show ?thesis
    using get [of "''revision''"] get [of "''scope''"] get [of "''actor''"] get [of "''action''"]
      get [of "''before''"] get [of "''after''"] get [of "''occurred_at''"] get [of "''reason''"]
      get [of "''request_id''"] get [of "''previous_digest''"] get [of "''model_label''"]
      get [of "''object_pk''"]
    by (simp add: event_payload_def same_content_def prod_eq_iff)
qed

lemma event_digest_eq: "event_digest h = (\<lambda>e. h_sha256 h (event_body h e))"
  by (rule ext) (simp add: event_digest_def)

interpretation event_chain: hash_chain ev_previous_digest ev_digest "event_body h" "h_sha256 h" "\<lambda>_. True"
  for h
  by unfold_locales (auto dest: event_body_same_content simp: same_content_def)

section \<open>Operations that only append to the audit tables\<close>

text \<open>
  \<open>audit_ext h d d'\<close>: the audit tables of \<open>d'\<close> come from those of \<open>d\<close> by appends alone,
  whatever happened to the application's rows in between. Every operation of the library is
  of this kind, and everything else about the audit tables follows from it.
\<close>

inductive audit_ext :: "host \<Rightarrow> db \<Rightarrow> db \<Rightarrow> bool" for h where
  same: "audit_ext h d d"
| rows: "audit_ext h d d1 \<Longrightarrow> audit_ext h d (set_rows l rs d1)"
| app: "audit_ext h d d1 \<Longrightarrow> append_event h cfg r action before after ctx now d1 = Inr d2 \<Longrightarrow> audit_ext h d d2"

lemma audit_ext_trans: "audit_ext h d1 d2 \<Longrightarrow> audit_ext h d0 d1 \<Longrightarrow> audit_ext h d0 d2"
  by (induction rule: audit_ext.induct) (auto intro: audit_ext.intros)

lemma audit_ext_append: "append_event h cfg r ac b a ctx now d = Inr d' \<Longrightarrow> audit_ext h d d'"
  by (rule audit_ext.app [OF audit_ext.same])

lemma audit_ext_set_rows: "audit_ext h d (set_rows l rs d)"
  by (rule audit_ext.rows [OF audit_ext.same])

lemma audit_ext_foldE:
  assumes "foldE f xs d = Inr d'" and "\<And>x d d'. f x d = Inr d' \<Longrightarrow> audit_ext h d d'"
  shows "audit_ext h d d'"
  using assms(1) audit_ext.same [of h d]
  by (rule foldE_invariant) (blast intro: audit_ext_trans assms(2))

lemma audit_ext_inv: "audit_ext h d d' \<Longrightarrow> audit_inv h d \<Longrightarrow> audit_inv h d'"
  by (induction rule: audit_ext.induct) (auto intro: append_event_inv)

lemma audit_ext_append_only: "audit_ext h d d' \<Longrightarrow> \<exists>es. db_events d' = db_events d @ es"
proof (induction rule: audit_ext.induct)
  case (app d d1 cfg r action before after ctx now d2)
  then show ?case by (auto dest: append_event_Inr)
qed auto

lemma audit_ext_scope_stable:
  "audit_ext h d d' \<Longrightarrow> db_resources d key = Some res \<Longrightarrow>
   \<exists>res'. db_resources d' key = Some res' \<and> res_scope res' = res_scope res
     \<and> res_revision res \<le> res_revision res'"
proof (induction rule: audit_ext.induct)
  case (app d d1 cfg r action before after ctx now d2)
  then obtain res1 where r1: "db_resources d1 key = Some res1" "res_scope res1 = res_scope res"
    "res_revision res \<le> res_revision res1" by blast
  from append_event_Inr [OF app.hyps(2)] r1 show ?case
    by (auto simp: appended_def get_or_create_def)
qed auto

text \<open>
  The contract of one library operation, as a function of its input: it may fail, and when it
  succeeds the audit tables were only appended to. Sequences of calls keep the contract.
\<close>

locale audited_operation =
  fixes h :: host
    and run :: "'i \<Rightarrow> db \<Rightarrow> py_error + 'o \<times> db"
  assumes run_ext: "run i d = Inr (out, d') \<Longrightarrow> audit_ext h d d'"
begin

lemma run_inv: "run i d = Inr (out, d') \<Longrightarrow> audit_inv h d \<Longrightarrow> audit_inv h d'"
  using run_ext by (rule audit_ext_inv)

lemma run_append_only: "run i d = Inr (out, d') \<Longrightarrow> \<exists>es. db_events d' = db_events d @ es"
  by (rule audit_ext_append_only) (rule run_ext)

lemma run_all_ext:
  assumes "foldE (\<lambda>i d. bindE (run i d) (\<lambda>(out, d'). Inr d')) is d = Inr d'"
  shows "audit_ext h d d'"
  using assms by (rule audit_ext_foldE) (auto simp: result_simps intro: run_ext)

lemma run_all_inv:
  "foldE (\<lambda>i d. bindE (run i d) (\<lambda>(out, d'). Inr d')) is d = Inr d' \<Longrightarrow> audit_inv h d \<Longrightarrow> audit_inv h d'"
  using run_all_ext by (rule audit_ext_inv)

end

end
