(* ===== verification/Model_Registry.thy ===== *)
theory Model_Registry
  imports Audit_Core
begin

text \<open>
  \<open>pyscoped/registry.py\<close> and \<open>pyscoped/checks.py\<close>: registration of a model, the wrapped
  \<open>save_base\<close>, \<open>save\<close>, \<open>delete\<close> and \<open>refresh_from_db\<close>, the \<open>pre_delete\<close> handler, the
  relation guards and the system check. Each operation runs in one transaction, so an
  error result stands for the unchanged database.

  What Django's own \<open>save_base\<close> and deletion collector do is the parameter \<open>orm\<close>.
\<close>

section \<open>Registration\<close>

fun parse_mode :: "string \<Rightarrow> py_error + mode" where
  "parse_mode s =
     (if s = ''audit'' then Inr AuditMode
      else if s = ''enforce'' then Inr EnforceMode
      else Inl ImproperlyConfigured)"

definition check_audit_field :: "model_meta \<Rightarrow> string \<Rightarrow> py_error + unit" where
  "check_audit_field m name =
     (case m_get_field m name of
        None \<Rightarrow> Inl ImproperlyConfigured
      | Some f \<Rightarrow>
          if \<not> f_concrete f \<or> f_many_to_many f \<or> f_primary_key f
          then Inl ImproperlyConfigured else Inr ())"

text \<open>
  \<open>register\<close>. The argument \<open>allow\<close> is \<open>None\<close> when the caller passed something that is
  neither a tuple nor a list.
\<close>

definition register_model ::
  "model_meta \<Rightarrow> string \<Rightarrow> string list option \<Rightarrow> string \<Rightarrow> registry \<Rightarrow> py_error + registry" where
  "register_model m scope_field allow mode_name reg =
     (if m_abstract m \<or> m_proxy m \<or> m_parents m then Inl ImproperlyConfigured
      else if m_composite_pk m then Inl ImproperlyConfigured
      else if \<not> list_all (\<lambda>g. mg_scoped_manager g \<and> mg_scoped_queryset g) (m_managers m)
      then Inl ImproperlyConfigured
      else bindE (parse_mode mode_name) (\<lambda>md.
        case allow of
          None \<Rightarrow> Inl ImproperlyConfigured
        | Some names \<Rightarrow>
            if names = [] then Inl ImproperlyConfigured
            else bindE (allE (check_audit_field m) (scope_field # names)) (\<lambda>_.
                 bindE (get_field m scope_field) (\<lambda>sf.
                   if f_null sf then Inl ImproperlyConfigured
                   else case map_of reg (m_label m) of
                          Some old \<Rightarrow>
                            if r_scope_field old = scope_field \<and> r_fields old = names \<and> r_mode old = md
                            then Inr reg else Inl ImproperlyConfigured
                        | None \<Rightarrow>
                            Inr (reg @ [(m_label m,
                              \<lparr>r_model = m, r_scope_field = scope_field, r_fields = names, r_mode = md\<rparr>)])))))"

text \<open>\<open>install_relation_guards\<close>: the descriptors it wraps, as (model, attribute, target model).\<close>

definition forward_guards :: "registry \<Rightarrow> (string \<times> string \<times> string) list" where
  "forward_guards reg =
     concat (map (\<lambda>(l, cfg).
       map (\<lambda>f. (l, f_name f, f_related_model f))
         (filter (\<lambda>f. f_is_relation f \<and> map_of (protected_models reg) (f_related_model f) \<noteq> None)
           (m_fields (r_model cfg)))) (protected_models reg))"

definition reverse_guards :: "registry \<Rightarrow> (string \<times> string \<times> string) list" where
  "reverse_guards reg =
     concat (map (\<lambda>(l, cfg).
       map (\<lambda>r. (l, rel_accessor r, rel_model r))
         (filter (\<lambda>r. rel_one_to_one r \<and> map_of (protected_models reg) (rel_model r) \<noteq> None \<and> \<not> rel_hidden r)
           (m_related_objects (r_model cfg)))) (protected_models reg))"

definition install_relation_guards :: "bool \<Rightarrow> registry \<Rightarrow> (string \<times> string \<times> string) list" where
  "install_relation_guards models_ready reg =
     forward_guards reg @ (if models_ready then reverse_guards reg else [])"

text \<open>
  \<open>_ScopedForwardRelation.__get__\<close> on an instance; \<open>related\<close> is what Django's own descriptor
  returned (possibly from its cache).
\<close>

definition guarded_get :: "registration \<Rightarrow> cell \<Rightarrow> py_error + row option \<Rightarrow> py_error + row option" where
  "guarded_get target c related =
     bindE (require_context c) (\<lambda>ctx.
     bindE related (\<lambda>ro.
       case ro of
         None \<Rightarrow> Inr None
       | Some r \<Rightarrow> bindE (check_scope target r ctx) (\<lambda>_. Inr (Some r))))"

section \<open>Saving\<close>

text \<open>
  Django's part: \<open>o_save\<close> writes one instance (all columns or the given \<open>update_fields\<close>) into
  its table and returns the instance with its key; \<open>o_bulk_create\<close> inserts many; \<open>o_collect\<close> lists the instances the deletion
  of some rows removes with its cascades, in the order of their \<open>pre_delete\<close> signals.
\<close>

record orm =
  o_save :: "model_meta \<Rightarrow> row \<Rightarrow> string list option \<Rightarrow> row list \<Rightarrow> py_error + row \<times> row list"
  o_bulk_create :: "model_meta \<Rightarrow> row list \<Rightarrow> row list \<Rightarrow> py_error + row list \<times> row list"
  o_collect :: "model_meta \<Rightarrow> row list \<Rightarrow> (string \<Rightarrow> row list) \<Rightarrow> py_error + (model_meta \<times> row) list"

type_synonym action_override = "(string \<times> pyval \<times> string) option"

definition saved_action :: "action_override \<Rightarrow> string \<Rightarrow> pyval \<Rightarrow> row option \<Rightarrow> string" where
  "saved_action override label pk before_row =
     (case override of
        Some (l, p, action) \<Rightarrow>
          if l = label \<and> p = pk then action
          else if before_row = None then ''create'' else ''update''
      | None \<Rightarrow> if before_row = None then ''create'' else ''update'')"

definition check_before :: "registration \<Rightarrow> row option \<Rightarrow> scope_ctx \<Rightarrow> py_error + unit" where
  "check_before cfg before_row ctx =
     (case before_row of
        None \<Rightarrow> Inr ()
      | Some b \<Rightarrow> bindE (check_scope cfg b ctx) (\<lambda>_. Inr ()))"

definition scope_unchanged :: "registration \<Rightarrow> row option \<Rightarrow> row \<Rightarrow> py_error + unit" where
  "scope_unchanged cfg before_row inst =
     (case before_row of
        None \<Rightarrow> Inr ()
      | Some b \<Rightarrow>
          bindE (scope_attname cfg) (\<lambda>a.
            if b a \<noteq> inst a then Inl UnsupportedOperation else Inr ()))"

record save_request =
  sr_raw :: bool
  sr_update_fields :: "string list option"
  sr_override :: action_override
  sr_now :: int

definition save_base ::
  "host \<Rightarrow> orm \<Rightarrow> registry \<Rightarrow> registration \<Rightarrow> cell \<Rightarrow> save_request \<Rightarrow> row \<Rightarrow> db \<Rightarrow> py_error + row \<times> db" where
  "save_base h orm reg cfg c req inst d =
     bindE (require_context c) (\<lambda>ctx.
     if sr_raw req then Inl UnsupportedOperation
     else
       let m = r_model cfg; before_row = load_row m (row_pk m inst) d
       in bindE (check_before cfg before_row ctx) (\<lambda>_.
          bindE (check_scope cfg inst ctx) (\<lambda>_.
          bindE (check_relations reg cfg inst ctx d) (\<lambda>_.
          bindE (scope_unchanged cfg before_row inst) (\<lambda>_.
          bindE (snapshot_opt cfg before_row) (\<lambda>before.
          bindE (o_save orm m inst (sr_update_fields req) (db_rows d (m_label m))) (\<lambda>(inst', rs).
            let d1 = set_rows (m_label m) rs d
            in case load_row m (row_pk m inst') d1 of
                 None \<Rightarrow> Inl UnsupportedOperation
               | Some after_row \<Rightarrow>
                   bindE (check_scope cfg after_row ctx) (\<lambda>_.
                   bindE (check_relations reg cfg after_row ctx d1) (\<lambda>_.
                   bindE (snapshot cfg after_row) (\<lambda>after.
                   bindE (append_event h cfg after_row
                           (saved_action (sr_override req) (m_label m) (row_pk m inst') before_row)
                           before after ctx (sr_now req) d1) (\<lambda>d2.
                     Inr (inst', d2))))))))))))"

text \<open>
  The wrapped \<open>save\<close>: a context is required first. Django's \<open>save\<close> returns without calling
  \<open>save_base\<close> when \<open>update_fields\<close> is empty.
\<close>

definition model_save ::
  "host \<Rightarrow> orm \<Rightarrow> registry \<Rightarrow> registration \<Rightarrow> cell \<Rightarrow> save_request \<Rightarrow> row \<Rightarrow> db \<Rightarrow> py_error + row \<times> db" where
  "model_save h orm reg cfg c req inst d =
     bindE (require_context c) (\<lambda>_.
       if sr_update_fields req = Some [] then Inr (inst, d)
       else save_base h orm reg cfg c req inst d)"

text \<open>The wrapped \<open>refresh_from_db\<close>; \<open>original\<close> is Django's.\<close>

definition refresh_from_db ::
  "registration \<Rightarrow> cell \<Rightarrow> (row \<Rightarrow> db \<Rightarrow> py_error + row) \<Rightarrow> row \<Rightarrow> db \<Rightarrow> py_error + row" where
  "refresh_from_db cfg c original inst d =
     (if r_mode cfg = EnforceMode
      then bindE (require_context c) (\<lambda>ctx.
           bindE (check_before cfg (load_row (r_model cfg) (row_pk (r_model cfg) inst) d) ctx) (\<lambda>_.
             original inst d))
      else original inst d)"

section \<open>Deleting\<close>

definition before_delete ::
  "host \<Rightarrow> registration \<Rightarrow> cell \<Rightarrow> int \<Rightarrow> row \<Rightarrow> db \<Rightarrow> py_error + db" where
  "before_delete h cfg c now inst d =
     bindE (require_context c) (\<lambda>ctx.
       case load_row (r_model cfg) (row_pk (r_model cfg) inst) d of
         None \<Rightarrow> Inr d
       | Some r \<Rightarrow>
           bindE (check_scope cfg r ctx) (\<lambda>_.
           bindE (snapshot cfg r) (\<lambda>before.
             append_event h cfg r ''delete'' before JNull ctx now d)))"

text \<open>One collected instance: its signal handler runs when its model is registered.\<close>

definition pre_delete_signal ::
  "host \<Rightarrow> registry \<Rightarrow> cell \<Rightarrow> int \<Rightarrow> model_meta \<times> row \<Rightarrow> db \<Rightarrow> py_error + db" where
  "pre_delete_signal h reg c now item d =
     (case map_of reg (m_label (fst item)) of
        None \<Rightarrow> Inr d
      | Some cfg \<Rightarrow> before_delete h cfg c now (snd item) d)"

definition remove_row :: "model_meta \<times> row \<Rightarrow> db \<Rightarrow> db" where
  "remove_row item d =
     (let m = fst item; l = m_label m
      in set_rows l (filter (\<lambda>r. row_pk m r \<noteq> row_pk m (snd item)) (db_rows d l)) d)"

definition delete_collected ::
  "host \<Rightarrow> registry \<Rightarrow> cell \<Rightarrow> int \<Rightarrow> (model_meta \<times> row) list \<Rightarrow> db \<Rightarrow> py_error + db" where
  "delete_collected h reg c now items d =
     bindE (foldE (pre_delete_signal h reg c now) items d) (\<lambda>d1. Inr (fold remove_row items d1))"

definition model_delete ::
  "host \<Rightarrow> orm \<Rightarrow> registry \<Rightarrow> registration \<Rightarrow> cell \<Rightarrow> int \<Rightarrow> row \<Rightarrow> db \<Rightarrow> py_error + nat \<times> db" where
  "model_delete h orm reg cfg c now inst d =
     bindE (require_context c) (\<lambda>_.
     bindE (o_collect orm (r_model cfg) [inst] (db_rows d)) (\<lambda>items.
     bindE (delete_collected h reg c now items d) (\<lambda>d1. Inr (length items, d1))))"

section \<open>System checks\<close>

datatype check_error =
    E001 string string
  | E002 string string
  | E003 string string
  | E004 string

definition manager_errors :: "model_meta \<Rightarrow> check_error list" where
  "manager_errors m =
     concat (map (\<lambda>g.
       if \<not> mg_scoped_manager g then [E001 (m_label m) (mg_name g)]
       else if \<not> mg_scoped_queryset g then [E003 (m_label m) (mg_name g)] else []) (m_managers m))"

definition relation_errors :: "model_meta \<Rightarrow> check_error list" where
  "relation_errors m =
     concat (map (\<lambda>f.
       if f_is_relation f \<and> f_on_delete f = OtherOnDelete then [E002 (m_label m) (f_name f)] else [])
       (m_fields m))"

text \<open>
  \<open>check_registered_models\<close>; \<open>selected\<close> says whether a model's app was asked for.
\<close>

definition check_registered_models :: "(model_meta \<Rightarrow> bool) \<Rightarrow> registry \<Rightarrow> check_error list" where
  "check_registered_models selected reg =
     concat (map (\<lambda>cfg.
       let m = r_model cfg
       in if \<not> selected m then []
          else manager_errors m
            @ (if m_any_many_to_many m then [E004 (m_label m)] else [])
            @ relation_errors m) (registered_models reg))"

section \<open>Facts about saving\<close>

definition in_scope_row :: "registration \<Rightarrow> scope_ctx \<Rightarrow> row \<Rightarrow> bool" where
  "in_scope_row cfg ctx r \<longleftrightarrow> is_ok (check_scope cfg r ctx)"

lemma check_before_Inr [result_simps]:
  "check_before cfg ro ctx = Inr u \<longleftrightarrow> (\<forall>b. ro = Some b \<longrightarrow> in_scope_row cfg ctx b)"
  by (auto simp: check_before_def in_scope_row_def is_ok_iff result_simps split: option.splits)

lemma save_base_Inr:
  assumes "save_base h orm reg cfg c req inst d = Inr (inst', d')"
  shows "\<exists>ctx before after rs after_row s1 s2.
    c = Some ctx \<and> \<not> sr_raw req \<and>
    (\<forall>b. load_row (r_model cfg) (row_pk (r_model cfg) inst) d = Some b \<longrightarrow> in_scope_row cfg ctx b) \<and>
    check_scope cfg inst ctx = Inr s1 \<and>
    check_relations reg cfg inst ctx d = Inr () \<and>
    scope_unchanged cfg (load_row (r_model cfg) (row_pk (r_model cfg) inst) d) inst = Inr () \<and>
    snapshot_opt cfg (load_row (r_model cfg) (row_pk (r_model cfg) inst) d) = Inr before \<and>
    o_save orm (r_model cfg) inst (sr_update_fields req) (db_rows d (m_label (r_model cfg))) = Inr (inst', rs) \<and>
    load_row (r_model cfg) (row_pk (r_model cfg) inst') (set_rows (m_label (r_model cfg)) rs d) = Some after_row \<and>
    check_scope cfg after_row ctx = Inr s2 \<and>
    check_relations reg cfg after_row ctx (set_rows (m_label (r_model cfg)) rs d) = Inr () \<and>
    snapshot cfg after_row = Inr after \<and>
    append_event h cfg after_row
      (saved_action (sr_override req) (m_label (r_model cfg)) (row_pk (r_model cfg) inst')
        (load_row (r_model cfg) (row_pk (r_model cfg) inst) d))
      before after ctx (sr_now req) (set_rows (m_label (r_model cfg)) rs d) = Inr d'"
  using assms unfolding save_base_def Let_def
  by (clarsimp simp: result_simps split: if_splits option.splits)

lemma load_row_cong: "db_rows d = db_rows d' \<Longrightarrow> load_row m pk d = load_row m pk d'"
  by (simp add: load_row_def)

lemma load_row_pk: "load_row m pk d = Some r \<Longrightarrow> row_pk m r = pk \<and> pk \<noteq> PNone \<and> r \<in> set (db_rows d (m_label m))"
  by (auto simp: load_row_def dest: find_SomeD split: if_splits)

lemma load_row_distinct:
  "distinct (map (row_pk m) (db_rows d (m_label m))) \<Longrightarrow> r \<in> set (db_rows d (m_label m)) \<Longrightarrow>
   row_pk m r \<noteq> PNone \<Longrightarrow> load_row m (row_pk m r) d = Some r"
  by (simp add: load_row_def find_key)

text \<open>
  What the development assumes of Django's own save where a property needs it: it writes the
  one row with the instance's key, keeps keys unique, keeps the key of an instance that has
  one and gives a new key to one that has none.
\<close>

definition orm_save_ok :: "orm \<Rightarrow> model_meta \<Rightarrow> bool" where
  "orm_save_ok orm m \<longleftrightarrow>
     (\<forall>inst uf rs inst' rs'. distinct (map (row_pk m) rs) \<longrightarrow> o_save orm m inst uf rs = Inr (inst', rs') \<longrightarrow>
        distinct (map (row_pk m) rs') \<and>
        (\<forall>r. row_pk m r \<noteq> row_pk m inst' \<longrightarrow> (r \<in> set rs' \<longleftrightarrow> r \<in> set rs)) \<and>
        (row_pk m inst \<noteq> PNone \<longrightarrow> row_pk m inst' = row_pk m inst) \<and>
        (row_pk m inst = PNone \<longrightarrow> row_pk m inst' \<notin> row_pk m ` set rs))"

lemma save_base_isolated:
  assumes save: "save_base h orm reg cfg (Some ctx) req inst d = Inr (inst', d')"
    and ok: "orm_save_ok orm (r_model cfg)"
    and dist: "distinct (map (row_pk (r_model cfg)) (db_rows d (m_label (r_model cfg))))"
    and foreign: "\<not> in_scope_row cfg ctx r"
  shows "r \<in> set (db_rows d' l) \<longleftrightarrow> r \<in> set (db_rows d l)"
proof -
  let ?m = "r_model cfg" and ?l = "m_label (r_model cfg)"
  obtain before after rs after_row s2 where
    b: "\<forall>b. load_row ?m (row_pk ?m inst) d = Some b \<longrightarrow> in_scope_row cfg ctx b"
    and s: "o_save orm ?m inst (sr_update_fields req) (db_rows d ?l) = Inr (inst', rs)"
    and a: "load_row ?m (row_pk ?m inst') (set_rows ?l rs d) = Some after_row"
    and c2: "check_scope cfg after_row ctx = Inr s2"
    and app: "append_event h cfg after_row
      (saved_action (sr_override req) ?l (row_pk ?m inst') (load_row ?m (row_pk ?m inst) d))
      before after ctx (sr_now req) (set_rows ?l rs d) = Inr d'"
    using save_base_Inr [OF save] by blast
  have rows: "db_rows d' = (db_rows d)(?l := rs)" using append_event_rows [OF app] by simp
  note contract = ok [unfolded orm_save_ok_def, rule_format, OF dist s]
  show ?thesis
  proof (cases "l = ?l")
    case False
    with rows show ?thesis by simp
  next
    case l: True
    show ?thesis
    proof (cases "row_pk ?m r = row_pk ?m inst'")
      case False
      with rows l contract show ?thesis by simp
    next
      case True
      have "row_pk ?m inst' \<noteq> PNone" using load_row_pk [OF a] by simp
      have "r \<notin> set rs"
      proof
        assume "r \<in> set rs"
        then have "load_row ?m (row_pk ?m r) (set_rows ?l rs d) = Some r"
          using contract True \<open>row_pk ?m inst' \<noteq> PNone\<close> by (intro load_row_distinct) auto
        with a True have "r = after_row" by simp
        with c2 foreign show False by (simp add: in_scope_row_def)
      qed
      moreover have "r \<notin> set (db_rows d ?l)"
      proof
        assume r: "r \<in> set (db_rows d ?l)"
        show False
        proof (cases "row_pk ?m inst = PNone")
          case True
          with contract r \<open>row_pk ?m r = row_pk ?m inst'\<close> show False by (metis image_eqI)
        next
          case False
          with contract True have "row_pk ?m r = row_pk ?m inst" by simp
          with False r dist have "load_row ?m (row_pk ?m inst) d = Some r"
            using load_row_distinct by metis
          with b foreign show False by blast
        qed
      qed
      ultimately show ?thesis using rows l by simp
    qed
  qed
qed

interpretation save_op: audited_operation h
  "\<lambda>(cfg, c, req, inst) d. save_base h orm reg cfg c req inst d" for h orm reg
proof
  fix i d out d'
  assume "(\<lambda>(cfg, c, req, inst) d. save_base h orm reg cfg c req inst d) i d = Inr (out, d')"
  then obtain cfg c req inst where "save_base h orm reg cfg c req inst d = Inr (out, d')"
    by (cases i) auto
  from save_base_Inr [OF this] show "audit_ext h d d'"
    by (blast intro: audit_ext.intros)
qed

interpretation model_save_op: audited_operation h
  "\<lambda>(cfg, c, req, inst) d. model_save h orm reg cfg c req inst d" for h orm reg
proof
  fix i d out d'
  assume "(\<lambda>(cfg, c, req, inst) d. model_save h orm reg cfg c req inst d) i d = Inr (out, d')"
  then obtain cfg c req inst where "model_save h orm reg cfg c req inst d = Inr (out, d')"
    by (cases i) auto
  then show "audit_ext h d d'"
    using save_op.run_ext [of h orm reg "(cfg, c, req, inst)"]
    by (auto simp: model_save_def result_simps intro: audit_ext.same split: if_splits)
qed

lemma save_base_one_event:
  assumes "save_base h orm reg cfg c req inst d = Inr (inst', d')"
  shows "\<exists>ctx e after_row. c = Some ctx \<and> db_events d' = db_events d @ [e] \<and>
    snapshot_opt cfg (load_row (r_model cfg) (row_pk (r_model cfg) inst) d) = Inr (ev_before e) \<and>
    load_row (r_model cfg) (row_pk (r_model cfg) inst') d' = Some after_row \<and>
    snapshot cfg after_row = Inr (ev_after e) \<and> in_scope_row cfg ctx after_row \<and>
    describes cfg after_row
      (saved_action (sr_override req) (m_label (r_model cfg)) (row_pk (r_model cfg) inst')
        (load_row (r_model cfg) (row_pk (r_model cfg) inst) d))
      (ev_before e) (ev_after e) ctx e"
proof -
  let ?m = "r_model cfg"
  let ?old = "load_row ?m (row_pk ?m inst) d"
  from save_base_Inr [OF assms] obtain ctx before after rs after_row s2 where c: "c = Some ctx"
    and b: "snapshot_opt cfg ?old = Inr before"
    and l: "load_row ?m (row_pk ?m inst') (set_rows (m_label ?m) rs d) = Some after_row"
    and s2: "check_scope cfg after_row ctx = Inr s2"
    and a: "snapshot cfg after_row = Inr after"
    and app: "append_event h cfg after_row (saved_action (sr_override req) (m_label ?m) (row_pk ?m inst') ?old)
      before after ctx (sr_now req) (set_rows (m_label ?m) rs d) = Inr d'"
    by blast
  from append_event_describes [OF app] obtain e where
    e: "db_events d' = db_events d @ [e]"
    and de: "describes cfg after_row (saved_action (sr_override req) (m_label ?m) (row_pk ?m inst') ?old)
      before after ctx e" by auto
  have "ev_before e = before" "ev_after e = after" using de by (simp_all add: describes_def)
  moreover have "load_row ?m (row_pk ?m inst') d' = Some after_row"
    using l load_row_cong [OF append_event_rows [OF app]] by simp
  moreover have "in_scope_row cfg ctx after_row" using s2 by (simp add: in_scope_row_def)
  ultimately show ?thesis using c b a e de by blast
qed

section \<open>Facts about deletion\<close>

lemma before_delete_Inr:
  "before_delete h cfg c now inst d = Inr d' \<Longrightarrow>
   \<exists>ctx. c = Some ctx \<and>
     (case load_row (r_model cfg) (row_pk (r_model cfg) inst) d of
        None \<Rightarrow> d' = d
      | Some r \<Rightarrow> in_scope_row cfg ctx r \<and>
          (\<exists>before. snapshot cfg r = Inr before \<and>
             append_event h cfg r ''delete'' before JNull ctx now d = Inr d'))"
  by (auto simp: before_delete_def in_scope_row_def is_ok_iff result_simps split: option.splits)

lemma pre_delete_signal_ext: "pre_delete_signal h reg c now item d = Inr d' \<Longrightarrow> audit_ext h d d'"
  by (auto simp: pre_delete_signal_def split: option.splits
      dest!: before_delete_Inr intro: audit_ext.same audit_ext_append)

lemma pre_delete_signal_rows: "pre_delete_signal h reg c now item d = Inr d' \<Longrightarrow> db_rows d' = db_rows d"
  by (auto simp: pre_delete_signal_def split: option.splits
      dest!: before_delete_Inr append_event_rows)

lemma fold_remove_ext: "audit_ext h d (fold remove_row items d)"
proof (induction items arbitrary: d)
  case Nil
  show ?case by (simp add: audit_ext.same)
next
  case (Cons x xs)
  have "audit_ext h d (remove_row x d)" by (simp add: remove_row_def Let_def audit_ext_set_rows)
  with Cons.IH [of "remove_row x d"] show ?case by (auto intro: audit_ext_trans)
qed

lemma delete_collected_ext:
  assumes "delete_collected h reg c now items d = Inr d'"
  shows "audit_ext h d d'"
proof -
  from assms obtain d1 where f: "foldE (pre_delete_signal h reg c now) items d = Inr d1"
    and d': "d' = fold remove_row items d1"
    by (auto simp: delete_collected_def result_simps)
  from f have "audit_ext h d d1" by (rule audit_ext_foldE) (rule pre_delete_signal_ext)
  with d' show ?thesis by (auto intro: audit_ext_trans fold_remove_ext)
qed

interpretation delete_op: audited_operation h
  "\<lambda>(cfg, c, now, inst) d. model_delete h orm reg cfg c now inst d" for h orm reg
proof
  fix i d out d'
  assume "(\<lambda>(cfg, c, now, inst) d. model_delete h orm reg cfg c now inst d) i d = Inr (out, d')"
  then show "audit_ext h d d'"
    by (cases i) (auto simp: model_delete_def result_simps intro: delete_collected_ext)
qed

text \<open>The stored rows a deletion audits, each with the registration that audits it.\<close>

definition audited_rows :: "registry \<Rightarrow> db \<Rightarrow> (model_meta \<times> row) list \<Rightarrow> (registration \<times> row) list" where
  "audited_rows reg d items =
     concat (map (\<lambda>item.
       case map_of reg (m_label (fst item)) of
         None \<Rightarrow> []
       | Some cfg \<Rightarrow>
           (case load_row (r_model cfg) (row_pk (r_model cfg) (snd item)) d of
              None \<Rightarrow> []
            | Some r \<Rightarrow> [(cfg, r)])) items)"

definition deletion_event :: "scope_ctx \<Rightarrow> registration \<times> row \<Rightarrow> event \<Rightarrow> bool" where
  "deletion_event ctx x e \<longleftrightarrow>
     in_scope_row (fst x) ctx (snd x) \<and> snapshot (fst x) (snd x) = Inr (ev_before e) \<and>
     describes (fst x) (snd x) ''delete'' (ev_before e) JNull ctx e"

lemma audited_rows_cong: "db_rows d = db_rows d' \<Longrightarrow> audited_rows reg d items = audited_rows reg d' items"
  unfolding audited_rows_def load_row_def by (simp only:)

lemma pre_delete_signal_spec:
  assumes "pre_delete_signal h reg (Some ctx) now item d = Inr d'"
  shows "\<exists>es. db_events d' = db_events d @ es \<and> list_all2 (deletion_event ctx) (audited_rows reg d [item]) es"
proof (cases "audited_rows reg d [item]")
  case Nil
  with assms show ?thesis
    by (auto simp: audited_rows_def pre_delete_signal_def before_delete_def require_context_def
        split: option.splits)
next
  case (Cons x xs)
  then obtain cfg r where cfg: "map_of reg (m_label (fst item)) = Some cfg"
    and r: "load_row (r_model cfg) (row_pk (r_model cfg) (snd item)) d = Some r"
    and x: "audited_rows reg d [item] = [(cfg, r)]"
    by (auto simp: audited_rows_def split: option.splits)
  from assms cfg have "before_delete h cfg (Some ctx) now (snd item) d = Inr d'"
    by (simp add: pre_delete_signal_def)
  from before_delete_Inr [OF this] r obtain before where sc: "in_scope_row cfg ctx r"
    and b: "snapshot cfg r = Inr before"
    and app: "append_event h cfg r ''delete'' before JNull ctx now d = Inr d'" by auto
  from append_event_Inr [OF app] obtain e where "db_events d' = db_events d @ [e]"
    and e: "describes cfg r ''delete'' before JNull ctx e" by (auto simp: appended_def)
  moreover have "deletion_event ctx (cfg, r) e"
    using sc b e by (auto simp: deletion_event_def describes_def)
  ultimately show ?thesis using x by auto
qed

lemma pre_delete_signals_spec:
  assumes "foldE (pre_delete_signal h reg (Some ctx) now) items d = Inr d'"
  shows "\<exists>es. db_events d' = db_events d @ es \<and> list_all2 (deletion_event ctx) (audited_rows reg d items) es"
  using assms
proof (induction items arbitrary: d)
  case Nil
  then show ?case by (simp add: audited_rows_def)
next
  case (Cons item items)
  then obtain d1 where one: "pre_delete_signal h reg (Some ctx) now item d = Inr d1"
    and rest: "foldE (pre_delete_signal h reg (Some ctx) now) items d1 = Inr d'"
    by (auto simp: result_simps)
  from pre_delete_signal_spec [OF one] obtain es1 where
    1: "db_events d1 = db_events d @ es1" "list_all2 (deletion_event ctx) (audited_rows reg d [item]) es1"
    by blast
  from Cons.IH [OF rest] obtain es2 where
    2: "db_events d' = db_events d1 @ es2" "list_all2 (deletion_event ctx) (audited_rows reg d items) es2"
    using audited_rows_cong [OF pre_delete_signal_rows [OF one]] by auto
  have "audited_rows reg d (item # items) = audited_rows reg d [item] @ audited_rows reg d items"
    by (simp add: audited_rows_def)
  with 1 2 show ?case by (auto intro: list_all2_appendI)
qed

lemma fold_remove_events: "db_events (fold remove_row items d) = db_events d"
  by (induction items arbitrary: d) (auto simp: remove_row_def Let_def)

section \<open>Facts about registration\<close>

text \<open>The registry lists every model once, under its own label.\<close>

definition registry_ok :: "registry \<Rightarrow> bool" where
  "registry_ok reg \<longleftrightarrow> distinct (map fst reg) \<and> list_all (\<lambda>x. m_label (r_model (snd x)) = fst x) reg"

definition auditable :: "model_meta \<Rightarrow> string \<Rightarrow> bool" where
  "auditable m name \<longleftrightarrow>
     (case m_get_field m name of
        None \<Rightarrow> False
      | Some f \<Rightarrow> f_concrete f \<and> \<not> f_many_to_many f \<and> \<not> f_primary_key f)"

lemma check_audit_field_Inr: "check_audit_field m name = Inr u \<longleftrightarrow> auditable m name"
  by (auto simp: check_audit_field_def auditable_def split: option.splits)

lemma parse_mode_Inr:
  "parse_mode s = Inr md \<longleftrightarrow> (s = ''audit'' \<and> md = AuditMode) \<or> (s = ''enforce'' \<and> md = EnforceMode)"
  by auto

lemma register_model_Inr:
  assumes "register_model m scope_field allow mode_name reg = Inr reg'"
  shows "\<exists>names sf md cfg. allow = Some names \<and> names \<noteq> [] \<and> parse_mode mode_name = Inr md \<and>
    list_all (auditable m) (scope_field # names) \<and> m_get_field m scope_field = Some sf \<and> \<not> f_null sf \<and>
    map_of reg' (m_label m) = Some cfg \<and> r_scope_field cfg = scope_field \<and> r_fields cfg = names \<and>
    r_mode cfg = md \<and>
    (reg' = reg \<or> map_of reg (m_label m) = None \<and> r_model cfg = m \<and> reg' = reg @ [(m_label m, cfg)])"
proof -
  from assms obtain md names where md: "parse_mode mode_name = Inr md"
    and names: "allow = Some names" "names \<noteq> []"
    by (auto simp: register_model_def result_simps split: if_splits option.splits)
  with assms obtain sf where aud: "\<forall>n \<in> set (scope_field # names). check_audit_field m n = Inr ()"
    and sf: "m_get_field m scope_field = Some sf" "\<not> f_null sf"
    by (auto simp: register_model_def result_simps get_field_def split: if_splits option.splits)
  have aud': "list_all (auditable m) (scope_field # names)"
    using aud check_audit_field_Inr by (auto simp: list_all_iff)
  show ?thesis
  proof (cases "map_of reg (m_label m)")
    case None
    let ?cfg = "\<lparr>r_model = m, r_scope_field = scope_field, r_fields = names, r_mode = md\<rparr>"
    have "reg' = reg @ [(m_label m, ?cfg)]"
      using assms None md names sf aud
      by (auto simp: register_model_def result_simps get_field_def split: if_splits)
    with None have "map_of reg' (m_label m) = Some ?cfg" by (simp add: map_add_def)
    with None md names sf aud' \<open>reg' = reg @ [(m_label m, ?cfg)]\<close> show ?thesis by auto
  next
    case (Some old)
    with assms md names sf aud
    have "reg' = reg" "r_scope_field old = scope_field" "r_fields old = names" "r_mode old = md"
      by (auto simp: register_model_def result_simps get_field_def split: if_splits)
    with Some md names sf aud' show ?thesis by auto
  qed
qed

text \<open>What the system check demands of one model.\<close>

definition model_conforms :: "model_meta \<Rightarrow> bool" where
  "model_conforms m \<longleftrightarrow>
     list_all (\<lambda>g. mg_scoped_manager g \<and> mg_scoped_queryset g) (m_managers m) \<and>
     \<not> m_any_many_to_many m \<and>
     list_all (\<lambda>f. f_is_relation f \<longrightarrow> f_on_delete f \<noteq> OtherOnDelete) (m_fields m)"

lemma manager_errors_Nil:
  "manager_errors m = [] \<longleftrightarrow> list_all (\<lambda>g. mg_scoped_manager g \<and> mg_scoped_queryset g) (m_managers m)"
  unfolding manager_errors_def concat_map_Nil by (rule list.pred_cong) auto

lemma relation_errors_Nil:
  "relation_errors m = [] \<longleftrightarrow> list_all (\<lambda>f. f_is_relation f \<longrightarrow> f_on_delete f \<noteq> OtherOnDelete) (m_fields m)"
  unfolding relation_errors_def concat_map_Nil by (rule list.pred_cong) auto

end
