(* ===== verification/Scoped_Query.thy ===== *)
theory Scoped_Query
  imports Model_Registry
begin

text \<open>
  \<open>pyscoped/query.py\<close>: the scoped queryset and manager. A queryset carries the context it was
  created under and the predicate of its WHERE clause; evaluation and mutation first compare
  that context with the current one, by object identity. Mutations snapshot the affected
  rows, write, and append one event per row in one transaction. The compiler's join guard is
  modelled on the SQL text it produces.
\<close>

section \<open>Querysets\<close>

record queryset =
  qs_ctx :: "scope_ctx option"
  qs_where :: "row \<Rightarrow> bool"
  qs_sliced :: bool
  qs_combinator :: bool
  qs_values :: bool

definition same_ctx :: "scope_ctx \<Rightarrow> scope_ctx option \<Rightarrow> bool" where
  "same_ctx ctx qc \<longleftrightarrow> (case qc of None \<Rightarrow> False | Some q \<Rightarrow> ctx_oid q = ctx_oid ctx)"

text \<open>The predicate \<open>filter(**{scope_attname: ctx.scope})\<close> adds.\<close>

definition scope_filter :: "field_info \<Rightarrow> scope_ctx \<Rightarrow> row \<Rightarrow> bool" where
  "scope_filter f ctx r \<longleftrightarrow> r (f_attname f) = f_prep f (PStr (ctx_scope ctx))"

text \<open>\<open>ScopedManager.get_queryset\<close>; \<open>scoped_qs\<close>: the manager's queryset class is a scoped one.\<close>

definition get_queryset ::
  "registry \<Rightarrow> model_meta \<Rightarrow> bool \<Rightarrow> cell \<Rightarrow> py_error + queryset" where
  "get_queryset reg m scoped_qs c =
     bindE (lookup_registration reg m) (\<lambda>cfg.
       let qs = \<lparr>qs_ctx = None, qs_where = (\<lambda>_. True), qs_sliced = False,
                 qs_combinator = False, qs_values = False\<rparr>
       in if \<not> scoped_qs then Inl UnsupportedOperation
          else if r_mode cfg = EnforceMode
          then bindE (require_context c) (\<lambda>ctx.
               bindE (get_field m (r_scope_field cfg)) (\<lambda>f.
                 Inr (qs\<lparr>qs_ctx := Some ctx, qs_where := scope_filter f ctx\<rparr>)))
          else Inr qs)"

text \<open>\<open>_clone\<close> keeps the context, so a filtered queryset does too.\<close>

definition qs_filter :: "(row \<Rightarrow> bool) \<Rightarrow> queryset \<Rightarrow> queryset" where
  "qs_filter P qs = qs\<lparr>qs_where := (\<lambda>r. qs_where qs r \<and> P r)\<rparr>"

definition check_context :: "registry \<Rightarrow> model_meta \<Rightarrow> queryset \<Rightarrow> cell \<Rightarrow> py_error + registration" where
  "check_context reg m qs c =
     bindE (lookup_registration reg m) (\<lambda>cfg.
       if r_mode cfg = EnforceMode
       then bindE (require_context c) (\<lambda>ctx.
              if same_ctx ctx (qs_ctx qs) then Inr cfg else Inl ScopeViolation)
       else Inr cfg)"

definition qs_rows :: "model_meta \<Rightarrow> queryset \<Rightarrow> db \<Rightarrow> row list" where
  "qs_rows m qs d = filter (qs_where qs) (db_rows d (m_label m))"

text \<open>Evaluation: fetching, counting, existence, aggregation by any function of the rows.\<close>

definition qs_fetch :: "registry \<Rightarrow> model_meta \<Rightarrow> queryset \<Rightarrow> cell \<Rightarrow> db \<Rightarrow> py_error + row list" where
  "qs_fetch reg m qs c d = bindE (check_context reg m qs c) (\<lambda>_. Inr (qs_rows m qs d))"

definition qs_count :: "registry \<Rightarrow> model_meta \<Rightarrow> queryset \<Rightarrow> cell \<Rightarrow> db \<Rightarrow> py_error + nat" where
  "qs_count reg m qs c d = bindE (check_context reg m qs c) (\<lambda>_. Inr (length (qs_rows m qs d)))"

definition qs_exists :: "registry \<Rightarrow> model_meta \<Rightarrow> queryset \<Rightarrow> cell \<Rightarrow> db \<Rightarrow> py_error + bool" where
  "qs_exists reg m qs c d = bindE (check_context reg m qs c) (\<lambda>_. Inr (qs_rows m qs d \<noteq> []))"

definition qs_aggregate ::
  "registry \<Rightarrow> model_meta \<Rightarrow> queryset \<Rightarrow> cell \<Rightarrow> (row list \<Rightarrow> 'v) \<Rightarrow> db \<Rightarrow> py_error + 'v" where
  "qs_aggregate reg m qs c agg d = bindE (check_context reg m qs c) (\<lambda>_. Inr (agg (qs_rows m qs d)))"

text \<open>
  \<open>iterator\<close>: the context is checked when iteration starts and again before every item is
  handed out; \<open>cs\<close> is the caller's context at each of those moments.
\<close>

fun qs_iterate :: "registry \<Rightarrow> model_meta \<Rightarrow> queryset \<Rightarrow> cell list \<Rightarrow> row list \<Rightarrow> row list \<times> py_error option" where
  "qs_iterate reg m qs (c # cs) (r # rs) =
     (case check_context reg m qs c of
        Inl e \<Rightarrow> ([], Some e)
      | Inr _ \<Rightarrow> (let (out, err) = qs_iterate reg m qs cs rs in (r # out, err)))"
| "qs_iterate reg m qs cs rs = ([], None)"

definition qs_iterator ::
  "registry \<Rightarrow> model_meta \<Rightarrow> queryset \<Rightarrow> cell \<Rightarrow> cell list \<Rightarrow> db \<Rightarrow> row list \<times> py_error option" where
  "qs_iterator reg m qs c cs d =
     (case check_context reg m qs c of
        Inl e \<Rightarrow> ([], Some e)
      | Inr _ \<Rightarrow> qs_iterate reg m qs cs (qs_rows m qs d))"

text \<open>
  Combining querysets. \<open>None\<close> stands for an operand that is not a scoped queryset.
\<close>

definition check_other ::
  "registry \<Rightarrow> model_meta \<Rightarrow> queryset \<Rightarrow> queryset option \<Rightarrow> cell \<Rightarrow> py_error + queryset" where
  "check_other reg m qs other c =
     bindE (check_context reg m qs c) (\<lambda>_.
       case other of
         None \<Rightarrow> Inl UnsupportedOperation
       | Some o' \<Rightarrow> bindE (check_context reg m o' c) (\<lambda>_. Inr o'))"

definition qs_or :: "registry \<Rightarrow> model_meta \<Rightarrow> queryset \<Rightarrow> queryset option \<Rightarrow> cell \<Rightarrow> py_error + queryset" where
  "qs_or reg m qs other c = bindE (check_other reg m qs other c) (\<lambda>o'.
     Inr (qs\<lparr>qs_where := (\<lambda>r. qs_where qs r \<or> qs_where o' r)\<rparr>))"

definition qs_and :: "registry \<Rightarrow> model_meta \<Rightarrow> queryset \<Rightarrow> queryset option \<Rightarrow> cell \<Rightarrow> py_error + queryset" where
  "qs_and reg m qs other c = bindE (check_other reg m qs other c) (\<lambda>o'.
     Inr (qs\<lparr>qs_where := (\<lambda>r. qs_where qs r \<and> qs_where o' r)\<rparr>))"

definition qs_xor :: "registry \<Rightarrow> model_meta \<Rightarrow> queryset \<Rightarrow> queryset option \<Rightarrow> cell \<Rightarrow> py_error + queryset" where
  "qs_xor reg m qs other c = bindE (check_other reg m qs other c) (\<lambda>o'.
     Inr (qs\<lparr>qs_where := (\<lambda>r. qs_where qs r \<noteq> qs_where o' r)\<rparr>))"

text \<open>
  \<open>union\<close>, \<open>intersection\<close> and \<open>difference\<close> check every operand and give a combined query,
  which \<open>op\<close> evaluates from the operands' predicates.
\<close>

definition qs_combine ::
  "((row \<Rightarrow> bool) \<Rightarrow> (row \<Rightarrow> bool) list \<Rightarrow> row \<Rightarrow> bool) \<Rightarrow>
   registry \<Rightarrow> model_meta \<Rightarrow> queryset \<Rightarrow> queryset option list \<Rightarrow> cell \<Rightarrow> py_error + queryset" where
  "qs_combine op reg m qs others c =
     bindE (mapE (\<lambda>other. check_other reg m qs other c) others) (\<lambda>os.
       Inr (qs\<lparr>qs_where := op (qs_where qs) (map qs_where os), qs_combinator := True\<rparr>))"

definition qs_union :: "registry \<Rightarrow> model_meta \<Rightarrow> queryset \<Rightarrow> queryset option list \<Rightarrow> cell \<Rightarrow> py_error + queryset" where
  "qs_union = qs_combine (\<lambda>w ws r. w r \<or> list_ex (\<lambda>v. v r) ws)"

definition qs_intersection :: "registry \<Rightarrow> model_meta \<Rightarrow> queryset \<Rightarrow> queryset option list \<Rightarrow> cell \<Rightarrow> py_error + queryset" where
  "qs_intersection = qs_combine (\<lambda>w ws r. w r \<and> list_all (\<lambda>v. v r) ws)"

definition qs_difference :: "registry \<Rightarrow> model_meta \<Rightarrow> queryset \<Rightarrow> queryset option list \<Rightarrow> cell \<Rightarrow> py_error + queryset" where
  "qs_difference = qs_combine (\<lambda>w ws r. w r \<and> \<not> list_ex (\<lambda>v. v r) ws)"

definition qs_extra :: "queryset \<Rightarrow> py_error + queryset" where
  "qs_extra qs = Inl UnsupportedOperation"

definition qs_raw :: "queryset \<Rightarrow> py_error + queryset" where
  "qs_raw qs = Inl UnsupportedOperation"

section \<open>Mutations\<close>

definition mutation_config ::
  "registry \<Rightarrow> model_meta \<Rightarrow> queryset \<Rightarrow> string list \<Rightarrow> cell \<Rightarrow> py_error + registration" where
  "mutation_config reg m qs names c =
     bindE (check_context reg m qs c) (\<lambda>_.
     bindE (require_context c) (\<lambda>_.
     bindE (lookup_registration reg m) (\<lambda>cfg.
     bindE (scope_attname cfg) (\<lambda>a.
       if list_ex (\<lambda>n. n \<in> {r_scope_field cfg, a, ''pk'', m_pk_name m}) names
       then Inl UnsupportedOperation
       else if qs_sliced qs \<or> qs_combinator qs \<or> qs_values qs then Inl UnsupportedOperation
       else Inr cfg))))"

text \<open>One key of \<open>_record_bulk\<close>'s loop.\<close>

definition record_one ::
  "host \<Rightarrow> registry \<Rightarrow> registration \<Rightarrow> scope_ctx \<Rightarrow> (pyval \<times> json) list \<Rightarrow> string \<Rightarrow> int \<Rightarrow> pyval \<Rightarrow> db \<Rightarrow> py_error + db" where
  "record_one h reg cfg ctx before action now pk d =
     (case load_row (r_model cfg) pk d of
        None \<Rightarrow> Inl UnsupportedOperation
      | Some r \<Rightarrow>
          bindE (check_scope cfg r ctx) (\<lambda>_.
          bindE (check_relations reg cfg r ctx d) (\<lambda>_.
          bindE (snapshot cfg r) (\<lambda>after.
            append_event h cfg r action
              (case map_of before pk of None \<Rightarrow> JNull | Some b \<Rightarrow> b) after ctx now d))))"

definition record_bulk ::
  "host \<Rightarrow> registry \<Rightarrow> registration \<Rightarrow> cell \<Rightarrow> (pyval \<times> json) list \<Rightarrow> pyval list \<Rightarrow> string \<Rightarrow> int \<Rightarrow> db \<Rightarrow> py_error + db" where
  "record_bulk h reg cfg c before keys action now d =
     bindE (require_context c) (\<lambda>ctx. foldE (record_one h reg cfg ctx before action now) keys d)"

definition snapshots :: "registration \<Rightarrow> row list \<Rightarrow> py_error + (pyval \<times> json) list" where
  "snapshots cfg rs =
     mapE (\<lambda>r. bindE (snapshot cfg r) (\<lambda>s. Inr (row_pk (r_model cfg) r, s))) rs"

text \<open>
  The SQL UPDATE: the assignments of the query are evaluated on the old row.
\<close>

definition assignments ::
  "model_meta \<Rightarrow> (string \<times> (row \<Rightarrow> pyval)) list \<Rightarrow> py_error + (string \<times> (row \<Rightarrow> pyval)) list" where
  "assignments m kwargs =
     mapE (\<lambda>kw. bindE (get_field m (fst kw)) (\<lambda>f. Inr (f_attname f, snd kw))) kwargs"

definition assign :: "(string \<times> (row \<Rightarrow> pyval)) list \<Rightarrow> row \<Rightarrow> row" where
  "assign sets r = (\<lambda>a. case map_of (rev sets) a of None \<Rightarrow> r a | Some e \<Rightarrow> e r)"

definition sql_update :: "model_meta \<Rightarrow> pyval list \<Rightarrow> (row \<Rightarrow> row) \<Rightarrow> db \<Rightarrow> db" where
  "sql_update m keys f d =
     set_rows (m_label m)
       (map (\<lambda>r. if row_pk m r \<in> set keys then f r else r) (db_rows d (m_label m))) d"

definition qs_update ::
  "host \<Rightarrow> registry \<Rightarrow> model_meta \<Rightarrow> queryset \<Rightarrow> cell \<Rightarrow> (string \<times> (row \<Rightarrow> pyval)) list \<Rightarrow> int \<Rightarrow> db \<Rightarrow>
   py_error + nat \<times> db" where
  "qs_update h reg m qs c kwargs now d =
     bindE (mutation_config reg m qs (map fst kwargs) c) (\<lambda>cfg.
       if kwargs = [] then Inr (0, d)
       else
         bindE (snapshots cfg (sort_key (row_pk m) (qs_rows m qs d))) (\<lambda>before.
         bindE (assignments m kwargs) (\<lambda>sets.
           let keys = map fst before;
               d1 = sql_update m keys (assign sets) d
           in bindE (record_bulk h reg cfg c before keys ''update'' now d1) (\<lambda>d2.
                Inr (length (filter (\<lambda>r. row_pk m r \<in> set keys) (db_rows d (m_label m))), d2)))))"

definition qs_delete ::
  "host \<Rightarrow> orm \<Rightarrow> registry \<Rightarrow> model_meta \<Rightarrow> queryset \<Rightarrow> cell \<Rightarrow> int \<Rightarrow> db \<Rightarrow> py_error + nat \<times> db" where
  "qs_delete h orm reg m qs c now d =
     bindE (check_context reg m qs c) (\<lambda>_.
     bindE (require_context c) (\<lambda>_.
     bindE (o_collect orm m (qs_rows m qs d) (db_rows d)) (\<lambda>items.
     bindE (delete_collected h reg c now items d) (\<lambda>d1. Inr (length items, d1)))))"

text \<open>\<open>conflicts\<close>: any of the four conflict-handling arguments was given.\<close>

definition qs_bulk_create ::
  "host \<Rightarrow> orm \<Rightarrow> registry \<Rightarrow> model_meta \<Rightarrow> queryset \<Rightarrow> cell \<Rightarrow> bool \<Rightarrow> row list \<Rightarrow> int \<Rightarrow> db \<Rightarrow>
   py_error + row list \<times> db" where
  "qs_bulk_create h orm reg m qs c conflicts objs now d =
     bindE (mutation_config reg m qs [] c) (\<lambda>cfg.
       if conflicts then Inl UnsupportedOperation
       else
         bindE (require_context c) (\<lambda>ctx.
         bindE (allE (\<lambda>obj. bindE (check_scope cfg obj ctx) (\<lambda>_. check_relations reg cfg obj ctx d)) objs) (\<lambda>_.
         bindE (o_bulk_create orm m objs (db_rows d (m_label m))) (\<lambda>(result, rs).
           let d1 = set_rows (m_label m) rs d
           in if list_ex (\<lambda>obj. row_pk m obj = PNone) result then Inl UnsupportedOperation
              else bindE (record_bulk h reg cfg c [] (map (row_pk m) result) ''create'' now d1) (\<lambda>d2.
                     Inr (result, d2))))))"

text \<open>The UPDATE of \<open>bulk_update\<close>: each selected row takes the named columns of its object.\<close>

definition take_columns :: "model_meta \<Rightarrow> string list \<Rightarrow> row list \<Rightarrow> row \<Rightarrow> row" where
  "take_columns m attnames objs r =
     (case find (\<lambda>obj. row_pk m obj = row_pk m r) objs of
        None \<Rightarrow> r
      | Some obj \<Rightarrow> (\<lambda>a. if a \<in> set attnames then obj a else r a))"

definition qs_bulk_update ::
  "host \<Rightarrow> registry \<Rightarrow> model_meta \<Rightarrow> queryset \<Rightarrow> cell \<Rightarrow> row list \<Rightarrow> string list \<Rightarrow> int \<Rightarrow> db \<Rightarrow>
   py_error + nat \<times> db" where
  "qs_bulk_update h reg m qs c objs names now d =
     bindE (mutation_config reg m qs names c) (\<lambda>cfg.
       if names = [] then Inl ValueError
       else
         let keys = map (row_pk m) objs
         in if list_ex (\<lambda>pk. pk = PNone) keys then Inl ValueError
            else if \<not> distinct keys then Inl UnsupportedOperation
            else
              bindE (require_context c) (\<lambda>ctx.
              let listed = sort_key (row_pk m)
                    (filter (\<lambda>r. row_pk m r \<in> set keys) (db_rows d (m_label m)))
              in bindE (allE (\<lambda>r. bindE (check_scope cfg r ctx) (\<lambda>_. Inr ())) listed) (\<lambda>_.
              bindE (snapshots cfg (sort_key (row_pk m)
                (filter (\<lambda>r. row_pk m r \<in> set keys) (qs_rows m qs d)))) (\<lambda>before.
              bindE (mapE (\<lambda>n. bindE (get_field m n) (\<lambda>f. Inr (f_attname f))) names) (\<lambda>attnames.
                let chosen = map fst before;
                    d1 = sql_update m chosen (take_columns m attnames objs) d
                in bindE (record_bulk h reg cfg c before chosen ''update'' now d1) (\<lambda>d2.
                     Inr (length (filter (\<lambda>r. row_pk m r \<in> set chosen) (db_rows d (m_label m))), d2)))))))"

section \<open>Joins\<close>

record join =
  j_alias :: string
  j_table :: string
  j_has_parent :: bool
  j_sql :: string
  j_params :: "pyval list"

text \<open>
  \<open>_ScopedJoin.as_sql\<close> on a join of an enforced model: \<open>quote\<close> quotes a name, \<open>column\<close> is the
  scope column.
\<close>

definition scoped_join_sql ::
  "(string \<Rightarrow> string) \<Rightarrow> cell \<Rightarrow> scope_ctx \<Rightarrow> field_info \<Rightarrow> string \<Rightarrow> join \<Rightarrow> py_error + string \<times> pyval list" where
  "scoped_join_sql quote c ctx f column j =
     bindE (require_context c) (\<lambda>cur.
       if \<not> same_ctx cur (Some ctx) then Inl ScopeViolation
       else Inr (j_sql j @ '' AND '' @ quote (j_alias j) @ ''.'' @ quote column @ '' = %s'',
                 j_params j @ [f_prep f (PStr (ctx_scope ctx))]))"

text \<open>
  \<open>_CheckedCompiler.get_from_clause\<close>: every join into the table of an enforced model, other
  than the root table, gets the scope condition. \<open>tables\<close> maps the tables of the enforced
  models to their scope field and column.
\<close>

definition get_from_clause ::
  "(string \<Rightarrow> string) \<Rightarrow> (string \<times> field_info \<times> string) list \<Rightarrow> cell \<Rightarrow> scope_ctx option \<Rightarrow> join list \<Rightarrow>
   py_error + (string \<times> pyval list) list" where
  "get_from_clause quote tables c qctx joins =
     (case qctx of
        None \<Rightarrow> Inr (map (\<lambda>j. (j_sql j, j_params j)) joins)
      | Some ctx \<Rightarrow>
          mapE (\<lambda>j.
            case map_of tables (j_table j) of
              Some (f, column) \<Rightarrow>
                if j_has_parent j then scoped_join_sql quote c ctx f column j
                else Inr (j_sql j, j_params j)
            | None \<Rightarrow> Inr (j_sql j, j_params j)) joins)"

text \<open>\<open>_ScopedQuery.check_context\<close>, which the compiler runs again when it renders SQL.\<close>

definition query_check_context :: "scope_ctx option \<Rightarrow> cell \<Rightarrow> py_error + unit" where
  "query_check_context qctx c =
     (case qctx of
        None \<Rightarrow> Inr ()
      | Some ctx \<Rightarrow>
          bindE (require_context c) (\<lambda>cur.
            if same_ctx cur (Some ctx) then Inr () else Inl ScopeViolation))"

definition compile_query ::
  "(string \<Rightarrow> string) \<Rightarrow> (string \<times> field_info \<times> string) list \<Rightarrow> cell \<Rightarrow> scope_ctx option \<Rightarrow> join list \<Rightarrow>
   py_error + (string \<times> pyval list) list" where
  "compile_query quote tables c qctx joins =
     bindE (query_check_context qctx c) (\<lambda>_. get_from_clause quote tables c qctx joins)"

section \<open>Facts about bulk recording\<close>

definition before_of :: "(pyval \<times> json) list \<Rightarrow> pyval \<Rightarrow> json" where
  "before_of before pk = (case map_of before pk of None \<Rightarrow> JNull | Some b \<Rightarrow> b)"

text \<open>What one recorded key leaves behind: the event of the row as it now is.\<close>

definition recorded ::
  "registration \<Rightarrow> scope_ctx \<Rightarrow> (pyval \<times> json) list \<Rightarrow> string \<Rightarrow> db \<Rightarrow> pyval \<Rightarrow> event \<Rightarrow> bool" where
  "recorded cfg ctx before action d pk e \<longleftrightarrow>
     (\<exists>r after. load_row (r_model cfg) pk d = Some r \<and> in_scope_row cfg ctx r \<and>
        snapshot cfg r = Inr after \<and> describes cfg r action (before_of before pk) after ctx e)"

lemma recorded_cong: "db_rows d = db_rows d' \<Longrightarrow> recorded cfg ctx b ac d pk e = recorded cfg ctx b ac d' pk e"
  by (simp add: recorded_def load_row_cong [of d d'])

lemma record_one_spec:
  assumes "record_one h reg cfg ctx before action now pk d = Inr d'"
  shows "audit_ext h d d' \<and> db_rows d' = db_rows d \<and>
    (\<exists>e. db_events d' = db_events d @ [e] \<and> recorded cfg ctx before action d pk e)"
proof -
  from assms obtain r after s where r: "load_row (r_model cfg) pk d = Some r"
    and s: "check_scope cfg r ctx = Inr s" and a: "snapshot cfg r = Inr after"
    and app: "append_event h cfg r action (before_of before pk) after ctx now d = Inr d'"
    by (auto simp: record_one_def before_of_def result_simps split: option.splits)
  have "in_scope_row cfg ctx r" using s by (simp add: in_scope_row_def)
  with append_event_describes [OF app] r a
  have "\<exists>e. db_events d' = db_events d @ [e] \<and> recorded cfg ctx before action d pk e"
    unfolding recorded_def by blast
  with append_event_rows [OF app] audit_ext_append [OF app] show ?thesis by blast
qed

lemma record_keys_spec:
  assumes "foldE (record_one h reg cfg ctx before action now) keys d = Inr d'"
  shows "audit_ext h d d' \<and> db_rows d' = db_rows d \<and>
    (\<exists>es. db_events d' = db_events d @ es \<and> list_all2 (recorded cfg ctx before action d) keys es)"
  using assms
proof (induction keys arbitrary: d)
  case Nil
  then show ?case by (simp add: audit_ext.same)
next
  case (Cons pk keys)
  then obtain d1 where d1: "record_one h reg cfg ctx before action now pk d = Inr d1"
    and rest: "foldE (record_one h reg cfg ctx before action now) keys d1 = Inr d'"
    by (auto simp: result_simps)
  from record_one_spec [OF d1] obtain e where e: "audit_ext h d d1" "db_rows d1 = db_rows d"
    "db_events d1 = db_events d @ [e]" "recorded cfg ctx before action d pk e" by blast
  from Cons.IH [OF rest] obtain es where es: "audit_ext h d1 d'" "db_rows d' = db_rows d1"
    "db_events d' = db_events d1 @ es" "list_all2 (recorded cfg ctx before action d1) keys es" by blast
  have "list_all2 (recorded cfg ctx before action d) keys es"
    using es(4) by (rule list_all2_mono) (simp add: recorded_cong [OF e(2)])
  with e es show ?case by (auto intro: audit_ext_trans intro!: exI [of _ "e # es"])
qed

lemma record_bulk_spec:
  assumes "record_bulk h reg cfg c before keys action now d = Inr d'"
  shows "\<exists>ctx es. c = Some ctx \<and> audit_ext h d d' \<and> db_rows d' = db_rows d \<and>
    db_events d' = db_events d @ es \<and> list_all2 (recorded cfg ctx before action d) keys es"
proof -
  from assms obtain ctx where "c = Some ctx"
    and "foldE (record_one h reg cfg ctx before action now) keys d = Inr d'"
    by (auto simp: record_bulk_def result_simps)
  with record_keys_spec show ?thesis by metis
qed

lemma snapshots_Inr:
  "snapshots cfg rs = Inr before \<Longrightarrow> map fst before = map (row_pk (r_model cfg)) rs"
  unfolding snapshots_def mapE_Inr_iff
  by (induction rs before rule: list_all2_induct) (auto simp: result_simps)

section \<open>Facts about querysets\<close>

lemma check_context_Inr:
  "check_context reg m qs c = Inr cfg \<longleftrightarrow>
   lookup_registration reg m = Inr cfg \<and>
   (r_mode cfg = EnforceMode \<longrightarrow> (\<exists>ctx. c = Some ctx \<and> same_ctx ctx (qs_ctx qs)))"
  by (auto simp: check_context_def result_simps split: if_splits)

lemma mutation_config_Inr:
  "mutation_config reg m qs names c = Inr cfg \<Longrightarrow>
   check_context reg m qs c = Inr cfg \<and> lookup_registration reg m = Inr cfg \<and> c \<noteq> None \<and>
   (\<exists>a. scope_attname cfg = Inr a \<and> a \<notin> set names) \<and> r_scope_field cfg \<notin> set names \<and>
   m_pk_name m \<notin> set names \<and> ''pk'' \<notin> set names \<and>
   \<not> qs_sliced qs \<and> \<not> qs_combinator qs \<and> \<not> qs_values qs"
  by (auto simp: mutation_config_def result_simps check_context_Inr list_ex_iff split: if_splits)

lemma sql_update_rows:
  assumes "distinct (map (row_pk m) (db_rows d (m_label m)))"
    and "set keys = row_pk m ` set (filter P (db_rows d (m_label m)))"
  shows "db_rows (sql_update m keys f d) =
    (db_rows d)(m_label m := map (\<lambda>r. if P r then f r else r) (db_rows d (m_label m)))"
proof -
  have "row_pk m r \<in> set keys \<longleftrightarrow> P r" if "r \<in> set (db_rows d (m_label m))" for r
    using assms that by (auto simp: distinct_map inj_on_def)
  then have "map (\<lambda>r. if row_pk m r \<in> set keys then f r else r) (db_rows d (m_label m)) =
      map (\<lambda>r. if P r then f r else r) (db_rows d (m_label m))"
    by (intro map_cong) auto
  then show ?thesis unfolding sql_update_def set_rows_audit by (simp only:)
qed

lemma keys_of_selected:
  assumes "snapshots cfg (sort_key (row_pk m) (filter P rs)) = Inr before" "r_model cfg = m"
  shows "set (map fst before) = row_pk m ` set (filter P rs)"
proof -
  have "set (map fst before) = set (map (row_pk m) (sort_key (row_pk m) (filter P rs)))"
    using snapshots_Inr [OF assms(1)] assms(2) by simp
  then show ?thesis by simp
qed

lemma qs_update_Inr:
  assumes "qs_update h reg m qs c kwargs now d = Inr (n, d')" "kwargs \<noteq> []"
  shows "\<exists>cfg ctx before sets es.
    mutation_config reg m qs (map fst kwargs) c = Inr cfg \<and> c = Some ctx \<and>
    snapshots cfg (sort_key (row_pk m) (qs_rows m qs d)) = Inr before \<and>
    assignments m kwargs = Inr sets \<and>
    db_rows d' = db_rows (sql_update m (map fst before) (assign sets) d) \<and>
    db_events d' = db_events d @ es \<and>
    list_all2 (recorded cfg ctx before ''update'' d') (map fst before) es \<and>
    n = length (filter (\<lambda>r. row_pk m r \<in> set (map fst before)) (db_rows d (m_label m))) \<and>
    audit_ext h d d'"
proof -
  from assms obtain cfg before sets where
    mc: "mutation_config reg m qs (map fst kwargs) c = Inr cfg"
    and b: "snapshots cfg (sort_key (row_pk m) (qs_rows m qs d)) = Inr before"
    and s: "assignments m kwargs = Inr sets"
    and rb: "record_bulk h reg cfg c before (map fst before) ''update'' now
      (sql_update m (map fst before) (assign sets) d) = Inr d'"
    and n: "n = length (filter (\<lambda>r. row_pk m r \<in> set (map fst before)) (db_rows d (m_label m)))"
    unfolding qs_update_def Let_def by (clarsimp simp: result_simps split: if_splits)
  from record_bulk_spec [OF rb] obtain ctx es where c: "c = Some ctx"
    and ext: "audit_ext h (sql_update m (map fst before) (assign sets) d) d'"
    and rows: "db_rows d' = db_rows (sql_update m (map fst before) (assign sets) d)"
    and es: "db_events d' = db_events (sql_update m (map fst before) (assign sets) d) @ es"
    and rec: "list_all2 (recorded cfg ctx before ''update'' (sql_update m (map fst before) (assign sets) d))
      (map fst before) es"
    by blast
  have "audit_ext h d d'"
    using ext by (rule audit_ext_trans) (simp add: sql_update_def audit_ext_set_rows)
  moreover have "list_all2 (recorded cfg ctx before ''update'' d') (map fst before) es"
    using rec by (rule list_all2_mono) (simp add: recorded_cong [OF rows])
  ultimately show ?thesis using mc c b s rows es n by (simp add: sql_update_def)
qed

interpretation qs_update_op: audited_operation h
  "\<lambda>(m, qs, c, kwargs, now) d. qs_update h reg m qs c kwargs now d" for h reg
proof
  fix i d out d'
  assume run: "(\<lambda>(m, qs, c, kwargs, now) d. qs_update h reg m qs c kwargs now d) i d = Inr (out, d')"
  obtain m qs c kwargs now where i: "i = (m, qs, c, kwargs, now)" by (cases i) auto
  show "audit_ext h d d'"
  proof (cases "kwargs = []")
    case True
    with run i show ?thesis by (auto simp: qs_update_def result_simps intro: audit_ext.same)
  next
    case False
    from run i qs_update_Inr [of h reg m qs c kwargs now d out d', OF _ False] show ?thesis by auto
  qed
qed

interpretation qs_delete_op: audited_operation h
  "\<lambda>(m, qs, c, now) d. qs_delete h orm reg m qs c now d" for h orm reg
proof
  fix i d out d'
  assume "(\<lambda>(m, qs, c, now) d. qs_delete h orm reg m qs c now d) i d = Inr (out, d')"
  then show "audit_ext h d d'"
    by (cases i) (auto simp: qs_delete_def result_simps intro: delete_collected_ext)
qed

lemma record_bulk_ext: "record_bulk h reg cfg c before keys action now d = Inr d' \<Longrightarrow> audit_ext h d d'"
  using record_bulk_spec by blast

interpretation qs_bulk_create_op: audited_operation h
  "\<lambda>(m, qs, c, conflicts, objs, now) d. qs_bulk_create h orm reg m qs c conflicts objs now d" for h orm reg
proof
  fix i d out d'
  assume "(\<lambda>(m, qs, c, conflicts, objs, now) d. qs_bulk_create h orm reg m qs c conflicts objs now d) i d = Inr (out, d')"
  then show "audit_ext h d d'"
    by (cases i) (auto simp: qs_bulk_create_def Let_def result_simps split: if_splits prod.splits
        dest!: record_bulk_ext intro: audit_ext_trans [OF _ audit_ext_set_rows])
qed

lemma audit_ext_sql_update: "audit_ext h d (sql_update m keys f d)"
  by (simp add: sql_update_def audit_ext_set_rows)

interpretation qs_bulk_update_op: audited_operation h
  "\<lambda>(m, qs, c, objs, names, now) d. qs_bulk_update h reg m qs c objs names now d" for h reg
proof
  fix i d out d'
  assume "(\<lambda>(m, qs, c, objs, names, now) d. qs_bulk_update h reg m qs c objs names now d) i d = Inr (out, d')"
  then show "audit_ext h d d'"
    by (cases i) (auto simp: qs_bulk_update_def Let_def result_simps split: if_splits
        dest!: record_bulk_ext intro: audit_ext_trans [OF _ audit_ext_sql_update])
qed

section \<open>Querysets built from the scoped manager\<close>

text \<open>
  \<open>derived_qs reg m ctx qs\<close>: \<open>qs\<close> was built under the context \<open>ctx\<close> from the scoped manager by
  filtering and combining.
\<close>

inductive derived_qs :: "registry \<Rightarrow> model_meta \<Rightarrow> scope_ctx \<Rightarrow> queryset \<Rightarrow> bool" for reg m ctx where
  dq_manager: "get_queryset reg m scoped (Some ctx) = Inr qs \<Longrightarrow> derived_qs reg m ctx qs"
| dq_filter: "derived_qs reg m ctx qs \<Longrightarrow> derived_qs reg m ctx (qs_filter P qs)"
| dq_or: "derived_qs reg m ctx qs \<Longrightarrow> derived_qs reg m ctx other \<Longrightarrow>
    qs_or reg m qs (Some other) c = Inr qs' \<Longrightarrow> derived_qs reg m ctx qs'"
| dq_and: "derived_qs reg m ctx qs \<Longrightarrow> qs_and reg m qs other c = Inr qs' \<Longrightarrow> derived_qs reg m ctx qs'"
| dq_xor: "derived_qs reg m ctx qs \<Longrightarrow> derived_qs reg m ctx other \<Longrightarrow>
    qs_xor reg m qs (Some other) c = Inr qs' \<Longrightarrow> derived_qs reg m ctx qs'"
| dq_union: "derived_qs reg m ctx qs \<Longrightarrow> derived_qs reg m ctx other \<Longrightarrow>
    qs_union reg m qs [Some other] c = Inr qs' \<Longrightarrow> derived_qs reg m ctx qs'"
| dq_intersection: "derived_qs reg m ctx qs \<Longrightarrow> qs_intersection reg m qs others c = Inr qs' \<Longrightarrow>
    derived_qs reg m ctx qs'"
| dq_difference: "derived_qs reg m ctx qs \<Longrightarrow> qs_difference reg m qs others c = Inr qs' \<Longrightarrow>
    derived_qs reg m ctx qs'"

lemma check_other_Some: "check_other reg m qs (Some other) c = Inr o' \<Longrightarrow> o' = other"
  by (auto simp: check_other_def result_simps)

lemma derived_qs_scoped:
  assumes "derived_qs reg m ctx qs" "lookup_registration reg m = Inr cfg" "r_mode cfg = EnforceMode"
    and "get_field m (r_scope_field cfg) = Inr f"
  shows "qs_ctx qs = Some ctx \<and> (\<forall>r. qs_where qs r \<longrightarrow> scope_filter f ctx r)"
  using assms
proof (induction rule: derived_qs.induct)
  case (dq_manager scoped qs)
  then show ?case by (auto simp: get_queryset_def Let_def result_simps split: if_splits)
next
  case (dq_union qs other c qs')
  then show ?case
    by (auto simp: qs_union_def qs_combine_def result_simps mapE_Inr_iff dest!: check_other_Some
        split: sum.splits)
next
  case (dq_or qs other c qs')
  then show ?case by (auto simp: qs_or_def result_simps dest!: check_other_Some)
next
  case (dq_xor qs other c qs')
  then show ?case by (auto simp: qs_xor_def result_simps dest!: check_other_Some)
qed (auto simp: qs_filter_def qs_and_def qs_intersection_def qs_difference_def qs_combine_def result_simps)

end
