(* ===== verification/History_Ops.thy ===== *)
theory History_Ops
  imports Scoped_Query
begin

text \<open>
  \<open>pyscoped/history.py\<close> and the \<open>pyscoped_backfill\<close> command: authorised history reads,
  verification against the retained head, the baseline of existing rows and the restoration
  of scalar fields. \<open>backfill\<close> commits row by row, so its result pairs the outcome with the
  database it leaves.
\<close>

section \<open>Reading and verifying\<close>

definition history_resource ::
  "registry \<Rightarrow> model_meta \<Rightarrow> cell \<Rightarrow> pyval \<Rightarrow> db \<Rightarrow> py_error + (res_key \<times> resource) option" where
  "history_resource reg m c pk d =
     bindE (lookup_registration reg m) (\<lambda>cfg.
     bindE (require_context c) (\<lambda>ctx.
     bindE (identity_value pk) (\<lambda>opk.
       case db_resources d (m_label m, opk) of
         None \<Rightarrow> Inr None
       | Some res \<Rightarrow>
           bindE (get_field m (r_scope_field cfg)) (\<lambda>f.
           bindE (to_python (scope_conv f) (res_scope res)) (\<lambda>x.
           bindE (to_python (scope_conv f) (ctx_scope ctx)) (\<lambda>y.
             if x \<noteq> y then Inl ScopeViolation else Inr (Some ((m_label m, opk), res))))))))"

definition ordered_events :: "res_key \<Rightarrow> db \<Rightarrow> event list" where
  "ordered_events key d = sort_key ev_revision (events_of key d)"

definition history :: "registry \<Rightarrow> model_meta \<Rightarrow> cell \<Rightarrow> pyval \<Rightarrow> db \<Rightarrow> py_error + event list" where
  "history reg m c pk d =
     bindE (history_resource reg m c pk d) (\<lambda>r.
       case r of None \<Rightarrow> Inr [] | Some (key, res) \<Rightarrow> Inr (ordered_events key d))"

record verification =
  vf_valid :: bool
  vf_events :: nat
  vf_detail :: string

text \<open>
  The loop of \<open>verify_history\<close>: \<open>Inl\<close> of the first revision whose event is invalid, or \<open>Inr\<close> of
  the last digest.
\<close>

fun verify_events :: "host \<Rightarrow> string \<Rightarrow> nat \<Rightarrow> string \<Rightarrow> event list \<Rightarrow> nat + string" where
  "verify_events h scope revision previous [] = Inr previous"
| "verify_events h scope revision previous (e # es) =
     (if ev_revision e \<noteq> revision \<or> ev_previous_digest e \<noteq> previous \<or> ev_scope e \<noteq> scope
         \<or> ev_digest e \<noteq> event_digest h e
      then Inl revision
      else verify_events h scope (revision + 1) (ev_digest e) es)"

definition verify_history ::
  "host \<Rightarrow> registry \<Rightarrow> model_meta \<Rightarrow> cell \<Rightarrow> pyval \<Rightarrow> db \<Rightarrow> py_error + verification" where
  "verify_history h reg m c pk d =
     bindE (history_resource reg m c pk d) (\<lambda>r.
       case r of
         None \<Rightarrow> Inr \<lparr>vf_valid = False, vf_events = 0, vf_detail = ''No history exists.''\<rparr>
       | Some (key, res) \<Rightarrow>
           let es = ordered_events key d
           in case verify_events h (res_scope res) 1 '''' es of
                Inl n \<Rightarrow> Inr \<lparr>vf_valid = False, vf_events = length es,
                            vf_detail = ''Invalid event at revision '' @ show_nat n @ ''.''\<rparr>
              | Inr previous \<Rightarrow>
                  if res_revision res \<noteq> length es \<or> res_digest res \<noteq> previous
                  then Inr \<lparr>vf_valid = False, vf_events = length es,
                            vf_detail = ''Head does not match retained events.''\<rparr>
                  else Inr \<lparr>vf_valid = True, vf_events = length es, vf_detail = ''''\<rparr>)"

section \<open>Backfill\<close>

record backfill_result =
  bf_examined :: nat
  bf_pending :: nat
  bf_created :: nat
  bf_skipped :: nat
  bf_dry_run :: bool

definition has_history :: "registration \<Rightarrow> string \<Rightarrow> db \<Rightarrow> bool" where
  "has_history cfg opk d =
     (case db_resources d (m_label (r_model cfg), opk) of
        None \<Rightarrow> False
      | Some res \<Rightarrow> res_revision res > 0)"

text \<open>One row of the baseline, in its own transaction.\<close>

definition backfill_one ::
  "host \<Rightarrow> registration \<Rightarrow> scope_ctx \<Rightarrow> int \<Rightarrow> pyval \<Rightarrow> backfill_result \<Rightarrow> db \<Rightarrow>
   py_error + backfill_result \<times> db" where
  "backfill_one h cfg ctx now pk acc0 d =
     (let acc = acc0\<lparr>bf_examined := bf_examined acc0 + 1\<rparr>
      in case load_row (r_model cfg) pk d of
           None \<Rightarrow> Inr (acc\<lparr>bf_skipped := bf_skipped acc + 1\<rparr>, d)
         | Some r \<Rightarrow>
             bindE (check_scope cfg r ctx) (\<lambda>_.
             bindE (identity_value pk) (\<lambda>opk.
               if has_history cfg opk d then Inr (acc\<lparr>bf_skipped := bf_skipped acc + 1\<rparr>, d)
               else
                 let acc1 = acc\<lparr>bf_pending := bf_pending acc + 1\<rparr>
                 in if bf_dry_run acc then Inr (acc1, d)
                    else bindE (snapshot cfg r) (\<lambda>after.
                         bindE (append_event h cfg r ''baseline'' JNull after ctx now d) (\<lambda>d1.
                           Inr (acc1\<lparr>bf_created := bf_created acc1 + 1\<rparr>, d1))))))"

fun backfill_loop ::
  "host \<Rightarrow> registration \<Rightarrow> scope_ctx \<Rightarrow> int \<Rightarrow> pyval list \<Rightarrow> backfill_result \<Rightarrow> db \<Rightarrow>
   (py_error + backfill_result) \<times> db" where
  "backfill_loop h cfg ctx now [] acc d = (Inr acc, d)"
| "backfill_loop h cfg ctx now (pk # pks) acc d =
     (case backfill_one h cfg ctx now pk acc d of
        Inl e \<Rightarrow> (Inl e, d)
      | Inr (acc', d') \<Rightarrow> backfill_loop h cfg ctx now pks acc' d')"

definition backfill_pks :: "registration \<Rightarrow> field_info \<Rightarrow> scope_ctx \<Rightarrow> db \<Rightarrow> pyval list" where
  "backfill_pks cfg f ctx d =
     map (row_pk (r_model cfg)) (sort_key (row_pk (r_model cfg))
       (filter (scope_filter f ctx) (db_rows d (m_label (r_model cfg)))))"

definition backfill ::
  "host \<Rightarrow> registry \<Rightarrow> model_meta \<Rightarrow> cell \<Rightarrow> bool \<Rightarrow> int \<Rightarrow> int \<Rightarrow> db \<Rightarrow>
   (py_error + backfill_result) \<times> db" where
  "backfill h reg m c dry_run batch_size now d =
     (case bindE (require_context c) (\<lambda>ctx.
           bindE (lookup_registration reg m) (\<lambda>cfg.
             if batch_size < 1 then Inl ValueError
             else bindE (get_field (r_model cfg) (r_scope_field cfg)) (\<lambda>f. Inr (ctx, cfg, f)))) of
        Inl e \<Rightarrow> (Inl e, d)
      | Inr (ctx, cfg, f) \<Rightarrow>
          backfill_loop h cfg ctx now (backfill_pks cfg f ctx d)
            \<lparr>bf_examined = 0, bf_pending = 0, bf_created = 0, bf_skipped = 0, bf_dry_run = dry_run\<rparr> d)"

text \<open>
  The management command: \<open>apps\<close> is Django's app registry, \<open>CommandError\<close> an \<open>AppError\<close>.
\<close>

definition backfill_command ::
  "host \<Rightarrow> registry \<Rightarrow> (string \<Rightarrow> model_meta option) \<Rightarrow> nat \<Rightarrow> string \<Rightarrow> string \<Rightarrow> string \<Rightarrow> string \<Rightarrow>
   bool \<Rightarrow> int \<Rightarrow> int \<Rightarrow> cell \<Rightarrow> db \<Rightarrow> (py_error + backfill_result) \<times> cell \<times> db" where
  "backfill_command h reg apps oid model actor scope reason apply_flag batch_size now c d =
     (case apps model of
        None \<Rightarrow> (Inl (AppError ''CommandError''), c, d)
      | Some m \<Rightarrow>
          (case scope_new oid (Val (PStr actor)) (Val (PStr scope)) (PStr reason) (PStr '''') of
             Inl e \<Rightarrow> (Inl e, c, d)
           | Inr mgr \<Rightarrow>
               (case with_scope mgr (\<lambda>c1. (Inr (backfill h reg m c1 (\<not> apply_flag) batch_size now d), c1)) c of
                  (Inl e, _, c2) \<Rightarrow> (Inl e, c2, d)
                | (Inr (r, d'), _, c2) \<Rightarrow> (r, c2, d'))))"

section \<open>Restoration\<close>

definition json_scalar :: "json \<Rightarrow> pyval option" where
  "json_scalar j =
     (case j of JNull \<Rightarrow> Some PNone | JBool b \<Rightarrow> Some (PBool b) | JInt i \<Rightarrow> Some (PInt i)
      | JStr s \<Rightarrow> Some (PStr s) | _ \<Rightarrow> None)"

definition json_members :: "json \<Rightarrow> (string \<times> json) list" where
  "json_members j = (case j of JObj kvs \<Rightarrow> kvs | _ \<Rightarrow> [])"

text \<open>
  The loop over the registered fields: \<open>target\<close> are the members of the recorded state. A
  scope field or relation must already have the recorded value, any other field is set.
\<close>

fun restore_fields ::
  "registration \<Rightarrow> (string \<times> json) list \<Rightarrow> string list \<Rightarrow> row \<Rightarrow> string list \<Rightarrow> py_error + row \<times> string list" where
  "restore_fields cfg target [] r updates = Inr (r, updates)"
| "restore_fields cfg target (name # names) r updates =
     bindE (get_field (r_model cfg) name) (\<lambda>f.
       if name = r_scope_field cfg \<or> f_is_relation f
       then bindE (snapshot cfg r) (\<lambda>cur.
              if map_of target name \<noteq> map_of (json_members cur) name then Inl UnsupportedOperation
              else restore_fields cfg target names r updates)
       else (case Option.bind (Option.bind (map_of target name) json_scalar) (f_to_python f) of
               None \<Rightarrow> Inl ValidationError
             | Some v \<Rightarrow> restore_fields cfg target names (r(f_attname f := v)) (updates @ [name])))"

text \<open>
  \<open>restore\<close> in three steps: the live row and its verified history; the recorded state to go
  back to; the field updates and the save under the \<open>restore\<close> action.
\<close>

definition restore_live ::
  "host \<Rightarrow> registry \<Rightarrow> model_meta \<Rightarrow> cell \<Rightarrow> pyval \<Rightarrow> nat \<Rightarrow> db \<Rightarrow> py_error + registration \<times> row \<times> event list" where
  "restore_live h reg m c pk expected_revision d =
     bindE (lookup_registration reg m) (\<lambda>cfg.
     bindE (require_context c) (\<lambda>ctx.
     case load_row m pk d of
       None \<Rightarrow> Inl HistoryConflict
     | Some r \<Rightarrow>
         bindE (check_scope cfg r ctx) (\<lambda>_.
         bindE (history_resource reg m c pk d) (\<lambda>res.
         case res of
           None \<Rightarrow> Inl HistoryConflict
         | Some (key, resource) \<Rightarrow>
             if res_revision resource \<noteq> expected_revision then Inl HistoryConflict
             else
               bindE (verify_history h reg m c pk d) (\<lambda>v.
                 if \<not> vf_valid v then Inl HistoryConflict
                 else bindE (history reg m c pk d) (\<lambda>es. Inr (cfg, r, es)))))))"

definition restore_target ::
  "registration \<Rightarrow> row \<Rightarrow> event list \<Rightarrow> nat \<Rightarrow> py_error + (string \<times> json) list" where
  "restore_target cfg r es revision =
     (if es = [] then Inl HistoryConflict
      else bindE (snapshot cfg r) (\<lambda>cur.
        if cur \<noteq> json_canon (ev_after (last es)) then Inl HistoryConflict
        else
          case find (\<lambda>e. ev_revision e = revision) es of
            None \<Rightarrow> Inl HistoryConflict
          | Some target \<Rightarrow>
              if ev_after target = JNull then Inl HistoryConflict
              else if set (map fst (json_members (ev_after target))) \<noteq> set (r_fields cfg)
              then Inl HistoryConflict
              else Inr (json_members (ev_after target))))"

definition restore ::
  "host \<Rightarrow> orm \<Rightarrow> registry \<Rightarrow> model_meta \<Rightarrow> cell \<Rightarrow> pyval \<Rightarrow> nat \<Rightarrow> nat \<Rightarrow> int \<Rightarrow> db \<Rightarrow> py_error + row \<times> db" where
  "restore h orm reg m c pk revision expected_revision now d =
     bindE (restore_live h reg m c pk expected_revision d) (\<lambda>(cfg, r, es).
     bindE (restore_target cfg r es revision) (\<lambda>target.
     bindE (restore_fields cfg target (r_fields cfg) r []) (\<lambda>(r', updates).
       if updates = [] then Inl UnsupportedOperation
       else
         bindE (model_save h orm reg cfg c
           \<lparr>sr_raw = False, sr_update_fields = Some updates,
            sr_override = Some (m_label m, row_pk m r', ''restore''), sr_now = now\<rparr> r' d)
           (\<lambda>(saved, d'). Inr (r', d')))))"

section \<open>Facts about verification\<close>

lemma verify_events_Inr:
  "verify_events h scope n p es = Inr q \<longleftrightarrow>
   map ev_revision es = [n..<n + length es] \<and> linked ev_previous_digest ev_digest (event_digest h) p es \<and>
   list_all (\<lambda>e. ev_scope e = scope) es \<and> q = last_digest ev_digest p es"
proof (induction es arbitrary: n p)
  case (Cons e es)
  have "[n..<n + length (e # es)] = n # [Suc n..<Suc n + length es]"
    by (simp add: upt_rec)
  with Cons.IH [of "Suc n" "ev_digest e"] show ?case by auto
qed auto

text \<open>
  Verification answers yes exactly when the stored events, in revision order, form a chain
  that ends in the resource's head.
\<close>

definition history_intact :: "host \<Rightarrow> resource \<Rightarrow> event list \<Rightarrow> bool" where
  "history_intact h res es \<longleftrightarrow>
     map ev_revision es = [1..<Suc (length es)] \<and>
     linked ev_previous_digest ev_digest (event_digest h) '''' es \<and>
     list_all (\<lambda>e. ev_scope e = res_scope res) es \<and>
     res_revision res = length es \<and> res_digest res = last_digest ev_digest '''' es"

lemma verify_history_valid:
  assumes "history_resource reg m c pk d = Inr (Some (key, res))"
  shows "(\<exists>v. verify_history h reg m c pk d = Inr v \<and> vf_valid v) \<longleftrightarrow>
    history_intact h res (ordered_events key d)"
proof (cases "verify_events h (res_scope res) 1 '''' (ordered_events key d)")
  case (Inl n)
  then have "\<not> history_intact h res (ordered_events key d)"
    using verify_events_Inr [of h "res_scope res" 1 "''''" "ordered_events key d" "res_digest res"]
    by (auto simp: history_intact_def)
  with Inl assms show ?thesis by (simp add: verify_history_def Let_def)
next
  case (Inr q)
  with assms show ?thesis
    using verify_events_Inr [of h "res_scope res" 1 "''''" "ordered_events key d" q]
    by (auto simp: verify_history_def Let_def history_intact_def)
qed

lemma chain_ok_ordered:
  assumes "chain_ok h d key"
  shows "ordered_events key d = events_of key d"
proof -
  have "sorted (map ev_revision (events_of key d))"
    using assms by (auto simp: chain_ok_def Let_def simp del: upt_Suc split: option.splits)
  then show ?thesis by (simp add: ordered_events_def sort_key_sorted)
qed

lemma chain_ok_intact:
  assumes "chain_ok h d key" "db_resources d key = Some res"
  shows "history_intact h res (ordered_events key d)"
  using assms chain_ok_ordered [OF assms(1)]
  by (simp add: chain_ok_def history_intact_def Let_def)

lemma history_resource_Some:
  "history_resource reg m c pk d = Inr (Some (key, res)) \<Longrightarrow>
   db_resources d key = Some res \<and> fst key = m_label m \<and> identity_value pk = Inr (snd key)"
  by (auto simp: history_resource_def result_simps split: option.splits if_splits)

lemma history_resource_rows:
  "history_resource reg m c pk d = Inr None \<Longrightarrow>
   \<exists>opk. identity_value pk = Inr opk \<and> db_resources d (m_label m, opk) = None"
  by (auto simp: history_resource_def result_simps split: option.splits if_splits)

section \<open>Facts about backfill\<close>

lemma backfill_one_ext: "backfill_one h cfg ctx now pk acc d = Inr (acc', d') \<Longrightarrow> audit_ext h d d'"
  by (auto simp: backfill_one_def Let_def result_simps split: option.splits if_splits
      intro: audit_ext.same audit_ext_append)

lemma backfill_one_rows: "backfill_one h cfg ctx now pk acc d = Inr (acc', d') \<Longrightarrow> db_rows d' = db_rows d"
  by (auto simp: backfill_one_def Let_def result_simps split: option.splits if_splits
      dest: append_event_rows)

lemma backfill_loop_ext: "audit_ext h d (snd (backfill_loop h cfg ctx now pks acc d))"
proof (induction pks arbitrary: acc d)
  case (Cons pk pks)
  show ?case
  proof (cases "backfill_one h cfg ctx now pk acc d")
    case (Inr p)
    then obtain acc' d' where p: "backfill_one h cfg ctx now pk acc d = Inr (acc', d')" by (cases p) auto
    with Cons.IH [of d' acc'] backfill_one_ext [OF p] show ?thesis by (auto intro: audit_ext_trans)
  qed (simp add: audit_ext.same)
qed (simp add: audit_ext.same)

lemma backfill_ext: "audit_ext h d (snd (backfill h reg m c dry batch now d))"
  by (auto simp: backfill_def backfill_loop_ext audit_ext.same split: sum.splits prod.splits)

interpretation backfill_op: audited_operation h
  "\<lambda>(m, c, dry, batch, now) d. let (r, d') = backfill h reg m c dry batch now d in Inr (r, d')"
  for h reg
proof
  fix i d out d'
  assume "(\<lambda>(m, c, dry, batch, now) d. let (r, d') = backfill h reg m c dry batch now d in Inr (r, d')) i d
    = Inr (out, d')"
  then show "audit_ext h d d'"
    using backfill_ext [of h d reg] by (cases i) (auto simp: Let_def split: prod.splits, metis snd_conv)
qed

section \<open>Facts about restoration\<close>

lemma restore_live_Inr:
  assumes "restore_live h reg m c pk expected d = Inr (cfg, r, es)"
  shows "\<exists>ctx key res. lookup_registration reg m = Inr cfg \<and> c = Some ctx \<and>
    load_row m pk d = Some r \<and> in_scope_row cfg ctx r \<and>
    db_resources d key = Some res \<and> fst key = m_label m \<and> identity_value pk = Inr (snd key) \<and>
    res_revision res = expected \<and> es = ordered_events key d \<and> history_intact h res es"
proof -
  from assms obtain ctx s key res where 1: "lookup_registration reg m = Inr cfg" "c = Some ctx"
    "load_row m pk d = Some r" "check_scope cfg r ctx = Inr s"
    and hr: "history_resource reg m c pk d = Inr (Some (key, res))" and "res_revision res = expected"
    unfolding restore_live_def
    by (auto simp: result_simps split: option.splits if_splits prod.splits) blast
  with assms have "\<exists>v. verify_history h reg m c pk d = Inr v \<and> vf_valid v" "history reg m c pk d = Inr es"
    by (auto simp: restore_live_def result_simps split: if_splits)
  then have "es = ordered_events key d" "history_intact h res (ordered_events key d)"
    using hr verify_history_valid [OF hr] by (auto simp: history_def)
  with 1 \<open>res_revision res = expected\<close> history_resource_Some [OF hr] show ?thesis
    unfolding in_scope_row_def is_ok_iff by blast
qed

lemma restore_target_Inr:
  "restore_target cfg r es revision = Inr target \<Longrightarrow>
   es \<noteq> [] \<and> snapshot cfg r = Inr (json_canon (ev_after (last es))) \<and>
   (\<exists>e \<in> set es. ev_revision e = revision \<and> target = json_members (ev_after e)) \<and>
   set (map fst target) = set (r_fields cfg)"
  by (auto simp: restore_target_def result_simps split: if_splits option.splits dest!: find_SomeD)

lemma restore_Inr:
  "restore h orm reg m c pk revision expected now d = Inr (r', d') \<Longrightarrow>
   \<exists>cfg r es target updates saved.
     restore_live h reg m c pk expected d = Inr (cfg, r, es) \<and>
     restore_target cfg r es revision = Inr target \<and>
     restore_fields cfg target (r_fields cfg) r [] = Inr (r', updates) \<and> updates \<noteq> [] \<and>
     model_save h orm reg cfg c \<lparr>sr_raw = False, sr_update_fields = Some updates,
       sr_override = Some (m_label m, row_pk m r', ''restore''), sr_now = now\<rparr> r' d = Inr (saved, d')"
  unfolding restore_def by (auto simp: result_simps split: if_splits prod.splits)

interpretation restore_op: audited_operation h
  "\<lambda>(m, c, pk, revision, expected, now) d. restore h orm reg m c pk revision expected now d"
  for h orm reg
proof
  fix i d out d'
  assume run: "(\<lambda>(m, c, pk, revision, expected, now) d. restore h orm reg m c pk revision expected now d) i d
    = Inr (out, d')"
  obtain m c pk revision expected now where i: "i = (m, c, pk, revision, expected, now)" by (cases i) auto
  with run have "restore h orm reg m c pk revision expected now d = Inr (out, d')" by simp
  from restore_Inr [OF this] obtain cfg req r saved where
    "model_save h orm reg cfg c req r d = Inr (saved, d')" by blast
  then show "audit_ext h d d'"
    using model_save_op.run_ext [of h orm reg "(cfg, c, req, r)" d saved d'] by simp
qed

section \<open>Backfill is idempotent\<close>

text \<open>A row that a completed baseline has dealt with.\<close>

definition bf_done :: "registration \<Rightarrow> scope_ctx \<Rightarrow> db \<Rightarrow> pyval \<Rightarrow> bool" where
  "bf_done cfg ctx d pk \<longleftrightarrow>
     (case load_row (r_model cfg) pk d of
        None \<Rightarrow> True
      | Some r \<Rightarrow> in_scope_row cfg ctx r \<and>
          (\<exists>opk. identity_value pk = Inr opk \<and> has_history cfg opk d))"

lemma has_history_mono: "audit_ext h d d' \<Longrightarrow> has_history cfg opk d \<Longrightarrow> has_history cfg opk d'"
  by (auto simp: has_history_def split: option.splits dest!: audit_ext_scope_stable)

lemma bf_done_mono:
  "audit_ext h d d' \<Longrightarrow> db_rows d' = db_rows d \<Longrightarrow> bf_done cfg ctx d pk \<Longrightarrow> bf_done cfg ctx d' pk"
  by (auto simp: bf_done_def load_row_cong [of d' d] split: option.splits intro: has_history_mono)

lemma append_event_history:
  "append_event h cfg r ac b a ctx now d = Inr d' \<Longrightarrow> identity_value (row_pk (r_model cfg) r) = Inr opk \<Longrightarrow>
   has_history cfg opk d'"
  by (drule append_event_Inr) (auto simp: appended_def describes_def has_history_def prod_eq_iff split: option.splits)

lemma backfill_one_done:
  assumes "backfill_one h cfg ctx now pk acc d = Inr (acc', d')" "\<not> bf_dry_run acc"
  shows "bf_done cfg ctx d' pk"
proof (cases "load_row (r_model cfg) pk d")
  case None
  with assms show ?thesis by (simp add: backfill_one_def bf_done_def)
next
  case (Some r)
  from assms Some obtain s opk where "check_scope cfg r ctx = Inr s" and opk: "identity_value pk = Inr opk"
    by (auto simp: backfill_one_def Let_def result_simps)
  then have "in_scope_row cfg ctx r" by (simp add: in_scope_row_def)
  moreover have "has_history cfg opk d'"
  proof (cases "has_history cfg opk d")
    case True
    with assms Some opk show ?thesis by (auto simp: backfill_one_def Let_def result_simps)
  next
    case False
    with assms Some opk obtain after where "append_event h cfg r ''baseline'' JNull after ctx now d = Inr d'"
      by (auto simp: backfill_one_def Let_def result_simps)
    then show ?thesis
      by (rule append_event_history) (use opk load_row_pk [OF Some] in simp)
  qed
  moreover have "load_row (r_model cfg) pk d' = Some r"
    using Some load_row_cong [OF backfill_one_rows [OF assms(1)]] by simp
  ultimately show ?thesis using opk by (auto simp: bf_done_def)
qed

lemma backfill_one_counts:
  "backfill_one h cfg ctx now pk acc d = Inr (acc', d') \<Longrightarrow>
   bf_dry_run acc' = bf_dry_run acc \<and> bf_examined acc' = Suc (bf_examined acc) \<and>
   bf_pending acc' + bf_skipped acc' = Suc (bf_pending acc + bf_skipped acc) \<and>
   (\<not> bf_dry_run acc \<longrightarrow> bf_created acc' + bf_pending acc = bf_created acc + bf_pending acc')"
  by (auto simp: backfill_one_def Let_def result_simps split: option.splits if_splits)

lemma backfill_loop_rows: "db_rows (snd (backfill_loop h cfg ctx now pks acc d)) = db_rows d"
  by (induction pks arbitrary: acc d) (auto split: sum.splits prod.splits dest: backfill_one_rows)

lemma backfill_loop_done:
  assumes "backfill_loop h cfg ctx now pks acc d = (Inr res, d')" "\<not> bf_dry_run acc"
  shows "\<forall>pk \<in> set pks. bf_done cfg ctx d' pk"
  using assms
proof (induction pks arbitrary: acc d)
  case (Cons pk pks)
  from Cons.prems(1) obtain acc1 d1 where one: "backfill_one h cfg ctx now pk acc d = Inr (acc1, d1)"
    and rest: "backfill_loop h cfg ctx now pks acc1 d1 = (Inr res, d')"
    by (auto split: sum.splits)
  have dry: "\<not> bf_dry_run acc1" using backfill_one_counts [OF one] Cons.prems(2) by simp
  have ext: "audit_ext h d1 d'" using backfill_loop_ext [of h d1 cfg ctx now pks acc1] rest by simp
  have rows: "db_rows d' = db_rows d1" using backfill_loop_rows [of h cfg ctx now pks acc1 d1] rest by simp
  have "bf_done cfg ctx d' pk"
    by (rule bf_done_mono [OF ext rows backfill_one_done [OF one Cons.prems(2)]])
  with Cons.IH [OF rest dry] show ?case by simp
qed simp

lemma backfill_loop_counts:
  "backfill_loop h cfg ctx now pks acc d = (Inr res, d') \<Longrightarrow>
   bf_dry_run res = bf_dry_run acc \<and> bf_examined res = bf_examined acc + length pks \<and>
   bf_pending res + bf_skipped res = bf_pending acc + bf_skipped acc + length pks \<and>
   (\<not> bf_dry_run acc \<longrightarrow> bf_created res + bf_pending acc = bf_created acc + bf_pending res)"
proof (induction pks arbitrary: acc d)
  case (Cons pk pks)
  from Cons.prems obtain acc1 d1 where one: "backfill_one h cfg ctx now pk acc d = Inr (acc1, d1)"
    and rest: "backfill_loop h cfg ctx now pks acc1 d1 = (Inr res, d')"
    by (auto split: sum.splits)
  from Cons.IH [OF rest] backfill_one_counts [OF one] show ?case by auto
qed simp

lemma backfill_one_skip:
  "bf_done cfg ctx d pk \<Longrightarrow> backfill_one h cfg ctx now pk acc d =
   Inr (acc\<lparr>bf_examined := Suc (bf_examined acc), bf_skipped := Suc (bf_skipped acc)\<rparr>, d)"
  by (auto simp: bf_done_def backfill_one_def in_scope_row_def is_ok_iff Let_def split: option.splits)

lemma backfill_loop_skip:
  "\<forall>pk \<in> set pks. bf_done cfg ctx d pk \<Longrightarrow> backfill_loop h cfg ctx now pks acc d =
   (Inr (acc\<lparr>bf_examined := bf_examined acc + length pks, bf_skipped := bf_skipped acc + length pks\<rparr>), d)"
proof (induction pks arbitrary: acc)
  case (Cons pk pks)
  then show ?case by (simp add: backfill_one_skip)
qed simp

lemma backfill_loop_dry: "bf_dry_run acc \<Longrightarrow> snd (backfill_loop h cfg ctx now pks acc d) = d"
proof (induction pks arbitrary: acc)
  case (Cons pk pks)
  show ?case
  proof (cases "backfill_one h cfg ctx now pk acc d")
    case (Inr p)
    obtain acc1 d1 where "p = (acc1, d1)" by (cases p)
    with Inr have one: "backfill_one h cfg ctx now pk acc d = Inr (acc1, d1)" by simp
    then have "d1 = d" using Cons.prems
      by (auto simp: backfill_one_def Let_def result_simps split: option.splits if_splits)
    with one Cons backfill_one_counts [OF one] show ?thesis by simp
  qed simp
qed simp

section \<open>What restoration sets\<close>

definition restorable :: "registration \<Rightarrow> string \<Rightarrow> bool" where
  "restorable cfg name \<longleftrightarrow>
     (case m_get_field (r_model cfg) name of
        None \<Rightarrow> False
      | Some f \<Rightarrow> name \<noteq> r_scope_field cfg \<and> \<not> f_is_relation f)"

definition attname_of :: "registration \<Rightarrow> string \<Rightarrow> string" where
  "attname_of cfg name = (case m_get_field (r_model cfg) name of None \<Rightarrow> [] | Some f \<Rightarrow> f_attname f)"

definition recorded_value :: "registration \<Rightarrow> (string \<times> json) list \<Rightarrow> string \<Rightarrow> pyval option" where
  "recorded_value cfg target name =
     (case m_get_field (r_model cfg) name of
        None \<Rightarrow> None
      | Some f \<Rightarrow> Option.bind (Option.bind (map_of target name) json_scalar) (f_to_python f))"

lemma get_field_Inr: "get_field m name = Inr f \<longleftrightarrow> m_get_field m name = Some f"
  by (auto simp: get_field_def split: option.splits)

lemma restore_fields_spec:
  assumes "restore_fields cfg target names r ups = Inr (r', ups')"
    and "distinct (map (attname_of cfg) names)"
  shows "ups' = ups @ filter (restorable cfg) names \<and>
    (\<forall>name \<in> set names. restorable cfg name \<longrightarrow> recorded_value cfg target name = Some (r' (attname_of cfg name))) \<and>
    (\<forall>a. a \<notin> attname_of cfg ` set (filter (restorable cfg) names) \<longrightarrow> r' a = r a)"
  using assms
proof (induction names arbitrary: r ups)
  case (Cons name names)
  from Cons.prems(1) obtain f where f: "m_get_field (r_model cfg) name = Some f"
    by (auto simp: result_simps get_field_Inr)
  have dist: "distinct (map (attname_of cfg) names)" using Cons.prems(2) by simp
  show ?case
  proof (cases "restorable cfg name")
    case False
    with Cons.prems(1) f have "restore_fields cfg target names r ups = Inr (r', ups')"
      by (auto simp: result_simps get_field_Inr restorable_def split: if_splits)
    from Cons.IH [OF this dist] False show ?thesis by auto
  next
    case True
    with Cons.prems(1) f obtain v where v: "recorded_value cfg target name = Some v"
      and rest: "restore_fields cfg target names (r(f_attname f := v)) (ups @ [name]) = Inr (r', ups')"
      by (auto simp: result_simps get_field_Inr restorable_def recorded_value_def split: option.splits)
    have att: "attname_of cfg name = f_attname f" by (simp add: attname_of_def f)
    from Cons.IH [OF rest dist] have ih:
      "ups' = (ups @ [name]) @ filter (restorable cfg) names"
      "\<forall>n \<in> set names. restorable cfg n \<longrightarrow> recorded_value cfg target n = Some (r' (attname_of cfg n))"
      "\<forall>a. a \<notin> attname_of cfg ` set (filter (restorable cfg) names) \<longrightarrow> r' a = (r(f_attname f := v)) a"
      by blast+
    have "r' (f_attname f) = v" using ih(3) Cons.prems(2) att by auto
    with ih True v att show ?thesis by auto
  qed
qed simp

end
