(* ===== verification/Scoped_System.thy ===== *)
theory Scoped_System
  imports History_Ops
begin

text \<open>
  The Django package as one system: every call of the library that can change the database is
  a step, and an application may change its own rows behind the library's back. A sample
  application (an invoice model with a text organization key, cf.\ \<open>README.md\<close>) gives the
  concrete inputs the witnesses use.
\<close>

section \<open>Steps and reachable databases\<close>

inductive lib_step :: "host \<Rightarrow> orm \<Rightarrow> registry \<Rightarrow> db \<Rightarrow> db \<Rightarrow> bool" for h orm reg where
  step_save: "model_save h orm reg cfg c req inst d = Inr (inst', d') \<Longrightarrow> lib_step h orm reg d d'"
| step_delete: "model_delete h orm reg cfg c now inst d = Inr (n, d') \<Longrightarrow> lib_step h orm reg d d'"
| step_qs_delete: "qs_delete h orm reg m qs c now d = Inr (n, d') \<Longrightarrow> lib_step h orm reg d d'"
| step_update: "qs_update h reg m qs c kwargs now d = Inr (n, d') \<Longrightarrow> lib_step h orm reg d d'"
| step_bulk_create: "qs_bulk_create h orm reg m qs c conflicts objs now d = Inr (res, d') \<Longrightarrow>
    lib_step h orm reg d d'"
| step_bulk_update: "qs_bulk_update h reg m qs c objs names now d = Inr (n, d') \<Longrightarrow> lib_step h orm reg d d'"
| step_backfill: "lib_step h orm reg d (snd (backfill h reg m c dry_run batch_size now d))"
| step_restore: "restore h orm reg m c pk revision expected now d = Inr (r, d') \<Longrightarrow> lib_step h orm reg d d'"
| step_untracked: "lib_step h orm reg d (set_rows l rs d)"

inductive_cases lib_step_elim: "lib_step h orm reg d d'"

inductive reachable :: "host \<Rightarrow> orm \<Rightarrow> registry \<Rightarrow> db \<Rightarrow> db \<Rightarrow> bool" for h orm reg d0 where
  start: "reachable h orm reg d0 d0"
| step: "reachable h orm reg d0 d \<Longrightarrow> lib_step h orm reg d d' \<Longrightarrow> reachable h orm reg d0 d'"

lemma lib_step_ext: "lib_step h orm reg d d' \<Longrightarrow> audit_ext h d d'"
proof (induction rule: lib_step.induct)
  case (step_save cfg c req inst d inst' d')
  then show ?case using model_save_op.run_ext [of h orm reg "(cfg, c, req, inst)"] by simp
next
  case (step_delete cfg c now inst d n d')
  then show ?case using delete_op.run_ext [of h orm reg "(cfg, c, now, inst)"] by simp
next
  case (step_qs_delete m qs c now d n d')
  then show ?case using qs_delete_op.run_ext [of h orm reg "(m, qs, c, now)"] by simp
next
  case (step_update m qs c kwargs now d n d')
  then show ?case using qs_update_op.run_ext [of h reg "(m, qs, c, kwargs, now)"] by simp
next
  case (step_bulk_create m qs c conflicts objs now d res d')
  then show ?case using qs_bulk_create_op.run_ext [of h orm reg "(m, qs, c, conflicts, objs, now)"] by simp
next
  case (step_bulk_update m qs c objs names now d n d')
  then show ?case using qs_bulk_update_op.run_ext [of h reg "(m, qs, c, objs, names, now)"] by simp
next
  case (step_backfill d m c dry_run batch_size now)
  show ?case by (rule backfill_ext)
next
  case (step_restore m c pk revision expected now d r d')
  then show ?case using restore_op.run_ext [of h orm reg "(m, c, pk, revision, expected, now)"] by simp
next
  case (step_untracked d l rs)
  show ?case by (rule audit_ext_set_rows)
qed

lemma reachable_ext: "reachable h orm reg d d' \<Longrightarrow> audit_ext h d d'"
  by (induction rule: reachable.induct) (auto intro: audit_ext.same audit_ext_trans lib_step_ext)

section \<open>A sample application\<close>

definition text_field :: "string \<Rightarrow> string \<Rightarrow> field_info" where
  "text_field name attname =
     \<lparr>f_name = name, f_attname = attname, f_concrete = True, f_many_to_many = False,
      f_primary_key = False, f_null = False, f_is_relation = False, f_related_model = '''',
      f_target_attname = '''', f_on_delete = Protect,
      f_to_python = (\<lambda>v. case v of PStr s \<Rightarrow> Some (PStr s) | _ \<Rightarrow> None),
      f_target_to_python = (\<lambda>v. None), f_prep = (\<lambda>v. v)\<rparr>"

definition invoice_fields :: "field_info list" where
  "invoice_fields =
     [(text_field ''id'' ''id'')\<lparr>f_primary_key := True\<rparr>,
      text_field ''organization'' ''organization'',
      text_field ''status'' ''status'']"

definition invoice_meta :: model_meta where
  "invoice_meta =
     \<lparr>m_label = ''billing.invoice'', m_fields = invoice_fields,
      m_get_field = (\<lambda>n. find (\<lambda>f. f_name f = n) invoice_fields),
      m_pk_name = ''id'', m_pk_attname = ''id'', m_abstract = False, m_proxy = False,
      m_parents = False, m_composite_pk = False,
      m_managers = [\<lparr>mg_name = ''objects'', mg_scoped_manager = True, mg_scoped_queryset = True\<rparr>],
      m_any_many_to_many = False, m_related_objects = []\<rparr>"

definition invoice_cfg :: registration where
  "invoice_cfg = \<lparr>r_model = invoice_meta, r_scope_field = ''organization'',
                  r_fields = [''organization'', ''status''], r_mode = EnforceMode\<rparr>"

definition sample_registry :: registry where
  "sample_registry = [(''billing.invoice'', invoice_cfg)]"

definition invoice_row :: "string \<Rightarrow> string \<Rightarrow> string \<Rightarrow> row" where
  "invoice_row pk org status =
     (\<lambda>a. if a = ''id'' then PStr pk else if a = ''organization'' then PStr org
          else if a = ''status'' then PStr status else PNone)"

definition sample_ctx :: scope_ctx where
  "sample_ctx = \<lparr>ctx_oid = 1, ctx_actor = ''ann'', ctx_scope = ''acme'', ctx_reason = '''', ctx_request_id = ''''\<rparr>"

text \<open>A hash and a clock rendering that are cheap to evaluate.\<close>

definition sample_host :: host where
  "sample_host = \<lparr>h_sha256 = (\<lambda>s. ''d''), h_iso = show_int\<rparr>"

text \<open>
  A plain save: replace the row with the instance's key, or insert it; an instance without a
  key gets one that is longer than every key in use.
\<close>

fun key_length :: "pyval \<Rightarrow> nat" where
  "key_length v = length (py_str v)"

definition fresh_key :: "model_meta \<Rightarrow> row list \<Rightarrow> pyval" where
  "fresh_key m rs = PStr (replicate (Suc (foldr max (map (key_length \<circ> row_pk m) rs) 0)) CHR ''k'')"

definition plain_save :: "model_meta \<Rightarrow> row \<Rightarrow> string list option \<Rightarrow> row list \<Rightarrow> py_error + row \<times> row list" where
  "plain_save m inst uf rs =
     (let inst' = (if row_pk m inst = PNone then inst(m_pk_attname m := fresh_key m rs) else inst)
      in Inr (inst', filter (\<lambda>r. row_pk m r \<noteq> row_pk m inst') rs @ [inst']))"

definition sample_orm :: orm where
  "sample_orm = \<lparr>o_save = plain_save,
     o_bulk_create = (\<lambda>m objs rs. Inr (objs, rs @ objs)),
     o_collect = (\<lambda>m rs tables. Inr (map (Pair m) rs))\<rparr>"

definition sample_db :: db where
  "sample_db = empty_db ((\<lambda>l. [])(''billing.invoice'' :=
     [invoice_row ''1'' ''acme'' ''draft'', invoice_row ''2'' ''globex'' ''draft'']))"

lemma sample_lookup [simp]: "lookup_registration sample_registry invoice_meta = Inr invoice_cfg"
  by (simp add: lookup_registration_def sample_registry_def invoice_meta_def)

lemma fresh_key_longer: "r \<in> set rs \<Longrightarrow> row_pk m r \<noteq> fresh_key m rs"
proof
  assume r: "r \<in> set rs" and eq: "row_pk m r = fresh_key m rs"
  have "key_length (row_pk m r) \<le> foldr max (map (key_length \<circ> row_pk m) rs) 0"
    using r by (induction rs) auto
  with eq show False by (simp add: fresh_key_def)
qed

lemma plain_save_ok: "orm_save_ok sample_orm m"
  unfolding orm_save_ok_def
proof (intro allI impI)
  fix inst uf rs inst' rs'
  assume d: "distinct (map (row_pk m) rs)" and s: "o_save sample_orm m inst uf rs = Inr (inst', rs')"
  have rs': "rs' = filter (\<lambda>r. row_pk m r \<noteq> row_pk m inst') rs @ [inst']"
    and new: "row_pk m inst = PNone \<Longrightarrow> row_pk m inst' = fresh_key m rs"
    and old: "row_pk m inst \<noteq> PNone \<Longrightarrow> inst' = inst"
    using s by (auto simp: sample_orm_def plain_save_def Let_def row_pk_def)
  show "distinct (map (row_pk m) rs') \<and>
        (\<forall>r. row_pk m r \<noteq> row_pk m inst' \<longrightarrow> (r \<in> set rs' \<longleftrightarrow> r \<in> set rs)) \<and>
        (row_pk m inst \<noteq> PNone \<longrightarrow> row_pk m inst' = row_pk m inst) \<and>
        (row_pk m inst = PNone \<longrightarrow> row_pk m inst' \<notin> row_pk m ` set rs)"
    using d rs' new old fresh_key_longer [of _ rs m] by (auto simp: distinct_map inj_on_def) blast
qed

lemma sample_distinct: "distinct (map (row_pk invoice_meta) (db_rows sample_db ''billing.invoice''))"
  by code_simp

definition sample_save :: "py_error + row \<times> db" where
  "sample_save = save_base sample_host sample_orm sample_registry invoice_cfg (Some sample_ctx)
     \<lparr>sr_raw = False, sr_update_fields = None, sr_override = None, sr_now = 7\<rparr>
     (invoice_row ''1'' ''acme'' ''approved'') sample_db"

lemma sample_save_ok: "is_ok sample_save"
  by code_simp

end
