(* ===== verification/Scoped_Properties.thy ===== *)
theory Scoped_Properties
  imports Scoped_System
begin

text \<open>
  The properties of the Django package, each followed by a witness on the sample application
  where it has hypotheses. The lemmas in front of a property are the facts its proof rests on.
\<close>

section \<open>History integrity\<close>

lemma reachable_chain: "reachable h orm reg (empty_db rows) d \<Longrightarrow> chain_ok h d key"
  by (rule audit_invD [OF audit_ext_inv [OF reachable_ext audit_inv_empty]])

lemma verify_history_intact:
  assumes "history_resource reg m c pk d = Inr (Some (key, res))"
    and "history_intact h res (ordered_events key d)"
  shows "verify_history h reg m c pk d =
    Inr \<lparr>vf_valid = True, vf_events = res_revision res, vf_detail = ''''\<rparr>"
proof -
  have "verify_events h (res_scope res) 1 '''' (ordered_events key d) = Inr (res_digest res)"
    using assms(2) by (subst verify_events_Inr) (simp add: history_intact_def)
  with assms show ?thesis by (simp add: verify_history_def Let_def history_intact_def)
qed

lemma verify_history_valid_resource:
  assumes "verify_history h reg m c pk d = Inr v" "vf_valid v"
  shows "\<exists>key res. history_resource reg m c pk d = Inr (Some (key, res)) \<and>
    history_intact h res (ordered_events key d)"
proof -
  from assms obtain r where r: "history_resource reg m c pk d = Inr r"
    by (auto simp: verify_history_def result_simps)
  with assms obtain key res where "r = Some (key, res)"
    by (cases r) (auto simp: verify_history_def)
  with r assms verify_history_valid [of reg m c pk d key res h] show ?thesis by blast
qed

text \<open>
  C1. Whatever sequence of library calls and untracked row writes a database went through from
  an empty audit log, \<open>verify_history\<close> accepts every history the context may see, and reports
  as many events as the head's revision.
\<close>

theorem reachable_history_verifies:
  assumes "reachable h orm reg (empty_db rows) d"
    and "history_resource reg m c pk d = Inr (Some (key, res))"
  shows "verify_history h reg m c pk d =
    Inr \<lparr>vf_valid = True, vf_events = res_revision res, vf_detail = ''''\<rparr>"
  using verify_history_intact [OF assms(2)] chain_ok_intact [OF reachable_chain [OF assms(1)]]
    history_resource_Some [OF assms(2)] by blast

definition saved_db :: db where
  "saved_db = (case sample_save of Inr (_, d) \<Rightarrow> d | Inl _ \<Rightarrow> sample_db)"

lemma sample_save_eq: "\<exists>inst'. sample_save = Inr (inst', saved_db)"
proof -
  obtain inst' d' where eq: "sample_save = Inr (inst', d')"
    using sample_save_ok by (auto simp: is_ok_iff)
  have "saved_db = d'" unfolding saved_db_def eq by simp
  with eq show ?thesis by blast
qed

lemma saved_reachable: "reachable sample_host sample_orm sample_registry sample_db saved_db"
proof (rule reachable.step [OF reachable.start])
  let ?req = "\<lparr>sr_raw = False, sr_update_fields = None, sr_override = None, sr_now = 7\<rparr>"
  obtain inst' where "sample_save = Inr (inst', saved_db)" using sample_save_eq by blast
  then have "model_save sample_host sample_orm sample_registry invoice_cfg (Some sample_ctx) ?req
      (invoice_row ''1'' ''acme'' ''approved'') sample_db = Inr (inst', saved_db)"
    by (simp add: model_save_def sample_save_def require_context_def)
  then show "lib_step sample_host sample_orm sample_registry sample_db saved_db"
    by (rule step_save)
qed

lemma saved_resource:
  "history_resource sample_registry invoice_meta (Some sample_ctx) (PStr ''1'') saved_db =
   Inr (Some ((''billing.invoice'', ''1''), \<lparr>res_scope = ''acme'', res_revision = 1, res_digest = ''d''\<rparr>))"
  by code_simp

theorem reachable_history_verifies_witness:
  "verify_history sample_host sample_registry invoice_meta (Some sample_ctx) (PStr ''1'') saved_db =
   Inr \<lparr>vf_valid = True, vf_events = 1, vf_detail = ''''\<rparr>"
  using reachable_history_verifies [OF saved_reachable [unfolded sample_db_def] saved_resource] by simp

text \<open>
  C2. Tamper evidence: two databases that agree on the retained head of a history and both
  verify hold the same events, in every digested field, unless the two logs exhibit a
  collision of the hash function. Nothing is assumed of the hash.
\<close>

theorem history_tamper_evident:
  assumes "verify_history h reg m c pk d = Inr v" "vf_valid v"
    and "verify_history h reg m c pk d2 = Inr v2" "vf_valid v2"
    and "identity_value pk = Inr opk"
    and "db_resources d (m_label m, opk) = db_resources d2 (m_label m, opk)"
  shows "list_all2 (same_content h) (ordered_events (m_label m, opk) d) (ordered_events (m_label m, opk) d2)
    \<or> (\<exists>e \<in> set (ordered_events (m_label m, opk) d). \<exists>f \<in> set (ordered_events (m_label m, opk) d2).
         event_body h e \<noteq> event_body h f \<and> h_sha256 h (event_body h e) = h_sha256 h (event_body h f))"
proof -
  let ?key = "(m_label m, opk)"
  from verify_history_valid_resource [OF assms(1,2)] obtain key res where
    r: "history_resource reg m c pk d = Inr (Some (key, res))" "history_intact h res (ordered_events key d)"
    by blast
  from verify_history_valid_resource [OF assms(3,4)] obtain key2 res2 where
    r2: "history_resource reg m c pk d2 = Inr (Some (key2, res2))" "history_intact h res2 (ordered_events key2 d2)"
    by blast
  have k: "key = ?key" "key2 = ?key"
    using history_resource_Some [OF r(1)] history_resource_Some [OF r2(1)] assms(5)
    by (auto simp: prod_eq_iff)
  then have "res2 = res"
    using history_resource_Some [OF r(1)] history_resource_Some [OF r2(1)] assms(6) by simp
  let ?es = "ordered_events ?key d" and ?fs = "ordered_events ?key d2"
  have "map (event_body h) ?es = map (event_body h) ?fs
    \<or> (\<exists>e \<in> set ?es. \<exists>f \<in> set ?fs. event_body h e \<noteq> event_body h f
        \<and> h_sha256 h (event_body h e) = h_sha256 h (event_body h f))"
    using r(2) r2(2) k \<open>res2 = res\<close>
    by (intro event_chain.linked_agree [where p = "''''" and q = "''''"])
      (auto simp: history_intact_def event_digest_eq simp del: upt_Suc)
  moreover have "list_all2 (same_content h) ?es ?fs" if "map (event_body h) ?es = map (event_body h) ?fs"
    using that by (auto simp: list_all2_conv_all_nth list_eq_iff_nth_eq intro: event_body_same_content)
  ultimately show ?thesis by blast
qed

theorem history_tamper_evident_witness:
  "list_all2 (same_content sample_host) (ordered_events (''billing.invoice'', ''1'') saved_db)
     (ordered_events (''billing.invoice'', ''1'') saved_db)
   \<or> (\<exists>e \<in> set (ordered_events (''billing.invoice'', ''1'') saved_db).
      \<exists>f \<in> set (ordered_events (''billing.invoice'', ''1'') saved_db).
        event_body sample_host e \<noteq> event_body sample_host f
        \<and> h_sha256 sample_host (event_body sample_host e) = h_sha256 sample_host (event_body sample_host f))"
proof -
  have v: "verify_history sample_host sample_registry invoice_meta (Some sample_ctx) (PStr ''1'') saved_db =
    Inr \<lparr>vf_valid = True, vf_events = 1, vf_detail = ''''\<rparr>" by code_simp
  have i: "identity_value (PStr ''1'') = Inr ''1''" by code_simp
  have l: "m_label invoice_meta = ''billing.invoice''" by (simp add: invoice_meta_def)
  show ?thesis using history_tamper_evident [OF v _ v _ i refl] by (simp add: l)
qed

text \<open>
  Histories are append-only: along any run every existing event stays where it is, and a
  history never changes its scope nor goes back in revision.
\<close>

theorem audit_log_append_only:
  assumes "reachable h orm reg d d'"
  shows "(\<exists>es. db_events d' = db_events d @ es) \<and>
    (\<forall>key res. db_resources d key = Some res \<longrightarrow>
      (\<exists>res'. db_resources d' key = Some res' \<and> res_scope res' = res_scope res
         \<and> res_revision res \<le> res_revision res'))"
  using audit_ext_append_only [OF reachable_ext [OF assms]] audit_ext_scope_stable [OF reachable_ext [OF assms]]
  by blast

theorem audit_log_append_only_witness:
  "\<exists>es. db_events saved_db = db_events sample_db @ es"
  using audit_log_append_only [OF saved_reachable] by blast

text \<open>
  A history cannot be reassigned: an append for a row whose key already has a history in
  another scope is a scope violation, so is the whole save around it.
\<close>

theorem history_not_reassigned:
  assumes "db_resources d (m_label (r_model cfg), opk) = Some res"
    and "identity_value (row_pk (r_model cfg) r) = Inr opk"
    and "scope_attname cfg = Inr a" "identity_value (r a) = Inr scope" "scope \<noteq> res_scope res"
  shows "append_event h cfg r action before after ctx now d = Inl ScopeViolation"
  using assms by (simp add: append_event_def Let_def get_or_create_def)

theorem history_not_reassigned_witness:
  "append_event sample_host invoice_cfg (invoice_row ''1'' ''globex'' ''x'') ''create'' JNull JNull sample_ctx 9
     saved_db = Inl ScopeViolation"
proof (rule history_not_reassigned)
  show "db_resources saved_db (m_label (r_model invoice_cfg), ''1'') =
      Some \<lparr>res_scope = ''acme'', res_revision = 1, res_digest = ''d''\<rparr>" by code_simp
  show "identity_value (row_pk (r_model invoice_cfg) (invoice_row ''1'' ''globex'' ''x'')) = Inr ''1''" by code_simp
  show "scope_attname invoice_cfg = Inr ''organization''" by code_simp
  show "identity_value (invoice_row ''1'' ''globex'' ''x'' ''organization'') = Inr ''globex''" by code_simp
  show "''globex'' \<noteq> res_scope \<lparr>res_scope = ''acme'', res_revision = 1, res_digest = ''d''\<rparr>" by simp
qed

section \<open>Saving\<close>

text \<open>
  C3. A successful save appends exactly one event, attributed to the current context, whose
  before and after states are the snapshots of the row before the save and of the row the
  database holds afterwards.
\<close>

theorem save_audited:
  assumes "save_base h orm reg cfg c req inst d = Inr (inst', d')"
  shows "\<exists>ctx e after_row. c = Some ctx \<and> db_events d' = db_events d @ [e] \<and>
    snapshot_opt cfg (load_row (r_model cfg) (row_pk (r_model cfg) inst) d) = Inr (ev_before e) \<and>
    load_row (r_model cfg) (row_pk (r_model cfg) inst') d' = Some after_row \<and>
    snapshot cfg after_row = Inr (ev_after e) \<and> in_scope_row cfg ctx after_row \<and>
    describes cfg after_row
      (saved_action (sr_override req) (m_label (r_model cfg)) (row_pk (r_model cfg) inst')
        (load_row (r_model cfg) (row_pk (r_model cfg) inst) d))
      (ev_before e) (ev_after e) ctx e"
  by (rule save_base_one_event [OF assms])

theorem save_audited_witness:
  "\<exists>e. db_events saved_db = db_events sample_db @ [e] \<and> ev_actor e = ''ann''"
proof -
  obtain inst' where "sample_save = Inr (inst', saved_db)" using sample_save_eq by blast
  from save_audited [OF this [unfolded sample_save_def]] show ?thesis
    by (auto simp: describes_def sample_ctx_def)
qed

text \<open>
  C4. A save of an enforced model under a context leaves every row of another scope alone: such
  rows are neither written, removed nor created.
\<close>

theorem save_isolated:
  assumes "save_base h orm reg cfg (Some ctx) req inst d = Inr (inst', d')"
    and "orm_save_ok orm (r_model cfg)"
    and "distinct (map (row_pk (r_model cfg)) (db_rows d (m_label (r_model cfg))))"
    and "\<not> in_scope_row cfg ctx r"
  shows "r \<in> set (db_rows d' l) \<longleftrightarrow> r \<in> set (db_rows d l)"
  by (rule save_base_isolated [OF assms])

theorem save_isolated_witness:
  "invoice_row ''2'' ''globex'' ''draft'' \<in> set (db_rows saved_db ''billing.invoice'')"
proof -
  obtain inst' where s: "sample_save = Inr (inst', saved_db)" using sample_save_eq by blast
  have l: "m_label (r_model invoice_cfg) = ''billing.invoice''" "r_model invoice_cfg = invoice_meta"
    by (simp_all add: invoice_cfg_def invoice_meta_def)
  have "\<not> in_scope_row invoice_cfg sample_ctx (invoice_row ''2'' ''globex'' ''draft'')" by code_simp
  moreover have "distinct (map (row_pk (r_model invoice_cfg)) (db_rows sample_db (m_label (r_model invoice_cfg))))"
    using sample_distinct l by simp
  ultimately have "invoice_row ''2'' ''globex'' ''draft'' \<in> set (db_rows saved_db ''billing.invoice'') \<longleftrightarrow>
      invoice_row ''2'' ''globex'' ''draft'' \<in> set (db_rows sample_db ''billing.invoice'')"
    using save_isolated [OF s [unfolded sample_save_def] plain_save_ok] by blast
  then show ?thesis by (simp add: sample_db_def empty_db_def)
qed

text \<open>
  No context, no write: every mutating operation raises when no context is set, and the
  raise stands for an unchanged database.
\<close>

theorem writes_need_context:
  "model_save h orm reg cfg None req inst d = Inl MissingContext \<and>
   model_delete h orm reg cfg None now inst d = Inl MissingContext \<and>
   \<not> is_ok (qs_update h reg m qs None kwargs now d) \<and>
   \<not> is_ok (qs_delete h orm reg m qs None now d) \<and>
   \<not> is_ok (qs_bulk_create h orm reg m qs None conflicts objs now d) \<and>
   \<not> is_ok (qs_bulk_update h reg m qs None objs names now d) \<and>
   backfill h reg m None dry batch now d = (Inl MissingContext, d) \<and>
   \<not> is_ok (restore h orm reg m None pk revision expected now d)"
proof (intro conjI)
  show "\<not> is_ok (restore h orm reg m None pk revision expected now d)"
  proof
    assume "is_ok (restore h orm reg m None pk revision expected now d)"
    then obtain r' d' where "restore h orm reg m None pk revision expected now d = Inr (r', d')"
      by (auto simp: is_ok_iff)
    from restore_Inr [OF this] show False
      by (auto simp: restore_live_def require_context_def result_simps)
  qed
qed (auto simp: model_save_def model_delete_def backfill_def require_context_def is_ok_iff result_simps
    qs_update_def qs_delete_def qs_bulk_create_def qs_bulk_update_def mutation_config_def)

section \<open>Querysets\<close>

text \<open>
  C5. Isolation of reads: a queryset of an enforced model, however it was filtered and combined,
  yields only rows of the scope it was created under, and only to code that still runs in
  that very context.
\<close>

theorem queryset_reads_isolated:
  assumes "derived_qs reg m ctx qs" "lookup_registration reg m = Inr cfg" "r_mode cfg = EnforceMode"
    and "get_field m (r_scope_field cfg) = Inr f" "qs_fetch reg m qs c d = Inr rs"
  shows "(\<forall>r \<in> set rs. r (f_attname f) = f_prep f (PStr (ctx_scope ctx))) \<and>
    (\<exists>cur. c = Some cur \<and> ctx_oid cur = ctx_oid ctx)"
proof -
  have qs: "qs_ctx qs = Some ctx" "\<forall>r. qs_where qs r \<longrightarrow> scope_filter f ctx r"
    using derived_qs_scoped [OF assms(1-4)] by auto
  with assms(2,3,5) show ?thesis
    by (auto simp: qs_fetch_def check_context_Inr result_simps qs_rows_def scope_filter_def same_ctx_def)
qed

definition sample_qs :: queryset where
  "sample_qs = (case get_queryset sample_registry invoice_meta True (Some sample_ctx) of Inr qs \<Rightarrow> qs
     | Inl _ \<Rightarrow> \<lparr>qs_ctx = None, qs_where = (\<lambda>_. True), qs_sliced = True, qs_combinator = True, qs_values = True\<rparr>)"

lemma sample_scope_field: "get_field invoice_meta (r_scope_field invoice_cfg) = Inr (text_field ''organization'' ''organization'')"
  by (simp add: get_field_def invoice_meta_def invoice_cfg_def invoice_fields_def text_field_def)

lemma sample_enforced: "r_mode invoice_cfg = EnforceMode"
  by (simp add: invoice_cfg_def)

lemma sample_qs_eq: "get_queryset sample_registry invoice_meta True (Some sample_ctx) = Inr sample_qs"
  by (simp add: sample_qs_def get_queryset_def Let_def require_context_def sample_enforced sample_scope_field)

lemma sample_qs_derived: "derived_qs sample_registry invoice_meta sample_ctx sample_qs"
  by (rule dq_manager [OF sample_qs_eq])

theorem queryset_reads_isolated_witness:
  "\<exists>rs. qs_fetch sample_registry invoice_meta sample_qs (Some sample_ctx) sample_db = Inr rs \<and> length rs = 1
     \<and> (\<forall>r \<in> set rs. r ''organization'' = PStr ''acme'')"
proof -
  have "is_ok (qs_fetch sample_registry invoice_meta sample_qs (Some sample_ctx) sample_db)" by code_simp
  then obtain rs where rs: "qs_fetch sample_registry invoice_meta sample_qs (Some sample_ctx) sample_db = Inr rs"
    by (auto simp: is_ok_iff)
  have "(case qs_fetch sample_registry invoice_meta sample_qs (Some sample_ctx) sample_db of
      Inr rs \<Rightarrow> length rs = 1 | Inl _ \<Rightarrow> False)" by code_simp
  with rs have len: "length rs = 1" by simp
  have "\<forall>r \<in> set rs. r ''organization'' = PStr ''acme''"
    using queryset_reads_isolated [OF sample_qs_derived sample_lookup sample_enforced sample_scope_field rs]
    by (simp add: text_field_def sample_ctx_def)
  with rs len show ?thesis by blast
qed

text \<open>
  C6. A queryset update changes exactly the selected rows, by its assignments on their old
  values, and appends one attributed event for each of them; its count is their number.
\<close>

theorem qs_update_exact:
  assumes "qs_update h reg m qs c kwargs now d = Inr (n, d')" "kwargs \<noteq> []"
    and "lookup_registration reg m = Inr cfg" "r_model cfg = m"
    and "distinct (map (row_pk m) (db_rows d (m_label m)))"
  shows "\<exists>ctx sets before es. c = Some ctx \<and> assignments m kwargs = Inr sets \<and>
    db_rows d' = (db_rows d)(m_label m :=
      map (\<lambda>r. if qs_where qs r then assign sets r else r) (db_rows d (m_label m))) \<and>
    db_events d' = db_events d @ es \<and> n = length (qs_rows m qs d) \<and>
    map fst before = map (row_pk m) (sort_key (row_pk m) (qs_rows m qs d)) \<and>
    list_all2 (recorded cfg ctx before ''update'' d') (map fst before) es"
proof -
  from qs_update_Inr [OF assms(1,2)] obtain cfg' ctx before sets es where
    mc: "mutation_config reg m qs (map fst kwargs) c = Inr cfg'" and c: "c = Some ctx"
    and b: "snapshots cfg' (sort_key (row_pk m) (qs_rows m qs d)) = Inr before"
    and s: "assignments m kwargs = Inr sets"
    and rows: "db_rows d' = db_rows (sql_update m (map fst before) (assign sets) d)"
    and es: "db_events d' = db_events d @ es"
    and rec: "list_all2 (recorded cfg' ctx before ''update'' d') (map fst before) es"
    and n: "n = length (filter (\<lambda>r. row_pk m r \<in> set (map fst before)) (db_rows d (m_label m)))"
    by blast
  have cfg': "cfg' = cfg" using mutation_config_Inr [OF mc] assms(3) by simp
  have keys: "set (map fst before) = row_pk m ` set (filter (qs_where qs) (db_rows d (m_label m)))"
    using keys_of_selected [OF b [unfolded qs_rows_def cfg'] assms(4)] .
  have upd: "db_rows d' = (db_rows d)(m_label m :=
      map (\<lambda>r. if qs_where qs r then assign sets r else r) (db_rows d (m_label m)))"
    unfolding rows by (rule sql_update_rows [OF assms(5) keys])
  have "row_pk m r \<in> set (map fst before) \<longleftrightarrow> qs_where qs r" if "r \<in> set (db_rows d (m_label m))" for r
    using assms(5) that unfolding keys by (auto simp: distinct_map inj_on_def)
  then have "filter (\<lambda>r. row_pk m r \<in> set (map fst before)) (db_rows d (m_label m)) = qs_rows m qs d"
    unfolding qs_rows_def by (rule filter_cong [OF refl])
  with n have "n = length (qs_rows m qs d)" by simp
  moreover have "map fst before = map (row_pk m) (sort_key (row_pk m) (qs_rows m qs d))"
    using snapshots_Inr [OF b] cfg' assms(4) by simp
  ultimately show ?thesis using c s upd es rec cfg' by blast
qed

definition sample_update :: "py_error + nat \<times> db" where
  "sample_update = qs_update sample_host sample_registry invoice_meta sample_qs (Some sample_ctx)
     [(''status'', \<lambda>r. PStr ''paid'')] 8 saved_db"

lemma sample_update_ok: "(case sample_update of Inr (n, d) \<Rightarrow> n = 1 | Inl _ \<Rightarrow> False)"
  by code_simp

theorem qs_update_exact_witness:
  "\<exists>d' e. sample_update = Inr (1, d') \<and> db_events d' = db_events saved_db @ [e] \<and> ev_action e = ''update''"
proof -
  obtain d' where u: "sample_update = Inr (1, d')"
    using case_okD [OF sample_update_ok] by auto
  have model: "r_model invoice_cfg = invoice_meta" by (simp add: invoice_cfg_def)
  have "distinct (map (row_pk invoice_meta) (db_rows saved_db (m_label invoice_meta)))" by code_simp
  then obtain ctx before es where "db_events d' = db_events saved_db @ es"
    and n: "1 = length (qs_rows invoice_meta sample_qs saved_db)"
    and b: "map fst before = map (row_pk invoice_meta)
      (sort_key (row_pk invoice_meta) (qs_rows invoice_meta sample_qs saved_db))"
    and rec: "list_all2 (recorded invoice_cfg ctx before ''update'' d') (map fst before) es"
    using qs_update_exact [OF u [unfolded sample_update_def] _ sample_lookup model] by blast
  have "length es = 1"
    using list_all2_lengthD [OF rec] arg_cong [OF b, of length] n by simp
  then obtain e where "es = [e]" by (cases es) auto
  with rec have "ev_action e = ''update''" by (auto simp: recorded_def describes_def list_all2_Cons2)
  with u \<open>es = [e]\<close> \<open>db_events d' = db_events saved_db @ es\<close> show ?thesis by blast
qed

text \<open>
  A bulk update rejects foreign identities: when it succeeds, every stored row whose key
  was listed, selected by the queryset or not, is in the current scope.
\<close>

theorem bulk_update_rejects_foreign:
  assumes "qs_bulk_update h reg m qs (Some ctx) objs names now d = Inr (n, d')"
    and "lookup_registration reg m = Inr cfg"
    and "r \<in> set (db_rows d (m_label m))" "row_pk m r \<in> row_pk m ` set objs"
  shows "in_scope_row cfg ctx r"
proof -
  from assms(1) obtain cfg' where mc: "mutation_config reg m qs names (Some ctx) = Inr cfg'"
    and all: "allE (\<lambda>r. bindE (check_scope cfg' r ctx) (\<lambda>_. Inr ()))
      (sort_key (row_pk m) (filter (\<lambda>r. row_pk m r \<in> set (map (row_pk m) objs)) (db_rows d (m_label m)))) = Inr ()"
    by (auto simp: qs_bulk_update_def Let_def result_simps split: if_splits)
  have "cfg' = cfg" using mutation_config_Inr [OF mc] assms(2) by simp
  with all assms(3,4) show ?thesis
    by (auto simp: result_simps in_scope_row_def is_ok_iff)
qed

theorem bulk_update_rejects_foreign_witness:
  "\<exists>n d'. qs_bulk_update sample_host sample_registry invoice_meta sample_qs (Some sample_ctx)
      [invoice_row ''1'' ''acme'' ''sent''] [''status''] 9 sample_db = Inr (n, d')
    \<and> in_scope_row invoice_cfg sample_ctx (invoice_row ''1'' ''acme'' ''draft'')"
proof -
  let ?run = "qs_bulk_update sample_host sample_registry invoice_meta sample_qs (Some sample_ctx)
      [invoice_row ''1'' ''acme'' ''sent''] [''status''] 9 sample_db"
  have "is_ok ?run" by code_simp
  then obtain n d' where run: "?run = Inr (n, d')" by (auto simp: is_ok_iff)
  have "invoice_row ''1'' ''acme'' ''draft'' \<in> set (db_rows sample_db (m_label invoice_meta))"
    by (simp add: sample_db_def empty_db_def invoice_meta_def)
  moreover have "row_pk invoice_meta (invoice_row ''1'' ''acme'' ''draft'')
      \<in> row_pk invoice_meta ` set [invoice_row ''1'' ''acme'' ''sent'']"
    by (simp add: row_pk_def invoice_meta_def invoice_row_def)
  ultimately show ?thesis
    using run bulk_update_rejects_foreign [OF run sample_lookup] by blast
qed

end
