(* ===== verification/Scoped_Contracts.thy ===== *)
theory Scoped_Contracts
  imports Scoped_Properties
begin

text \<open>
  Further properties of the Django package: deletion, backfill, restoration, the request
  middleware and the scope decorators, registration and the system check.
\<close>

section \<open>Deletion\<close>

lemma fold_remove_rows: "db_rows d = db_rows d' \<Longrightarrow> db_rows (fold remove_row items d) = db_rows (fold remove_row items d')"
  by (induction items arbitrary: d d') (simp_all add: remove_row_def Let_def)

text \<open>
  A successful delete records, for every collected instance of a registered model that is
  stored, one \<open>delete\<close> event with the snapshot of the stored row, all in the current scope;
  nothing else is added to the log.
\<close>

theorem delete_audited:
  assumes "model_delete h orm reg cfg c now inst d = Inr (n, d')"
  shows "\<exists>ctx items es. c = Some ctx \<and> o_collect orm (r_model cfg) [inst] (db_rows d) = Inr items \<and>
    n = length items \<and> db_rows d' = db_rows (fold remove_row items d) \<and>
    db_events d' = db_events d @ es \<and> list_all2 (deletion_event ctx) (audited_rows reg d items) es"
proof -
  from assms obtain ctx items d1 where c: "c = Some ctx"
    and items: "o_collect orm (r_model cfg) [inst] (db_rows d) = Inr items" "n = length items"
    and d1: "foldE (pre_delete_signal h reg (Some ctx) now) items d = Inr d1"
    and d': "d' = fold remove_row items d1"
    by (auto simp: model_delete_def delete_collected_def result_simps)
  from pre_delete_signals_spec [OF d1] obtain es where es: "db_events d1 = db_events d @ es"
    "list_all2 (deletion_event ctx) (audited_rows reg d items) es" by blast
  have "db_rows d1 = db_rows d"
    using d1 by (rule foldE_invariant [where P = "\<lambda>d1. db_rows d1 = db_rows d"])
      (auto dest: pre_delete_signal_rows)
  then have "db_rows d' = db_rows (fold remove_row items d)" using d' fold_remove_rows by blast
  with c items es d' show ?thesis by (auto simp: fold_remove_events)
qed

definition sample_delete :: "py_error + nat \<times> db" where
  "sample_delete = model_delete sample_host sample_orm sample_registry invoice_cfg (Some sample_ctx) 9
     (invoice_row ''1'' ''acme'' ''draft'') sample_db"

lemma sample_delete_ok: "(case sample_delete of Inr (n, d) \<Rightarrow> n = 1 \<and> length (db_events d) = 1 | Inl _ \<Rightarrow> False)"
  by code_simp

theorem delete_audited_witness:
  "\<exists>d' ctx items es. sample_delete = Inr (1, d') \<and> length items = (1::nat) \<and>
     db_events d' = db_events sample_db @ es \<and>
     list_all2 (deletion_event ctx) (audited_rows sample_registry sample_db items) es"
proof -
  obtain d' where s: "sample_delete = Inr (1, d')" using case_okD [OF sample_delete_ok] by auto
  from delete_audited [OF s [unfolded sample_delete_def]] s show ?thesis by metis
qed

section \<open>Backfill\<close>

lemma backfill_pks_cong: "db_rows d = db_rows d' \<Longrightarrow> backfill_pks cfg f ctx d = backfill_pks cfg f ctx d'"
  by (simp add: backfill_pks_def)

lemma backfill_Inr:
  assumes "backfill h reg m c dry batch now d = (Inr res, d')"
  shows "\<exists>ctx cfg f. c = Some ctx \<and> lookup_registration reg m = Inr cfg \<and> \<not> batch < 1 \<and>
    get_field (r_model cfg) (r_scope_field cfg) = Inr f \<and>
    backfill_loop h cfg ctx now (backfill_pks cfg f ctx d)
      \<lparr>bf_examined = 0, bf_pending = 0, bf_created = 0, bf_skipped = 0, bf_dry_run = dry\<rparr> d = (Inr res, d')"
  using assms by (auto simp: backfill_def result_simps split: sum.splits if_splits)

text \<open>
  Backfill is idempotent: after a complete run, a second run under the same context
  changes nothing, creates nothing and skips exactly the rows the first run examined; every
  row the first run examined was either skipped or given a history.
\<close>

theorem backfill_idempotent:
  assumes "backfill h reg m c False batch now d = (Inr res, d')"
  shows "bf_created res + bf_skipped res = bf_examined res \<and>
    backfill h reg m c False batch now2 d' =
      (Inr \<lparr>bf_examined = bf_examined res, bf_pending = 0, bf_created = 0,
            bf_skipped = bf_examined res, bf_dry_run = False\<rparr>, d')"
proof -
  let ?acc = "\<lparr>bf_examined = 0, bf_pending = 0, bf_created = 0, bf_skipped = 0, bf_dry_run = False\<rparr>"
  from backfill_Inr [OF assms] obtain ctx cfg f where c: "c = Some ctx"
    and reg: "lookup_registration reg m = Inr cfg" "\<not> batch < 1"
      "get_field (r_model cfg) (r_scope_field cfg) = Inr f"
    and loop: "backfill_loop h cfg ctx now (backfill_pks cfg f ctx d) ?acc d = (Inr res, d')" by blast
  have rows: "db_rows d' = db_rows d"
    using backfill_loop_rows [of h cfg ctx now "backfill_pks cfg f ctx d" ?acc d] loop by simp
  have dealt: "\<forall>pk \<in> set (backfill_pks cfg f ctx d'). bf_done cfg ctx d' pk"
    using backfill_loop_done [OF loop] backfill_pks_cong [OF rows] by simp
  from backfill_loop_counts [OF loop] have counts:
    "bf_examined res = length (backfill_pks cfg f ctx d')" "bf_created res + bf_skipped res = bf_examined res"
    using backfill_pks_cong [OF rows] by auto
  have "backfill h reg m c False batch now2 d' =
      backfill_loop h cfg ctx now2 (backfill_pks cfg f ctx d') ?acc d'"
    using c reg by (simp add: backfill_def require_context_def)
  with backfill_loop_skip [OF dealt] counts show ?thesis by simp
qed

definition sample_backfill :: "(py_error + backfill_result) \<times> db" where
  "sample_backfill = backfill sample_host sample_registry invoice_meta (Some sample_ctx) False 500 5 sample_db"

lemma sample_backfill_ok:
  "(case fst sample_backfill of Inr r \<Rightarrow> bf_examined r = 1 \<and> bf_created r = 1 | Inl _ \<Rightarrow> False)"
  by code_simp

theorem backfill_idempotent_witness:
  "\<exists>d'. backfill sample_host sample_registry invoice_meta (Some sample_ctx) False 500 6 d' =
     (Inr \<lparr>bf_examined = 1, bf_pending = 0, bf_created = 0, bf_skipped = 1, bf_dry_run = False\<rparr>, d')"
proof -
  obtain res where r: "fst sample_backfill = Inr res" "bf_examined res = 1"
    using case_okD [OF sample_backfill_ok] by blast
  then have "sample_backfill = (Inr res, snd sample_backfill)" by (simp add: prod_eq_iff)
  from backfill_idempotent [OF this [unfolded sample_backfill_def]] r(2) show ?thesis by metis
qed

lemma backfill_one_created:
  "backfill_one h cfg ctx now pk acc d = Inr (acc', d') \<Longrightarrow> bf_dry_run acc \<Longrightarrow> bf_created acc' = bf_created acc"
  by (auto simp: backfill_one_def Let_def result_simps split: option.splits if_splits)

lemma backfill_loop_created:
  "backfill_loop h cfg ctx now pks acc d = (Inr res, d') \<Longrightarrow> bf_dry_run acc \<Longrightarrow> bf_created res = bf_created acc"
proof (induction pks arbitrary: acc d)
  case (Cons pk pks)
  from Cons.prems obtain acc1 d1 where one: "backfill_one h cfg ctx now pk acc d = Inr (acc1, d1)"
    and rest: "backfill_loop h cfg ctx now pks acc1 d1 = (Inr res, d')"
    by (auto split: sum.splits)
  from Cons.IH [OF rest] backfill_one_counts [OF one] backfill_one_created [OF one] Cons.prems(2)
  show ?case by simp
qed simp

text \<open>
  A dry run never changes the database, whether it completes or raises; when it completes
  it reports as pending exactly the rows it did not skip, and creates nothing.
\<close>

theorem backfill_dry_run:
  "snd (backfill h reg m c True batch now d) = d \<and>
   (case fst (backfill h reg m c True batch now d) of
      Inl e \<Rightarrow> True
    | Inr res \<Rightarrow> bf_created res = 0 \<and> bf_pending res + bf_skipped res = bf_examined res)"
proof
  show "snd (backfill h reg m c True batch now d) = d"
    by (auto simp: backfill_def backfill_loop_dry split: sum.splits prod.splits)
  show "case fst (backfill h reg m c True batch now d) of
      Inl e \<Rightarrow> True
    | Inr res \<Rightarrow> bf_created res = 0 \<and> bf_pending res + bf_skipped res = bf_examined res"
  proof (cases "backfill h reg m c True batch now d")
    case (Pair r d')
    show ?thesis
    proof (cases r)
      case (Inr res)
      from backfill_Inr [OF Pair [unfolded Inr]] obtain ctx cfg f where
        "backfill_loop h cfg ctx now (backfill_pks cfg f ctx d)
          \<lparr>bf_examined = 0, bf_pending = 0, bf_created = 0, bf_skipped = 0, bf_dry_run = True\<rparr> d = (Inr res, d')"
        by blast
      from backfill_loop_counts [OF this] backfill_loop_created [OF this] Pair Inr show ?thesis by simp
    qed (simp add: Pair)
  qed
qed

section \<open>Restoration\<close>

text \<open>
  A successful restore starts from a row in the current scope whose history verifies and
  whose head has the expected revision, sets every non-relation field other than the scope field to
  its value in the event with the requested revision and no other column, and appends
  exactly one event, with action \<open>restore\<close> and the stored row's snapshot as after state.
\<close>

theorem restore_result:
  assumes "restore h orm reg m c pk revision expected now d = Inr (r', d')"
    and "lookup_registration reg m = Inr cfg" "r_model cfg = m" "orm_save_ok orm m"
    and "distinct (map (row_pk m) (db_rows d (m_label m)))"
    and "distinct (map (attname_of cfg) (r_fields cfg))"
    and "m_pk_attname m \<notin> attname_of cfg ` set (r_fields cfg)"
  shows "\<exists>ctx r res opk target e stored. c = Some ctx \<and> load_row m pk d = Some r \<and> in_scope_row cfg ctx r \<and>
    db_resources d (m_label m, opk) = Some res \<and> identity_value pk = Inr opk \<and> res_revision res = expected \<and>
    history_intact h res (ordered_events (m_label m, opk) d) \<and>
    target \<in> set (ordered_events (m_label m, opk) d) \<and> ev_revision target = revision \<and>
    (\<forall>name \<in> set (r_fields cfg). restorable cfg name \<longrightarrow>
      recorded_value cfg (json_members (ev_after target)) name = Some (r' (attname_of cfg name))) \<and>
    (\<forall>a. a \<notin> attname_of cfg ` set (filter (restorable cfg) (r_fields cfg)) \<longrightarrow> r' a = r a) \<and>
    db_events d' = db_events d @ [e] \<and> ev_action e = ''restore'' \<and> ev_actor e = ctx_actor ctx \<and>
    load_row m pk d' = Some stored \<and> snapshot cfg stored = Inr (ev_after e)"
proof -
  from restore_Inr [OF assms(1)] obtain cfg' r es target updates saved where
    live: "restore_live h reg m c pk expected d = Inr (cfg', r, es)"
    and tgt: "restore_target cfg' r es revision = Inr target"
    and fields: "restore_fields cfg' target (r_fields cfg') r [] = Inr (r', updates)" "updates \<noteq> []"
    and save: "model_save h orm reg cfg' c \<lparr>sr_raw = False, sr_update_fields = Some updates,
       sr_override = Some (m_label m, row_pk m r', ''restore''), sr_now = now\<rparr> r' d = Inr (saved, d')"
    by blast
  from restore_live_Inr [OF live] obtain ctx key res where cfg': "cfg' = cfg" and c: "c = Some ctx"
    and r: "load_row m pk d = Some r" "in_scope_row cfg ctx r"
    and key: "db_resources d key = Some res" "fst key = m_label m" "identity_value pk = Inr (snd key)"
    and exp: "res_revision res = expected" and es: "es = ordered_events key d" "history_intact h res es"
    using assms(2) by auto
  from restore_target_Inr [OF tgt] obtain t where t: "t \<in> set es" "ev_revision t = revision"
    "target = json_members (ev_after t)" by blast
  from restore_fields_spec [OF fields(1)] cfg' assms(6) have
    spec: "\<forall>name \<in> set (r_fields cfg). restorable cfg name \<longrightarrow>
      recorded_value cfg target name = Some (r' (attname_of cfg name))"
    "\<forall>a. a \<notin> attname_of cfg ` set (filter (restorable cfg) (r_fields cfg)) \<longrightarrow> r' a = r a" by auto
  have pk: "row_pk m r' = pk" "pk \<noteq> PNone"
    using spec(2) assms(7) load_row_pk [OF r(1)] by (auto simp: row_pk_def)
  have sb: "save_base h orm reg cfg c \<lparr>sr_raw = False, sr_update_fields = Some updates,
       sr_override = Some (m_label m, row_pk m r', ''restore''), sr_now = now\<rparr> r' d = Inr (saved, d')"
    using save fields(2) c cfg' by (simp add: model_save_def require_context_def)
  from save_base_Inr [OF sb] obtain before rs where
    "o_save orm m r' (Some updates) (db_rows d (m_label m)) = Inr (saved, rs)" using assms(3) by auto
  then have spk: "row_pk m saved = pk"
    using assms(4) [unfolded orm_save_ok_def, rule_format, OF assms(5)] pk by blast
  from save_base_one_event [OF sb] obtain e stored where
    "db_events d' = db_events d @ [e]" "ev_actor e = ctx_actor ctx" "load_row m pk d' = Some stored"
    "snapshot cfg stored = Inr (ev_after e)"
    "ev_action e = saved_action (Some (m_label m, pk, ''restore'')) (m_label m) pk (load_row m pk d)"
    using c assms(3) pk spk by (auto simp: describes_def)
  moreover have "key = (m_label m, snd key)" using key(2) by (simp add: prod_eq_iff)
  ultimately show ?thesis using c r key exp es t spec by (auto simp: saved_action_def)
qed

definition sent_save :: "py_error + row \<times> db" where
  "sent_save = save_base sample_host sample_orm sample_registry invoice_cfg (Some sample_ctx)
     \<lparr>sr_raw = False, sr_update_fields = None, sr_override = None, sr_now = 8\<rparr>
     (invoice_row ''1'' ''acme'' ''sent'') saved_db"

definition sent_db :: db where
  "sent_db = (case sent_save of Inr (_, d) \<Rightarrow> d | Inl _ \<Rightarrow> saved_db)"

definition sample_restore :: "py_error + row \<times> db" where
  "sample_restore = restore sample_host sample_orm sample_registry invoice_meta (Some sample_ctx) (PStr ''1'') 1 2 9 sent_db"

lemma sample_restore_ok: "is_ok sample_restore"
  by code_simp

lemma sample_restore_config:
  "r_model invoice_cfg = invoice_meta" "distinct (map (attname_of invoice_cfg) (r_fields invoice_cfg))"
  "m_pk_attname invoice_meta \<notin> attname_of invoice_cfg ` set (r_fields invoice_cfg)"
  "distinct (map (row_pk invoice_meta) (db_rows sent_db (m_label invoice_meta)))"
  by (simp add: invoice_cfg_def) code_simp+

theorem restore_result_witness:
  "\<exists>r' d' e. sample_restore = Inr (r', d') \<and> db_events d' = db_events sent_db @ [e] \<and> ev_action e = ''restore''"
proof -
  obtain r' d' where s: "sample_restore = Inr (r', d')" using sample_restore_ok by (auto simp: is_ok_iff)
  from restore_result [OF s [unfolded sample_restore_def] sample_lookup sample_restore_config(1) plain_save_ok
      sample_restore_config(4,2,3)] s
  show ?thesis by blast
qed

section \<open>Contexts\<close>

text \<open>
  The request middleware hands every request its own context: the caller's context is back
  when it returns or raises, it never leaks into the resolver or the view, and a view whose
  resolver produced a context runs in exactly that context.
\<close>

theorem middleware_isolates:
  "snd (mw_call resolver view req c) = c \<and>
   fst (mw_call resolver view req c) =
     (case fst (resolver req None) of
        Inl e \<Rightarrow> Inl e
      | Inr RNone \<Rightarrow>
          bindE (fst (view req None (snd (resolver req None)))) (\<lambda>resp. Inr (mw_stream resp None))
      | Inr ROther \<Rightarrow> Inl ImproperlyConfigured
      | Inr (RContext ctx) \<Rightarrow>
          bindE (fst (view req (Some ctx) (Some ctx))) (\<lambda>resp. Inr (mw_stream resp (Some ctx))))"
  by (auto simp: mw_call_cell)
    (auto simp: mw_call_def bind_context_def split: sum.splits resolved.splits prod.splits)

text \<open>
  A consumer that draws the chunks of a rebound stream, with whatever contexts it has of its own
  at each draw; and the same chunks drawn with none.
\<close>

fun draw_chunks :: "('s, 'c) source \<Rightarrow> cell \<Rightarrow> 's chunks \<Rightarrow> cell list \<Rightarrow> ((py_error + 'c option) \<times> cell) list" where
  "draw_chunks src ctx g [] = []"
| "draw_chunks src ctx g (c # cs) =
     (let (r, g', c') = chunks_next src ctx g c in (r, c') # draw_chunks src ctx g' cs)"

text \<open>
  Streaming responses stay isolated after the middleware has returned: every chunk is
  computed in the request's context, whatever contexts its consumer holds, and no draw changes
  the consumer's context.
\<close>

theorem stream_isolated:
  "draw_chunks src ctx g cs = zip (map fst (draw_chunks src ctx g (replicate (length cs) None))) cs"
proof (induction cs arbitrary: g)
  case (Cons c cs)
  obtain r g' c' where c: "chunks_next src ctx g c = (r, g', c')" by (cases "chunks_next src ctx g c") auto
  obtain r2 g2 c2 where n: "chunks_next src ctx g None = (r2, g2, c2)" by (cases "chunks_next src ctx g None") auto
  have "c' = c" using chunks_next_cell [of src ctx g c] c by simp
  moreover have "r = r2" "g' = g2"
    using chunks_next_outer [of src ctx g c None] chunks_next_gen [of src ctx g c None] c n by simp_all
  ultimately show ?case using Cons.IH [of g'] c n by simp
qed simp

text \<open>
  A function decorated with a scope runs in a context with the scope's four values, a new
  one on every call, and whatever it returns, raises or leaves in the context variable, the
  caller's context is back afterwards; generators are refused.
\<close>

theorem decorated_runs_in_scope:
  assumes "valid_context (sm_context m)"
  shows "scope_decorate m kind body =
    (if is_generator_kind kind then Inl UnsupportedOperation
     else Inr (\<lambda>oid c. (fst (body (Some ((sm_context m)\<lparr>ctx_oid := oid\<rparr>))), c)))"
  using assms
  by (auto simp: scope_decorate_def recreate_cm_def scope_of_context_valid with_scope_eq)

theorem decorated_runs_in_scope_witness:
  "scope_decorate \<lparr>sm_context = sample_ctx, sm_token = None\<rparr> PlainFunction (\<lambda>c. (Inr c, None)) =
   Inr (\<lambda>oid c. (Inr (Some (sample_ctx\<lparr>ctx_oid := oid\<rparr>)), c))"
proof -
  have "valid_context (sm_context \<lparr>sm_context = sample_ctx, sm_token = None\<rparr>)" by code_simp
  from decorated_runs_in_scope [OF this, of PlainFunction "\<lambda>c. (Inr c, None)"]
  show ?thesis by (simp add: is_generator_kind_def)
qed

text \<open>
  \<open>in_scope\<close> runs a function in the context its resolver returns, restores the context the
  resolver left, and refuses a resolver result that is not a context without running the
  function.
\<close>

theorem in_scope_runs_in_resolved:
  assumes "\<not> is_generator_kind kind" "resolver c = (Inr x, c1)"
    and "case x of RContext ctx \<Rightarrow> valid_context ctx | _ \<Rightarrow> True"
  shows "\<exists>f. in_scope resolver kind body = Inr f \<and>
    f oid c = (case x of
        RContext ctx \<Rightarrow> (fst (body (Some (ctx\<lparr>ctx_oid := oid\<rparr>))), c1)
      | _ \<Rightarrow> (Inl ImproperlyConfigured, c1))"
  using assms
  by (auto simp: in_scope_def scope_of_context_valid with_scope_eq split: resolved.splits)

theorem in_scope_runs_in_resolved_witness:
  "\<exists>f. in_scope (\<lambda>c. (Inr (RContext sample_ctx), c)) PlainFunction (\<lambda>c. (Inr c, None)) = Inr f \<and>
    f 5 None = (Inr (Some (sample_ctx\<lparr>ctx_oid := 5\<rparr>)), None)"
proof -
  have v: "case RContext sample_ctx of RContext ctx \<Rightarrow> valid_context ctx | _ \<Rightarrow> True" by code_simp
  from in_scope_runs_in_resolved [OF _ _ v, of PlainFunction "\<lambda>c. (Inr (RContext sample_ctx), c)" None None
      "\<lambda>c. (Inr c, None)" 5]
  show ?thesis by (simp add: is_generator_kind_def)
qed

section \<open>Registration and checks\<close>

lemma register_again:
  assumes "register_model m scope_field allow mode_name reg = Inr reg'"
  shows "register_model m scope_field allow mode_name reg' = Inr reg'"
proof -
  from register_model_Inr [OF assms] obtain names md cfg where n: "allow = Some names" "names \<noteq> []"
    and md: "parse_mode mode_name = Inr md"
    and cfg: "map_of reg' (m_label m) = Some cfg" "r_scope_field cfg = scope_field" "r_fields cfg = names"
      "r_mode cfg = md" by blast
  with assms show ?thesis
    by (auto simp: register_model_def result_simps simp del: parse_mode.simps split: if_splits)
qed

text \<open>
  Registration is sound and idempotent: it keeps the registry well formed and every entry in
  it, the new entry has the requested configuration, every field it audits is concrete and
  neither the primary key nor many-to-many, and repeating the call changes nothing.
\<close>

theorem registration_sound:
  assumes "register_model m scope_field allow mode_name reg = Inr reg'" "registry_ok reg"
  shows "registry_ok reg' \<and> (\<exists>new. reg' = reg @ new) \<and>
    register_model m scope_field allow mode_name reg' = Inr reg' \<and>
    (\<exists>cfg. lookup_registration reg' m = Inr cfg \<and> r_scope_field cfg = scope_field \<and>
       allow = Some (r_fields cfg) \<and> parse_mode mode_name = Inr (r_mode cfg) \<and>
       list_all (auditable m) (scope_field # r_fields cfg))"
proof -
  from register_model_Inr [OF assms(1)] obtain names md cfg where n: "allow = Some names"
    "parse_mode mode_name = Inr md" "list_all (auditable m) (scope_field # names)"
    and cfg: "map_of reg' (m_label m) = Some cfg" "r_scope_field cfg = scope_field" "r_fields cfg = names"
      "r_mode cfg = md"
    and reg': "reg' = reg \<or> map_of reg (m_label m) = None \<and> r_model cfg = m \<and> reg' = reg @ [(m_label m, cfg)]"
    by blast
  have "registry_ok reg' \<and> (\<exists>new. reg' = reg @ new)"
    using reg' assms(2) by (auto simp: registry_ok_def map_of_eq_None_iff)
  with n cfg register_again [OF assms(1)] show ?thesis by (simp add: lookup_registration_def)
qed

theorem registration_sound_witness:
  "\<exists>cfg. lookup_registration sample_registry invoice_meta = Inr cfg \<and> r_scope_field cfg = ''organization'' \<and>
     Some [''organization'', ''status''] = Some (r_fields cfg)"
proof -
  have reg: "register_model invoice_meta ''organization'' (Some [''organization'', ''status'']) ''enforce'' [] =
    Inr sample_registry"
    by (simp add: register_model_def result_simps invoice_meta_def invoice_fields_def text_field_def
      check_audit_field_def get_field_def sample_registry_def invoice_cfg_def)
  have "registry_ok []" by (simp add: registry_ok_def)
  from registration_sound [OF reg this] show ?thesis by blast
qed

text \<open>
  The system check reports no error exactly when every registered model of a selected app
  uses the package's managers and querysets throughout, has no many-to-many field and no
  relation whose deletion would write rows behind the library's back.
\<close>

theorem system_check_complete:
  "check_registered_models selected reg = [] \<longleftrightarrow>
   list_all model_conforms (filter selected (map r_model (registered_models reg)))"
  by (induction reg)
    (auto simp: check_registered_models_def registered_models_def manager_errors_Nil relation_errors_Nil
      model_conforms_def Let_def)

text \<open>
  The audit log never blocks a legitimate write: in a database reached by library calls the
  unique constraint on revisions does not fire, so an append fails only when the row's key or
  scope is unusable or the history belongs to another scope.
\<close>

theorem append_never_conflicts:
  assumes "reachable h orm reg (empty_db rows) d"
    and "identity_value (row_pk (r_model cfg) r) = Inr opk"
    and "scope_attname cfg = Inr a" "identity_value (r a) = Inr scope"
    and "db_resources d (m_label (r_model cfg), opk) = None \<or>
      map_option res_scope (db_resources d (m_label (r_model cfg), opk)) = Some scope"
  shows "\<exists>d'. append_event h cfg r action before after ctx now d = Inr d'"
proof (rule append_event_succeeds [OF audit_ext_inv [OF reachable_ext [OF assms(1)] audit_inv_empty] assms(2-4)])
  show "res_scope (get_or_create (m_label (r_model cfg), opk) scope d) = scope"
    using assms(5) by (auto simp: get_or_create_def)
qed

theorem append_never_conflicts_witness:
  "\<exists>d'. append_event sample_host invoice_cfg (invoice_row ''1'' ''acme'' ''x'') ''update'' JNull JNull sample_ctx 9
     saved_db = Inr d'"
proof (rule append_never_conflicts [OF saved_reachable [unfolded sample_db_def]])
  show "identity_value (row_pk (r_model invoice_cfg) (invoice_row ''1'' ''acme'' ''x'')) = Inr ''1''" by code_simp
  show "scope_attname invoice_cfg = Inr ''organization''" by code_simp
  show "identity_value (invoice_row ''1'' ''acme'' ''x'' ''organization'') = Inr ''acme''" by code_simp
  have "map_option res_scope (db_resources saved_db (m_label (r_model invoice_cfg), ''1'')) = Some ''acme''"
    by code_simp
  then show "db_resources saved_db (m_label (r_model invoice_cfg), ''1'') = None \<or>
      map_option res_scope (db_resources saved_db (m_label (r_model invoice_cfg), ''1'')) = Some ''acme''" by blast
qed

end
