(* ===== verification/V1_Monad.thy ===== *)
theory V1_Monad
  imports Json_Encode
begin

text \<open>
  Shared vocabulary for \<open>legacy/v1/scoped\<close>. Its services work on autocommitting tables: an
  operation that raises keeps what it had written before. So an operation is a function from
  the state to a result \<^emph>\<open>and\<close> a state; \<open>Inl\<close> is a raised exception. The theory holds the
  sequencing of such operations, a small calculus for the invariants they keep, the
  exceptions, and the SQL idioms (limit, offset, distinct, update) the services share.
\<close>

section \<open>Exceptions\<close>

datatype exn_class = Sqlite3Integrity | PsycopgUnique | OtherDbError

datatype v1_error =
    ScopeNotFound
  | ScopeFrozen
  | AccessDenied
  | RateLimitExceeded
  | QuotaExceeded
  | AuditSequenceCollision
  | EnvironmentNotFound
  | EnvironmentStateInvalid
  | FlowFailed
  | StageTransitionDenied
  | FlowBlocked
  | PromotionDenied
  | DeploymentFailed
  | DeploymentGateFailed
  | DeploymentRollbackFailed
  | SecretNotFound
  | SecretAccessDenied
  | SecretRefExpired
  | SecretRotationFailed
  | SecretFailed
  | SecretLeakDetected
  | SchedulingFailed
  | JobNotFound
  | JobStateInvalid
  | IsolationViolation
  | PrincipalNotFound
  | RollbackDenied
  | RollbackFailed
  | ContractNotFound
  | ContractInvalid
  | V1ValueError
  | V1TypeError
  | V1AttributeError
  | V1KeyError
  | DbError exn_class string

text \<open>The constraints of the schema whose violation the code can meet.\<close>

datatype violation = SeqTaken | IdTaken | KeyTaken | ForeignKeyMissing

section \<open>Operations\<close>

type_synonym ('s, 'a) sop = "'s \<Rightarrow> (v1_error + 'a) \<times> 's"

definition returnS :: "'a \<Rightarrow> ('s, 'a) sop" where
  "returnS x s = (Inr x, s)"

definition raiseS :: "v1_error \<Rightarrow> ('s, 'a) sop" where
  "raiseS e s = (Inl e, s)"

definition getS :: "('s \<Rightarrow> 'a) \<Rightarrow> ('s, 'a) sop" where
  "getS f s = (Inr (f s), s)"

definition modifyS :: "('s \<Rightarrow> 's) \<Rightarrow> ('s, unit) sop" where
  "modifyS f s = (Inr (), f s)"

definition bindS :: "('s, 'a) sop \<Rightarrow> ('a \<Rightarrow> ('s, 'b) sop) \<Rightarrow> ('s, 'b) sop" where
  "bindS m f s = (case m s of (Inl e, s') \<Rightarrow> (Inl e, s') | (Inr x, s') \<Rightarrow> f x s')"

definition whenS :: "bool \<Rightarrow> ('s, unit) sop \<Rightarrow> ('s, unit) sop" where
  "whenS b m = (if b then m else returnS ())"

definition liftS :: "v1_error + 'a \<Rightarrow> ('s, 'a) sop" where
  "liftS r s = (r, s)"

fun mapS :: "('a \<Rightarrow> ('s, 'b) sop) \<Rightarrow> 'a list \<Rightarrow> ('s, 'b list) sop" where
  "mapS f [] = returnS []"
| "mapS f (x # xs) = bindS (f x) (\<lambda>y. bindS (mapS f xs) (\<lambda>ys. returnS (y # ys)))"

lemma bindS_cong [fundef_cong]:
  "m s = m' s' \<Longrightarrow> (\<And>x t. m' s' = (Inr x, t) \<Longrightarrow> f x t = f' x t) \<Longrightarrow> bindS m f s = bindS m' f' s'"
  by (auto simp: bindS_def split: prod.splits sum.splits)

lemma sop_simps [simp]:
  "returnS x s = (Inr x, s)" "raiseS e s = (Inl e, s)" "getS f s = (Inr (f s), s)"
  "modifyS g s = (Inr (), g s)" "liftS r s = (r, s)"
  by (simp_all add: returnS_def raiseS_def getS_def modifyS_def liftS_def)

lemma whenS_simps [simp]: "whenS True m = m" "whenS False m = returnS ()"
  by (simp_all add: whenS_def)

lemma bindS_Inr: "m s = (Inr x, s') \<Longrightarrow> bindS m f s = f x s'"
  by (simp add: bindS_def)

lemma bindS_Inl: "m s = (Inl e, s') \<Longrightarrow> bindS m f s = (Inl e, s')"
  by (simp add: bindS_def)

lemma bindS_basic [simp]:
  "bindS (returnS x) f1 s = f1 x s" "bindS (raiseS e) f2 s = (Inl e, s)"
  "bindS (getS g) f3 s = f3 (g s) s" "bindS (modifyS h) f4 s = f4 () (h s)"
  "bindS (liftS (Inr y)) f5 s = f5 y s" "bindS (liftS (Inl e)) f6 s = (Inl e, s)"
  by (simp_all add: bindS_def)

text \<open>Inversion of a sequence that returned.\<close>

named_theorems sop_dests \<open>inversion of operations that returned\<close>

lemma bindS_InrD [sop_dests]: "bindS m f s = (Inr y, t) \<Longrightarrow> \<exists>x s'. m s = (Inr x, s') \<and> f x s' = (Inr y, t)"
  by (auto simp: bindS_def split: prod.splits sum.splits)

lemma bindS_Inr_iff: "bindS m f s = (Inr y, t) \<longleftrightarrow> (\<exists>x s'. m s = (Inr x, s') \<and> f x s' = (Inr y, t))"
  by (auto simp: bindS_def split: prod.splits sum.splits)

text \<open>
  An operation on a part of the state; and \<open>try: m except Exception: handler; raise\<close>, where the
  handler runs in the state the failed operation left.
\<close>

definition zoomS :: "('s \<Rightarrow> 't) \<Rightarrow> ('t \<Rightarrow> 's \<Rightarrow> 's) \<Rightarrow> ('t, 'a) sop \<Rightarrow> ('s, 'a) sop" where
  "zoomS part put m s = (case m (part s) of (r, t) \<Rightarrow> (r, put t s))"

definition on_error :: "('s, 'a) sop \<Rightarrow> ('s, unit) sop \<Rightarrow> ('s, 'a) sop" where
  "on_error m handler s =
     (case m s of
        (Inr x, t) \<Rightarrow> (Inr x, t)
      | (Inl e, t) \<Rightarrow> bindS handler (\<lambda>_. raiseS e) t)"

lemma on_error_Inr: "on_error m handler s = (Inr x, t) \<longleftrightarrow> m s = (Inr x, t)"
  by (auto simp: on_error_def bindS_def split: prod.splits sum.splits)

section \<open>Invariants of operations\<close>

text \<open>
  \<open>keeps I m\<close>: the operation keeps \<open>I\<close>, whether it returns or raises. \<open>reads m\<close>: it does not
  change the state at all.
\<close>

definition keeps :: "('s \<Rightarrow> bool) \<Rightarrow> ('s, 'a) sop \<Rightarrow> bool" where
  "keeps I m \<longleftrightarrow> (\<forall>s. I s \<longrightarrow> I (snd (m s)))"

definition reads :: "('s, 'a) sop \<Rightarrow> bool" where
  "reads m \<longleftrightarrow> (\<forall>s. snd (m s) = s)"

named_theorems keeps_intros \<open>what keeps an invariant\<close>

lemma keepsD: "keeps I m \<Longrightarrow> I s \<Longrightarrow> m s = (r, s') \<Longrightarrow> I s'"
  unfolding keeps_def by (metis snd_conv)

lemma keeps_snd: "keeps I m \<Longrightarrow> I s \<Longrightarrow> I (snd (m s))"
  unfolding keeps_def by blast

lemma keeps_basic [keeps_intros]:
  "keeps I1 (returnS x)" "keeps I2 (raiseS e)" "keeps I3 (getS f)" "keeps I4 (liftS r)"
  by (simp_all add: keeps_def)

lemma keeps_modify [keeps_intros]: "(\<And>s. I s \<Longrightarrow> I (f s)) \<Longrightarrow> keeps I (modifyS f)"
  by (simp add: keeps_def)

lemma keeps_bind [keeps_intros]: "keeps I m \<Longrightarrow> (\<And>x. keeps I (f x)) \<Longrightarrow> keeps I (bindS m f)"
  unfolding keeps_def bindS_def by (auto split: prod.splits sum.splits)

lemma keeps_when [keeps_intros]: "(b \<Longrightarrow> keeps I m) \<Longrightarrow> keeps I (whenS b m)"
  by (cases b) (auto intro: keeps_basic)

lemma keeps_if [keeps_intros]: "(b \<Longrightarrow> keeps I m) \<Longrightarrow> (\<not> b \<Longrightarrow> keeps I n) \<Longrightarrow> keeps I (if b then m else n)"
  by simp

lemma keeps_option [keeps_intros]:
  "(x = None \<Longrightarrow> keeps I m) \<Longrightarrow> (\<And>y. x = Some y \<Longrightarrow> keeps I (n y)) \<Longrightarrow>
   keeps I (case x of None \<Rightarrow> m | Some y \<Rightarrow> n y)"
  by (cases x) auto

lemma keeps_prod [keeps_intros]: "(\<And>a b. x = (a, b) \<Longrightarrow> keeps I (f a b)) \<Longrightarrow> keeps I (case x of (a, b) \<Rightarrow> f a b)"
  by (cases x) auto

lemma keeps_let [keeps_intros]: "keeps I (f x) \<Longrightarrow> keeps I (let y = x in f y)"
  by simp

lemma keeps_map [keeps_intros]: "(\<And>x. keeps I (f x)) \<Longrightarrow> keeps I (mapS f xs)"
  by (induction xs) (auto intro: keeps_intros)

lemma keeps_zoom [keeps_intros]:
  "keeps J m \<Longrightarrow> (\<And>s. I s \<Longrightarrow> J (part s)) \<Longrightarrow> (\<And>s t. I s \<Longrightarrow> J t \<Longrightarrow> I (put t s)) \<Longrightarrow> keeps I (zoomS part put m)"
  unfolding keeps_def zoomS_def by (auto split: prod.splits) (metis snd_conv)

lemma keeps_on_error [keeps_intros]: "keeps I m \<Longrightarrow> keeps I handler \<Longrightarrow> keeps I (on_error m handler)"
  unfolding keeps_def on_error_def bindS_def by (auto split: prod.splits sum.splits)

text \<open>
  Once the first part of a sequence has re-established an invariant, the rest keeps it; and the
  rest may rely on what the first part keeps.
\<close>

lemma keeps_after: "I (snd (m s)) \<Longrightarrow> (\<And>y. keeps I (f y)) \<Longrightarrow> I (snd (bindS m f s))"
  unfolding keeps_def bindS_def by (cases "m s") (auto split: sum.splits)

lemma keeps_under:
  "keeps I m \<Longrightarrow> keeps J m \<Longrightarrow> I s \<Longrightarrow> J s \<Longrightarrow> (\<And>x t. I t \<Longrightarrow> J t \<Longrightarrow> I (snd (f x t))) \<Longrightarrow> I (snd (bindS m f s))"
  unfolding keeps_def bindS_def by (cases "m s") (auto split: sum.splits dest!: spec [of _ s])

lemma keeps_reads: "reads m \<Longrightarrow> keeps I m"
  by (simp add: reads_def keeps_def)

text \<open>Operations that only read, and a sequence that starts with one.\<close>

named_theorems reads_intros \<open>what does not change the state\<close>

lemma reads_basic [reads_intros]:
  "reads (returnS x)" "reads (raiseS e)" "reads (getS f)" "reads (liftS r)"
  by (simp_all add: reads_def)

lemma reads_bind [reads_intros]: "reads m \<Longrightarrow> (\<And>x. reads (f x)) \<Longrightarrow> reads (bindS m f)"
  unfolding reads_def bindS_def by (auto split: prod.splits sum.splits) (metis snd_conv)+

lemma reads_if [reads_intros]: "(b \<Longrightarrow> reads m) \<Longrightarrow> (\<not> b \<Longrightarrow> reads n) \<Longrightarrow> reads (if b then m else n)"
  by simp

lemma reads_option [reads_intros]:
  "(x = None \<Longrightarrow> reads m) \<Longrightarrow> (\<And>y. x = Some y \<Longrightarrow> reads (n y)) \<Longrightarrow> reads (case x of None \<Rightarrow> m | Some y \<Rightarrow> n y)"
  by (cases x) auto

lemma bindS_reads: "reads m \<Longrightarrow> bindS m f s = (case fst (m s) of Inl e \<Rightarrow> (Inl e, s) | Inr x \<Rightarrow> f x s)"
proof -
  assume "reads m"
  then have "snd (m s) = s" by (simp add: reads_def)
  then show ?thesis by (cases "m s") (auto simp: bindS_def split: sum.splits)
qed

lemma returned: "isl (fst p) = False \<Longrightarrow> \<exists>r. p = (Inr r, snd p)"
  by (cases p; cases "fst p") auto

text \<open>A traversal all of whose steps return, in states among which the answers agree.\<close>

lemma mapS_returns:
  assumes step: "\<And>x s. good s \<Longrightarrow> \<exists>s'. f x s = (Inr (A x s), s') \<and> good s'"
    and stable: "\<And>x s s'. good s \<Longrightarrow> good s' \<Longrightarrow> A x s' = A x s" and "good s"
  shows "\<exists>s'. mapS f xs s = (Inr (map (\<lambda>x. A x s) xs), s') \<and> good s'"
  using \<open>good s\<close>
proof (induction xs arbitrary: s)
  case (Cons x xs)
  from step [OF Cons.prems, of x] obtain s1 where s1: "f x s = (Inr (A x s), s1)" "good s1" by blast
  from Cons.IH [OF s1(2)] obtain s2 where s2: "mapS f xs s1 = (Inr (map (\<lambda>x. A x s1) xs), s2)" "good s2" by blast
  have "map (\<lambda>x. A x s1) xs = map (\<lambda>x. A x s) xs" using stable [OF Cons.prems s1(2)] by simp
  with s1 s2 show ?case by (simp add: bindS_Inr)
qed simp

section \<open>SQL idioms\<close>

definition sql_limit :: "nat option \<Rightarrow> nat \<Rightarrow> 'a list \<Rightarrow> 'a list" where
  "sql_limit limit offset xs =
     (case limit of None \<Rightarrow> xs | Some n \<Rightarrow> take n (drop offset xs))"

lemma sql_limit_subset: "set (sql_limit l ofs xs) \<subseteq> set xs"
  by (auto simp: sql_limit_def split: option.splits dest: in_set_takeD in_set_dropD)

text \<open>An UPDATE: the rows that satisfy the condition are rewritten in place.\<close>

definition sql_update_where :: "('r \<Rightarrow> bool) \<Rightarrow> ('r \<Rightarrow> 'r) \<Rightarrow> 'r list \<Rightarrow> 'r list" where
  "sql_update_where P f = map (\<lambda>r. if P r then f r else r)"

lemma sql_update_where_key:
  "(\<And>r. P r \<Longrightarrow> key (f r) = key r) \<Longrightarrow> map key (sql_update_where P f rs) = map key rs"
  by (simp add: sql_update_where_def)

lemma sql_update_where_set: "r \<in> set (sql_update_where P f rs) \<longleftrightarrow>
  (\<exists>q \<in> set rs. if P q then r = f q else r = q)"
  by (auto simp: sql_update_where_def)

lemma update_where_others:
  assumes "\<And>r. P r \<Longrightarrow> key r = x \<and> key (f r) = x"
  shows "filter (\<lambda>r. key r \<noteq> x) (sql_update_where P f rows) = filter (\<lambda>r. key r \<noteq> x) rows"
  using assms by (induction rows) (auto simp: sql_update_where_def)

lemma update_where_all:
  assumes "\<And>r. P r \<Longrightarrow> Q (f r)" "\<And>r. \<not> P r \<Longrightarrow> Q r"
  shows "\<forall>r \<in> set (sql_update_where P f rows). Q r"
  using assms by (auto simp: sql_update_where_def)

lemma update_where_ball:
  "\<forall>r \<in> set rows. Q r \<Longrightarrow> (\<And>r. Q r \<Longrightarrow> Q (f r)) \<Longrightarrow> \<forall>r \<in> set (sql_update_where P f rows). Q r"
  by (auto simp: sql_update_where_def)

text \<open>\<open>ORDER BY\<close>: descending keeps the table order of equal keys.\<close>

definition sql_order :: "bool \<Rightarrow> ('r \<Rightarrow> 'k::linorder) \<Rightarrow> 'r list \<Rightarrow> 'r list" where
  "sql_order desc key rs = (if desc then rev (sort_key key (rev rs)) else sort_key key rs)"

lemma sql_order_set [simp]: "set (sql_order d k rs) = set rs"
  by (simp add: sql_order_def)

lemma sql_order_desc: "sorted_wrt (\<lambda>x y. key y \<le> key x) (sql_order True key xs)"
proof -
  have "sorted (map key (sort_key key (rev xs)))" by simp
  then show ?thesis by (simp add: sql_order_def sorted_wrt_rev sorted_map)
qed

text \<open>The \<open>order_by\<close> convention: a leading minus sign means descending (all of them are stripped).\<close>

definition order_desc :: "string \<Rightarrow> bool" where
  "order_desc s \<longleftrightarrow> (case s of c # _ \<Rightarrow> c = CHR ''-'' | [] \<Rightarrow> False)"

definition order_column :: "string set \<Rightarrow> string \<Rightarrow> string \<Rightarrow> string" where
  "order_column allowed fallback s =
     (let col = dropWhile (\<lambda>c. c = CHR ''-'') s in if col \<in> allowed then col else fallback)"

text \<open>The rows a walk has not met yet: the measure of walks that remember what they have seen.\<close>

definition unseen :: "('r \<Rightarrow> 'k) \<Rightarrow> 'k list \<Rightarrow> 'r list \<Rightarrow> nat" where
  "unseen key seen rows = length (filter (\<lambda>r. key r \<notin> set seen) rows)"

lemma unseen_mono: "set seen \<subseteq> set seen' \<Longrightarrow> unseen key seen' rows \<le> unseen key seen rows"
  by (induction rows) (auto simp: unseen_def)

lemma unseen_less:
  assumes "r \<in> set rows" "key r \<notin> set seen"
  shows "unseen key (key r # seen) rows < unseen key seen rows"
proof -
  have "filter (\<lambda>x. key x \<notin> set (key r # seen)) rows =
      filter (\<lambda>x. key x \<noteq> key r) (filter (\<lambda>x. key x \<notin> set seen) rows)"
    by (auto intro: filter_cong)
  with assms show ?thesis
    unfolding unseen_def by (simp only:) (rule length_filter_less [of r], auto)
qed

section \<open>Strings\<close>

definition lower_char :: "char \<Rightarrow> char" where
  "lower_char c = (let n = (of_char c :: nat) in if 65 \<le> n \<and> n \<le> 90 then char_of (n + 32) else c)"

definition lower :: "string \<Rightarrow> string" where
  "lower = map lower_char"

text \<open>Python's \<open>p in s\<close> on strings.\<close>

fun has_prefix :: "string \<Rightarrow> string \<Rightarrow> bool" where
  "has_prefix [] s = True"
| "has_prefix (c # p) [] = False"
| "has_prefix (c # p) (d # s) = (c = d \<and> has_prefix p s)"

fun has_infix :: "string \<Rightarrow> string \<Rightarrow> bool" where
  "has_infix p [] = (p = [])"
| "has_infix p (c # s) = (has_prefix p (c # s) \<or> has_infix p s)"

text \<open>\<open>str.split(sep)\<close> for a one-character separator, and its inverse \<open>sep.join\<close>.\<close>

fun split_on :: "char \<Rightarrow> string \<Rightarrow> string list" where
  "split_on sep [] = [[]]"
| "split_on sep (c # s) =
     (if c = sep then [] # split_on sep s
      else (case split_on sep s of [] \<Rightarrow> [[c]] | p # ps \<Rightarrow> (c # p) # ps))"

fun join_on :: "char \<Rightarrow> string list \<Rightarrow> string" where
  "join_on sep [] = []"
| "join_on sep [p] = p"
| "join_on sep (p # ps) = p @ sep # join_on sep ps"

lemma split_on_nonempty [simp]: "split_on sep s \<noteq> []"
  by (induction s) (auto split: list.splits)

lemma join_split: "join_on sep (split_on sep s) = s"
proof (induction s)
  case (Cons c s)
  obtain p ps where "split_on sep s = p # ps" using split_on_nonempty by (cases "split_on sep s") auto
  with Cons show ?case by (cases ps) auto
qed simp

lemma split_on_no_sep: "sep \<notin> set s \<Longrightarrow> split_on sep s = [s]"
  by (induction s) auto

lemma split_on_append: "sep \<notin> set p \<Longrightarrow> split_on sep (p @ sep # s) = p # split_on sep s"
  by (induction p) auto

end
