(* ===== verification/V1_Types.thy ===== *)
theory V1_Types
  imports V1_Monad
begin

text \<open>
  \<open>legacy/v1/scoped/types.py\<close>: URNs with their textual form, lifecycle states, action types
  and the metadata bag. \<open>ActionType\<close> members are represented by their values.
\<close>

section \<open>Numbers from text\<close>

text \<open>
  Python's \<open>int(s)\<close>: surrounding white space, a sign, and decimal digits with single
  underscores between them.
\<close>

definition py_space :: "char \<Rightarrow> bool" where
  "py_space c \<longleftrightarrow>
     (let n = (of_char c :: nat) in (9 \<le> n \<and> n \<le> 13) \<or> (28 \<le> n \<and> n \<le> 32) \<or> n = 133 \<or> n = 160)"

definition strip :: "string \<Rightarrow> string" where
  "strip s = rev (dropWhile py_space (rev (dropWhile py_space s)))"

fun valid_digits :: "string \<Rightarrow> bool" where
  "valid_digits [] = False"
| "valid_digits [c] = is_digit c"
| "valid_digits (c # d # s) =
     (is_digit c \<and> (if d = CHR ''_'' then valid_digits s else valid_digits (d # s)))"

definition unsigned_int :: "string \<Rightarrow> int option" where
  "unsigned_int s = (if valid_digits s then Some (int (read_nat (filter is_digit s))) else None)"

definition py_int :: "string \<Rightarrow> int option" where
  "py_int raw =
     (case strip raw of
        [] \<Rightarrow> None
      | c # s \<Rightarrow>
          if c = CHR ''-'' then map_option uminus (unsigned_int s)
          else if c = CHR ''+'' then unsigned_int s
          else unsigned_int (c # s))"

lemma is_digit_not: "is_digit c \<Longrightarrow> c \<noteq> CHR ''_'' \<and> c \<noteq> CHR ''-'' \<and> c \<noteq> CHR ''+'' \<and> c \<noteq> CHR '':'' \<and> \<not> py_space c"
  by (auto simp: is_digit_def py_space_def)

lemma valid_digits_all: "s \<noteq> [] \<Longrightarrow> list_all is_digit s \<Longrightarrow> valid_digits s"
  by (induction s rule: valid_digits.induct) (auto dest: is_digit_not)

lemma drop_space_digits: "list_all is_digit s \<Longrightarrow> dropWhile py_space s = s"
  by (cases s) (auto dest: is_digit_not)

lemma strip_digits: "list_all is_digit s \<Longrightarrow> strip s = s"
  by (simp add: strip_def drop_space_digits)

lemma py_int_show_nat: "py_int (show_nat n) = Some (int n)"
proof -
  have d: "list_all is_digit (show_nat n)" by (rule show_nat_digits)
  obtain c s where cs: "show_nat n = c # s" using show_nat_nonempty by (cases "show_nat n") auto
  have "filter is_digit (show_nat n) = show_nat n" using d by (simp add: list_all_iff)
  then have "unsigned_int (show_nat n) = Some (int n)"
    using valid_digits_all [OF show_nat_nonempty d] by (simp add: unsigned_int_def read_show_nat)
  moreover have "c \<noteq> CHR ''-''" "c \<noteq> CHR ''+''" using d cs is_digit_not [of c] by auto
  ultimately show ?thesis using strip_digits [OF d] cs by (simp add: py_int_def)
qed

section \<open>URNs\<close>

record urn =
  u_kind :: string
  u_namespace :: string
  u_name :: string
  u_version :: int

definition mk_urn :: "string \<Rightarrow> string \<Rightarrow> string \<Rightarrow> int \<Rightarrow> v1_error + urn" where
  "mk_urn kind namespace name version =
     (if kind = [] \<or> namespace = [] \<or> name = [] \<or> version < 1 then Inl V1ValueError
      else Inr \<lparr>u_kind = kind, u_namespace = namespace, u_name = name, u_version = version\<rparr>)"

definition urn_str :: "urn \<Rightarrow> string" where
  "urn_str u =
     ''scoped:'' @ u_kind u @ '':'' @ u_namespace u @ '':'' @ u_name u @ '':'' @ show_int (u_version u)"

definition urn_parse :: "string \<Rightarrow> v1_error + urn" where
  "urn_parse raw =
     (let parts = split_on (CHR '':'') raw
      in if length parts < 5 \<or> hd parts \<noteq> ''scoped'' then Inl V1ValueError
         else case py_int (last parts) of
                None \<Rightarrow> Inl V1ValueError
              | Some version \<Rightarrow>
                  mk_urn (parts ! 1) (parts ! 2) (join_on (CHR '':'') (butlast (drop 3 parts))) version)"

lemma split_on_snoc: "c \<notin> set q \<Longrightarrow> split_on c (s @ c # q) = split_on c s @ [q]"
  by (induction s) (auto simp: split_on_no_sep split: list.splits)

lemma urn_str_parts:
  assumes "CHR '':'' \<notin> set (u_kind u)" "CHR '':'' \<notin> set (u_namespace u)" "u_version u \<ge> 1"
  shows "split_on (CHR '':'') (urn_str u) =
    ''scoped'' # u_kind u # u_namespace u # split_on (CHR '':'') (u_name u) @ [show_nat (nat (u_version u))]"
proof -
  have "CHR '':'' \<notin> set (show_nat (nat (u_version u)))"
    using show_nat_digits [of "nat (u_version u)"] is_digit_not by (auto simp: list_all_iff)
  then have "split_on (CHR '':'') (u_name u @ CHR '':'' # show_nat (nat (u_version u))) =
      split_on (CHR '':'') (u_name u) @ [show_nat (nat (u_version u))]"
    by (rule split_on_snoc)
  moreover have "urn_str u = ''scoped'' @ CHR '':'' # u_kind u @ CHR '':'' # u_namespace u @ CHR '':'' #
      u_name u @ CHR '':'' # show_nat (nat (u_version u))"
    using assms(3) by (simp add: urn_str_def show_int_def)
  ultimately show ?thesis
    using assms(1,2) by (simp add: split_on_append del: append_Cons append.simps)
qed

section \<open>Lifecycle states and actions\<close>

datatype lifecycle = Draft | Active | Deprecated | Archived

fun lifecycle_name :: "lifecycle \<Rightarrow> string" where
  "lifecycle_name Draft = ''DRAFT''"
| "lifecycle_name Active = ''ACTIVE''"
| "lifecycle_name Deprecated = ''DEPRECATED''"
| "lifecycle_name Archived = ''ARCHIVED''"

definition action_types :: "string list" where
  "action_types =
    [''create'', ''read'', ''update'', ''delete'', ''share'', ''revoke'', ''register'',
     ''unregister'', ''rule_change'', ''rollback'', ''scope_create'', ''scope_modify'',
     ''scope_dissolve'', ''membership_change'', ''ownership_transfer'', ''lifecycle_change'',
     ''access_check'', ''projection'', ''env_spawn'', ''env_suspend'', ''env_resume'',
     ''env_complete'', ''env_discard'', ''env_promote'', ''env_snapshot'', ''stage_transition'',
     ''flow_push'', ''promotion'', ''deploy'', ''deploy_rollback'', ''gate_check'',
     ''secret_create'', ''secret_read'', ''secret_rotate'', ''secret_revoke'',
     ''secret_ref_grant'', ''secret_ref_resolve'', ''integration_connect'',
     ''integration_disconnect'', ''plugin_install'', ''plugin_activate'', ''plugin_suspend'',
     ''plugin_uninstall'', ''plugin_permission_grant'', ''plugin_permission_revoke'',
     ''hook_register'', ''hook_deactivate'', ''hook_execute'', ''connector_propose'',
     ''connector_submit'', ''connector_approve'', ''connector_reject'', ''connector_suspend'',
     ''connector_revoke'', ''connector_sync'', ''connector_policy_add'', ''marketplace_publish'',
     ''marketplace_install'', ''marketplace_version_update'', ''marketplace_deprecate'',
     ''marketplace_remove'', ''marketplace_visibility_change'', ''marketplace_review'',
     ''contract_create'', ''contract_update'', ''contract_validate'', ''blob_create'',
     ''blob_read'', ''blob_delete'', ''rate_limit_check'', ''quota_check'',
     ''feature_flag_check'', ''redaction_apply'', ''config_set'', ''config_delete'',
     ''template_create'', ''template_update'', ''template_instantiate'', ''export'', ''import'',
     ''event_emit'', ''event_subscribe'', ''event_unsubscribe'', ''webhook_create'',
     ''webhook_delete'', ''webhook_deliver'', ''notification_create'', ''notification_read'',
     ''notification_dismiss'', ''notification_rule_create'', ''schedule_create'',
     ''schedule_archive'', ''job_enqueue'', ''job_start'', ''job_complete'', ''job_fail'',
     ''job_cancel'']"

text \<open>\<open>ActionType(value)\<close>.\<close>

definition action_of :: "string \<Rightarrow> v1_error + string" where
  "action_of v = (if v \<in> set action_types then Inr v else Inl V1ValueError)"

section \<open>The metadata bag\<close>

type_synonym metadata = "(string \<times> json) list"

definition meta_get :: "metadata \<Rightarrow> string \<Rightarrow> json \<Rightarrow> json" where
  "meta_get m k dflt = (case map_of m k of None \<Rightarrow> dflt | Some v \<Rightarrow> v)"

text \<open>A dict keeps the position of a key that is already there.\<close>

definition meta_set :: "string \<Rightarrow> json \<Rightarrow> metadata \<Rightarrow> metadata" where
  "meta_set k v m =
     (if map_of m k = None then m @ [(k, v)]
      else map (\<lambda>(k', v'). if k' = k then (k', v) else (k', v')) m)"

definition meta_merge :: "metadata \<Rightarrow> metadata \<Rightarrow> metadata" where
  "meta_merge m other = fold (\<lambda>(k, v). meta_set k v) other m"

lemma map_of_meta_set: "map_of (meta_set k v m) = (map_of m)(k \<mapsto> v)"
proof (cases "map_of m k")
  case None
  then show ?thesis by (auto simp: meta_set_def map_add_def split: option.splits)
next
  case (Some w)
  have "map_of (map (\<lambda>(k', v'). if k' = k then (k', v) else (k', v')) m) x =
      (if x = k \<and> map_of m k \<noteq> None then Some v else map_of m x)" for x
    by (induction m) auto
  with Some show ?thesis by (auto simp: meta_set_def)
qed

lemma map_of_meta_merge: "distinct (map fst other) \<Longrightarrow> map_of (meta_merge m other) = map_of m ++ map_of other"
proof (induction other arbitrary: m)
  case Nil
  then show ?case by (simp add: meta_merge_def)
next
  case (Cons kv other)
  obtain k v where kv: "kv = (k, v)" by (cases kv)
  have "map_of other k = None" using Cons.prems kv by (simp add: map_of_eq_None_iff)
  then have "(map_of m)(k \<mapsto> v) ++ map_of other = map_of m ++ (map_of other)(k \<mapsto> v)"
    by (auto simp: map_add_def fun_eq_iff split: option.splits)
  with Cons kv show ?case by (simp add: meta_merge_def map_of_meta_set del: map_add_upd fun_upd_apply)
qed

end
