(* ===== verification/V1_Audit.thy ===== *)
theory V1_Audit
  imports V1_Types Hash_Chain
begin

text \<open>
  \<open>legacy/v1/scoped/audit\<close>: the trace entry and its digest (\<open>models.py\<close>), the writer with its
  in-memory head and bounded retry (\<open>writer.py\<close>), the queries and the chunked verification of
  the chain (\<open>query.py\<close>), and retention (\<open>retention.py\<close>).

  The table is the list of its rows in insertion order, with the unique index on \<open>sequence\<close>
  (migration \<open>m0014\<close>), the primary key and the foreign key of \<open>parent_trace_id\<close>. The digest
  function, the id generator and the driver's exceptions are the parameter \<open>v1_host\<close>; times
  are the ISO strings the table holds.
\<close>

section \<open>Entries\<close>

record v1_host =
  v_hash :: "string \<Rightarrow> string"
  v_id :: "nat \<Rightarrow> string"
  v_violation :: "violation \<Rightarrow> v1_error"

record trace =
  tr_id :: string
  tr_seq :: nat
  tr_actor :: string
  tr_action :: string
  tr_ttype :: string
  tr_tid :: string
  tr_time :: string
  tr_hash :: string
  tr_prev :: string
  tr_scope :: "string option"
  tr_before :: "json option"
  tr_after :: "json option"
  tr_meta :: metadata
  tr_parent :: "string option"

definition opt_str :: "string option \<Rightarrow> json" where
  "opt_str x = (case x of None \<Rightarrow> JNull | Some s \<Rightarrow> JStr s)"

definition opt_json :: "json option \<Rightarrow> json" where
  "opt_json x = (case x of None \<Rightarrow> JNull | Some j \<Rightarrow> j)"

definition trace_snapshot :: "trace \<Rightarrow> json" where
  "trace_snapshot t = JObj
     [(''id'', JStr (tr_id t)), (''sequence'', JInt (int (tr_seq t))), (''actor_id'', JStr (tr_actor t)),
      (''action'', JStr (tr_action t)), (''target_type'', JStr (tr_ttype t)), (''target_id'', JStr (tr_tid t)),
      (''scope_id'', opt_str (tr_scope t)), (''timestamp'', JStr (tr_time t)),
      (''before_state'', opt_json (tr_before t)), (''after_state'', opt_json (tr_after t)),
      (''metadata'', JObj (tr_meta t)), (''parent_trace_id'', opt_str (tr_parent t)),
      (''hash'', JStr (tr_hash t)), (''previous_hash'', JStr (tr_prev t))]"

definition hash_payload ::
  "string \<Rightarrow> nat \<Rightarrow> string \<Rightarrow> string \<Rightarrow> string \<Rightarrow> string \<Rightarrow> string \<Rightarrow> string \<Rightarrow> string" where
  "hash_payload entry_id seq actor action ttype tid timestamp previous_hash =
     entry_id @ ''|'' @ show_nat seq @ ''|'' @ actor @ ''|'' @ action @ ''|'' @
     ttype @ ''|'' @ tid @ ''|'' @ timestamp @ ''|'' @ previous_hash"

definition compute_hash ::
  "v1_host \<Rightarrow> string \<Rightarrow> nat \<Rightarrow> string \<Rightarrow> string \<Rightarrow> string \<Rightarrow> string \<Rightarrow> string \<Rightarrow> string \<Rightarrow> string" where
  "compute_hash h entry_id seq actor action ttype tid timestamp previous_hash =
     v_hash h (hash_payload entry_id seq actor action ttype tid timestamp previous_hash)"

definition entry_payload :: "trace \<Rightarrow> string" where
  "entry_payload t =
     hash_payload (tr_id t) (tr_seq t) (tr_actor t) (tr_action t) (tr_ttype t) (tr_tid t) (tr_time t) (tr_prev t)"

definition entry_hash :: "v1_host \<Rightarrow> trace \<Rightarrow> string" where
  "entry_hash h t =
     compute_hash h (tr_id t) (tr_seq t) (tr_actor t) (tr_action t) (tr_ttype t) (tr_tid t) (tr_time t) (tr_prev t)"

lemma entry_hash_payload: "entry_hash h t = v_hash h (entry_payload t)"
  by (simp add: entry_hash_def compute_hash_def entry_payload_def)

section \<open>The writer\<close>

text \<open>
  The state every service of the framework shares: the supply of identifiers, the audit table,
  and the writer's in-memory head. Services extend it with their own tables.
\<close>

record v1_state =
  w_next :: nat
  w_trail :: "trace list"
  w_seq :: nat
  w_last :: string

definition fresh_id :: "v1_host \<Rightarrow> ('x v1_state_scheme, string) sop" where
  "fresh_id h s = (Inr (v_id h (w_next s)), s\<lparr>w_next := Suc (w_next s)\<rparr>)"

record trace_request =
  rq_actor :: string
  rq_action :: string
  rq_ttype :: string
  rq_tid :: string
  rq_scope :: "string option"
  rq_before :: "json option"
  rq_after :: "json option"
  rq_meta :: metadata
  rq_parent :: "string option"

definition seed_chain :: "trace list \<Rightarrow> nat \<times> string" where
  "seed_chain rows =
     (case sql_limit (Some 1) 0 (sql_order True tr_seq rows) of
        [] \<Rightarrow> (0, '''')
      | t # _ \<Rightarrow> (tr_seq t, tr_hash t))"

text \<open>Construction of a writer on an existing table.\<close>

definition open_writer :: "'x v1_state_scheme \<Rightarrow> 'x v1_state_scheme" where
  "open_writer s = (let (q, x) = seed_chain (w_trail s) in s\<lparr>w_seq := q, w_last := x\<rparr>)"

definition reseed_if_stale :: "'x v1_state_scheme \<Rightarrow> 'x v1_state_scheme" where
  "reseed_if_stale s =
     (let (q, x) = seed_chain (w_trail s)
      in if q > w_seq s then s\<lparr>w_seq := q, w_last := x\<rparr> else s)"

definition make_entry :: "v1_host \<Rightarrow> string \<Rightarrow> string \<Rightarrow> nat \<Rightarrow> string \<Rightarrow> trace_request \<Rightarrow> trace" where
  "make_entry h now entry_id seq prev rq =
     \<lparr>tr_id = entry_id, tr_seq = seq, tr_actor = rq_actor rq, tr_action = rq_action rq,
      tr_ttype = rq_ttype rq, tr_tid = rq_tid rq, tr_time = now,
      tr_hash = compute_hash h entry_id seq (rq_actor rq) (rq_action rq) (rq_ttype rq) (rq_tid rq) now prev,
      tr_prev = prev, tr_scope = rq_scope rq, tr_before = rq_before rq, tr_after = rq_after rq,
      tr_meta = rq_meta rq, tr_parent = rq_parent rq\<rparr>"

definition insert_trace :: "v1_host \<Rightarrow> trace \<Rightarrow> trace list \<Rightarrow> v1_error + trace list" where
  "insert_trace h e rows =
     (if list_ex (\<lambda>t. tr_seq t = tr_seq e) rows then Inl (v_violation h SeqTaken)
      else if list_ex (\<lambda>t. tr_id t = tr_id e) rows then Inl (v_violation h IdTaken)
      else case tr_parent e of
             None \<Rightarrow> Inr (rows @ [e])
           | Some p \<Rightarrow>
               if p = tr_id e \<or> list_ex (\<lambda>t. tr_id t = p) rows then Inr (rows @ [e])
               else Inl (v_violation h ForeignKeyMissing))"

definition is_sequence_collision :: "v1_error \<Rightarrow> bool" where
  "is_sequence_collision e =
     (case e of
        DbError Sqlite3Integrity msg \<Rightarrow> has_infix ''unique'' (lower msg) \<and> has_infix ''sequence'' (lower msg)
      | DbError PsycopgUnique msg \<Rightarrow> has_infix ''uq_audit_sequence'' (lower msg) \<or> has_infix ''sequence'' (lower msg)
      | _ \<Rightarrow> False)"

definition max_sequence_retries :: nat where
  "max_sequence_retries = 3"

text \<open>
  The retry loop of \<open>record\<close>. Other processes share the table: \<open>env k\<close> is what they commit
  between the reseeding and the insert of attempt \<open>k\<close>, \<open>clock k\<close> the time of that attempt.
\<close>

fun record_loop ::
  "v1_host \<Rightarrow> (nat \<Rightarrow> string) \<Rightarrow> (nat \<Rightarrow> trace list \<Rightarrow> trace list) \<Rightarrow> trace_request \<Rightarrow> nat list \<Rightarrow>
   ('x v1_state_scheme, trace) sop" where
  "record_loop h clock env rq [] s = (Inl AuditSequenceCollision, s)"
| "record_loop h clock env rq (k # ks) s =
     (let s1 = reseed_if_stale s;
          e = make_entry h (clock k) (v_id h (w_next s1)) (w_seq s1 + 1) (w_last s1) rq;
          s2 = s1\<lparr>w_next := Suc (w_next s1), w_trail := env k (w_trail s1)\<rparr>
      in case insert_trace h e (w_trail s2) of
           Inr rows \<Rightarrow> (Inr e, s2\<lparr>w_trail := rows, w_seq := tr_seq e, w_last := tr_hash e\<rparr>)
         | Inl x \<Rightarrow>
             if is_sequence_collision x \<and> k < max_sequence_retries
             then record_loop h clock env rq ks s2
             else (Inl x, s2))"

definition record_entry ::
  "v1_host \<Rightarrow> (nat \<Rightarrow> string) \<Rightarrow> (nat \<Rightarrow> trace list \<Rightarrow> trace list) \<Rightarrow> trace_request \<Rightarrow>
   ('x v1_state_scheme, trace) sop" where
  "record_entry h clock env rq = record_loop h clock env rq [0..<max_sequence_retries + 1]"

text \<open>The inserts of one batch, inside its transaction: any failure discards all of them.\<close>

fun batch_inserts ::
  "v1_host \<Rightarrow> string \<Rightarrow> trace_request list \<Rightarrow> nat \<times> trace list \<times> nat \<times> string \<Rightarrow>
   (v1_error \<times> nat) + (trace list \<times> nat \<times> trace list \<times> nat \<times> string)" where
  "batch_inserts h now [] (ids, rows, seq, prev) = Inr ([], ids, rows, seq, prev)"
| "batch_inserts h now (rq # rqs) (ids, rows, seq, prev) =
     (let e = make_entry h now (v_id h ids) (seq + 1) prev rq
      in case action_of (rq_action rq) of
           Inl x \<Rightarrow> Inl (x, Suc ids)
         | Inr _ \<Rightarrow>
             (case insert_trace h e rows of
                Inl x \<Rightarrow> Inl (x, Suc ids)
              | Inr rows' \<Rightarrow>
                  (case batch_inserts h now rqs (Suc ids, rows', tr_seq e, tr_hash e) of
                     Inl x \<Rightarrow> Inl x
                   | Inr (es, rest) \<Rightarrow> Inr (e # es, rest))))"

fun batch_loop ::
  "v1_host \<Rightarrow> (nat \<Rightarrow> string) \<Rightarrow> (nat \<Rightarrow> trace list \<Rightarrow> trace list) \<Rightarrow> trace_request list \<Rightarrow> nat list \<Rightarrow>
   ('x v1_state_scheme, trace list) sop" where
  "batch_loop h clock env rqs [] s = (Inl AuditSequenceCollision, s)"
| "batch_loop h clock env rqs (k # ks) s =
     (let s1 = reseed_if_stale s;
          s2 = s1\<lparr>w_trail := env k (w_trail s1)\<rparr>
      in case batch_inserts h (clock k) rqs (w_next s2, w_trail s2, w_seq s2, w_last s2) of
           Inr (es, ids, rows, seq, prev) \<Rightarrow>
             (Inr es, s2\<lparr>w_next := ids, w_trail := rows, w_seq := seq, w_last := prev\<rparr>)
         | Inl (x, ids) \<Rightarrow>
             if is_sequence_collision x \<and> k < max_sequence_retries
             then batch_loop h clock env rqs ks (s2\<lparr>w_next := ids\<rparr>)
             else (Inl x, s2\<lparr>w_next := ids\<rparr>))"

definition record_batch ::
  "v1_host \<Rightarrow> (nat \<Rightarrow> string) \<Rightarrow> (nat \<Rightarrow> trace list \<Rightarrow> trace list) \<Rightarrow> trace_request list \<Rightarrow>
   ('x v1_state_scheme, trace list) sop" where
  "record_batch h clock env rqs = batch_loop h clock env rqs [0..<max_sequence_retries + 1]"

section \<open>Queries\<close>

record trace_filter =
  tf_actor :: "string option"
  tf_action :: "string option"
  tf_ttype :: "string option"
  tf_tid :: "string option"
  tf_scope :: "string option"
  tf_parent :: "string option"
  tf_since :: "string option"
  tf_until :: "string option"

definition no_filter :: trace_filter where
  "no_filter = \<lparr>tf_actor = None, tf_action = None, tf_ttype = None, tf_tid = None, tf_scope = None,
     tf_parent = None, tf_since = None, tf_until = None\<rparr>"

text \<open>\<open>column = value\<close>, when the value was given.\<close>

definition given :: "'a option \<Rightarrow> 'a \<Rightarrow> bool" where
  "given x v \<longleftrightarrow> (case x of None \<Rightarrow> True | Some y \<Rightarrow> v = y)"

definition trace_matches :: "trace_filter \<Rightarrow> trace \<Rightarrow> bool" where
  "trace_matches f t \<longleftrightarrow>
     given (tf_actor f) (tr_actor t) \<and> given (tf_action f) (tr_action t) \<and>
     given (tf_ttype f) (tr_ttype t) \<and> given (tf_tid f) (tr_tid t) \<and>
     (case tf_scope f of None \<Rightarrow> True | Some x \<Rightarrow> tr_scope t = Some x) \<and>
     (case tf_parent f of None \<Rightarrow> True | Some x \<Rightarrow> tr_parent t = Some x) \<and>
     (case tf_since f of None \<Rightarrow> True | Some x \<Rightarrow> x \<le> tr_time t) \<and>
     (case tf_until f of None \<Rightarrow> True | Some x \<Rightarrow> tr_time t \<le> x)"

definition trace_get :: "string \<Rightarrow> trace list \<Rightarrow> trace option" where
  "trace_get entry_id rows = find (\<lambda>t. tr_id t = entry_id) rows"

definition trace_get_by_sequence :: "nat \<Rightarrow> trace list \<Rightarrow> trace option" where
  "trace_get_by_sequence seq rows = find (\<lambda>t. tr_seq t = seq) rows"

definition trace_query :: "trace_filter \<Rightarrow> string \<Rightarrow> nat \<Rightarrow> nat \<Rightarrow> trace list \<Rightarrow> trace list" where
  "trace_query f order_by limit offset rows =
     (let sel = filter (trace_matches f) rows;
          col = order_column {''sequence'', ''timestamp''} ''sequence'' order_by;
          ord = (if col = ''timestamp'' then sql_order (order_desc order_by) tr_time sel
                 else sql_order (order_desc order_by) tr_seq sel)
      in sql_limit (Some limit) offset ord)"

definition trace_count :: "trace_filter \<Rightarrow> trace list \<Rightarrow> nat" where
  "trace_count f rows = length (filter (trace_matches f) rows)"

definition trace_children :: "string \<Rightarrow> trace list \<Rightarrow> trace list" where
  "trace_children parent rows = trace_query (no_filter\<lparr>tf_parent := Some parent\<rparr>) ''sequence'' 1000 0 rows"

definition trace_history :: "string \<Rightarrow> string \<Rightarrow> nat \<Rightarrow> trace list \<Rightarrow> trace list" where
  "trace_history ttype tid limit rows =
     trace_query (no_filter\<lparr>tf_ttype := Some ttype, tf_tid := Some tid\<rparr>) ''sequence'' limit 0 rows"

section \<open>Verification of the chain\<close>

record chain_verification =
  cv_valid :: bool
  cv_checked :: nat
  cv_first :: nat
  cv_last :: nat
  cv_broken :: "nat option"

record verify_state =
  vs_first :: "nat option"
  vs_last :: nat
  vs_prev :: "string option"

text \<open>
  One chunk: \<open>checked\<close> entries were examined before; the result is the failure report, or the
  state carried to the next chunk.
\<close>

fun verify_chunk ::
  "v1_host \<Rightarrow> nat \<Rightarrow> verify_state \<Rightarrow> trace list \<Rightarrow> chain_verification + verify_state" where
  "verify_chunk h checked v [] = Inr v"
| "verify_chunk h checked v (e # es) =
     (let first = (case vs_first v of None \<Rightarrow> tr_seq e | Some q \<Rightarrow> q);
          failure = \<lparr>cv_valid = False, cv_checked = checked + 1, cv_first = first,
                     cv_last = tr_seq e, cv_broken = Some (tr_seq e)\<rparr>
      in if tr_hash e \<noteq> entry_hash h e then Inl failure
         else if vs_prev v \<noteq> None \<and> vs_prev v \<noteq> Some (tr_prev e) then Inl failure
         else verify_chunk h (checked + 1)
                \<lparr>vs_first = Some first, vs_last = tr_seq e, vs_prev = Some (tr_hash e)\<rparr> es)"

definition verify_page :: "nat \<Rightarrow> nat option \<Rightarrow> nat \<Rightarrow> trace list \<Rightarrow> trace list" where
  "verify_page from_seq to_seq chunk_size rows =
     take chunk_size (sql_order False tr_seq
       (filter (\<lambda>t. from_seq \<le> tr_seq t \<and> (case to_seq of None \<Rightarrow> True | Some q \<Rightarrow> tr_seq t \<le> q)) rows))"

definition verify_done :: "nat \<Rightarrow> verify_state \<Rightarrow> chain_verification" where
  "verify_done checked v =
     (case vs_first v of
        None \<Rightarrow> \<lparr>cv_valid = True, cv_checked = 0, cv_first = 0, cv_last = 0, cv_broken = None\<rparr>
      | Some q \<Rightarrow> \<lparr>cv_valid = True, cv_checked = checked, cv_first = q, cv_last = vs_last v, cv_broken = None\<rparr>)"

lemma verify_page_from: "t \<in> set (verify_page q to_seq n rows) \<Longrightarrow> q \<le> tr_seq t \<and> t \<in> set rows"
  by (auto simp: verify_page_def dest!: in_set_takeD)

lemma later_fewer:
  assumes "t \<in> set rows" "q \<le> tr_seq t"
  shows "length (filter (\<lambda>u. Suc (tr_seq t) \<le> tr_seq u) rows) < length (filter (\<lambda>u. q \<le> tr_seq u) rows)"
proof -
  have "filter (\<lambda>u. Suc (tr_seq t) \<le> tr_seq u) rows =
      filter (\<lambda>u. Suc (tr_seq t) \<le> tr_seq u) (filter (\<lambda>u. q \<le> tr_seq u) rows)"
    using assms(2) by (auto intro: filter_cong)
  with assms show ?thesis by (simp only:) (rule length_filter_less [of t], auto)
qed

function verify_loop ::
  "v1_host \<Rightarrow> nat option \<Rightarrow> nat \<Rightarrow> trace list \<Rightarrow> nat \<Rightarrow> nat \<Rightarrow> verify_state \<Rightarrow> chain_verification" where
  "verify_loop h to_seq chunk_size rows current_from checked v =
     (let page = verify_page current_from to_seq chunk_size rows
      in if page = [] then verify_done checked v
         else case verify_chunk h checked v page of
                Inl failure \<Rightarrow> failure
              | Inr v' \<Rightarrow>
                  if length page < chunk_size then verify_done (checked + length page) v'
                  else verify_loop h to_seq chunk_size rows (tr_seq (last page) + 1) (checked + length page) v')"
  by pat_completeness auto

termination
proof (relation "measure (\<lambda>(h, t, n, rows, q, c, v). length (filter (\<lambda>t. q \<le> tr_seq t) rows))", goal_cases)
  case (2 h to_seq chunk_size rows current_from checked v page v')
  then have "last page \<in> set (verify_page current_from to_seq chunk_size rows)" by simp
  from verify_page_from [OF this] have l: "current_from \<le> tr_seq (last page)" "last page \<in> set rows" by auto
  from later_fewer [OF this(2,1)] show ?case by simp
qed simp

declare verify_loop.simps [simp del]

definition verify_chain ::
  "v1_host \<Rightarrow> nat \<Rightarrow> nat option \<Rightarrow> nat \<Rightarrow> trace list \<Rightarrow> chain_verification" where
  "verify_chain h from_seq to_seq chunk_size rows =
     verify_loop h to_seq chunk_size rows from_seq 0 \<lparr>vs_first = None, vs_last = 0, vs_prev = None\<rparr>"

section \<open>Retention\<close>

record retention_policy =
  rp_max_age_days :: "int option"
  rp_max_entries :: "nat option"
  rp_compact_before :: bool
  rp_compact_after :: bool

record retention_result =
  rr_deleted :: nat
  rr_compacted :: nat

text \<open>
  \<open>cutoff days\<close> renders the time \<open>days\<close> days ago. A DELETE fails as a whole when a remaining
  entry names a deleted one as its parent.
\<close>

definition delete_traces :: "v1_host \<Rightarrow> (trace \<Rightarrow> bool) \<Rightarrow> ('x v1_state_scheme, unit) sop" where
  "delete_traces h P s =
     (let gone = filter P (w_trail s); kept = filter (\<lambda>t. \<not> P t) (w_trail s)
      in if list_ex (\<lambda>t. list_ex (\<lambda>g. tr_parent t = Some (tr_id g)) gone) kept
         then (Inl (v_violation h ForeignKeyMissing), s)
         else (Inr (), s\<lparr>w_trail := kept\<rparr>))"

definition retention_estimate :: "(int \<Rightarrow> string) \<Rightarrow> retention_policy \<Rightarrow> trace list \<Rightarrow> nat" where
  "retention_estimate cutoff p rows =
     (let by_age = (case rp_max_age_days p of
            None \<Rightarrow> 0 | Some d \<Rightarrow> length (filter (\<lambda>t. tr_time t < cutoff d) rows))
      in case rp_max_entries p of
           None \<Rightarrow> by_age
         | Some n \<Rightarrow> max by_age (length rows - n))"

definition compactable :: "bool \<Rightarrow> bool \<Rightarrow> nat option \<Rightarrow> trace \<Rightarrow> bool" where
  "compactable before after before_seq t \<longleftrightarrow>
     ((before \<and> tr_before t \<noteq> None) \<or> (after \<and> tr_after t \<noteq> None)) \<and>
     (case before_seq of None \<Rightarrow> True | Some q \<Rightarrow> tr_seq t < q)"

definition compact_entry :: "bool \<Rightarrow> bool \<Rightarrow> trace \<Rightarrow> trace" where
  "compact_entry before after t =
     t\<lparr>tr_before := (if before then None else tr_before t), tr_after := (if after then None else tr_after t)\<rparr>"

definition compact_trail :: "nat option \<Rightarrow> bool \<Rightarrow> bool \<Rightarrow> ('x v1_state_scheme, nat) sop" where
  "compact_trail before_seq before after s =
     (let n = length (filter (compactable before after before_seq) (w_trail s))
      in if \<not> before \<and> \<not> after then (Inr 0, s)
         else if n = 0 then (Inr 0, s)
         else (Inr n, s\<lparr>w_trail :=
                sql_update_where (compactable before after before_seq) (compact_entry before after) (w_trail s)\<rparr>))"

definition prune_by_age :: "v1_host \<Rightarrow> (int \<Rightarrow> string) \<Rightarrow> retention_policy \<Rightarrow> ('x v1_state_scheme, unit) sop" where
  "prune_by_age h cutoff p =
     (case rp_max_age_days p of
        None \<Rightarrow> returnS ()
      | Some d \<Rightarrow> delete_traces h (\<lambda>t. tr_time t < cutoff d))"

definition prune_by_count :: "v1_host \<Rightarrow> retention_policy \<Rightarrow> ('x v1_state_scheme, unit) sop" where
  "prune_by_count h p =
     (case rp_max_entries p of
        None \<Rightarrow> returnS ()
      | Some n \<Rightarrow>
          bindS (getS w_trail) (\<lambda>rows.
            case sql_limit (Some 1) n (sql_order True tr_seq rows) of
              [] \<Rightarrow> returnS ()
            | t # _ \<Rightarrow> delete_traces h (\<lambda>u. tr_seq u \<le> tr_seq t)))"

definition retention_apply ::
  "v1_host \<Rightarrow> (int \<Rightarrow> string) \<Rightarrow> retention_policy \<Rightarrow> ('x v1_state_scheme, retention_result) sop" where
  "retention_apply h cutoff p =
     bindS (getS (\<lambda>s. length (w_trail s))) (\<lambda>total.
     bindS (prune_by_age h cutoff p) (\<lambda>_.
     bindS (prune_by_count h p) (\<lambda>_.
     bindS (if rp_compact_before p \<or> rp_compact_after p
            then compact_trail None (rp_compact_before p) (rp_compact_after p) else returnS 0) (\<lambda>compacted.
     bindS (getS (\<lambda>s. length (w_trail s))) (\<lambda>remaining.
       returnS \<lparr>rr_deleted = total - remaining, rr_compacted = compacted\<rparr>)))))"

end
