(* ===== verification/V1_Audit_Facts.thy ===== *)
theory V1_Audit_Facts
  imports V1_Audit
begin

text \<open>
  The invariant of the v1 audit trail and the lemmas that its operations keep it: consecutive
  sequence numbers, each entry linked to its predecessor and carrying its own digest, and an
  in-memory head that is never ahead of the table.
\<close>

section \<open>The invariant\<close>

definition linked_trail :: "v1_host \<Rightarrow> nat \<Rightarrow> string \<Rightarrow> trace list \<Rightarrow> bool" where
  "linked_trail h q p rows \<longleftrightarrow>
     map tr_seq rows = [q..<q + length rows] \<and> linked tr_prev tr_hash (entry_hash h) p rows"

definition trail_ok :: "v1_host \<Rightarrow> trace list \<Rightarrow> bool" where
  "trail_ok h rows \<longleftrightarrow>
     rows = [] \<or> 1 \<le> tr_seq (hd rows) \<and> linked_trail h (tr_seq (hd rows)) (tr_prev (hd rows)) rows"

definition next_seq :: "trace list \<Rightarrow> nat" where
  "next_seq rows = (if rows = [] then 1 else Suc (tr_seq (last rows)))"

definition head_hash :: "trace list \<Rightarrow> string" where
  "head_hash rows = last_digest tr_hash '''' rows"

definition head_ok :: "'x v1_state_scheme \<Rightarrow> bool" where
  "head_ok s \<longleftrightarrow>
     w_seq s < next_seq (w_trail s) \<and>
     (Suc (w_seq s) = next_seq (w_trail s) \<longrightarrow> w_last s = head_hash (w_trail s))"

definition audit_ok :: "v1_host \<Rightarrow> 'x v1_state_scheme \<Rightarrow> bool" where
  "audit_ok h s \<longleftrightarrow> trail_ok h (w_trail s) \<and> head_ok s"

text \<open>What well-behaved writers in other processes do to the table: they extend the chain.\<close>

definition extends :: "v1_host \<Rightarrow> trace list \<Rightarrow> trace list \<Rightarrow> bool" where
  "extends h rows rows' \<longleftrightarrow> (\<exists>es. rows' = rows @ es \<and> linked_trail h (next_seq rows) (head_hash rows) es)"

definition peers_ok :: "v1_host \<Rightarrow> (nat \<Rightarrow> trace list \<Rightarrow> trace list) \<Rightarrow> bool" where
  "peers_ok h env \<longleftrightarrow> (\<forall>k rows. trail_ok h rows \<longrightarrow> extends h rows (env k rows))"

lemma linked_trail_Nil [simp]: "linked_trail h q p []"
  by (simp add: linked_trail_def)

lemma linked_trail_Cons:
  "linked_trail h q p (e # es) \<longleftrightarrow>
   tr_seq e = q \<and> tr_prev e = p \<and> tr_hash e = entry_hash h e \<and> linked_trail h (Suc q) (tr_hash e) es"
proof -
  have "[q..<q + length (e # es)] = q # [Suc q..<Suc q + length es]"
    by (simp add: upt_rec)
  then show ?thesis by (auto simp: linked_trail_def)
qed

lemma linked_trail_append:
  "linked_trail h q p (es @ fs) \<longleftrightarrow>
   linked_trail h q p es \<and> linked_trail h (q + length es) (last_digest tr_hash p es) fs"
  by (induction es arbitrary: q p) (auto simp: linked_trail_Cons)

lemma linked_trail_last_seq: "linked_trail h q p es \<Longrightarrow> es \<noteq> [] \<Longrightarrow> tr_seq (last es) = q + length es - 1"
proof -
  assume l: "linked_trail h q p es" and "es \<noteq> []"
  then have "last (map tr_seq es) = tr_seq (last es)" by (simp add: last_map)
  moreover have "map tr_seq es = [q..<q + length es]" using l by (simp add: linked_trail_def)
  ultimately show ?thesis using \<open>es \<noteq> []\<close> by simp
qed

lemma trail_ok_linked:
  assumes "trail_ok h rows" "rows \<noteq> []"
  obtains q p where "1 \<le> q" "linked_trail h q p rows" "next_seq rows = q + length rows"
    "head_hash rows = last_digest tr_hash p rows"
proof -
  have l: "linked_trail h (tr_seq (hd rows)) (tr_prev (hd rows)) rows" "1 \<le> tr_seq (hd rows)"
    using assms by (auto simp: trail_ok_def)
  moreover have "next_seq rows = tr_seq (hd rows) + length rows"
    using linked_trail_last_seq [OF l(1) assms(2)] assms(2) l(2) by (simp add: next_seq_def)
  moreover have "head_hash rows = last_digest tr_hash (tr_prev (hd rows)) rows"
    using assms(2) by (simp add: head_hash_def last_digest_last)
  ultimately show thesis using that by blast
qed

lemma trail_ok_extends:
  assumes "trail_ok h rows" "extends h rows rows'"
  shows "trail_ok h rows' \<and> next_seq rows' = next_seq rows + (length rows' - length rows) \<and> length rows \<le> length rows'"
proof -
  from assms(2) obtain es where es: "rows' = rows @ es" "linked_trail h (next_seq rows) (head_hash rows) es"
    by (auto simp: extends_def)
  show ?thesis
  proof (cases "rows = []")
    case True
    with es show ?thesis
      by (cases es) (auto simp: trail_ok_def next_seq_def linked_trail_Cons dest: linked_trail_last_seq
          linked_trail_last_seq [rotated])
  next
    case False
    then obtain q p where q: "1 \<le> q" "linked_trail h q p rows" "next_seq rows = q + length rows"
      "head_hash rows = last_digest tr_hash p rows" using trail_ok_linked [OF assms(1)] by blast
    then have l: "linked_trail h q p rows'" using es by (simp add: linked_trail_append)
    moreover have "tr_seq (hd rows') = q" "tr_prev (hd rows') = p"
      using l False es(1) by (cases rows; simp add: linked_trail_Cons)+
    moreover have "next_seq rows' = q + length rows'"
      using linked_trail_last_seq [OF l] False es(1) q(1) by (simp add: next_seq_def)
    ultimately show ?thesis using q es(1) by (simp add: trail_ok_def)
  qed
qed

lemma extends_refl: "extends h rows rows"
  by (simp add: extends_def)

lemma extends_snoc:
  assumes "tr_seq e = next_seq rows" "tr_prev e = head_hash rows" "tr_hash e = entry_hash h e"
  shows "extends h rows (rows @ [e])"
  using assms by (auto simp: extends_def linked_trail_Cons)

lemma extends_trans:
  assumes "trail_ok h a" "extends h a b" "extends h b c"
  shows "extends h a c"
proof -
  from assms(2) obtain es where es: "b = a @ es" "linked_trail h (next_seq a) (head_hash a) es"
    by (auto simp: extends_def)
  from assms(3) obtain fs where fs: "c = b @ fs" "linked_trail h (next_seq b) (head_hash b) fs"
    by (auto simp: extends_def)
  have "next_seq b = next_seq a + length es" using trail_ok_extends [OF assms(1,2)] es(1) by simp
  moreover have "head_hash b = last_digest tr_hash (head_hash a) es" using es(1) by (simp add: head_hash_def)
  ultimately show ?thesis using es fs by (auto simp: extends_def linked_trail_append)
qed

lemma head_ok_extends:
  assumes "trail_ok h (w_trail s)" "head_ok s" "extends h (w_trail s) rows'"
  shows "head_ok (s\<lparr>w_trail := rows'\<rparr>)"
proof -
  from trail_ok_extends [OF assms(1,3)] have n: "next_seq rows' = next_seq (w_trail s) + (length rows' - length (w_trail s))"
    by simp
  show ?thesis
  proof (cases "length rows' = length (w_trail s)")
    case True
    with assms(3) have "rows' = w_trail s" by (auto simp: extends_def)
    with assms(2) show ?thesis by simp
  next
    case False
    then have "length rows' > length (w_trail s)" using trail_ok_extends [OF assms(1,3)] by simp
    with n have "next_seq (w_trail s) < next_seq rows'" by simp
    with assms(2) show ?thesis by (auto simp: head_ok_def)
  qed
qed

section \<open>Reseeding\<close>

lemma sql_order_desc_sorted:
  assumes "sorted (map key rows)" "distinct (map key rows)"
  shows "sql_order True key rows = rev rows"
proof -
  have "sort_key key (rev rows) = rows"
  proof (rule map_sorted_distinct_set_unique [where f = key])
    show "inj_on key (set (sort_key key (rev rows)) \<union> set rows)" using assms(2) by (simp add: distinct_map)
    show "distinct (map key (sort_key key (rev rows)))" using assms(2) by (simp add: distinct_map)
  qed (use assms in simp_all)
  then show ?thesis by (simp add: sql_order_def)
qed

lemma trail_ok_seqs: "trail_ok h rows \<Longrightarrow> sorted (map tr_seq rows) \<and> distinct (map tr_seq rows)"
proof -
  assume "trail_ok h rows"
  then have "rows = [] \<or> map tr_seq rows = [tr_seq (hd rows)..<tr_seq (hd rows) + length rows]"
    by (auto simp: trail_ok_def linked_trail_def)
  then show ?thesis by (elim disjE) simp_all
qed

lemma seed_chain_ok: "trail_ok h rows \<Longrightarrow> seed_chain rows = (next_seq rows - 1, head_hash rows)"
proof -
  assume ok: "trail_ok h rows"
  then have o: "sql_order True tr_seq rows = rev rows"
    using trail_ok_seqs [OF ok] by (auto intro: sql_order_desc_sorted)
  show ?thesis
  proof (cases rows rule: rev_cases)
    case Nil
    then show ?thesis by (simp add: seed_chain_def sql_limit_def sql_order_def next_seq_def head_hash_def)
  next
    case (snoc ys y)
    with o show ?thesis by (simp add: seed_chain_def sql_limit_def next_seq_def head_hash_def)
  qed
qed

lemma reseed_ok:
  assumes "audit_ok h s"
  shows "w_trail (reseed_if_stale s) = w_trail s" "w_next (reseed_if_stale s) = w_next s"
    "Suc (w_seq (reseed_if_stale s)) = next_seq (w_trail s)"
    "w_last (reseed_if_stale s) = head_hash (w_trail s)" "audit_ok h (reseed_if_stale s)"
proof -
  have ok: "trail_ok h (w_trail s)" "head_ok s" using assms by (simp_all add: audit_ok_def)
  have n: "1 \<le> next_seq (w_trail s)" by (simp add: next_seq_def)
  show 1: "w_trail (reseed_if_stale s) = w_trail s" "w_next (reseed_if_stale s) = w_next s"
    by (simp_all add: reseed_if_stale_def split_beta)
  have "Suc (w_seq (reseed_if_stale s)) = next_seq (w_trail s) \<and>
      w_last (reseed_if_stale s) = head_hash (w_trail s)"
    using ok n by (auto simp: reseed_if_stale_def seed_chain_ok [OF ok(1)] head_ok_def)
  then show 2: "Suc (w_seq (reseed_if_stale s)) = next_seq (w_trail s)"
    "w_last (reseed_if_stale s) = head_hash (w_trail s)" by simp_all
  show "audit_ok h (reseed_if_stale s)" using 1 2 ok by (simp add: audit_ok_def head_ok_def)
qed

section \<open>Recording\<close>

lemma insert_trace_Inr:
  "insert_trace h e rows = Inr rows' \<Longrightarrow>
   rows' = rows @ [e] \<and> (\<forall>t \<in> set rows. tr_seq t \<noteq> tr_seq e \<and> tr_id t \<noteq> tr_id e)"
  by (auto simp: insert_trace_def list_ex_iff split: if_splits option.splits)

lemma make_entry_simps [simp]:
  "tr_id (make_entry h now i q p rq) = i" "tr_seq (make_entry h now i q p rq) = q"
  "tr_prev (make_entry h now i q p rq) = p" "tr_actor (make_entry h now i q p rq) = rq_actor rq"
  "tr_action (make_entry h now i q p rq) = rq_action rq" "tr_parent (make_entry h now i q p rq) = rq_parent rq"
  "tr_ttype (make_entry h now i q p rq) = rq_ttype rq" "tr_tid (make_entry h now i q p rq) = rq_tid rq"
  "tr_scope (make_entry h now i q p rq) = rq_scope rq"
  "tr_before (make_entry h now i q p rq) = rq_before rq" "tr_after (make_entry h now i q p rq) = rq_after rq"
  "tr_hash (make_entry h now i q p rq) = entry_hash h (make_entry h now i q p rq)"
  by (simp_all add: make_entry_def entry_hash_def)

text \<open>
  The unique index decides the race: an insert computed from the head before other writers
  committed succeeds only when they committed nothing.
\<close>

lemma insert_race:
  assumes "trail_ok h rows" "extends h rows rows2" "insert_trace h e rows2 = Inr rows3"
    and "tr_seq e = next_seq rows" "tr_prev e = head_hash rows" "tr_hash e = entry_hash h e"
  shows "rows2 = rows \<and> rows3 = rows @ [e] \<and> extends h rows rows3"
proof -
  from assms(2) obtain es where es: "rows2 = rows @ es" "linked_trail h (next_seq rows) (head_hash rows) es"
    by (auto simp: extends_def)
  from insert_trace_Inr [OF assms(3)] have "\<forall>t \<in> set es. tr_seq t \<noteq> next_seq rows"
    and rows3: "rows3 = rows2 @ [e]" using es(1) assms(4) by auto
  then have "es = []" using es(2) by (cases es) (auto simp: linked_trail_Cons)
  with es(1) rows3 extends_snoc [OF assms(4-6)] show ?thesis by simp
qed

lemma audit_ok_snoc:
  assumes "trail_ok h rows" "extends h rows (rows @ [e])" "w_trail s = rows @ [e]" "w_seq s = tr_seq e" "w_last s = tr_hash e"
  shows "audit_ok h s"
  using trail_ok_extends [OF assms(1,2)] assms(3-5)
  by (simp add: audit_ok_def head_ok_def next_seq_def head_hash_def)

lemma record_loop_spec:
  assumes "peers_ok h env" "audit_ok h s" "record_loop h clock env rq ks s = (r, s')"
  shows "audit_ok h s' \<and> extends h (w_trail s) (w_trail s') \<and>
    (\<forall>e. r = Inr e \<longrightarrow> (\<exists>rows. w_trail s' = rows @ [e] \<and> extends h (w_trail s) rows \<and>
      (\<exists>k i q p. e = make_entry h (clock k) i q p rq)))"
  using assms(2,3)
proof (induction ks arbitrary: s)
  case Nil
  then show ?case by (auto simp: extends_refl)
next
  case (Cons k ks)
  define s1 where "s1 = reseed_if_stale s"
  define e where "e = make_entry h (clock k) (v_id h (w_next s1)) (w_seq s1 + 1) (w_last s1) rq"
  define s2 where "s2 = s1\<lparr>w_next := Suc (w_next s1), w_trail := env k (w_trail s1)\<rparr>"
  note re = reseed_ok [OF Cons.prems(1), folded s1_def]
  have ok: "trail_ok h (w_trail s)" using Cons.prems(1) by (simp add: audit_ok_def)
  have e: "tr_seq e = next_seq (w_trail s)" "tr_prev e = head_hash (w_trail s)" "tr_hash e = entry_hash h e"
    using re by (simp_all add: e_def)
  have ext: "extends h (w_trail s) (w_trail s2)"
    using assms(1) ok re(1) by (simp add: s2_def peers_ok_def)
  have "head_ok (s1\<lparr>w_trail := env k (w_trail s1)\<rparr>)"
    using head_ok_extends [of h s1 "env k (w_trail s1)"] re ext by (simp add: s2_def audit_ok_def)
  then have ok2: "audit_ok h s2"
    using trail_ok_extends [OF ok ext] by (simp add: audit_ok_def s2_def head_ok_def)
  have run: "record_loop h clock env rq (k # ks) s =
    (case insert_trace h e (w_trail s2) of
       Inr rows \<Rightarrow> (Inr e, s2\<lparr>w_trail := rows, w_seq := tr_seq e, w_last := tr_hash e\<rparr>)
     | Inl x \<Rightarrow> if is_sequence_collision x \<and> k < max_sequence_retries
         then record_loop h clock env rq ks s2 else (Inl x, s2))"
    unfolding e_def s2_def s1_def by (simp only: record_loop.simps Let_def)
  show ?case
  proof (cases "insert_trace h e (w_trail s2)")
    case (Inr rows)
    with Cons.prems(2) run have r: "r = Inr e" "s' = s2\<lparr>w_trail := rows, w_seq := tr_seq e, w_last := tr_hash e\<rparr>"
      by auto
    from insert_race [OF ok ext Inr e] have rows: "rows = w_trail s @ [e]" "extends h (w_trail s) rows" by auto
    then have "audit_ok h s'" using audit_ok_snoc [OF ok, of e s'] r(2) by simp
    moreover have "w_trail s' = w_trail s @ [e]" using rows r(2) by simp
    ultimately show ?thesis using rows(2) r(1) extends_refl [of h "w_trail s"] rows(1)
      unfolding e_def by auto
  next
    case (Inl x)
    show ?thesis
    proof (cases "is_sequence_collision x \<and> k < max_sequence_retries")
      case True
      with Inl run Cons.prems(2) have "record_loop h clock env rq ks s2 = (r, s')" by simp
      from Cons.IH [OF ok2 this] show ?thesis
        using extends_trans [OF ok ext] by blast
    next
      case False
      with Inl run Cons.prems(2) have "r = Inl x" "s' = s2" by auto
      with ok2 ext show ?thesis by simp
    qed
  qed
qed

lemma record_entry_spec:
  assumes "peers_ok h env" "audit_ok h s" "record_entry h clock env rq s = (r, s')"
  shows "audit_ok h s' \<and> extends h (w_trail s) (w_trail s') \<and>
    (\<forall>e. r = Inr e \<longrightarrow> (\<exists>rows. w_trail s' = rows @ [e] \<and> extends h (w_trail s) rows \<and>
      (\<exists>k i q p. e = make_entry h (clock k) i q p rq)))"
  using record_loop_spec [OF assms(1,2) assms(3) [unfolded record_entry_def]] .

lemma keeps_record [keeps_intros]: "peers_ok h env \<Longrightarrow> keeps (audit_ok h) (record_entry h clock env rq)"
  unfolding keeps_def by (metis record_entry_spec prod.collapse)

lemma keeps_fresh_id [keeps_intros]: "keeps (audit_ok h) (fresh_id h)"
  by (simp add: keeps_def fresh_id_def audit_ok_def head_ok_def)

lemma trail_ok_below: "trail_ok h rows \<Longrightarrow> t \<in> set rows \<Longrightarrow> tr_seq t < next_seq rows"
proof -
  assume ok: "trail_ok h rows" and t: "t \<in> set rows"
  then have "rows \<noteq> []" by auto
  from trail_ok_linked [OF ok this] obtain q p where "linked_trail h q p rows" "next_seq rows = q + length rows"
    by blast
  moreover have "tr_seq t \<in> set (map tr_seq rows)" using t by simp
  ultimately show ?thesis by (simp add: linked_trail_def del: set_map)
qed

text \<open>Identifiers not handed out yet are not in the table, and peers do not use them.\<close>

definition ids_fresh :: "v1_host \<Rightarrow> 'x v1_state_scheme \<Rightarrow> bool" where
  "ids_fresh h s \<longleftrightarrow> (\<forall>t \<in> set (w_trail s). \<forall>n \<ge> w_next s. tr_id t \<noteq> v_id h n)"

definition peers_ids_ok :: "v1_host \<Rightarrow> (nat \<Rightarrow> trace list \<Rightarrow> trace list) \<Rightarrow> bool" where
  "peers_ids_ok h env \<longleftrightarrow> (\<forall>k rows. \<forall>t \<in> set (env k rows). t \<in> set rows \<or> (\<forall>n. tr_id t \<noteq> v_id h n))"

text \<open>
  One attempt either succeeds or loses the race; when the peers stay quiet during it, it
  succeeds.
\<close>

lemma record_attempt:
  fixes s :: "'x v1_state_scheme"
  assumes "peers_ok h env" "peers_ids_ok h env" "audit_ok h s" "ids_fresh h s" "rq_parent rq = None"
    and "inj (v_id h)"
  shows "(\<exists>e s'. record_loop h clock env rq (k # ks) s = (Inr e, s')) \<or>
    env k (w_trail s) \<noteq> w_trail s \<and>
    (is_sequence_collision (v_violation h SeqTaken) \<longrightarrow> k < max_sequence_retries \<longrightarrow>
      (\<exists>s2. record_loop h clock env rq (k # ks) s = record_loop h clock env rq ks s2 \<and>
        audit_ok h s2 \<and> ids_fresh h s2))"
proof -
  define s1 where "s1 = reseed_if_stale s"
  define e where "e = make_entry h (clock k) (v_id h (w_next s1)) (w_seq s1 + 1) (w_last s1) rq"
  define s2 where "s2 = s1\<lparr>w_next := Suc (w_next s1), w_trail := env k (w_trail s1)\<rparr>"
  note re = reseed_ok [OF assms(3), folded s1_def]
  have ok: "trail_ok h (w_trail s)" using assms(3) by (simp add: audit_ok_def)
  have ext: "extends h (w_trail s) (w_trail s2)"
    using assms(1) ok re(1) by (simp add: s2_def peers_ok_def)
  have "head_ok (s1\<lparr>w_trail := env k (w_trail s1)\<rparr>)"
    using head_ok_extends [of h s1 "env k (w_trail s1)"] re ext by (simp add: s2_def audit_ok_def)
  then have ok2: "audit_ok h s2"
    using trail_ok_extends [OF ok ext] by (simp add: audit_ok_def s2_def head_ok_def)
  have fresh: "tr_id t \<noteq> v_id h n" if "t \<in> set (w_trail s2)" "w_next s \<le> n" for t n
  proof -
    have "t \<in> set (env k (w_trail s))" using that(1) re(1) by (simp add: s2_def)
    then have "t \<in> set (w_trail s) \<or> (\<forall>n. tr_id t \<noteq> v_id h n)"
      using assms(2) unfolding peers_ids_ok_def by blast
    with that(2) assms(4) show ?thesis unfolding ids_fresh_def by blast
  qed
  have fresh2: "ids_fresh h s2" using fresh re by (auto simp: ids_fresh_def s2_def)
  have run: "record_loop h clock env rq (k # ks) s =
    (case insert_trace h e (w_trail s2) of
       Inr rows \<Rightarrow> (Inr e, s2\<lparr>w_trail := rows, w_seq := tr_seq e, w_last := tr_hash e\<rparr>)
     | Inl x \<Rightarrow> if is_sequence_collision x \<and> k < max_sequence_retries
         then record_loop h clock env rq ks s2 else (Inl x, s2))"
    unfolding e_def s2_def s1_def by (simp only: record_loop.simps Let_def)
  have "\<forall>t \<in> set (w_trail s2). tr_id t \<noteq> tr_id e" using fresh re by (auto simp: e_def)
  then have ins: "insert_trace h e (w_trail s2) =
      (if list_ex (\<lambda>t. tr_seq t = tr_seq e) (w_trail s2) then Inl (v_violation h SeqTaken)
       else Inr (w_trail s2 @ [e]))"
    using assms(5) by (auto simp: insert_trace_def list_ex_iff e_def)
  show ?thesis
  proof (cases "list_ex (\<lambda>t. tr_seq t = tr_seq e) (w_trail s2)")
    case False
    with ins run show ?thesis by simp
  next
    case True
    have "env k (w_trail s) \<noteq> w_trail s"
    proof
      assume "env k (w_trail s) = w_trail s"
      with True re obtain t where "t \<in> set (w_trail s)" "tr_seq t = next_seq (w_trail s)"
        by (auto simp: s2_def e_def list_ex_iff)
      with trail_ok_below [OF ok] show False by fastforce
    qed
    with True ins run ok2 fresh2 show ?thesis by auto
  qed
qed

lemma record_loop_succeeds:
  fixes s :: "'x v1_state_scheme"
  assumes "peers_ok h env" "peers_ids_ok h env" "rq_parent rq = None" "inj (v_id h)"
    and "is_sequence_collision (v_violation h SeqTaken)"
    and "k \<in> set ks" "\<forall>rows. env k rows = rows" "sorted_wrt (<) ks" "\<forall>j \<in> set ks. j \<le> max_sequence_retries"
    and "audit_ok h s" "ids_fresh h s"
  shows "\<exists>e s'. record_loop h clock env rq ks s = (Inr e, s')"
  using assms(6,8-11)
proof (induction ks arbitrary: s)
  case (Cons j ks)
  show ?case
  proof (cases "j = k")
    case True
    with record_attempt [OF assms(1,2) Cons.prems(4,5) assms(3,4), of clock j ks] assms(7) show ?thesis by auto
  next
    case False
    with Cons.prems have k: "k \<in> set ks" "j < k" "k \<le> max_sequence_retries" by auto
    then have "j < max_sequence_retries" by simp
    with record_attempt [OF assms(1,2) Cons.prems(4,5) assms(3,4), of clock j ks] assms(5)
    consider "\<exists>e s'. record_loop h clock env rq (j # ks) s = (Inr e, s')"
      | s2 where "record_loop h clock env rq (j # ks) s = record_loop h clock env rq ks s2"
        "audit_ok h s2" "ids_fresh h s2" by blast
    then show ?thesis
    proof cases
      case 2
      with Cons.IH [of s2] k Cons.prems show ?thesis by simp
    qed simp
  qed
qed simp

section \<open>Batches\<close>

lemma batch_inserts_spec:
  assumes "batch_inserts h now rqs (ids, rows, q, p) = Inr (es, ids', rows', q', p')"
    and "trail_ok h rows" "extends h base rows" "Suc q = next_seq rows" "p = head_hash rows" "trail_ok h base"
  shows "rows' = rows @ es \<and> length es = length rqs \<and> extends h base rows' \<and>
    trail_ok h rows' \<and> Suc q' = next_seq rows' \<and> p' = head_hash rows'"
  using assms(1-5)
proof (induction rqs arbitrary: ids rows q p es)
  case (Cons rq rqs)
  define e where "e = make_entry h now (v_id h ids) (q + 1) p rq"
  from Cons.prems(1) obtain es1 rows1 where ins: "insert_trace h e rows = Inr rows1"
    and rest: "batch_inserts h now rqs (Suc ids, rows1, tr_seq e, tr_hash e) = Inr (es1, ids', rows', q', p')"
    and es: "es = e # es1"
    by (auto simp: Let_def e_def split: sum.splits)
  have rows1: "rows1 = rows @ [e]" using insert_trace_Inr [OF ins] by simp
  have ext: "extends h rows rows1"
    unfolding rows1 by (rule extends_snoc) (use Cons.prems(4,5) in \<open>simp_all add: e_def\<close>)
  have ok1: "trail_ok h rows1" using trail_ok_extends [OF Cons.prems(2) ext] by simp
  have "Suc (tr_seq e) = next_seq rows1" "tr_hash e = head_hash rows1"
    using rows1 by (simp_all add: next_seq_def head_hash_def)
  from Cons.IH [OF rest ok1 extends_trans [OF assms(6) Cons.prems(3) ext] this] rows1 es show ?case by auto
qed auto

lemma batch_loop_spec:
  assumes "peers_ok h env" "audit_ok h s" "batch_loop h clock env rqs ks s = (r, s')"
  shows "audit_ok h s' \<and> (\<exists>rows. extends h (w_trail s) rows \<and>
    (case r of Inr es \<Rightarrow> w_trail s' = rows @ es \<and> length es = length rqs | Inl _ \<Rightarrow> w_trail s' = rows))"
  using assms(2,3)
proof (induction ks arbitrary: s)
  case Nil
  then show ?case by (auto intro: extends_refl)
next
  case (Cons k ks)
  define s1 where "s1 = reseed_if_stale s"
  define s2 where "s2 = s1\<lparr>w_trail := env k (w_trail s1)\<rparr>"
  note re = reseed_ok [OF Cons.prems(1), folded s1_def]
  have ok: "trail_ok h (w_trail s)" using Cons.prems(1) by (simp add: audit_ok_def)
  have ext: "extends h (w_trail s) (w_trail s2)"
    using assms(1) ok re(1) by (simp add: s2_def peers_ok_def)
  have ok2: "audit_ok h s2"
    using head_ok_extends [of h s1 "env k (w_trail s1)"] trail_ok_extends [OF ok ext] re ext
    by (simp add: s2_def audit_ok_def)
  have run: "batch_loop h clock env rqs (k # ks) s =
    (case batch_inserts h (clock k) rqs (w_next s2, w_trail s2, w_seq s2, w_last s2) of
       Inr (es, ids, rows, seq, prev) \<Rightarrow>
         (Inr es, s2\<lparr>w_next := ids, w_trail := rows, w_seq := seq, w_last := prev\<rparr>)
     | Inl (x, ids) \<Rightarrow> if is_sequence_collision x \<and> k < max_sequence_retries
         then batch_loop h clock env rqs ks (s2\<lparr>w_next := ids\<rparr>) else (Inl x, s2\<lparr>w_next := ids\<rparr>))"
    unfolding s2_def s1_def by (simp only: batch_loop.simps Let_def)
  show ?case
  proof (cases "batch_inserts h (clock k) rqs (w_next s2, w_trail s2, w_seq s2, w_last s2)")
    case (Inl xi)
    obtain x ids where xi: "xi = (x, ids)" by (cases xi)
    have ok3: "audit_ok h (s2\<lparr>w_next := ids\<rparr>)" using ok2 by (simp add: audit_ok_def head_ok_def)
    show ?thesis
    proof (cases "is_sequence_collision x \<and> k < max_sequence_retries")
      case True
      with Inl xi run Cons.prems(2) have "batch_loop h clock env rqs ks (s2\<lparr>w_next := ids\<rparr>) = (r, s')" by simp
      from Cons.IH [OF ok3 this] show ?thesis using extends_trans [OF ok ext] by auto
    next
      case False
      with Inl xi run Cons.prems(2) have "r = Inl x" "s' = s2\<lparr>w_next := ids\<rparr>" by auto
      with ok3 ext show ?thesis by auto
    qed
  next
    case (Inr y)
    obtain es ids rows q p where y: "y = (es, ids, rows, q, p)" by (cases y)
    with Inr run Cons.prems(2) have r: "r = Inr es" "s' = s2\<lparr>w_next := ids, w_trail := rows, w_seq := q, w_last := p\<rparr>"
      by auto
    show ?thesis
    proof (cases "rqs = []")
      case True
      with Inr y r ok2 ext show ?thesis by (auto simp: audit_ok_def head_ok_def)
    next
      case False
      have same: "w_trail s2 = w_trail s"
      proof -
        obtain rq rest where rqs: "rqs = rq # rest" using False by (cases rqs) auto
        define e where "e = make_entry h (clock k) (v_id h (w_next s2)) (w_seq s2 + 1) (w_last s2) rq"
        from Inr y rqs obtain rows1 where ins: "insert_trace h e (w_trail s2) = Inr rows1"
          by (auto simp: Let_def e_def split: sum.splits)
        have "tr_seq e = next_seq (w_trail s)" "tr_prev e = head_hash (w_trail s)" "tr_hash e = entry_hash h e"
          using re by (simp_all add: e_def s2_def)
        from insert_race [OF ok ext ins this] show ?thesis by simp
      qed
      have "Suc (w_seq s2) = next_seq (w_trail s2)" "w_last s2 = head_hash (w_trail s2)"
        using re same by (simp_all add: s2_def)
      from batch_inserts_spec [OF Inr [unfolded y] _ extends_refl this] ok2
      have "rows = w_trail s2 @ es" "length es = length rqs" "trail_ok h rows" "Suc q = next_seq rows" "p = head_hash rows"
        by (auto simp: audit_ok_def)
      with r same show ?thesis using extends_refl [of h "w_trail s"] by (auto simp: audit_ok_def head_ok_def)
    qed
  qed
qed

section \<open>Verification\<close>

definition advance :: "verify_state \<Rightarrow> trace list \<Rightarrow> verify_state" where
  "advance v es =
     (if es = [] then v
      else \<lparr>vs_first = Some (case vs_first v of None \<Rightarrow> tr_seq (hd es) | Some q \<Rightarrow> q),
            vs_last = tr_seq (last es), vs_prev = Some (tr_hash (last es))\<rparr>)"

text \<open>What a chunk must satisfy: links and digests, the first link only when there is a predecessor.\<close>

definition intact :: "v1_host \<Rightarrow> string option \<Rightarrow> trace list \<Rightarrow> bool" where
  "intact h prev es \<longleftrightarrow>
     es = [] \<or> linked tr_prev tr_hash (entry_hash h) (case prev of None \<Rightarrow> tr_prev (hd es) | Some p \<Rightarrow> p) es"

lemma intact_Cons:
  "intact h prev (e # es) \<longleftrightarrow>
   tr_hash e = entry_hash h e \<and> (prev = None \<or> prev = Some (tr_prev e)) \<and> intact h (Some (tr_hash e)) es"
  by (auto simp: intact_def split: option.splits)

lemma verify_chunk_Inr: "verify_chunk h c v es = Inr v' \<longleftrightarrow> intact h (vs_prev v) es \<and> v' = advance v es"
proof (induction es arbitrary: c v)
  case Nil
  then show ?case by (auto simp: intact_def advance_def)
next
  case (Cons e es)
  then show ?case
    by (auto simp: intact_Cons Let_def advance_def split: option.splits)
qed

lemma verify_chunk_append:
  "verify_chunk h c v (es @ fs) =
   (case verify_chunk h c v es of Inl f \<Rightarrow> Inl f | Inr v' \<Rightarrow> verify_chunk h (c + length es) v' fs)"
  by (induction es arbitrary: c v) (auto simp: Let_def split: option.splits sum.splits)

lemma verify_chunk_Inl_invalid: "verify_chunk h c v es = Inl f \<Longrightarrow> \<not> cv_valid f"
  by (induction es arbitrary: c v) (auto simp: Let_def split: if_splits)

text \<open>The rows a verification ranges over, in sequence order.\<close>

definition in_range :: "nat \<Rightarrow> nat option \<Rightarrow> trace \<Rightarrow> bool" where
  "in_range q to_seq t \<longleftrightarrow> q \<le> tr_seq t \<and> (case to_seq of None \<Rightarrow> True | Some r \<Rightarrow> tr_seq t \<le> r)"

definition ranged :: "nat \<Rightarrow> nat option \<Rightarrow> trace list \<Rightarrow> trace list" where
  "ranged q to_seq rows = sort_key tr_seq (filter (in_range q to_seq) rows)"

lemma verify_page_ranged: "verify_page q to_seq n rows = take n (ranged q to_seq rows)"
  by (simp add: verify_page_def ranged_def sql_order_def in_range_def [abs_def])

lemma ranged_later: "q \<le> r \<Longrightarrow> ranged r to_seq rows = filter (\<lambda>t. r \<le> tr_seq t) (ranged q to_seq rows)"
  unfolding ranged_def filter_sort by (rule arg_cong [of _ _ "sort_key tr_seq"]) (auto simp: in_range_def intro: filter_cong)

lemma sorted_last_max: "sorted (map key ys) \<Longrightarrow> a \<in> set ys \<Longrightarrow> key a \<le> key (last ys)"
  by (induction ys rule: rev_induct) (auto simp: sorted_append)

lemma drop_strict:
  assumes "sorted (map key xs)" "distinct (map key xs)" "0 < n" "n \<le> length xs"
  shows "drop n xs = filter (\<lambda>t. Suc (key (last (take n xs))) \<le> key t) xs"
proof -
  have split: "xs = take n xs @ drop n xs" by simp
  have ne: "take n xs \<noteq> []" using assms(3,4) by auto
  have s: "sorted_wrt (<) (map key (take n xs @ drop n xs))"
    using assms(1,2) by (simp add: strict_sorted_iff)
  then have cross: "\<forall>a \<in> set (take n xs). \<forall>b \<in> set (drop n xs). key a < key b"
    and pre: "sorted (map key (take n xs))"
    by (auto simp: sorted_wrt_append strict_sorted_imp_sorted simp del: append_take_drop_id)
  have "\<forall>a \<in> set (take n xs). key a \<le> key (last (take n xs))"
    using sorted_last_max [OF pre] by blast
  then have "filter (\<lambda>t. Suc (key (last (take n xs))) \<le> key t) (take n xs) = []"
    by (fastforce simp: filter_empty_conv)
  moreover have "filter (\<lambda>t. Suc (key (last (take n xs))) \<le> key t) (drop n xs) = drop n xs"
    using cross ne by (simp add: filter_id_conv Suc_le_eq)
  ultimately have "filter (\<lambda>t. Suc (key (last (take n xs))) \<le> key t) (take n xs @ drop n xs) = drop n xs"
    by (simp del: append_take_drop_id)
  then show ?thesis by simp
qed

lemma ranged_sorted: "sorted (map tr_seq (ranged q to_seq rows))"
  by (simp add: ranged_def)

lemma ranged_distinct: "distinct (map tr_seq rows) \<Longrightarrow> distinct (map tr_seq (ranged q to_seq rows))"
  by (simp add: ranged_def distinct_map inj_on_def)

text \<open>Chunking is invisible: the loop computes what one pass over the whole range computes.\<close>

lemma verify_loop_pass:
  assumes "0 < n" "distinct (map tr_seq rows)"
  shows "verify_loop h to_seq n rows q c v =
    (case verify_chunk h c v (ranged q to_seq rows) of
       Inl f \<Rightarrow> f
     | Inr v' \<Rightarrow> verify_done (c + length (ranged q to_seq rows)) v')"
  using assms
proof (induction h to_seq n rows q c v rule: verify_loop.induct)
  case (1 h to_seq n rows q c v)
  let ?all = "ranged q to_seq rows"
  let ?page = "verify_page q to_seq n rows"
  have page: "?page = take n ?all" by (rule verify_page_ranged)
  show ?case
  proof (cases "?page = []")
    case True
    with page 1(2) have "?all = []" by simp
    with True show ?thesis by (subst verify_loop.simps) simp
  next
    case False
    have split: "verify_chunk h c v ?all = (case verify_chunk h c v ?page of
        Inl f \<Rightarrow> Inl f | Inr v' \<Rightarrow> verify_chunk h (c + length ?page) v' (drop n ?all))"
      using verify_chunk_append [of h c v ?page "drop n ?all"] page by simp
    show ?thesis
    proof (cases "verify_chunk h c v ?page")
      case (Inl f)
      with False split show ?thesis by (subst verify_loop.simps) (simp add: Let_def)
    next
      case (Inr v')
      show ?thesis
      proof (cases "length ?page < n")
        case True
        then have all: "length ?all < n" "length ?page = length ?all" "drop n ?all = []" using page by auto
        have "verify_loop h to_seq n rows q c v = verify_done (c + length ?page) v'"
          by (subst verify_loop.simps) (simp only: Let_def False Inr True if_False if_True sum.case)
        with split Inr all show ?thesis by simp
      next
        case short: False
        then have n: "n \<le> length ?all" "length ?page = n" using page by auto
        have mem: "last ?page \<in> set ?page" using False by simp
        have le: "q \<le> tr_seq (last ?page) + 1" using verify_page_from [OF mem] by simp
        have rest: "drop n ?all = ranged (tr_seq (last ?page) + 1) to_seq rows"
          using drop_strict [OF ranged_sorted ranged_distinct [OF 1(3)] 1(2) n(1)] ranged_later [OF le] page by simp
        have "verify_loop h to_seq n rows q c v =
            verify_loop h to_seq n rows (tr_seq (last ?page) + 1) (c + length ?page) v'"
          by (subst verify_loop.simps) (simp only: Let_def False Inr short if_False sum.case)
        also have "\<dots> = (case verify_chunk h (c + length ?page) v' (drop n ?all) of
            Inl f \<Rightarrow> f | Inr v'' \<Rightarrow> verify_done (c + length ?page + length (drop n ?all)) v'')"
          unfolding rest by (rule "1.IH" [OF refl False Inr short 1(2,3)])
        also have "c + length ?page + length (drop n ?all) = c + length ?all" using n by simp
        finally show ?thesis using split Inr by (simp only: sum.case)
      qed
    qed
  qed
qed

lemma verify_chain_valid:
  assumes "0 < n" "distinct (map tr_seq rows)"
  shows "cv_valid (verify_chain h q to_seq n rows) \<longleftrightarrow> intact h None (ranged q to_seq rows)"
    and "cv_valid (verify_chain h q to_seq n rows) \<Longrightarrow>
      cv_checked (verify_chain h q to_seq n rows) = length (ranged q to_seq rows)"
proof -
  let ?v = "\<lparr>vs_first = None, vs_last = 0, vs_prev = None\<rparr>"
  have run: "verify_chain h q to_seq n rows =
    (case verify_chunk h 0 ?v (ranged q to_seq rows) of
       Inl f \<Rightarrow> f | Inr v' \<Rightarrow> verify_done (length (ranged q to_seq rows)) v')"
    using verify_loop_pass [OF assms, of h to_seq q 0 ?v] unfolding verify_chain_def add_0 .
  have d: "cv_valid (verify_done m (advance ?v es)) \<and> cv_checked (verify_done (length es) (advance ?v es)) = length es"
    for m and es :: "trace list"
    by (auto simp: verify_done_def advance_def split: option.splits)
  have "(cv_valid (verify_chain h q to_seq n rows) \<longleftrightarrow> intact h None (ranged q to_seq rows)) \<and>
      (cv_valid (verify_chain h q to_seq n rows) \<longrightarrow>
        cv_checked (verify_chain h q to_seq n rows) = length (ranged q to_seq rows))"
  proof (cases "verify_chunk h 0 ?v (ranged q to_seq rows)")
    case (Inl f)
    then have "\<not> intact h None (ranged q to_seq rows)"
      using verify_chunk_Inr [of h 0 ?v "ranged q to_seq rows" "advance ?v (ranged q to_seq rows)"] by simp
    with Inl run verify_chunk_Inl_invalid [OF Inl] show ?thesis by simp
  next
    case (Inr v')
    then have "intact h None (ranged q to_seq rows)" "v' = advance ?v (ranged q to_seq rows)"
      using verify_chunk_Inr [of h 0 ?v "ranged q to_seq rows" v'] by simp_all
    with Inr run d show ?thesis by simp
  qed
  then show "cv_valid (verify_chain h q to_seq n rows) \<longleftrightarrow> intact h None (ranged q to_seq rows)"
    "cv_valid (verify_chain h q to_seq n rows) \<Longrightarrow>
      cv_checked (verify_chain h q to_seq n rows) = length (ranged q to_seq rows)" by simp_all
qed

lemma linked_trail_bounds: "linked_trail h k p es \<Longrightarrow> t \<in> set es \<Longrightarrow> k \<le> tr_seq t \<and> tr_seq t < k + length es"
proof -
  assume l: "linked_trail h k p es" and "t \<in> set es"
  then have "tr_seq t \<in> set (map tr_seq es)" by simp
  with l show ?thesis unfolding linked_trail_def by (simp del: set_map)
qed

lemma linked_in_range: "linked_trail h k p es \<Longrightarrow> q \<le> k \<Longrightarrow> intact h (Some p) (filter (in_range q to_seq) es)"
proof (induction es arbitrary: k p)
  case (Cons f fs)
  then have tail: "linked_trail h (Suc k) (tr_hash f) fs" and f: "tr_seq f = k" "tr_prev f = p" "tr_hash f = entry_hash h f"
    by (auto simp: linked_trail_Cons)
  show ?case
  proof (cases "in_range q to_seq f")
    case True
    with Cons.IH [OF tail] Cons.prems(2) f show ?thesis by (simp add: intact_Cons)
  next
    case False
    with f Cons.prems(2) obtain r where r: "to_seq = Some r" "r < k"
      by (auto simp: in_range_def split: option.splits)
    have "\<not> in_range q to_seq t" if "t \<in> set fs" for t
      using linked_trail_bounds [OF tail that] r by (simp add: in_range_def)
    with False have "filter (in_range q to_seq) (f # fs) = []" by (simp add: filter_empty_conv)
    then show ?thesis by (simp only:) (simp add: intact_def)
  qed
qed (simp add: intact_def)

lemma linked_intact: "linked_trail h k p es \<Longrightarrow> intact h None (filter (in_range q to_seq) es)"
proof (induction es arbitrary: k p)
  case (Cons e es)
  then have tail: "linked_trail h (Suc k) (tr_hash e) es" and e: "tr_seq e = k" "tr_hash e = entry_hash h e"
    by (auto simp: linked_trail_Cons)
  show ?case
  proof (cases "in_range q to_seq e")
    case True
    then have "q \<le> Suc k" using e by (simp add: in_range_def)
    with True e linked_in_range [OF tail] show ?thesis by (simp add: intact_Cons)
  qed (use Cons.IH [OF tail] in simp)
qed (simp add: intact_def)

lemma trail_ok_intact:
  assumes "trail_ok h rows"
  shows "intact h None (ranged q to_seq rows)"
proof (cases "rows = []")
  case True
  then show ?thesis by (simp add: ranged_def intact_def)
next
  case False
  have "sorted (map tr_seq rows)" using trail_ok_seqs [OF assms] by simp
  then have "ranged q to_seq rows = filter (in_range q to_seq) rows"
    by (simp add: ranged_def sort_key_sorted sorted_filter)
  with False show ?thesis using linked_intact trail_ok_linked [OF assms False] by metis
qed

section \<open>What the digest does not cover\<close>

text \<open>The columns the digest covers; two tables that agree on them are verified alike.\<close>

definition covered :: "trace \<Rightarrow> string \<times> nat \<times> string \<times> string \<times> string \<times> string \<times> string \<times> string \<times> string" where
  "covered t = (tr_id t, tr_seq t, tr_actor t, tr_action t, tr_ttype t, tr_tid t, tr_time t, tr_hash t, tr_prev t)"

lemma covered_fields:
  "covered t = covered u \<Longrightarrow> tr_seq t = tr_seq u \<and> tr_hash t = tr_hash u \<and> tr_prev t = tr_prev u \<and> entry_hash h t = entry_hash h u"
  by (simp add: covered_def entry_hash_def)

lemma intact_covered: "map covered es = map covered fs \<Longrightarrow> intact h p es = intact h p fs"
proof (induction es arbitrary: fs p)
  case (Cons e es)
  from Cons.prems obtain f gs where fs: "fs = f # gs" "covered e = covered f" "map covered es = map covered gs"
    by (auto simp: map_eq_Cons_conv)
  from Cons.IH [OF fs(3)] covered_fields [OF fs(2)] fs(1) show ?case by (simp add: intact_Cons)
qed simp

lemma filter_seq_map:
  assumes "\<And>t. tr_seq (f t) = tr_seq t"
  shows "filter (in_range q to_seq) (map f rows) = map f (filter (in_range q to_seq) rows)"
proof -
  have "in_range q to_seq \<circ> f = in_range q to_seq"
    using assms by (auto simp: in_range_def fun_eq_iff split: option.splits)
  then show ?thesis by (simp add: filter_map)
qed

lemma sort_key_map_same: "(\<And>t. key (f t) = key t) \<Longrightarrow> sort_key key (map f rows) = map f (sort_key key rows)"
proof (induction rows)
  case (Cons r rows)
  have "insort_key key (f r) (map f xs) = map f (insort_key key r xs)" for xs
    using Cons.prems by (induction xs) auto
  with Cons show ?case by simp
qed simp

lemma ranged_map: "(\<And>t. tr_seq (f t) = tr_seq t) \<Longrightarrow> ranged q to_seq (map f rows) = map f (ranged q to_seq rows)"
  unfolding ranged_def by (simp add: filter_seq_map sort_key_map_same)

section \<open>What the digest covers\<close>

lemma split_bar: "CHR ''|'' \<notin> set a \<Longrightarrow> CHR ''|'' \<notin> set c \<Longrightarrow> a @ CHR ''|'' # b = c @ CHR ''|'' # d \<Longrightarrow> a = c \<and> b = d"
  using split_on_append [of "CHR ''|''" a b] split_on_append [of "CHR ''|''" c d]
  by (auto dest: arg_cong [where f = "split_on (CHR ''|'')"])

definition bar_free :: "trace \<Rightarrow> bool" where
  "bar_free t \<longleftrightarrow> (\<forall>f \<in> {tr_id t, tr_actor t, tr_action t, tr_ttype t, tr_tid t, tr_time t}. CHR ''|'' \<notin> set f)"

lemma show_nat_no_bar: "CHR ''|'' \<notin> set (show_nat n)"
  using show_nat_digits [of n] by (auto simp: list_all_iff is_digit_def)

text \<open>Without the separator in its parts, the digested text determines every covered field.\<close>

lemma entry_payload_inj:
  assumes "bar_free t" "bar_free u" "entry_payload t = entry_payload u"
  shows "tr_id t = tr_id u \<and> tr_seq t = tr_seq u \<and> tr_actor t = tr_actor u \<and> tr_action t = tr_action u \<and>
    tr_ttype t = tr_ttype u \<and> tr_tid t = tr_tid u \<and> tr_time t = tr_time u \<and> tr_prev t = tr_prev u"
proof -
  have e: "entry_payload x = tr_id x @ CHR ''|'' # show_nat (tr_seq x) @ CHR ''|'' # tr_actor x @ CHR ''|'' #
      tr_action x @ CHR ''|'' # tr_ttype x @ CHR ''|'' # tr_tid x @ CHR ''|'' # tr_time x @ CHR ''|'' # tr_prev x" for x
    by (simp add: entry_payload_def hash_payload_def)
  note b = assms(1,2) [unfolded bar_free_def] show_nat_no_bar
  have 1: "tr_id t = tr_id u" by (rule split_bar [THEN conjunct1, OF _ _ assms(3) [unfolded e]]) (use b in auto)
  note r1 = split_bar [THEN conjunct2, OF _ _ assms(3) [unfolded e]]
  have "show_nat (tr_seq t) @ CHR ''|'' # tr_actor t @ CHR ''|'' # tr_action t @ CHR ''|'' # tr_ttype t @ CHR ''|'' #
      tr_tid t @ CHR ''|'' # tr_time t @ CHR ''|'' # tr_prev t =
    show_nat (tr_seq u) @ CHR ''|'' # tr_actor u @ CHR ''|'' # tr_action u @ CHR ''|'' # tr_ttype u @ CHR ''|'' #
      tr_tid u @ CHR ''|'' # tr_time u @ CHR ''|'' # tr_prev u"
    by (rule r1) (use b in auto)
  from split_bar [OF _ _ this] have 2: "show_nat (tr_seq t) = show_nat (tr_seq u)" and
    r2: "tr_actor t @ CHR ''|'' # tr_action t @ CHR ''|'' # tr_ttype t @ CHR ''|'' # tr_tid t @ CHR ''|'' #
      tr_time t @ CHR ''|'' # tr_prev t = tr_actor u @ CHR ''|'' # tr_action u @ CHR ''|'' # tr_ttype u @ CHR ''|'' #
      tr_tid u @ CHR ''|'' # tr_time u @ CHR ''|'' # tr_prev u" using b by auto
  from split_bar [OF _ _ r2] have 3: "tr_actor t = tr_actor u" and
    r3: "tr_action t @ CHR ''|'' # tr_ttype t @ CHR ''|'' # tr_tid t @ CHR ''|'' # tr_time t @ CHR ''|'' # tr_prev t =
      tr_action u @ CHR ''|'' # tr_ttype u @ CHR ''|'' # tr_tid u @ CHR ''|'' # tr_time u @ CHR ''|'' # tr_prev u"
    using b by auto
  from split_bar [OF _ _ r3] have 4: "tr_action t = tr_action u" and
    r4: "tr_ttype t @ CHR ''|'' # tr_tid t @ CHR ''|'' # tr_time t @ CHR ''|'' # tr_prev t =
      tr_ttype u @ CHR ''|'' # tr_tid u @ CHR ''|'' # tr_time u @ CHR ''|'' # tr_prev u" using b by auto
  from split_bar [OF _ _ r4] have 5: "tr_ttype t = tr_ttype u" and
    r5: "tr_tid t @ CHR ''|'' # tr_time t @ CHR ''|'' # tr_prev t = tr_tid u @ CHR ''|'' # tr_time u @ CHR ''|'' # tr_prev u"
    using b by auto
  from split_bar [OF _ _ r5] have 6: "tr_tid t = tr_tid u" and
    r6: "tr_time t @ CHR ''|'' # tr_prev t = tr_time u @ CHR ''|'' # tr_prev u" using b by auto
  from split_bar [OF _ _ r6] have "tr_time t = tr_time u" "tr_prev t = tr_prev u" using b by auto
  with 1 2 3 4 5 6 show ?thesis by (simp add: show_nat_inj)
qed

interpretation trail_chain: hash_chain tr_prev tr_hash entry_payload "v_hash h" bar_free for h
  by unfold_locales (auto dest: entry_payload_inj)

section \<open>Compaction and retention\<close>

lemma linked_trail_covered:
  "map covered es = map covered fs \<Longrightarrow> linked_trail h k p es = linked_trail h k p fs"
proof (induction es arbitrary: fs k p)
  case (Cons e es)
  from Cons.prems obtain f gs where fs: "fs = f # gs" "covered e = covered f" "map covered es = map covered gs"
    by (auto simp: map_eq_Cons_conv)
  from Cons.IH [OF fs(3)] covered_fields [OF fs(2)] fs(1) show ?case by (simp add: linked_trail_Cons)
qed simp

lemma covered_ends:
  assumes "map covered es = map covered fs"
  shows "next_seq es = next_seq fs" "head_hash es = head_hash fs" "es = [] \<longleftrightarrow> fs = []"
    "es \<noteq> [] \<Longrightarrow> tr_seq (hd es) = tr_seq (hd fs) \<and> tr_prev (hd es) = tr_prev (hd fs)"
proof -
  show e: "es = [] \<longleftrightarrow> fs = []" using assms by (metis map_is_Nil_conv)
  have "covered (last es) = covered (last fs)" "covered (hd es) = covered (hd fs)" if "es \<noteq> []"
    using assms that e last_map [of es covered] last_map [of fs covered] hd_map [of es covered] hd_map [of fs covered]
    by auto
  then show "next_seq es = next_seq fs" "head_hash es = head_hash fs"
    "es \<noteq> [] \<Longrightarrow> tr_seq (hd es) = tr_seq (hd fs) \<and> tr_prev (hd es) = tr_prev (hd fs)"
    using e by (auto simp: next_seq_def head_hash_def last_digest_last dest: covered_fields)
qed

lemma trail_ok_covered: "map covered es = map covered fs \<Longrightarrow> trail_ok h es = trail_ok h fs"
  using linked_trail_covered [of es fs] covered_ends [of es fs] unfolding trail_ok_def by metis

lemma compact_covered: "map covered (sql_update_where P (compact_entry b a) rows) = map covered rows"
  by (simp add: sql_update_where_def covered_def compact_entry_def)

lemma compact_trail_covered: "compact_trail q b a s = (r, s') \<Longrightarrow> map covered (w_trail s') = map covered (w_trail s)"
  by (auto simp: compact_trail_def Let_def compact_covered split: if_splits)

lemma compact_trail_head: "compact_trail q b a s = (r, s') \<Longrightarrow> w_seq s' = w_seq s \<and> w_last s' = w_last s"
  by (auto simp: compact_trail_def Let_def split: if_splits)

lemma compact_trail_ok: "audit_ok h s \<Longrightarrow> compact_trail q b a s = (r, s') \<Longrightarrow> audit_ok h s'"
  using trail_ok_covered [OF compact_trail_covered] covered_ends(1,2) [OF compact_trail_covered]
    compact_trail_head [of q b a s r s']
  unfolding audit_ok_def head_ok_def by metis

lemma keeps_compact [keeps_intros]: "keeps (audit_ok h) (compact_trail q b a)"
  unfolding keeps_def by (metis compact_trail_ok prod.collapse)

lemma linked_trail_ok: "linked_trail h (q + k) p es \<Longrightarrow> 1 \<le> q \<Longrightarrow> trail_ok h es"
  by (cases es) (auto simp: trail_ok_def linked_trail_Cons)

lemma trail_ok_drop:
  assumes ok: "trail_ok h rows"
  shows "trail_ok h (drop k rows)"
proof (cases "k < length rows")
  case True
  from True have "rows \<noteq> []" by auto
  from trail_ok_linked [OF ok this] obtain q p where l: "linked_trail h q p rows" "1 \<le> q" by blast
  then have "linked_trail h (q + k) (last_digest tr_hash p (take k rows)) (drop k rows)"
    using linked_trail_append [of h q p "take k rows" "drop k rows"] True by simp
  then show ?thesis using l(2) by (rule linked_trail_ok)
qed (simp add: trail_ok_def)

lemma filter_suffix:
  assumes "sorted (map key xs)" "\<And>x y. key x \<le> key y \<Longrightarrow> P x \<Longrightarrow> P y"
  shows "\<exists>k \<le> length xs. filter P xs = drop k xs"
  using assms(1)
proof (induction xs)
  case (Cons x xs)
  show ?case
  proof (cases "P x")
    case True
    then have "filter P (x # xs) = x # xs" using Cons.prems assms(2) by (auto simp: filter_id_conv)
    then show ?thesis by (intro exI [of _ 0]) simp
  next
    case False
    from Cons obtain k where "k \<le> length xs" "filter P xs = drop k xs" by auto
    with False show ?thesis by (intro exI [of _ "Suc k"]) simp
  qed
qed simp

lemma delete_traces_Inr:
  "delete_traces h P s = (Inr u, s') \<Longrightarrow> s' = s\<lparr>w_trail := filter (\<lambda>t. \<not> P t) (w_trail s)\<rparr>"
  by (auto simp: delete_traces_def Let_def split: if_splits)

lemma prune_by_age_Inr:
  assumes "prune_by_age h cutoff p s = (Inr u, s')" "sorted (map tr_time (w_trail s))"
  shows "\<exists>k \<le> length (w_trail s). w_trail s' = drop k (w_trail s) \<and>
    (\<forall>d. rp_max_age_days p = Some d \<longrightarrow> (\<forall>t \<in> set (w_trail s'). \<not> tr_time t < cutoff d))"
proof (cases "rp_max_age_days p")
  case None
  with assms(1) show ?thesis by (auto simp: prune_by_age_def intro: exI [of _ 0])
next
  case (Some d)
  with assms(1) have s': "w_trail s' = filter (\<lambda>t. \<not> tr_time t < cutoff d) (w_trail s)"
    by (auto simp: prune_by_age_def dest!: delete_traces_Inr)
  have "\<exists>k \<le> length (w_trail s). filter (\<lambda>t. \<not> tr_time t < cutoff d) (w_trail s) = drop k (w_trail s)"
    by (rule filter_suffix [OF assms(2)]) auto
  with s' Some show ?thesis by auto
qed

lemma prune_by_count_Inr:
  assumes "prune_by_count h p s = (Inr u, s')" "trail_ok h (w_trail s)"
  shows "\<exists>k \<le> length (w_trail s). w_trail s' = drop k (w_trail s) \<and>
    (\<forall>n. rp_max_entries p = Some n \<longrightarrow> length (w_trail s') = min n (length (w_trail s)))"
proof (cases "rp_max_entries p")
  case None
  with assms(1) show ?thesis by (auto simp: prune_by_count_def intro: exI [of _ 0])
next
  case (Some n)
  let ?rows = "w_trail s"
  have seqs: "sorted (map tr_seq ?rows)" "distinct (map tr_seq ?rows)" using trail_ok_seqs [OF assms(2)] by auto
  have order: "sql_order True tr_seq ?rows = rev ?rows" by (rule sql_order_desc_sorted [OF seqs])
  show ?thesis
  proof (cases "n < length ?rows")
    case False
    then have "sql_limit (Some 1) n (sql_order True tr_seq ?rows) = []" by (simp add: sql_limit_def order)
    with Some assms(1) have "s' = s" by (auto simp: prune_by_count_def)
    with Some False show ?thesis by (intro exI [of _ 0]) auto
  next
    case True
    define m where "m = length ?rows - n"
    have m: "0 < m" "m \<le> length ?rows" using True by (auto simp: m_def)
    have "take 1 (drop n (rev ?rows)) = [rev ?rows ! n]"
      using True by (simp add: take_Suc_conv_app_nth flip: Cons_nth_drop_Suc)
    moreover have "rev ?rows ! n = last (take m ?rows)"
      using True m last_conv_nth [of "take m ?rows"] by (cases "?rows = []") (auto simp: rev_nth m_def)
    ultimately have "sql_limit (Some 1) n (sql_order True tr_seq ?rows) = [last (take m ?rows)]"
      by (simp add: sql_limit_def order)
    with Some assms(1) have s': "w_trail s' = filter (\<lambda>t. \<not> tr_seq t \<le> tr_seq (last (take m ?rows))) ?rows"
      by (auto simp: prune_by_count_def dest!: delete_traces_Inr)
    have "w_trail s' = drop m ?rows"
      unfolding s' using drop_strict [OF seqs m] by (simp add: not_le Suc_le_eq)
    moreover have "length (drop m ?rows) = n" using True by (simp add: m_def)
    ultimately show ?thesis using Some True m by (intro exI [of _ m]) auto
  qed
qed

section \<open>What recording leaves alone\<close>

lemma reseed_more: "v1_state.more (reseed_if_stale s) = v1_state.more s"
  by (simp add: reseed_if_stale_def split_beta)

lemma record_loop_more: "v1_state.more (snd (record_loop h clock env rq ks s)) = v1_state.more s"
proof (induction ks arbitrary: s)
  case (Cons k ks)
  then show ?case by (simp add: Let_def reseed_more split: sum.splits)
qed simp

lemma record_entry_more: "record_entry h clock env rq s = (r, s') \<Longrightarrow> v1_state.more s' = v1_state.more s"
  unfolding record_entry_def by (metis record_loop_more snd_conv)

end
