(* ===== verification/V1_Tenancy.thy ===== *)
theory V1_Tenancy
  imports V1_Audit_Facts
begin

text \<open>
  \<open>legacy/v1/scoped/tenancy\<close>: scopes, memberships and projections (\<open>models.py\<close>), their life
  cycle (\<open>lifecycle.py\<close>) and the projection of objects into scopes (\<open>projection.py\<close>).

  Rows of memberships and projections hold their enum members; rows of scopes hold the
  lifecycle as the text the database stores, because \<open>FROZEN\<close> has its own spelling there.
  Times are ISO strings, compared as text like the queries do. One call happens at one time
  (\<open>now\<close>) and without interference of other processes.
\<close>

section \<open>Models\<close>

datatype scope_role = Viewer | Editor | RoleAdmin | RoleOwner

fun role_value :: "scope_role \<Rightarrow> string" where
  "role_value Viewer = ''viewer''"
| "role_value Editor = ''editor''"
| "role_value RoleAdmin = ''admin''"
| "role_value RoleOwner = ''owner''"

datatype access_level = ReadAccess | WriteAccess | AdminAccess

fun access_value :: "access_level \<Rightarrow> string" where
  "access_value ReadAccess = ''read''"
| "access_value WriteAccess = ''write''"
| "access_value AdminAccess = ''admin''"

text \<open>An argument that is either the enum member or its text.\<close>

definition role_of :: "string \<Rightarrow> v1_error + scope_role" where
  "role_of s =
     (case find (\<lambda>r. role_value r = s) [Viewer, Editor, RoleAdmin, RoleOwner] of
        None \<Rightarrow> Inl V1ValueError | Some r \<Rightarrow> Inr r)"

definition coerce_role :: "string + scope_role \<Rightarrow> v1_error + scope_role" where
  "coerce_role v = (case v of Inr r \<Rightarrow> Inr r | Inl s \<Rightarrow> role_of s)"

definition access_of :: "string \<Rightarrow> v1_error + access_level" where
  "access_of s =
     (case find (\<lambda>a. access_value a = s) [ReadAccess, WriteAccess, AdminAccess] of
        None \<Rightarrow> Inl V1ValueError | Some a \<Rightarrow> Inr a)"

definition coerce_access_level :: "string + access_level \<Rightarrow> v1_error + access_level" where
  "coerce_access_level v = (case v of Inr a \<Rightarrow> Inr a | Inl s \<Rightarrow> access_of s)"

record scope =
  sc_id :: string
  sc_name :: string
  sc_owner :: string
  sc_created :: string
  sc_description :: string
  sc_parent :: "string option"
  sc_entry :: "string option"
  sc_lifecycle :: lifecycle
  sc_metadata :: metadata

definition is_active :: "scope \<Rightarrow> bool" where
  "is_active s \<longleftrightarrow> sc_lifecycle s = Active"

definition is_frozen :: "scope \<Rightarrow> bool" where
  "is_frozen s \<longleftrightarrow> sc_lifecycle s = Deprecated"

definition is_archived :: "scope \<Rightarrow> bool" where
  "is_archived s \<longleftrightarrow> sc_lifecycle s = Archived"

definition lifecycle_display :: "scope \<Rightarrow> string" where
  "lifecycle_display s = (if sc_lifecycle s = Deprecated then ''FROZEN'' else lifecycle_name (sc_lifecycle s))"

definition scope_snapshot :: "scope \<Rightarrow> json" where
  "scope_snapshot s = JObj
     [(''id'', JStr (sc_id s)), (''name'', JStr (sc_name s)), (''description'', JStr (sc_description s)),
      (''owner_id'', JStr (sc_owner s)), (''parent_scope_id'', opt_str (sc_parent s)),
      (''registry_entry_id'', opt_str (sc_entry s)), (''created_at'', JStr (sc_created s)),
      (''lifecycle'', JStr (lifecycle_name (sc_lifecycle s))), (''metadata'', JObj (sc_metadata s))]"

record membership =
  mb_id :: string
  mb_scope :: string
  mb_principal :: string
  mb_role :: scope_role
  mb_granted_at :: string
  mb_granted_by :: string
  mb_expires :: "string option"
  mb_lifecycle :: lifecycle

definition membership_expired :: "string \<Rightarrow> membership \<Rightarrow> bool" where
  "membership_expired now m \<longleftrightarrow> (case mb_expires m of None \<Rightarrow> False | Some t \<Rightarrow> now > t)"

definition membership_snapshot :: "membership \<Rightarrow> json" where
  "membership_snapshot m = JObj
     [(''id'', JStr (mb_id m)), (''scope_id'', JStr (mb_scope m)), (''principal_id'', JStr (mb_principal m)),
      (''role'', JStr (role_value (mb_role m))), (''granted_at'', JStr (mb_granted_at m)),
      (''granted_by'', JStr (mb_granted_by m)), (''expires_at'', opt_str (mb_expires m)),
      (''lifecycle'', JStr (lifecycle_name (mb_lifecycle m)))]"

record projection =
  pj_id :: string
  pj_scope :: string
  pj_object :: string
  pj_at :: string
  pj_by :: string
  pj_access :: access_level
  pj_lifecycle :: lifecycle

definition projection_snapshot :: "projection \<Rightarrow> json" where
  "projection_snapshot p = JObj
     [(''id'', JStr (pj_id p)), (''scope_id'', JStr (pj_scope p)), (''object_id'', JStr (pj_object p)),
      (''projected_at'', JStr (pj_at p)), (''projected_by'', JStr (pj_by p)),
      (''access_level'', JStr (access_value (pj_access p))), (''lifecycle'', JStr (lifecycle_name (pj_lifecycle p)))]"

definition active_membership :: "string \<Rightarrow> membership \<Rightarrow> bool" where
  "active_membership now m \<longleftrightarrow>
     mb_lifecycle m = Active \<and> (case mb_expires m of None \<Rightarrow> True | Some t \<Rightarrow> t > now)"

definition scope_lifecycle_frozen :: string where
  "scope_lifecycle_frozen = ''FROZEN''"

definition lifecycle_to_db :: "lifecycle \<Rightarrow> string" where
  "lifecycle_to_db l = (if l = Deprecated then scope_lifecycle_frozen else lifecycle_name l)"

definition lifecycle_from_db :: "string \<Rightarrow> v1_error + lifecycle" where
  "lifecycle_from_db v =
     (if v = scope_lifecycle_frozen then Inr Deprecated
      else case find (\<lambda>l. lifecycle_name l = v) [Draft, Active, Deprecated, Archived] of
             None \<Rightarrow> Inl V1KeyError | Some l \<Rightarrow> Inr l)"

record scope_row =
  sr_id :: string
  sr_name :: string
  sr_owner :: string
  sr_created :: string
  sr_description :: string
  sr_parent :: "string option"
  sr_entry :: "string option"
  sr_lifecycle :: string
  sr_metadata :: metadata

definition scope_from_row :: "scope_row \<Rightarrow> v1_error + scope" where
  "scope_from_row r =
     bindE (lifecycle_from_db (sr_lifecycle r)) (\<lambda>l.
       Inr \<lparr>sc_id = sr_id r, sc_name = sr_name r, sc_owner = sr_owner r, sc_created = sr_created r,
            sc_description = sr_description r, sc_parent = sr_parent r, sc_entry = sr_entry r,
            sc_lifecycle = l, sc_metadata = sr_metadata r\<rparr>)"

definition row_of_scope :: "scope \<Rightarrow> scope_row" where
  "row_of_scope s =
     \<lparr>sr_id = sc_id s, sr_name = sc_name s, sr_owner = sc_owner s, sr_created = sc_created s,
      sr_description = sc_description s, sr_parent = sc_parent s, sr_entry = sc_entry s,
      sr_lifecycle = lifecycle_to_db (sc_lifecycle s), sr_metadata = sc_metadata s\<rparr>"

lemma lifecycle_db_roundtrip: "lifecycle_from_db (lifecycle_to_db l) = Inr l"
  by (cases l) (simp_all add: lifecycle_from_db_def lifecycle_to_db_def scope_lifecycle_frozen_def)

lemma scope_row_roundtrip: "scope_from_row (row_of_scope s) = Inr s"
  by (simp add: scope_from_row_def row_of_scope_def lifecycle_db_roundtrip)

section \<open>The state of the service\<close>

record object_row =
  ob_id :: string
  ob_owner :: string
  ob_type :: string
  ob_lifecycle :: lifecycle
  ob_version :: nat
  ob_created :: string
  ob_entry :: "string option"

record tenant = v1_state +
  tn_audited :: bool
  tn_principals :: "string list"
  tn_objects :: "object_row list"
  tn_scopes :: "scope_row list"
  tn_members :: "membership list"
  tn_projections :: "projection list"

text \<open>\<open>if self._audit: self._audit.record(...)\<close>.\<close>

definition audit_event :: "v1_host \<Rightarrow> string \<Rightarrow> trace_request \<Rightarrow> ('x tenant_scheme, unit) sop" where
  "audit_event h now rq =
     bindS (getS tn_audited) (\<lambda>b.
       whenS b (bindS (record_entry h (\<lambda>_. now) (\<lambda>_ rows. rows) rq) (\<lambda>_. returnS ())))"

definition scope_request ::
  "string \<Rightarrow> string \<Rightarrow> string \<Rightarrow> string option \<Rightarrow> json option \<Rightarrow> json option \<Rightarrow> trace_request" where
  "scope_request actor action tid scope_id before after =
     \<lparr>rq_actor = actor, rq_action = action, rq_ttype = ''Scope'', rq_tid = tid, rq_scope = scope_id,
      rq_before = before, rq_after = after, rq_meta = [], rq_parent = None\<rparr>"

section \<open>Scopes: reading\<close>

definition get_scope :: "string \<Rightarrow> ('x tenant_scheme, scope option) sop" where
  "get_scope scope_id s =
     (case find (\<lambda>r. sr_id r = scope_id) (tn_scopes s) of
        None \<Rightarrow> (Inr None, s)
      | Some r \<Rightarrow> (bindE (scope_from_row r) (\<lambda>x. Inr (Some x)), s))"

definition get_scope_or_raise :: "string \<Rightarrow> ('x tenant_scheme, scope) sop" where
  "get_scope_or_raise scope_id =
     bindS (get_scope scope_id) (\<lambda>x.
       case x of None \<Rightarrow> raiseS ScopeNotFound | Some sc \<Rightarrow> returnS sc)"

definition scope_filter_rows :: "string option \<Rightarrow> string option \<Rightarrow> bool \<Rightarrow> scope_row list \<Rightarrow> scope_row list" where
  "scope_filter_rows owner parent include_archived =
     filter (\<lambda>r. given owner (sr_owner r)
       \<and> (case parent of None \<Rightarrow> True | Some p \<Rightarrow> sr_parent r = Some p)
       \<and> (include_archived \<or> sr_lifecycle r \<noteq> lifecycle_name Archived))"

definition list_scopes ::
  "string option \<Rightarrow> string option \<Rightarrow> bool \<Rightarrow> string \<Rightarrow> nat option \<Rightarrow> nat \<Rightarrow> ('x tenant_scheme, scope list) sop" where
  "list_scopes owner parent include_archived order_by limit offset s =
     (let sel = scope_filter_rows owner parent include_archived (tn_scopes s);
          ord = (if order_column {''created_at'', ''name''} ''created_at'' order_by = ''name''
                 then sql_order (order_desc order_by) sr_name sel
                 else sql_order (order_desc order_by) sr_created sel)
      in (mapE scope_from_row (sql_limit limit offset ord), s))"

definition count_scopes :: "string option \<Rightarrow> string option \<Rightarrow> bool \<Rightarrow> ('x tenant_scheme, nat) sop" where
  "count_scopes owner parent include_archived s =
     (Inr (length (scope_filter_rows owner parent include_archived (tn_scopes s))), s)"

definition require_mutable :: "scope \<Rightarrow> v1_error + unit" where
  "require_mutable sc =
     (if is_frozen sc then Inl ScopeFrozen else if is_archived sc then Inl ScopeFrozen else Inr ())"

text \<open>The two lines most operations start with.\<close>

definition mutable_scope :: "string \<Rightarrow> ('x tenant_scheme, scope) sop" where
  "mutable_scope scope_id =
     bindS (get_scope_or_raise scope_id) (\<lambda>sc.
     bindS (liftS (require_mutable sc)) (\<lambda>_. returnS sc))"

section \<open>Memberships\<close>

definition same_grant :: "string \<Rightarrow> string \<Rightarrow> scope_role \<Rightarrow> membership \<Rightarrow> bool" where
  "same_grant scope_id pid role m \<longleftrightarrow>
     mb_scope m = scope_id \<and> mb_principal m = pid \<and> mb_role m = role"

definition insert_membership :: "v1_host \<Rightarrow> membership \<Rightarrow> ('x tenant_scheme, unit) sop" where
  "insert_membership h m s =
     (if list_ex (\<lambda>x. mb_id x = mb_id m) (tn_members s) then (Inl (v_violation h IdTaken), s)
      else if list_ex (same_grant (mb_scope m) (mb_principal m) (mb_role m)) (tn_members s)
      then (Inl (v_violation h KeyTaken), s)
      else if \<not> list_ex (\<lambda>r. sr_id r = mb_scope m) (tn_scopes s) \<or> mb_principal m \<notin> set (tn_principals s)
      then (Inl (v_violation h ForeignKeyMissing), s)
      else (Inr (), s\<lparr>tn_members := tn_members s @ [m]\<rparr>))"

definition update_members ::
  "(membership \<Rightarrow> bool) \<Rightarrow> (membership \<Rightarrow> membership) \<Rightarrow> ('x tenant_scheme, unit) sop" where
  "update_members P f = modifyS (\<lambda>s. s\<lparr>tn_members := sql_update_where P f (tn_members s)\<rparr>)"

definition new_membership ::
  "string \<Rightarrow> string \<Rightarrow> string \<Rightarrow> scope_role \<Rightarrow> string \<Rightarrow> string \<Rightarrow> string option \<Rightarrow> membership" where
  "new_membership mid scope_id pid role now granted_by expires =
     \<lparr>mb_id = mid, mb_scope = scope_id, mb_principal = pid, mb_role = role, mb_granted_at = now,
      mb_granted_by = granted_by, mb_expires = expires, mb_lifecycle = Active\<rparr>"

text \<open>The write of \<open>_add_membership\<close> when there is no active row: reactivate or insert.\<close>

definition write_membership ::
  "v1_host \<Rightarrow> string \<Rightarrow> string \<Rightarrow> string \<Rightarrow> scope_role \<Rightarrow> string \<Rightarrow> string option \<Rightarrow> membership option \<Rightarrow>
   ('x tenant_scheme, membership) sop" where
  "write_membership h now scope_id pid role granted_by expires existing =
     (case existing of
        Some old \<Rightarrow>
          bindS (update_members (same_grant scope_id pid role)
            (\<lambda>m. m\<lparr>mb_lifecycle := Active, mb_granted_at := now, mb_granted_by := granted_by, mb_expires := expires\<rparr>))
            (\<lambda>_. returnS (new_membership (mb_id old) scope_id pid role now granted_by expires))
      | None \<Rightarrow>
          bindS (fresh_id h) (\<lambda>mid.
          bindS (insert_membership h (new_membership mid scope_id pid role now granted_by expires)) (\<lambda>_.
            returnS (new_membership mid scope_id pid role now granted_by expires))))"

definition add_membership ::
  "v1_host \<Rightarrow> string \<Rightarrow> string \<Rightarrow> string \<Rightarrow> scope_role \<Rightarrow> string \<Rightarrow> string option \<Rightarrow>
   ('x tenant_scheme, membership) sop" where
  "add_membership h now scope_id pid role granted_by expires =
     bindS (getS (\<lambda>s. find (same_grant scope_id pid role) (tn_members s))) (\<lambda>existing.
       if (case existing of None \<Rightarrow> False | Some m \<Rightarrow> mb_lifecycle m = Active)
       then returnS (the existing)
       else
         bindS (write_membership h now scope_id pid role granted_by expires existing) (\<lambda>mem.
         bindS (audit_event h now
           (scope_request granted_by ''membership_change'' scope_id (Some scope_id) None
             (Some (membership_snapshot mem)))) (\<lambda>_.
           returnS mem)))"

definition add_member ::
  "v1_host \<Rightarrow> string \<Rightarrow> string \<Rightarrow> string \<Rightarrow> scope_role \<Rightarrow> string \<Rightarrow> string option \<Rightarrow>
   ('x tenant_scheme, membership) sop" where
  "add_member h now scope_id pid role granted_by expires =
     bindS (mutable_scope scope_id) (\<lambda>_. add_membership h now scope_id pid role granted_by expires)"

text \<open>Each member is a principal and the text of its role, if given.\<close>

definition add_members ::
  "v1_host \<Rightarrow> string \<Rightarrow> string \<Rightarrow> (string \<times> string option) list \<Rightarrow> string \<Rightarrow>
   ('x tenant_scheme, membership list) sop" where
  "add_members h now scope_id members granted_by =
     bindS (mutable_scope scope_id) (\<lambda>_.
       mapS (\<lambda>(pid, role).
         bindS (liftS (role_of (case role of None \<Rightarrow> ''viewer'' | Some r \<Rightarrow> r))) (\<lambda>r.
           add_membership h now scope_id pid r granted_by None)) members)"

definition revocable :: "string \<Rightarrow> string \<Rightarrow> scope_role option \<Rightarrow> membership \<Rightarrow> bool" where
  "revocable scope_id pid role m \<longleftrightarrow>
     mb_scope m = scope_id \<and> mb_principal m = pid \<and> mb_lifecycle m = Active \<and> given role (mb_role m)"

definition revoke_member ::
  "v1_host \<Rightarrow> string \<Rightarrow> string \<Rightarrow> string \<Rightarrow> string \<Rightarrow> scope_role option \<Rightarrow> ('x tenant_scheme, nat) sop" where
  "revoke_member h now scope_id pid revoked_by role =
     bindS (mutable_scope scope_id) (\<lambda>_.
     bindS (getS (\<lambda>s. filter (revocable scope_id pid role) (tn_members s))) (\<lambda>rows.
       if rows = [] then returnS 0
       else
         bindS (update_members (revocable scope_id pid role) (\<lambda>m. m\<lparr>mb_lifecycle := Archived\<rparr>)) (\<lambda>_.
         bindS (mapS (\<lambda>m. audit_event h now
           (scope_request revoked_by ''revoke'' scope_id (Some scope_id) (Some (membership_snapshot m)) None)) rows) (\<lambda>_.
           returnS (length rows)))))"

definition get_memberships ::
  "string \<Rightarrow> string \<Rightarrow> bool \<Rightarrow> nat option \<Rightarrow> nat \<Rightarrow> ('x tenant_scheme, membership list) sop" where
  "get_memberships now scope_id active_only limit offset s =
     (let sel = filter (\<lambda>m. mb_scope m = scope_id \<and> (active_only \<longrightarrow> active_membership now m)) (tn_members s)
      in (Inr (sql_limit limit offset (sql_order False mb_granted_at sel)), s))"

definition get_principal_scopes ::
  "string \<Rightarrow> string \<Rightarrow> bool \<Rightarrow> nat option \<Rightarrow> nat \<Rightarrow> ('x tenant_scheme, membership list) sop" where
  "get_principal_scopes now pid active_only limit offset s =
     (let sel = filter (\<lambda>m. mb_principal m = pid \<and> (active_only \<longrightarrow> active_membership now m)) (tn_members s)
      in (Inr (sql_limit limit offset sel), s))"

definition lapsed :: "string \<Rightarrow> string \<Rightarrow> string \<Rightarrow> membership \<Rightarrow> bool" where
  "lapsed now scope_id pid m \<longleftrightarrow>
     mb_scope m = scope_id \<and> mb_principal m = pid \<and> mb_lifecycle m = Active \<and>
     (case mb_expires m of None \<Rightarrow> False | Some t \<Rightarrow> t \<le> now)"

definition is_member :: "string \<Rightarrow> string \<Rightarrow> string \<Rightarrow> ('x tenant_scheme, bool) sop" where
  "is_member now scope_id pid =
     bindS (getS tn_members) (\<lambda>rows.
       if list_ex (\<lambda>m. mb_scope m = scope_id \<and> mb_principal m = pid \<and> active_membership now m) rows
       then returnS True
       else
         bindS (whenS (list_ex (lapsed now scope_id pid) rows)
           (update_members (lapsed now scope_id pid) (\<lambda>m. m\<lparr>mb_lifecycle := Archived\<rparr>))) (\<lambda>_.
           returnS False))"

section \<open>Scopes: creation and life cycle\<close>

definition insert_scope :: "v1_host \<Rightarrow> scope_row \<Rightarrow> ('x tenant_scheme, unit) sop" where
  "insert_scope h r s =
     (if list_ex (\<lambda>x. sr_id x = sr_id r) (tn_scopes s) then (Inl (v_violation h IdTaken), s)
      else if sr_owner r \<notin> set (tn_principals s)
        \<or> (case sr_parent r of None \<Rightarrow> False
           | Some p \<Rightarrow> p \<noteq> sr_id r \<and> \<not> list_ex (\<lambda>x. sr_id x = p) (tn_scopes s))
      then (Inl (v_violation h ForeignKeyMissing), s)
      else (Inr (), s\<lparr>tn_scopes := tn_scopes s @ [r]\<rparr>))"

definition update_scopes ::
  "string \<Rightarrow> (scope_row \<Rightarrow> scope_row) \<Rightarrow> ('x tenant_scheme, unit) sop" where
  "update_scopes scope_id f =
     modifyS (\<lambda>s. s\<lparr>tn_scopes := sql_update_where (\<lambda>r. sr_id r = scope_id) f (tn_scopes s)\<rparr>)"

definition create_scope ::
  "v1_host \<Rightarrow> string \<Rightarrow> string \<Rightarrow> string \<Rightarrow> string \<Rightarrow> string option \<Rightarrow> metadata \<Rightarrow> ('x tenant_scheme, scope) sop" where
  "create_scope h now name owner description parent meta =
     bindS (fresh_id h) (\<lambda>scope_id.
     let sc = \<lparr>sc_id = scope_id, sc_name = name, sc_owner = owner, sc_created = now,
               sc_description = description, sc_parent = parent, sc_entry = None,
               sc_lifecycle = Active, sc_metadata = meta\<rparr>
     in bindS (insert_scope h (row_of_scope sc)) (\<lambda>_.
        bindS (add_membership h now scope_id owner RoleOwner owner None) (\<lambda>_.
        bindS (audit_event h now
          (scope_request owner ''scope_create'' scope_id None None (Some (scope_snapshot sc)))) (\<lambda>_.
          returnS sc))))"

definition rename_scope ::
  "v1_host \<Rightarrow> string \<Rightarrow> string \<Rightarrow> string \<Rightarrow> string \<Rightarrow> ('x tenant_scheme, scope) sop" where
  "rename_scope h now scope_id new_name renamed_by =
     bindS (mutable_scope scope_id) (\<lambda>sc.
       if sc_name sc = new_name then returnS sc
       else
         bindS (update_scopes scope_id (\<lambda>r. r\<lparr>sr_name := new_name\<rparr>)) (\<lambda>_.
         bindS (audit_event h now
           (scope_request renamed_by ''scope_modify'' scope_id (Some scope_id)
             (Some (JObj [(''name'', JStr (sc_name sc))])) (Some (JObj [(''name'', JStr new_name)])))) (\<lambda>_.
           get_scope_or_raise scope_id)))"

text \<open>The three dicts \<open>update_scope\<close> collects: column changes, before and after states.\<close>

definition description_change :: "string option \<Rightarrow> scope \<Rightarrow> bool" where
  "description_change description sc \<longleftrightarrow>
     (case description of None \<Rightarrow> False | Some d \<Rightarrow> d \<noteq> sc_description sc)"

definition update_states :: "string option \<Rightarrow> metadata option \<Rightarrow> scope \<Rightarrow> json \<times> json" where
  "update_states description meta sc =
     (let d = (if description_change description sc then [the description] else []);
          m = (case meta of None \<Rightarrow> [] | Some x \<Rightarrow> [meta_merge (sc_metadata sc) x])
      in (JObj (map (\<lambda>_. (''description'', JStr (sc_description sc))) d @
                map (\<lambda>_. (''metadata'', JObj (sc_metadata sc))) m),
          JObj (map (\<lambda>x. (''description'', JStr x)) d @ map (\<lambda>x. (''metadata'', JObj x)) m)))"

definition update_scope ::
  "v1_host \<Rightarrow> string \<Rightarrow> string \<Rightarrow> string option \<Rightarrow> metadata option \<Rightarrow> string \<Rightarrow> ('x tenant_scheme, scope) sop" where
  "update_scope h now scope_id description meta updated_by =
     bindS (mutable_scope scope_id) (\<lambda>sc.
       if \<not> description_change description sc \<and> meta = None then returnS sc
       else
         let (before, after) = update_states description meta sc
         in bindS (update_scopes scope_id (\<lambda>r.
              r\<lparr>sr_description := (if description_change description sc then the description else sr_description r),
                sr_metadata := (case meta of None \<Rightarrow> sr_metadata r | Some x \<Rightarrow> meta_merge (sc_metadata sc) x)\<rparr>)) (\<lambda>_.
            bindS (audit_event h now
              (scope_request updated_by ''scope_modify'' scope_id (Some scope_id) (Some before) (Some after))) (\<lambda>_.
              get_scope_or_raise scope_id)))"

definition freeze_scope :: "v1_host \<Rightarrow> string \<Rightarrow> string \<Rightarrow> string \<Rightarrow> ('x tenant_scheme, scope) sop" where
  "freeze_scope h now scope_id frozen_by =
     bindS (get_scope_or_raise scope_id) (\<lambda>sc.
       if \<not> is_active sc then raiseS ScopeFrozen
       else
         bindS (update_scopes scope_id (\<lambda>r. r\<lparr>sr_lifecycle := scope_lifecycle_frozen\<rparr>)) (\<lambda>_.
         bindS (audit_event h now
           (scope_request frozen_by ''lifecycle_change'' scope_id (Some scope_id)
             (Some (JObj [(''lifecycle'', JStr ''ACTIVE'')]))
             (Some (JObj [(''lifecycle'', JStr scope_lifecycle_frozen)])))) (\<lambda>_.
           get_scope_or_raise scope_id)))"

text \<open>The transaction of \<open>archive_scope\<close>: memberships, projections, then the scope itself.\<close>

definition archive_rows :: "string \<Rightarrow> 'x tenant_scheme \<Rightarrow> 'x tenant_scheme" where
  "archive_rows scope_id s =
     s\<lparr>tn_members := sql_update_where (\<lambda>m. mb_scope m = scope_id \<and> mb_lifecycle m = Active)
                      (\<lambda>m. m\<lparr>mb_lifecycle := Archived\<rparr>) (tn_members s),
       tn_projections := sql_update_where (\<lambda>p. pj_scope p = scope_id \<and> pj_lifecycle p = Active)
                      (\<lambda>p. p\<lparr>pj_lifecycle := Archived\<rparr>) (tn_projections s),
       tn_scopes := sql_update_where (\<lambda>r. sr_id r = scope_id)
                      (\<lambda>r. r\<lparr>sr_lifecycle := lifecycle_name Archived\<rparr>) (tn_scopes s)\<rparr>"

definition archive_scope :: "v1_host \<Rightarrow> string \<Rightarrow> string \<Rightarrow> string \<Rightarrow> ('x tenant_scheme, scope) sop" where
  "archive_scope h now scope_id archived_by =
     bindS (get_scope_or_raise scope_id) (\<lambda>sc.
       if is_archived sc then raiseS ScopeFrozen
       else
         bindS (modifyS (archive_rows scope_id)) (\<lambda>_.
         bindS (audit_event h now
           (scope_request archived_by ''scope_dissolve'' scope_id (Some scope_id)
             (Some (JObj [(''lifecycle'', JStr (lifecycle_to_db (sc_lifecycle sc)))]))
             (Some (JObj [(''lifecycle'', JStr (lifecycle_name Archived))])))) (\<lambda>_.
           get_scope_or_raise scope_id)))"

section \<open>Hierarchy\<close>

definition child_rows :: "string \<Rightarrow> nat \<Rightarrow> scope_row list \<Rightarrow> scope_row list" where
  "child_rows scope_id limit rows =
     take limit (filter (\<lambda>r. sr_parent r = Some scope_id \<and> sr_lifecycle r \<noteq> ''ARCHIVED'') rows)"

definition scope_children :: "string \<Rightarrow> nat \<Rightarrow> ('x tenant_scheme, scope list) sop" where
  "scope_children scope_id limit s = (mapE scope_from_row (child_rows scope_id limit (tn_scopes s)), s)"

text \<open>
  The loop of \<open>ancestors\<close>: \<open>current\<close> is the scope to visit next, \<open>seen\<close> protects against
  cycles. It ends because every round sees one more of the stored scopes.
\<close>

function ancestors_loop ::
  "scope_row list \<Rightarrow> string \<Rightarrow> string option \<Rightarrow> string list \<Rightarrow> scope list \<Rightarrow> v1_error + scope list" where
  "ancestors_loop rows self current seen result =
     (case current of
        None \<Rightarrow> Inr result
      | Some cur \<Rightarrow>
          if cur = [] \<or> cur \<in> set seen then Inr result
          else case find (\<lambda>r. sr_id r = cur) rows of
                 None \<Rightarrow> Inr result
               | Some r \<Rightarrow>
                   (case scope_from_row r of
                      Inl e \<Rightarrow> Inl e
                    | Inr sc \<Rightarrow>
                        ancestors_loop rows self (sc_parent sc) (cur # seen)
                          (if cur \<noteq> self then result @ [sc] else result)))"
  by pat_completeness auto

termination
proof (relation "measure (\<lambda>(rows, self, current, seen, result). unseen sr_id seen rows)", goal_cases)
  case (2 rows self current seen result cur r sc)
  then have "r \<in> set rows" "sr_id r = cur" by (auto dest: find_SomeD)
  with 2 show ?case using unseen_less [of r rows sr_id seen] by simp
qed simp

declare ancestors_loop.simps [simp del]

definition ancestors :: "string \<Rightarrow> ('x tenant_scheme, scope list) sop" where
  "ancestors scope_id s = (ancestors_loop (tn_scopes s) scope_id (Some scope_id) [] [], s)"

text \<open>The inner loop of \<open>descendants\<close> over the children of one scope; it stops at \<open>max_total\<close>.\<close>

fun visit_kids ::
  "nat \<Rightarrow> nat \<Rightarrow> scope list \<Rightarrow> scope list \<times> string list \<times> (string \<times> nat) list \<Rightarrow>
   scope list \<times> string list \<times> (string \<times> nat) list" where
  "visit_kids max_total depth [] (result, seen, queue) = (result, seen, queue)"
| "visit_kids max_total depth (kid # kids) (result, seen, queue) =
     (if sc_id kid \<in> set seen then visit_kids max_total depth kids (result, seen, queue)
      else if length (result @ [kid]) \<ge> max_total then (result @ [kid], sc_id kid # seen, queue)
      else visit_kids max_total depth kids (result @ [kid], sc_id kid # seen, queue @ [(sc_id kid, depth + 1)]))"

lemma visit_kids_measure:
  assumes "\<forall>k \<in> set kids. \<exists>r \<in> set rows. sr_id r = sc_id k"
    and "visit_kids max_total depth kids (result, seen, queue) = (result', seen', queue')"
  shows "unseen sr_id seen' rows + length queue' \<le> unseen sr_id seen rows + length queue"
  using assms
proof (induction kids arbitrary: result seen queue)
  case (Cons k kids)
  show ?case
  proof (cases "sc_id k \<in> set seen")
    case True
    with Cons show ?thesis by simp
  next
    case False
    from Cons.prems(1) obtain r where "r \<in> set rows" "sr_id r = sc_id k" by auto
    with False have less: "unseen sr_id (sc_id k # seen) rows < unseen sr_id seen rows"
      using unseen_less [of r rows sr_id seen] by simp
    show ?thesis
    proof (cases "length (result @ [k]) \<ge> max_total")
      case True
      with False Cons.prems(2) have "seen' = sc_id k # seen" "queue' = queue" by auto
      with less show ?thesis by simp
    next
      case room: False
      with False Cons.prems have "unseen sr_id seen' rows + length queue' \<le>
          unseen sr_id (sc_id k # seen) rows + length (queue @ [(sc_id k, depth + 1)])"
        by (intro Cons.IH) auto
      with less show ?thesis by simp
    qed
  qed
qed simp

lemma kids_rows:
  assumes "mapE scope_from_row (child_rows x n rows) = Inr kids"
  shows "\<forall>k \<in> set kids. \<exists>r \<in> set rows. sr_id r = sc_id k"
proof -
  have "\<forall>k \<in> set kids. \<exists>r \<in> set qs. sr_id r = sc_id k"
    if "list_all2 (\<lambda>r k. scope_from_row r = Inr k) qs kids" for qs
    using that by (induction rule: list_all2_induct) (auto simp: scope_from_row_def result_simps)
  from this [of "child_rows x n rows"] assms have "\<forall>k \<in> set kids. \<exists>r \<in> set (child_rows x n rows). sr_id r = sc_id k"
    by (simp add: mapE_Inr_iff)
  moreover have "set (child_rows x n rows) \<subseteq> set rows" by (auto simp: child_rows_def dest: in_set_takeD)
  ultimately show ?thesis by blast
qed

function descendants_loop ::
  "scope_row list \<Rightarrow> nat \<Rightarrow> nat \<Rightarrow> (string \<times> nat) list \<Rightarrow> string list \<Rightarrow> scope list \<Rightarrow> v1_error + scope list" where
  "descendants_loop rows max_depth max_total [] seen result = Inr result"
| "descendants_loop rows max_depth max_total ((cur, depth) # queue) seen result =
     (if length result \<ge> max_total then Inr result
      else if depth \<ge> max_depth then descendants_loop rows max_depth max_total queue seen result
      else case mapE scope_from_row (child_rows cur 1000 rows) of
             Inl e \<Rightarrow> Inl e
           | Inr kids \<Rightarrow>
               (let v = visit_kids max_total depth kids (result, seen, queue)
                in descendants_loop rows max_depth max_total (snd (snd v)) (fst (snd v)) (fst v)))"
  by pat_completeness auto

termination
proof (relation "measure (\<lambda>(rows, d, t, queue, seen, result). unseen sr_id seen rows + length queue)", goal_cases)
  case (3 rows max_depth max_total cur depth queue seen result kids v)
  have "visit_kids max_total depth kids (result, seen, queue) = (fst v, fst (snd v), snd (snd v))"
    unfolding 3(4) by (simp only: prod.collapse)
  from visit_kids_measure [OF kids_rows [OF 3(3)] this] show ?case by (simp only: in_measure prod.case) simp
qed simp_all

declare descendants_loop.simps [simp del]

definition descendants :: "string \<Rightarrow> nat \<Rightarrow> nat \<Rightarrow> ('x tenant_scheme, scope list) sop" where
  "descendants scope_id max_depth max_total s =
     (descendants_loop (tn_scopes s) max_depth max_total [(scope_id, 0)] [scope_id] [], s)"

definition scope_path :: "string \<Rightarrow> ('x tenant_scheme, scope list) sop" where
  "scope_path scope_id =
     bindS (ancestors scope_id) (\<lambda>up.
     bindS (get_scope scope_id) (\<lambda>x.
       returnS (rev up @ (case x of None \<Rightarrow> [] | Some sc \<Rightarrow> [sc]))))"

end
