(* ===== verification/V1_Visibility.thy ===== *)
theory V1_Visibility
  imports V1_Tenancy
begin

text \<open>
  \<open>legacy/v1/scoped/tenancy/projection.py\<close> and \<open>engine.py\<close>: the explicit sharing of objects into
  scopes, and the resolution of what a principal can see through ownership, memberships,
  projections and the scope hierarchy. Recursive queries are computed level by level.
\<close>

section \<open>Projections\<close>

definition projection_request ::
  "string \<Rightarrow> string \<Rightarrow> string \<Rightarrow> string \<Rightarrow> json option \<Rightarrow> json option \<Rightarrow> trace_request" where
  "projection_request actor action object_id scope_id before after =
     \<lparr>rq_actor = actor, rq_action = action, rq_ttype = ''ScopeProjection'', rq_tid = object_id,
      rq_scope = Some scope_id, rq_before = before, rq_after = after, rq_meta = [], rq_parent = None\<rparr>"

definition same_projection :: "string \<Rightarrow> string \<Rightarrow> projection \<Rightarrow> bool" where
  "same_projection scope_id object_id p \<longleftrightarrow> pj_scope p = scope_id \<and> pj_object p = object_id"

definition insert_projection :: "v1_host \<Rightarrow> projection \<Rightarrow> ('x tenant_scheme, unit) sop" where
  "insert_projection h p s =
     (if list_ex (\<lambda>x. pj_id x = pj_id p) (tn_projections s) then (Inl (v_violation h IdTaken), s)
      else if list_ex (same_projection (pj_scope p) (pj_object p)) (tn_projections s)
      then (Inl (v_violation h KeyTaken), s)
      else if \<not> list_ex (\<lambda>r. sr_id r = pj_scope p) (tn_scopes s) \<or> \<not> list_ex (\<lambda>b. ob_id b = pj_object p) (tn_objects s)
      then (Inl (v_violation h ForeignKeyMissing), s)
      else (Inr (), s\<lparr>tn_projections := tn_projections s @ [p]\<rparr>))"

definition update_projections ::
  "(projection \<Rightarrow> bool) \<Rightarrow> (projection \<Rightarrow> projection) \<Rightarrow> ('x tenant_scheme, unit) sop" where
  "update_projections P f = modifyS (\<lambda>s. s\<lparr>tn_projections := sql_update_where P f (tn_projections s)\<rparr>)"

definition new_projection ::
  "string \<Rightarrow> string \<Rightarrow> string \<Rightarrow> string \<Rightarrow> string \<Rightarrow> access_level \<Rightarrow> projection" where
  "new_projection pid scope_id object_id now projected_by access =
     \<lparr>pj_id = pid, pj_scope = scope_id, pj_object = object_id, pj_at = now, pj_by = projected_by,
      pj_access = access, pj_lifecycle = Active\<rparr>"

definition write_projection ::
  "v1_host \<Rightarrow> string \<Rightarrow> string \<Rightarrow> string \<Rightarrow> string \<Rightarrow> access_level \<Rightarrow> projection option \<Rightarrow>
   ('x tenant_scheme, projection) sop" where
  "write_projection h now scope_id object_id projected_by access existing =
     (case existing of
        Some old \<Rightarrow>
          bindS (update_projections (same_projection scope_id object_id)
            (\<lambda>p. p\<lparr>pj_lifecycle := Active, pj_access := access, pj_at := now, pj_by := projected_by\<rparr>))
            (\<lambda>_. returnS (new_projection (pj_id old) scope_id object_id now projected_by access))
      | None \<Rightarrow>
          bindS (fresh_id h) (\<lambda>pid.
          bindS (insert_projection h (new_projection pid scope_id object_id now projected_by access)) (\<lambda>_.
            returnS (new_projection pid scope_id object_id now projected_by access))))"

text \<open>The checks of \<open>project\<close>: an existing, mutable scope and an object owned by the caller.\<close>

definition project_guard :: "string \<Rightarrow> string \<Rightarrow> string \<Rightarrow> 'x tenant_scheme \<Rightarrow> v1_error + unit" where
  "project_guard scope_id object_id projected_by s =
     (case find (\<lambda>r. sr_id r = scope_id) (tn_scopes s) of
        None \<Rightarrow> Inl ScopeNotFound
      | Some r \<Rightarrow>
          bindE (scope_from_row r) (\<lambda>sc.
            if is_frozen sc \<or> is_archived sc then Inl ScopeFrozen
            else case find (\<lambda>b. ob_id b = object_id) (tn_objects s) of
                   None \<Rightarrow> Inl AccessDenied
                 | Some b \<Rightarrow> if ob_owner b \<noteq> projected_by then Inl AccessDenied else Inr ()))"

definition project ::
  "v1_host \<Rightarrow> string \<Rightarrow> string \<Rightarrow> string \<Rightarrow> string \<Rightarrow> access_level \<Rightarrow> ('x tenant_scheme, projection) sop" where
  "project h now scope_id object_id projected_by access =
     bindS (\<lambda>s. (project_guard scope_id object_id projected_by s, s)) (\<lambda>_.
     bindS (getS (\<lambda>s. find (same_projection scope_id object_id) (tn_projections s))) (\<lambda>existing.
       if (case existing of None \<Rightarrow> False | Some p \<Rightarrow> pj_lifecycle p = Active)
       then returnS (the existing)
       else
         bindS (write_projection h now scope_id object_id projected_by access existing) (\<lambda>proj.
         bindS (audit_event h now
           (projection_request projected_by ''projection'' object_id scope_id None
             (Some (projection_snapshot proj)))) (\<lambda>_.
           returnS proj))))"

definition active_projection :: "string \<Rightarrow> string \<Rightarrow> projection \<Rightarrow> bool" where
  "active_projection scope_id object_id p \<longleftrightarrow>
     pj_scope p = scope_id \<and> pj_object p = object_id \<and> pj_lifecycle p = Active"

definition revoke_projection ::
  "v1_host \<Rightarrow> string \<Rightarrow> string \<Rightarrow> string \<Rightarrow> string \<Rightarrow> ('x tenant_scheme, bool) sop" where
  "revoke_projection h now scope_id object_id revoked_by =
     bindS (getS (\<lambda>s. find (active_projection scope_id object_id) (tn_projections s))) (\<lambda>row.
       case row of
         None \<Rightarrow> returnS False
       | Some p \<Rightarrow>
           bindS (update_projections (active_projection scope_id object_id) (\<lambda>p. p\<lparr>pj_lifecycle := Archived\<rparr>)) (\<lambda>_.
           bindS (audit_event h now
             (projection_request revoked_by ''revoke'' object_id scope_id (Some (projection_snapshot p)) None)) (\<lambda>_.
             returnS True)))"

definition get_projections ::
  "string \<Rightarrow> bool \<Rightarrow> nat option \<Rightarrow> nat \<Rightarrow> ('x tenant_scheme, projection list) sop" where
  "get_projections scope_id active_only limit offset s =
     (let sel = filter (\<lambda>p. pj_scope p = scope_id \<and> (active_only \<longrightarrow> pj_lifecycle p = Active)) (tn_projections s)
      in (Inr (sql_limit limit offset (sql_order False pj_at sel)), s))"

definition get_object_projections :: "string \<Rightarrow> bool \<Rightarrow> ('x tenant_scheme, projection list) sop" where
  "get_object_projections object_id active_only s =
     (Inr (filter (\<lambda>p. pj_object p = object_id \<and> (active_only \<longrightarrow> pj_lifecycle p = Active)) (tn_projections s)), s)"

definition is_projected :: "string \<Rightarrow> string \<Rightarrow> ('x tenant_scheme, bool) sop" where
  "is_projected scope_id object_id s = (Inr (list_ex (active_projection scope_id object_id) (tn_projections s)), s)"

section \<open>Recursive queries\<close>

text \<open>
  The levels of a recursive common table expression with \<open>UNION ALL\<close>: the base rows, and
  \<open>n\<close> times the rows the recursive part derives from the level before.
\<close>

fun cte_levels :: "nat \<Rightarrow> ('a \<Rightarrow> 'a list) \<Rightarrow> 'a list \<Rightarrow> 'a list list" where
  "cte_levels 0 step base = [base]"
| "cte_levels (Suc n) step base = base # cte_levels n step (concat (map step base))"

definition parent_rows :: "scope_row list \<Rightarrow> scope_row \<Rightarrow> scope_row list" where
  "parent_rows rows r = filter (\<lambda>q. sr_parent r = Some (sr_id q)) rows"

definition ancestor_scope_ids :: "string \<Rightarrow> nat \<Rightarrow> 'x tenant_scheme \<Rightarrow> string list" where
  "ancestor_scope_ids scope_id max_depth s =
     map sr_id (concat (tl (cte_levels max_depth (parent_rows (tn_scopes s))
       (filter (\<lambda>r. sr_id r = scope_id) (tn_scopes s)))))"

definition live_child_rows :: "scope_row list \<Rightarrow> scope_row \<Rightarrow> scope_row list" where
  "live_child_rows rows r =
     filter (\<lambda>q. sr_parent q = Some (sr_id r) \<and> sr_lifecycle q \<noteq> lifecycle_name Archived) rows"

definition descendant_scope_ids :: "string \<Rightarrow> nat \<Rightarrow> 'x tenant_scheme \<Rightarrow> string list" where
  "descendant_scope_ids scope_id max_depth s =
     map sr_id (concat (tl (cte_levels max_depth (live_child_rows (tn_scopes s))
       (filter (\<lambda>r. sr_id r = scope_id) (tn_scopes s)))))"

text \<open>The scopes a principal is a member of, then their parents, up to the depth limit.\<close>

definition member_scopes :: "string \<Rightarrow> string \<Rightarrow> 'x tenant_scheme \<Rightarrow> string list" where
  "member_scopes now pid s =
     map mb_scope (filter (\<lambda>m. mb_principal m = pid \<and> active_membership now m) (tn_members s))"

definition parent_ids :: "scope_row list \<Rightarrow> string \<Rightarrow> string list" where
  "parent_ids rows scope_id =
     concat (map (\<lambda>r. case sr_parent r of None \<Rightarrow> [] | Some p \<Rightarrow> [p]) (filter (\<lambda>r. sr_id r = scope_id) rows))"

definition cte_depth :: nat where
  "cte_depth = 20"

definition scope_levels :: "string \<Rightarrow> string \<Rightarrow> 'x tenant_scheme \<Rightarrow> string list list" where
  "scope_levels now pid s = cte_levels cte_depth (parent_ids (tn_scopes s)) (member_scopes now pid s)"

section \<open>Visibility\<close>

definition owned_object_ids :: "string \<Rightarrow> string option \<Rightarrow> 'x tenant_scheme \<Rightarrow> string list" where
  "owned_object_ids pid object_type s =
     map ob_id (filter (\<lambda>b. ob_owner b = pid \<and> ob_lifecycle b \<noteq> Archived
       \<and> (object_type = None \<or> object_type = Some [] \<or> object_type = Some (ob_type b))) (tn_objects s))"

definition projected_object_ids :: "string \<Rightarrow> string \<Rightarrow> string option \<Rightarrow> 'x tenant_scheme \<Rightarrow> string list" where
  "projected_object_ids now pid object_type s =
     (let visible = concat (scope_levels now pid s)
      in remdups (map pj_object (filter (\<lambda>p. pj_lifecycle p = Active \<and> pj_scope p \<in> set visible
           \<and> (object_type = None \<or> object_type = Some []
              \<or> list_ex (\<lambda>b. ob_id b = pj_object p \<and> object_type = Some (ob_type b)) (tn_objects s)))
           (tn_projections s))))"

text \<open>The merging loop; the limit is tested after each element.\<close>

fun merge_ids :: "nat \<Rightarrow> string list \<Rightarrow> string list \<Rightarrow> string list" where
  "merge_ids limit [] result = result"
| "merge_ids limit (x # xs) result =
     (let result' = (if x \<in> set result then result else result @ [x])
      in if length result' \<ge> limit then result' else merge_ids limit xs result')"

definition visible_object_ids :: "string \<Rightarrow> string \<Rightarrow> string option \<Rightarrow> nat \<Rightarrow> 'x tenant_scheme \<Rightarrow> string list" where
  "visible_object_ids now pid object_type limit s =
     merge_ids limit (owned_object_ids pid object_type s @ projected_object_ids now pid object_type s) []"

definition visible_via_hierarchy :: "string \<Rightarrow> string \<Rightarrow> string \<Rightarrow> 'x tenant_scheme \<Rightarrow> bool" where
  "visible_via_hierarchy now pid object_id s =
     (let ancestors = concat (tl (scope_levels now pid s))
      in list_ex (\<lambda>p. pj_object p = object_id \<and> pj_lifecycle p = Active \<and> pj_scope p \<in> set ancestors) (tn_projections s))"

text \<open>The join of projections and memberships on their scope.\<close>

definition direct_projections :: "string \<Rightarrow> string \<Rightarrow> string \<Rightarrow> 'x tenant_scheme \<Rightarrow> projection list" where
  "direct_projections now pid object_id s =
     concat (map (\<lambda>p.
       map (\<lambda>_. p) (filter (\<lambda>m. mb_scope m = pj_scope p \<and> mb_principal m = pid \<and> active_membership now m) (tn_members s)))
       (filter (\<lambda>p. pj_object p = object_id \<and> pj_lifecycle p = Active) (tn_projections s)))"

definition can_see :: "string \<Rightarrow> string \<Rightarrow> string \<Rightarrow> 'x tenant_scheme \<Rightarrow> bool" where
  "can_see now pid object_id s =
     (if list_ex (\<lambda>b. ob_id b = object_id \<and> ob_owner b = pid \<and> ob_lifecycle b \<noteq> Archived) (tn_objects s) then True
      else if direct_projections now pid object_id s \<noteq> [] then True
      else visible_via_hierarchy now pid object_id s)"

fun access_rank :: "access_level \<Rightarrow> nat" where
  "access_rank ReadAccess = 0"
| "access_rank WriteAccess = 1"
| "access_rank AdminAccess = 2"

text \<open>Python's \<open>max\<close> with a key: the first of the greatest.\<close>

fun max_access :: "access_level \<Rightarrow> access_level list \<Rightarrow> access_level" where
  "max_access best [] = best"
| "max_access best (a # as) = max_access (if access_rank a > access_rank best then a else best) as"

definition get_access_level :: "string \<Rightarrow> string \<Rightarrow> string \<Rightarrow> 'x tenant_scheme \<Rightarrow> access_level option" where
  "get_access_level now pid object_id s =
     (if list_ex (\<lambda>b. ob_id b = object_id \<and> ob_owner b = pid) (tn_objects s) then Some AdminAccess
      else case map pj_access (direct_projections now pid object_id s) of
             [] \<Rightarrow> None
           | a # as \<Rightarrow> Some (max_access a as))"

definition scope_member_ids :: "string \<Rightarrow> string \<Rightarrow> 'x tenant_scheme \<Rightarrow> string list" where
  "scope_member_ids now scope_id s =
     remdups (map mb_principal (filter (\<lambda>m. mb_scope m = scope_id \<and> active_membership now m) (tn_members s)))"

section \<open>Facts about recursive queries\<close>

text \<open>One step of the hierarchy, and what the levels reach.\<close>

definition parent_of :: "scope_row list \<Rightarrow> string \<Rightarrow> string \<Rightarrow> bool" where
  "parent_of rows x y \<longleftrightarrow> (\<exists>r \<in> set rows. sr_id r = x \<and> sr_parent r = Some y)"

lemma parent_ids_parent_of: "y \<in> set (parent_ids rows x) \<longleftrightarrow> parent_of rows x y"
  by (auto simp: parent_ids_def parent_of_def split: option.splits)

lemma relpowp_first: "(R ^^ Suc k) x y \<longleftrightarrow> (\<exists>z. R x z \<and> (R ^^ k) z y)"
  by (metis relpowp_Suc_D2 relpowp_Suc_I2)

lemma cte_levels_reach:
  assumes "\<And>x y. y \<in> set (step x) \<longleftrightarrow> R x y"
  shows "y \<in> set (concat (cte_levels n step base)) \<longleftrightarrow> (\<exists>k \<le> n. \<exists>x \<in> set base. (R ^^ k) x y)"
proof (induction n arbitrary: base)
  case (Suc n)
  have "(\<exists>k \<le> n. \<exists>x \<in> set (concat (map step base)). (R ^^ k) x y) \<longleftrightarrow> (\<exists>k \<le> n. \<exists>x \<in> set base. (R ^^ Suc k) x y)"
  proof -
    have "z \<in> set (concat (map step base)) \<longleftrightarrow> (\<exists>x \<in> set base. R x z)" for z by (auto simp: assms)
    then show ?thesis unfolding relpowp_first by blast
  qed
  moreover have "(\<exists>k \<le> Suc n. \<exists>x \<in> set base. (R ^^ k) x y) \<longleftrightarrow>
      y \<in> set base \<or> (\<exists>k \<le> n. \<exists>x \<in> set base. (R ^^ Suc k) x y)"
    by (metis (no_types, lifting) Suc_le_mono le_zero_eq not0_implies_Suc relpowp_0_E relpowp_0_I zero_le)
  ultimately show ?case using Suc by auto
qed auto

lemma cte_levels_base: "cte_levels n step base = base # tl (cte_levels n step base)"
  by (cases n) auto

lemma scope_levels_reach:
  "x \<in> set (concat (scope_levels now pid s)) \<longleftrightarrow>
   (\<exists>k \<le> cte_depth. \<exists>m \<in> set (tn_members s). mb_principal m = pid \<and> active_membership now m \<and>
     (parent_of (tn_scopes s) ^^ k) (mb_scope m) x)"
  unfolding scope_levels_def cte_levels_reach [OF parent_ids_parent_of] by (auto simp: member_scopes_def)

lemma scope_levels_split:
  "set (concat (scope_levels now pid s)) =
   set (member_scopes now pid s) \<union> set (concat (tl (scope_levels now pid s)))"
  unfolding scope_levels_def by (subst cte_levels_base) simp

section \<open>Facts about merging\<close>

lemma merge_ids_set: "length result + length xs \<le> limit \<Longrightarrow> set (merge_ids limit xs result) = set result \<union> set xs"
proof (induction xs arbitrary: result)
  case (Cons x xs)
  then show ?case by (cases xs) (auto simp: Let_def insert_absorb)
qed simp

lemma merge_ids_distinct: "distinct result \<Longrightarrow> distinct (merge_ids limit xs result)"
  by (induction xs arbitrary: result) (auto simp: Let_def)

lemma merge_ids_subset: "set (merge_ids limit xs result) \<subseteq> set result \<union> set xs"
proof (induction xs arbitrary: result)
  case (Cons x xs)
  from Cons.IH [of result] Cons.IH [of "result @ [x]"] show ?case by (auto simp: Let_def)
qed simp

lemma member_scopes_iff:
  "x \<in> set (member_scopes now pid s) \<longleftrightarrow>
   (\<exists>m \<in> set (tn_members s). mb_scope m = x \<and> mb_principal m = pid \<and> active_membership now m)"
  by (auto simp: member_scopes_def)

lemma direct_projections_member:
  "direct_projections now pid object_id s \<noteq> [] \<longleftrightarrow>
   (\<exists>p \<in> set (tn_projections s). pj_object p = object_id \<and> pj_lifecycle p = Active \<and>
     pj_scope p \<in> set (member_scopes now pid s))"
proof -
  have "direct_projections now pid object_id s \<noteq> [] \<longleftrightarrow>
      (\<exists>p \<in> set (tn_projections s). (pj_object p = object_id \<and> pj_lifecycle p = Active) \<and>
        (\<exists>m \<in> set (tn_members s). mb_scope m = pj_scope p \<and> mb_principal m = pid \<and> active_membership now m))"
    unfolding direct_projections_def by (auto simp: filter_empty_conv)
  then show ?thesis by (simp only: member_scopes_iff conj_assoc)
qed

text \<open>Who sees what, without queries: ownership, or a chain of at most \<open>cte_depth\<close> parents.\<close>

definition reaches :: "string \<Rightarrow> string \<Rightarrow> string \<Rightarrow> 'x tenant_scheme \<Rightarrow> bool" where
  "reaches now pid object_id s \<longleftrightarrow>
     (\<exists>m \<in> set (tn_members s). \<exists>p \<in> set (tn_projections s). \<exists>k \<le> cte_depth.
        mb_principal m = pid \<and> active_membership now m \<and>
        pj_object p = object_id \<and> pj_lifecycle p = Active \<and>
        (parent_of (tn_scopes s) ^^ k) (mb_scope m) (pj_scope p))"

definition owns :: "string \<Rightarrow> string \<Rightarrow> 'x tenant_scheme \<Rightarrow> bool" where
  "owns pid object_id s \<longleftrightarrow>
     (\<exists>b \<in> set (tn_objects s). ob_id b = object_id \<and> ob_owner b = pid \<and> ob_lifecycle b \<noteq> Archived)"

lemma projected_reaches: "object_id \<in> set (projected_object_ids now pid None s) \<longleftrightarrow> reaches now pid object_id s"
  unfolding projected_object_ids_def Let_def reaches_def
  by (auto simp: scope_levels_reach simp del: set_concat)

lemma can_see_iff: "can_see now pid object_id s \<longleftrightarrow> owns pid object_id s \<or> reaches now pid object_id s"
proof -
  have "reaches now pid object_id s \<longleftrightarrow>
      direct_projections now pid object_id s \<noteq> [] \<or> visible_via_hierarchy now pid object_id s"
    unfolding projected_reaches [symmetric] projected_object_ids_def Let_def scope_levels_split
      direct_projections_member visible_via_hierarchy_def
    by (auto simp: list_ex_iff simp del: set_concat)
  then show ?thesis by (auto simp: can_see_def owns_def list_ex_iff)
qed

lemma owned_iff: "object_id \<in> set (owned_object_ids pid None s) \<longleftrightarrow> owns pid object_id s"
  by (auto simp: owned_object_ids_def owns_def)

end
