(* ===== verification/V1_Tenancy_Facts.thy ===== *)
theory V1_Tenancy_Facts
  imports V1_Visibility
begin

text \<open>
  The invariants of the tenancy service: the tables' keys and references, and the audit trail.
  Every operation keeps both, whether it returns or raises; a service is a step system whose
  reachable states satisfy them.
\<close>

section \<open>What recording leaves alone\<close>

text \<open>The tables of the service, as one value.\<close>

definition tables :: "'x tenant_scheme \<Rightarrow>
    bool \<times> string list \<times> object_row list \<times> scope_row list \<times> membership list \<times> projection list" where
  "tables s = (tn_audited s, tn_principals s, tn_objects s, tn_scopes s, tn_members s, tn_projections s)"

lemma tables_more: "v1_state.more s = v1_state.more t \<Longrightarrow> tables s = tables t"
  by (cases s, cases t) (simp add: tables_def)

lemma audit_event_tables: "tables (snd (audit_event h now rq s)) = tables s"
  by (auto simp: audit_event_def bindS_def whenS_def split: prod.splits sum.splits
      dest!: record_entry_more tables_more)

lemma fresh_id_tables: "tables (snd (fresh_id h s)) = tables s"
  by (simp add: fresh_id_def tables_def)

lemma mapS_tables: "(\<And>x s. tables (snd (f x s)) = tables s) \<Longrightarrow> tables (snd (mapS f xs s)) = tables s"
proof (induction xs arbitrary: s)
  case (Cons x xs)
  have "tables (snd (bindS (mapS f xs) (\<lambda>ys. returnS (y # ys)) t)) = tables t" for y t
    using Cons.IH [OF Cons.prems, of t] by (cases "mapS f xs t") (auto simp: bindS_def split: sum.splits)
  with Cons.prems [of x s] show ?case by (cases "f x s") (auto simp: bindS_def [of "f x"] split: sum.splits)
qed simp

section \<open>The audit trail is kept\<close>

lemma audit_ok_tables [simp]:
  fixes s :: "'x tenant_scheme"
  shows "audit_ok h (tn_members_update f1 s) = audit_ok h s" "audit_ok h (tn_scopes_update f2 s) = audit_ok h s"
    "audit_ok h (tn_projections_update f3 s) = audit_ok h s"
  by (simp_all add: audit_ok_def head_ok_def)

lemma quiet_peers: "peers_ok h (\<lambda>_ rows. rows)"
  by (simp add: peers_ok_def extends_refl)

lemma keeps_audit_event [keeps_intros]: "keeps (audit_ok h) (audit_event h now rq)"
  unfolding audit_event_def by (intro keeps_intros quiet_peers)

lemma reads_get_scope: "reads (get_scope x)"
  by (simp add: reads_def get_scope_def split: option.splits)

lemma keeps_get_scope [keeps_intros]: "keeps I (get_scope x)"
  by (rule keeps_reads [OF reads_get_scope])

lemma keeps_get_scope_or_raise [keeps_intros]: "keeps I (get_scope_or_raise x)"
  unfolding get_scope_or_raise_def by (intro keeps_intros)

lemma keeps_mutable_scope [keeps_intros]: "keeps I (mutable_scope x)"
  unfolding mutable_scope_def by (intro keeps_intros)

text \<open>
  An invariant that recording, fresh ids, the inserts and the updates keep is kept by every
  operation: each is a sequence of those.
\<close>

locale tenancy_invariant =
  fixes h :: v1_host
    and I :: "'x tenant_scheme \<Rightarrow> bool"
  assumes inv_record: "keeps I (audit_event h now rq)"
    and inv_fresh: "keeps I (fresh_id h)"
    and inv_insert_member: "keeps I (insert_membership h m)"
    and inv_insert_scope: "keeps I (insert_scope h (row_of_scope sc))"
    and inv_insert_projection: "keeps I (insert_projection h p)"
    and inv_update_member: "(\<And>m. f (m::membership) = m\<lparr>mb_lifecycle := mb_lifecycle (f m), mb_granted_at := mb_granted_at (f m),
        mb_granted_by := mb_granted_by (f m), mb_expires := mb_expires (f m)\<rparr>) \<Longrightarrow> keeps I (update_members P f)"
    and inv_update_projection: "(\<And>p. g (p::projection) = p\<lparr>pj_lifecycle := pj_lifecycle (g p), pj_access := pj_access (g p),
        pj_at := pj_at (g p), pj_by := pj_by (g p)\<rparr>) \<Longrightarrow> keeps I (update_projections Q g)"
    and inv_update_scope: "(\<And>r. u (r::scope_row) = r\<lparr>sr_name := sr_name (u r), sr_description := sr_description (u r),
        sr_metadata := sr_metadata (u r), sr_lifecycle := sr_lifecycle (u r)\<rparr>) \<Longrightarrow>
        (\<And>r. sr_lifecycle (u r) = sr_lifecycle r \<or> sr_lifecycle (u r) \<in> lifecycle_to_db ` UNIV) \<Longrightarrow>
        keeps I (update_scopes x u)"
    and inv_archive: "keeps I (modifyS (archive_rows x))"
begin

lemma keeps_add_membership: "keeps I (add_membership h now x who role by exp)"
  unfolding add_membership_def write_membership_def
  by (intro keeps_intros inv_record inv_fresh inv_insert_member inv_update_member) auto

lemma keeps_add_member: "keeps I (add_member h now x who role by exp)"
  unfolding add_member_def by (intro keeps_intros keeps_add_membership)

lemma keeps_add_members: "keeps I (add_members h now x members by)"
  unfolding add_members_def by (intro keeps_intros keeps_add_membership)

lemma keeps_revoke_member: "keeps I (revoke_member h now x who by role)"
  unfolding revoke_member_def by (intro keeps_intros inv_record inv_update_member) auto

lemma keeps_is_member: "keeps I (is_member now x who)"
  unfolding is_member_def by (intro keeps_intros inv_update_member) auto

lemma keeps_create_scope: "keeps I (create_scope h now name owner desc parent meta)"
  unfolding create_scope_def
  by (intro keeps_intros inv_record inv_fresh inv_insert_scope keeps_add_membership)

lemma keeps_rename_scope: "keeps I (rename_scope h now x name by)"
  unfolding rename_scope_def by (intro keeps_intros inv_record inv_update_scope) auto

lemma keeps_update_scope: "keeps I (update_scope h now x desc meta by)"
  unfolding update_scope_def by (intro keeps_intros inv_record inv_update_scope) auto

lemma keeps_freeze_scope: "keeps I (freeze_scope h now x by)"
proof -
  have "scope_lifecycle_frozen \<in> lifecycle_to_db ` UNIV"
    by (rule image_eqI [of _ _ Deprecated]) (simp_all add: lifecycle_to_db_def)
  then show ?thesis
    unfolding freeze_scope_def by (intro keeps_intros inv_record inv_update_scope) auto
qed

lemma keeps_archive_scope: "keeps I (archive_scope h now x by)"
  unfolding archive_scope_def by (intro keeps_intros inv_record inv_archive)

lemma keeps_project: "keeps I (project h now x obj by access)"
  unfolding project_def write_projection_def
  by (intro keeps_intros inv_record inv_fresh inv_insert_projection inv_update_projection)
    (auto simp: keeps_def)

lemma keeps_revoke_projection: "keeps I (revoke_projection h now x obj by)"
  unfolding revoke_projection_def by (intro keeps_intros inv_record inv_update_projection) auto

end

interpretation audit_inv_tenancy: tenancy_invariant h "audit_ok h" for h
proof
  show "keeps (audit_ok h) (insert_membership h m)" for m
    by (auto simp: keeps_def insert_membership_def)
  show "keeps (audit_ok h) (insert_scope h (row_of_scope sc))" for sc
    by (auto simp: keeps_def insert_scope_def)
  show "keeps (audit_ok h) (insert_projection h p)" for p
    by (auto simp: keeps_def insert_projection_def)
  show "keeps (audit_ok h) (modifyS (archive_rows x))" for x
    by (simp add: keeps_def archive_rows_def audit_ok_def head_ok_def)
qed (auto intro!: keeps_intros simp: update_members_def update_projections_def update_scopes_def)

section \<open>Keys and references\<close>

definition member_key :: "membership \<Rightarrow> string \<times> string \<times> scope_role" where
  "member_key m = (mb_scope m, mb_principal m, mb_role m)"

definition projection_key :: "projection \<Rightarrow> string \<times> string" where
  "projection_key p = (pj_scope p, pj_object p)"

definition tenant_ok :: "'x tenant_scheme \<Rightarrow> bool" where
  "tenant_ok s \<longleftrightarrow>
     distinct (map sr_id (tn_scopes s)) \<and> distinct (map member_key (tn_members s)) \<and>
     distinct (map projection_key (tn_projections s)) \<and>
     (\<forall>r \<in> set (tn_scopes s). sr_owner r \<in> set (tn_principals s) \<and> sr_lifecycle r \<in> lifecycle_to_db ` UNIV) \<and>
     (\<forall>m \<in> set (tn_members s). mb_scope m \<in> sr_id ` set (tn_scopes s) \<and> mb_principal m \<in> set (tn_principals s)) \<and>
     (\<forall>p \<in> set (tn_projections s). pj_scope p \<in> sr_id ` set (tn_scopes s) \<and> pj_object p \<in> ob_id ` set (tn_objects s))"

lemma tenant_ok_cong: "tables s = tables t \<Longrightarrow> tenant_ok s = tenant_ok t"
  by (simp add: tables_def tenant_ok_def)

lemma tenant_okI:
  assumes "tenant_ok s" "tn_principals t = tn_principals s" "tn_objects t = tn_objects s"
    and "map sr_id (tn_scopes t) = map sr_id (tn_scopes s)"
    and "map member_key (tn_members t) = map member_key (tn_members s)"
    and "map projection_key (tn_projections t) = map projection_key (tn_projections s)"
    and "map sr_owner (tn_scopes t) = map sr_owner (tn_scopes s)"
    and "\<forall>r \<in> set (tn_scopes t). sr_lifecycle r \<in> lifecycle_to_db ` UNIV"
  shows "tenant_ok t"
proof -
  have ids: "sr_id ` set (tn_scopes t) = sr_id ` set (tn_scopes s)"
    "sr_owner ` set (tn_scopes t) = sr_owner ` set (tn_scopes s)"
    "member_key ` set (tn_members t) = member_key ` set (tn_members s)"
    "projection_key ` set (tn_projections t) = projection_key ` set (tn_projections s)"
    using assms(4-7) by (metis set_map)+
  have m: "\<exists>n \<in> set (tn_members s). mb_scope m = mb_scope n \<and> mb_principal m = mb_principal n"
    if "m \<in> set (tn_members t)" for m
  proof -
    from that ids(3) have "member_key m \<in> member_key ` set (tn_members s)" by blast
    then show ?thesis by (auto simp: member_key_def)
  qed
  have p: "\<exists>q \<in> set (tn_projections s). pj_scope p = pj_scope q \<and> pj_object p = pj_object q"
    if "p \<in> set (tn_projections t)" for p
  proof -
    from that ids(4) have "projection_key p \<in> projection_key ` set (tn_projections s)" by blast
    then show ?thesis by (auto simp: projection_key_def)
  qed
  have o: "sr_owner r \<in> set (tn_principals s)" if "r \<in> set (tn_scopes t)" for r
  proof -
    from that ids(2) have "sr_owner r \<in> sr_owner ` set (tn_scopes s)" by blast
    with assms(1) show ?thesis by (auto simp: tenant_ok_def)
  qed
  show ?thesis
    unfolding tenant_ok_def assms(2-6) ids
  proof (intro conjI ballI)
    fix m assume "m \<in> set (tn_members t)"
    with m assms(1) show "mb_scope m \<in> sr_id ` set (tn_scopes s)" "mb_principal m \<in> set (tn_principals s)"
      unfolding tenant_ok_def by metis+
  next
    fix q assume "q \<in> set (tn_projections t)"
    with p assms(1) show "pj_scope q \<in> sr_id ` set (tn_scopes s)" "pj_object q \<in> ob_id ` set (tn_objects s)"
      unfolding tenant_ok_def by metis+
  qed (use assms(1,8) o in \<open>auto simp: tenant_ok_def\<close>)
qed

lemma update_keys: "(\<And>r. key (f r) = key r) \<Longrightarrow> map key (sql_update_where P f rs) = map key rs"
  by (simp add: sql_update_where_def)

lemma tenant_ok_lifecycles: "tenant_ok s \<Longrightarrow> \<forall>r \<in> set (tn_scopes s). sr_lifecycle r \<in> lifecycle_to_db ` UNIV"
  by (simp add: tenant_ok_def)

lemma archived_in_db: "lifecycle_name Archived \<in> lifecycle_to_db ` UNIV"
  by (rule image_eqI [of _ _ Archived]) (simp_all add: lifecycle_to_db_def)

lemma archived_text_in_db [simp]: "''ARCHIVED'' \<in> range lifecycle_to_db"
  using archived_in_db by simp

interpretation tables_tenancy: tenancy_invariant h tenant_ok for h
proof
  show "keeps tenant_ok (audit_event h now rq)" for now rq
    using tenant_ok_cong [OF audit_event_tables] by (auto simp: keeps_def)
  show "keeps tenant_ok (fresh_id h)"
    using tenant_ok_cong [OF fresh_id_tables] by (auto simp: keeps_def)
  show "keeps tenant_ok (insert_membership h m)" for m
    by (auto simp: keeps_def insert_membership_def tenant_ok_def list_ex_iff same_grant_def member_key_def image_iff) metis
  show "keeps tenant_ok (insert_scope h (row_of_scope sc))" for sc
    by (auto simp: keeps_def insert_scope_def row_of_scope_def tenant_ok_def list_ex_iff split: option.splits)
  show "keeps tenant_ok (insert_projection h p)" for p
    by (auto simp: keeps_def insert_projection_def tenant_ok_def list_ex_iff same_projection_def projection_key_def image_iff) metis+
next
  fix f :: "membership \<Rightarrow> membership" and P
  assume f: "\<And>m. f m = m\<lparr>mb_lifecycle := mb_lifecycle (f m), mb_granted_at := mb_granted_at (f m),
      mb_granted_by := mb_granted_by (f m), mb_expires := mb_expires (f m)\<rparr>"
  have k: "member_key (f m) = member_key m" for m by (subst f) (simp add: member_key_def)
  show "keeps tenant_ok (update_members P f)"
    unfolding update_members_def
    by (intro keeps_modify, frule tenant_ok_lifecycles, elim tenant_okI) (simp_all add: update_keys k)
next
  fix g :: "projection \<Rightarrow> projection" and Q
  assume g: "\<And>p. g p = p\<lparr>pj_lifecycle := pj_lifecycle (g p), pj_access := pj_access (g p),
      pj_at := pj_at (g p), pj_by := pj_by (g p)\<rparr>"
  have k: "projection_key (g p) = projection_key p" for p by (subst g) (simp add: projection_key_def)
  show "keeps tenant_ok (update_projections Q g)"
    unfolding update_projections_def
    by (intro keeps_modify, frule tenant_ok_lifecycles, elim tenant_okI) (simp_all add: update_keys k)
next
  fix u :: "scope_row \<Rightarrow> scope_row" and x
  assume u: "\<And>r. u r = r\<lparr>sr_name := sr_name (u r), sr_description := sr_description (u r),
        sr_metadata := sr_metadata (u r), sr_lifecycle := sr_lifecycle (u r)\<rparr>"
    and l: "\<And>r. sr_lifecycle (u r) = sr_lifecycle r \<or> sr_lifecycle (u r) \<in> lifecycle_to_db ` UNIV"
  have k: "sr_id (u r) = sr_id r" "sr_owner (u r) = sr_owner r" for r by (subst u, simp)+
  have k2: "sr_lifecycle (u r) \<in> lifecycle_to_db ` UNIV" if "sr_lifecycle r \<in> lifecycle_to_db ` UNIV" for r
    using l [of r] that by auto
  show "keeps tenant_ok (update_scopes x u)"
    unfolding update_scopes_def
    by (intro keeps_modify, frule tenant_ok_lifecycles, elim tenant_okI)
      (auto simp: update_keys k sql_update_where_set split: if_splits intro!: k2 simp del: image_iff)
next
  fix x
  show "keeps tenant_ok (modifyS (archive_rows x))"
    unfolding archive_rows_def
    by (intro keeps_modify, frule tenant_ok_lifecycles, elim tenant_okI)
      (auto simp: update_keys sql_update_where_set member_key_def projection_key_def archived_in_db split: if_splits)
qed

section \<open>The service as a step system\<close>

text \<open>One call of the service, with any arguments, returned or raised.\<close>

inductive tenant_step :: "v1_host \<Rightarrow> 'x tenant_scheme \<Rightarrow> 'x tenant_scheme \<Rightarrow> bool" for h where
  do_create: "tenant_step h s (snd (create_scope h now name owner desc parent meta s))"
| do_rename: "tenant_step h s (snd (rename_scope h now x name actor s))"
| do_update: "tenant_step h s (snd (update_scope h now x desc_opt meta_opt actor s))"
| do_freeze: "tenant_step h s (snd (freeze_scope h now x actor s))"
| do_archive: "tenant_step h s (snd (archive_scope h now x actor s))"
| do_add: "tenant_step h s (snd (add_member h now x who role actor expires s))"
| do_add_many: "tenant_step h s (snd (add_members h now x members actor s))"
| do_revoke: "tenant_step h s (snd (revoke_member h now x who actor role_opt s))"
| do_is_member: "tenant_step h s (snd (is_member now x who s))"
| do_project: "tenant_step h s (snd (project h now x obj actor access s))"
| do_unproject: "tenant_step h s (snd (revoke_projection h now x obj actor s))"

inductive tenant_run :: "v1_host \<Rightarrow> 'x tenant_scheme \<Rightarrow> 'x tenant_scheme \<Rightarrow> bool" for h s0 where
  run_start: "tenant_run h s0 s0"
| run_step: "tenant_run h s0 s \<Longrightarrow> tenant_step h s s' \<Longrightarrow> tenant_run h s0 s'"

context tenancy_invariant
begin

lemma keeps_step: "tenant_step h s s' \<Longrightarrow> I s \<Longrightarrow> I s'"
  by (induction rule: tenant_step.induct)
    (rule keeps_snd, rule keeps_create_scope keeps_rename_scope keeps_update_scope keeps_freeze_scope
      keeps_archive_scope keeps_add_member keeps_add_members keeps_revoke_member keeps_is_member keeps_project
      keeps_revoke_projection, assumption)+

end

lemma tenant_step_ok:
  "tenant_step h s s' \<Longrightarrow> audit_ok h s \<and> tenant_ok s \<Longrightarrow> audit_ok h s' \<and> tenant_ok s'"
  using audit_inv_tenancy.keeps_step tables_tenancy.keeps_step by blast

lemma tenant_run_ok: "tenant_run h s0 s \<Longrightarrow> audit_ok h s0 \<Longrightarrow> tenant_ok s0 \<Longrightarrow> audit_ok h s \<and> tenant_ok s"
  by (induction rule: tenant_run.induct) (auto dest: tenant_step_ok)

section \<open>Guards\<close>

lemma get_scope_or_raise_Inr:
  "get_scope_or_raise x s = (Inr sc, s') \<longleftrightarrow>
   s' = s \<and> (\<exists>r. find (\<lambda>r. sr_id r = x) (tn_scopes s) = Some r \<and> scope_from_row r = Inr sc)"
  by (cases "find (\<lambda>r. sr_id r = x) (tn_scopes s)")
    (auto simp: get_scope_or_raise_def get_scope_def bindS_Inr_iff result_simps split: option.splits)

lemma frozen_mutable_scope:
  assumes "get_scope x s = (Inr (Some sc), s)" "sc_lifecycle sc \<in> {Deprecated, Archived}"
  shows "mutable_scope x s = (Inl ScopeFrozen, s)"
  using assms by (auto simp: mutable_scope_def get_scope_or_raise_def bindS_def require_mutable_def is_frozen_def is_archived_def)

lemma raised_bind: "m s = (Inl e, s) \<Longrightarrow> bindS m f s = (Inl e, s)"
  by (simp add: bindS_def)

section \<open>Archiving\<close>

lemma find_update_where:
  assumes "\<And>r. key (f r) = key r"
  shows "find (\<lambda>r. key r = x) (sql_update_where (\<lambda>r. key r = x) f rows) = map_option f (find (\<lambda>r. key r = x) rows)"
  using assms by (induction rows) (auto simp: sql_update_where_def)

lemma audit_event_fields:
  assumes "audit_event h now rq s = (r, s')"
  shows "tn_members s' = tn_members s" "tn_scopes s' = tn_scopes s" "tn_projections s' = tn_projections s"
    "tn_objects s' = tn_objects s" "tn_principals s' = tn_principals s"
  using audit_event_tables [of h now rq s] assms by (simp_all add: tables_def)

lemma archive_scope_Inr:
  assumes "archive_scope h now x actor s = (Inr sc, s')"
  shows "sc_id sc = x \<and> sc_lifecycle sc = Archived \<and>
    tn_members s' = tn_members (archive_rows x s) \<and> tn_scopes s' = tn_scopes (archive_rows x s) \<and>
    tn_projections s' = tn_projections (archive_rows x s)"
proof -
  from assms obtain sc0 s1 where old: "get_scope_or_raise x s = (Inr sc0, s)"
    and ev: "\<exists>rq. audit_event h now rq (archive_rows x s) = (Inr (), s1)"
    and new: "get_scope_or_raise x s1 = (Inr sc, s')"
    by (auto simp: archive_scope_def bindS_Inr_iff get_scope_or_raise_Inr split: if_splits)
  then obtain rq where ev: "audit_event h now rq (archive_rows x s) = (Inr (), s1)" by blast
  note f = audit_event_fields [OF ev]
  from new obtain r where s1: "s' = s1" and r: "find (\<lambda>r. sr_id r = x) (tn_scopes s1) = Some r"
    and sc: "scope_from_row r = Inr sc" by (auto simp: get_scope_or_raise_Inr)
  from r f(2) obtain q where "find (\<lambda>r. sr_id r = x) (tn_scopes s) = Some q"
    and "r = q\<lparr>sr_lifecycle := lifecycle_name Archived\<rparr>"
    by (auto simp: archive_rows_def find_update_where [of sr_id])
  with sc have "sc_id sc = x" "sc_lifecycle sc = Archived"
    by (auto simp: scope_from_row_def result_simps lifecycle_from_db_def scope_lifecycle_frozen_def dest: find_SomeD split: if_splits)
  with f s1 show ?thesis by simp
qed

lemma archived_scope_rows:
  assumes "archive_scope h now x actor s = (Inr sc, s')"
  shows "(\<forall>m \<in> set (tn_members s'). mb_scope m = x \<longrightarrow> mb_lifecycle m \<noteq> Active) \<and>
    (\<forall>p \<in> set (tn_projections s'). pj_scope p = x \<longrightarrow> pj_lifecycle p \<noteq> Active) \<and>
    (\<forall>r \<in> set (tn_scopes s'). sr_id r = x \<longrightarrow> sr_lifecycle r = ''ARCHIVED'')"
  using archive_scope_Inr [OF assms] by (auto simp: archive_rows_def sql_update_where_def)

section \<open>Revocation\<close>

lemma audit_events_fields:
  assumes "mapS (\<lambda>m. audit_event h now (rq m)) ms s = (r, s')"
  shows "tn_members s' = tn_members s" "tn_scopes s' = tn_scopes s"
proof -
  have "tables (snd (mapS (\<lambda>m. audit_event h now (rq m)) ms s)) = tables s"
    by (rule mapS_tables) (rule audit_event_tables)
  with assms show "tn_members s' = tn_members s" "tn_scopes s' = tn_scopes s" by (simp_all add: tables_def)
qed

lemma mutable_scope_state: "mutable_scope x s = (r, s') \<Longrightarrow> s' = s"
proof -
  assume m: "mutable_scope x s = (r, s')"
  obtain r0 where "get_scope x s = (r0, s)"
    using reads_get_scope [of x] unfolding reads_def by (metis prod.collapse)
  with m show ?thesis
    by (auto simp: mutable_scope_def get_scope_or_raise_def bindS_def split: sum.splits option.splits)
qed

lemma revoke_member_Inr:
  assumes "revoke_member h now x who actor role s = (Inr n, s')"
  shows "n = length (filter (revocable x who role) (tn_members s)) \<and>
    tn_members s' = sql_update_where (revocable x who role) (\<lambda>m. m\<lparr>mb_lifecycle := Archived\<rparr>) (tn_members s)"
proof -
  from assms obtain sc where m: "mutable_scope x s = (Inr sc, s)"
    unfolding revoke_member_def by (auto simp: bindS_Inr_iff dest: mutable_scope_state)
  show ?thesis
  proof (cases "filter (revocable x who role) (tn_members s) = []")
    case True
    then have "sql_update_where (revocable x who role) (\<lambda>m. m\<lparr>mb_lifecycle := Archived\<rparr>) (tn_members s) = tn_members s"
      by (simp add: sql_update_where_def filter_empty_conv map_idI)
    with True assms m show ?thesis by (simp add: revoke_member_def bindS_def [of "mutable_scope x"])
  next
    case False
    with assms m show ?thesis
      by (auto simp: revoke_member_def bindS_def [of "mutable_scope x"] bindS_Inr_iff update_members_def
          dest!: audit_events_fields(1))
  qed
qed

section \<open>Hierarchy\<close>

text \<open>
  What the loop of \<open>ancestors\<close> adds to its result: distinct stored scopes other than the start,
  each the parent of the one before.
\<close>

definition chain_up :: "scope list \<Rightarrow> bool" where
  "chain_up xs \<longleftrightarrow> (\<forall>i. Suc i < length xs \<longrightarrow> sc_parent (xs ! i) = Some (sc_id (xs ! Suc i)))"

lemma chain_up_snoc: "chain_up xs \<Longrightarrow> (xs \<noteq> [] \<longrightarrow> sc_parent (last xs) = Some (sc_id y)) \<Longrightarrow> chain_up (xs @ [y])"
  by (auto simp: chain_up_def nth_append last_conv_nth less_Suc_eq) (metis One_nat_def diff_Suc_1)

lemma ancestors_loop_spec:
  assumes "ancestors_loop rows self current seen result = Inr res"
    and "distinct (map sc_id result)" "sc_id ` set result \<subseteq> set seen - {self}" "chain_up result"
    and "result \<noteq> [] \<longrightarrow> sc_parent (last result) = current"
    and "self \<in> set seen \<or> result = [] \<and> current = Some self"
    and "\<forall>c. current = Some c \<longrightarrow> (parent_of rows)\<^sup>*\<^sup>* self c"
    and "\<forall>sc \<in> set result. (parent_of rows)\<^sup>*\<^sup>* self (sc_id sc)"
  shows "distinct (map sc_id res) \<and> self \<notin> sc_id ` set res \<and> chain_up res \<and>
    (\<forall>sc \<in> set res. (parent_of rows)\<^sup>*\<^sup>* self (sc_id sc))"
  using assms
proof (induction rows self current seen result rule: ancestors_loop.induct)
  case (1 rows self current seen result)
  show ?case
  proof (cases current)
    case None
    with 1(2-) show ?thesis by (auto simp: ancestors_loop.simps)
  next
    case (Some cur)
    show ?thesis
    proof (cases "cur = [] \<or> cur \<in> set seen \<or> find (\<lambda>r. sr_id r = cur) rows = None")
      case True
      with Some 1(2-) show ?thesis by (auto simp: ancestors_loop.simps split: if_splits)
    next
      case False
      then obtain r where r: "find (\<lambda>r. sr_id r = cur) rows = Some r" "cur \<noteq> []" "cur \<notin> set seen" by auto
      then have rr: "r \<in> set rows" "sr_id r = cur" by (auto dest: find_SomeD)
      from 1(2) Some r obtain sc where sc: "scope_from_row r = Inr sc"
        by (cases "scope_from_row r") (auto simp: ancestors_loop.simps)
      then have id: "sc_id sc = cur" "sc_parent sc = sr_parent r" using rr(2)
        by (auto simp: scope_from_row_def result_simps)
      let ?result = "if cur \<noteq> self then result @ [sc] else result"
      have run: "ancestors_loop rows self (sc_parent sc) (cur # seen) ?result = Inr res"
        using 1(2) Some r sc by (simp add: ancestors_loop.simps [of rows self "Some cur"])
      have up: "(parent_of rows)\<^sup>*\<^sup>* self cur" using 1(8) Some by simp
      have step: "\<forall>c. sc_parent sc = Some c \<longrightarrow> (parent_of rows)\<^sup>*\<^sup>* self c"
      proof (intro allI impI)
        fix c assume "sc_parent sc = Some c"
        then have "parent_of rows cur c" using rr id by (auto simp: parent_of_def)
        with up show "(parent_of rows)\<^sup>*\<^sup>* self c" by (rule rtranclp.rtrancl_into_rtrancl)
      qed
      have first: "cur = self \<Longrightarrow> result = []" using 1(7) r(3) by auto
      show ?thesis
        by (rule "1.IH" [OF Some _ r(1) sc run])
          (use 1(3-9) Some r id up step first in \<open>auto intro!: chain_up_snoc\<close>)
    qed
  qed
qed

lemma visit_kids_spec:
  assumes "visit_kids t depth kids (result, seen, queue) = (result', seen', queue')"
    and "distinct (map sc_id result)" "sc_id ` set result \<subseteq> set seen - {self}" "self \<in> set seen" "length result < t"
  shows "distinct (map sc_id result') \<and> sc_id ` set result' \<subseteq> set seen' - {self} \<and> self \<in> set seen' \<and> length result' \<le> t"
  using assms
proof (induction kids arbitrary: result seen queue)
  case (Cons k kids)
  show ?case
  proof (cases "sc_id k \<in> set seen")
    case True
    with Cons show ?thesis by simp
  next
    case new: False
    have D: "distinct (map sc_id (result @ [k]))" using new Cons.prems(2,3) by auto
    have S: "sc_id ` set (result @ [k]) \<subseteq> set (sc_id k # seen) - {self}" using new Cons.prems(3,4) by auto
    show ?thesis
    proof (cases "length (result @ [k]) \<ge> t")
      case True
      with new Cons.prems(1) have "result' = result @ [k]" "seen' = sc_id k # seen" by auto
      with D S Cons.prems(4,5) show ?thesis by simp
    next
      case False
      with new Cons.prems(1) have "visit_kids t depth kids (result @ [k], sc_id k # seen, queue @ [(sc_id k, depth + 1)])
          = (result', seen', queue')" by simp
      then show ?thesis by (rule Cons.IH) (use D S Cons.prems(4) False in simp_all)
    qed
  qed
qed simp

lemma descendants_loop_spec:
  assumes "descendants_loop rows d t queue seen result = Inr res"
    and "distinct (map sc_id result)" "sc_id ` set result \<subseteq> set seen - {self}" "self \<in> set seen" "length result \<le> t"
  shows "distinct (map sc_id res) \<and> self \<notin> sc_id ` set res \<and> length res \<le> t"
  using assms
proof (induction rows d t queue seen result rule: descendants_loop.induct)
  case (1 rows d t seen result)
  then show ?case by (auto simp: descendants_loop.simps)
next
  case (2 rows d t cur depth queue seen result)
  show ?case
  proof (cases "length result \<ge> t")
    case True
    with 2(3-) show ?thesis by (auto simp: descendants_loop.simps)
  next
    case room: False
    show ?thesis
    proof (cases "depth \<ge> d")
      case True
      with 2(3) room have "descendants_loop rows d t queue seen result = Inr res" by (simp add: descendants_loop.simps)
      from 2(1) [OF room True this 2(4-7)] show ?thesis .
    next
      case deep: False
      with 2(3) room obtain kids where kids: "mapE scope_from_row (child_rows cur 1000 rows) = Inr kids"
        by (cases "mapE scope_from_row (child_rows cur 1000 rows)") (auto simp: descendants_loop.simps)
      obtain result' seen' queue' where v: "visit_kids t depth kids (result, seen, queue) = (result', seen', queue')"
        by (cases "visit_kids t depth kids (result, seen, queue)") auto
      have run: "descendants_loop rows d t queue' seen' result' = Inr res"
        using 2(3) room deep kids v by (simp add: descendants_loop.simps)
      have "length result < t" using room by simp
      from visit_kids_spec [OF v 2(4,5,6) this] have
        "distinct (map sc_id result')" "sc_id ` set result' \<subseteq> set seen' - {self}" "self \<in> set seen'" "length result' \<le> t"
        by auto
      with 2(2) [OF room deep kids refl, unfolded v fst_conv snd_conv] run show ?thesis by blast
    qed
  qed
qed

section \<open>Invariants of what lies beyond the trail\<close>

text \<open>Recording and fresh identifiers change nothing but the trail and the counter.\<close>

lemma audit_event_more: "v1_state.more (snd (audit_event h now rq s)) = v1_state.more s"
  by (auto simp: audit_event_def bindS_def whenS_def split: prod.splits sum.splits dest!: record_entry_more)

lemma keeps_event_more: "(\<And>s t. v1_state.more s = v1_state.more t \<Longrightarrow> I s = I t) \<Longrightarrow> keeps I (audit_event h now rq)"
  unfolding keeps_def using audit_event_more by blast

lemma keeps_fresh_more: "(\<And>s t. v1_state.more s = v1_state.more t \<Longrightarrow> I s = I t) \<Longrightarrow> keeps I (fresh_id h)"
  unfolding keeps_def by (metis (no_types, lifting) fresh_id_def snd_conv v1_state.select_convs(5) v1_state.surjective v1_state.update_convs(1))

end
