(* ===== verification/V1_Audit_Properties.thy ===== *)
theory V1_Audit_Properties
  imports V1_Audit_Facts
begin

text \<open>
  The properties of the v1 audit trail: the writer keeps the chain under concurrent writers,
  retries until it wins the race, batches are atomic, verification accepts what writers wrote
  whatever its chunk size, what it detects and what it cannot, and what retention leaves.
\<close>

section \<open>A sample host\<close>

text \<open>
  The digest of the sample is the digested text itself, the ids are numbered, and the
  driver's messages are SQLite's.
\<close>

definition v1_host0 :: v1_host where
  "v1_host0 = \<lparr>v_hash = (\<lambda>s. s), v_id = (\<lambda>n. ''t'' @ show_nat n),
     v_violation = (\<lambda>v. case v of
         SeqTaken \<Rightarrow> DbError Sqlite3Integrity ''UNIQUE constraint failed: audit_trail.sequence''
       | IdTaken \<Rightarrow> DbError Sqlite3Integrity ''UNIQUE constraint failed: audit_trail.id''
       | KeyTaken \<Rightarrow> DbError Sqlite3Integrity ''UNIQUE constraint failed''
       | ForeignKeyMissing \<Rightarrow> DbError Sqlite3Integrity ''FOREIGN KEY constraint failed'')\<rparr>"

definition empty_v1 :: v1_state where
  "empty_v1 = \<lparr>w_next = 0, w_trail = [], w_seq = 0, w_last = ''''\<rparr>"

definition request0 :: "string \<Rightarrow> string \<Rightarrow> trace_request" where
  "request0 actor tid = \<lparr>rq_actor = actor, rq_action = ''create'', rq_ttype = ''Document'', rq_tid = tid,
     rq_scope = None, rq_before = None, rq_after = Some (JObj [(''state'', JStr ''draft'')]),
     rq_meta = [], rq_parent = None\<rparr>"

text \<open>A peer that commits one entry during the first attempt of a record, and then is quiet.\<close>

definition peer0 :: "nat \<Rightarrow> trace list \<Rightarrow> trace list" where
  "peer0 k rows =
     (if k = 0 then rows @ [make_entry v1_host0 ''2024'' ''peer'' (next_seq rows) (head_hash rows) (request0 ''bob'' ''doc9'')]
      else rows)"

lemma peer0_ok: "peers_ok v1_host0 peer0"
  unfolding peers_ok_def peer0_def by (auto intro: extends_snoc extends_refl)

lemma empty_v1_ok: "audit_ok h empty_v1"
  by (simp add: audit_ok_def head_ok_def empty_v1_def trail_ok_def next_seq_def head_hash_def)

lemma v1_id_inj: "inj (v_id v1_host0)"
  by (rule injI) (simp add: v1_host0_def show_nat_inj)

definition recorded0 :: "(v1_error + trace) \<times> v1_state" where
  "recorded0 = record_entry v1_host0 (\<lambda>_. ''2025'') peer0 (request0 ''ann'' ''doc1'') empty_v1"

definition state1 :: v1_state where
  "state1 = snd recorded0"

lemma state1_reached: "\<exists>e. recorded0 = (Inr e, state1)"
proof -
  have "is_ok (fst recorded0)" by code_simp
  then show ?thesis by (auto simp: state1_def is_ok_iff prod_eq_iff)
qed

lemma state1_ok: "audit_ok v1_host0 state1"
  using state1_reached record_entry_spec [OF peer0_ok empty_v1_ok] unfolding recorded0_def by blast

section \<open>Writing\<close>

text \<open>
  C7. Writers never fork the chain: whatever other well-behaved processes commit between the
  reseeding and the insert of each attempt, a call of \<open>record\<close> leaves a trail with consecutive
  sequence numbers, correct digests and links, and when it returns an entry that entry is the
  new last one, describes the request, and nothing before it changed.
\<close>

theorem record_keeps_chain:
  assumes "peers_ok h env" "audit_ok h s" "record_entry h clock env rq s = (r, s')"
  shows "audit_ok h s' \<and> extends h (w_trail s) (w_trail s') \<and>
    (case r of
       Inl x \<Rightarrow> True
     | Inr e \<Rightarrow> (\<exists>rows. w_trail s' = rows @ [e] \<and> extends h (w_trail s) rows) \<and>
         tr_actor e = rq_actor rq \<and> tr_action e = rq_action rq \<and> tr_tid e = rq_tid rq \<and>
         tr_before e = rq_before rq \<and> tr_after e = rq_after rq \<and> tr_hash e = entry_hash h e)"
  using record_entry_spec [OF assms] by (auto split: sum.splits)

theorem record_keeps_chain_witness:
  "audit_ok v1_host0 state1 \<and> extends v1_host0 [] (w_trail state1)"
proof -
  obtain e where r: "recorded0 = (Inr e, state1)" using state1_reached by blast
  from record_keeps_chain [OF peer0_ok empty_v1_ok r [unfolded recorded0_def]]
  show ?thesis by (simp add: empty_v1_def)
qed

text \<open>
  C8. The bounded retry suffices: when there is one of the four attempts during which the other
  processes are quiet, \<open>record\<close> returns an entry, provided the driver reports a taken sequence
  number as the code expects and identifiers are unique.
\<close>

theorem record_succeeds:
  assumes "peers_ok h env" "peers_ids_ok h env" "inj (v_id h)"
    and "is_sequence_collision (v_violation h SeqTaken)"
    and "k \<le> max_sequence_retries" "\<forall>rows. env k rows = rows"
    and "audit_ok h s" "ids_fresh h s" "rq_parent rq = None"
  shows "\<exists>e s'. record_entry h clock env rq s = (Inr e, s')"
  unfolding record_entry_def
  by (rule record_loop_succeeds [OF assms(1,2,9,3,4) _ assms(6) _ _ assms(7,8)])
    (use assms(5) in \<open>simp_all add: sorted_wrt_upt del: upt_Suc\<close>)

theorem record_succeeds_witness:
  "\<exists>e s'. record_entry v1_host0 (\<lambda>_. ''2025'') peer0 (request0 ''ann'' ''doc1'') empty_v1 = (Inr e, s')"
proof (rule record_succeeds [OF peer0_ok _ v1_id_inj])
  show "peers_ids_ok v1_host0 peer0"
    by (simp add: peers_ids_ok_def peer0_def v1_host0_def)
  show "is_sequence_collision (v_violation v1_host0 SeqTaken)" by code_simp
  show "1 \<le> max_sequence_retries" by (simp add: max_sequence_retries_def)
  show "\<forall>rows. peer0 1 rows = rows" by (simp add: peer0_def)
  show "audit_ok v1_host0 empty_v1" by (rule empty_v1_ok)
  show "ids_fresh v1_host0 empty_v1" by (simp add: ids_fresh_def empty_v1_def)
  show "rq_parent (request0 ''ann'' ''doc1'') = None" by (simp add: request0_def)
qed

text \<open>
  \<open>record_batch\<close> is all or nothing: either one entry per request is appended, in order, on
  top of what other processes committed, or nothing of the batch is; the chain is kept in both
  cases.
\<close>

theorem batch_atomic:
  assumes "peers_ok h env" "audit_ok h s" "record_batch h clock env rqs s = (r, s')"
  shows "audit_ok h s' \<and>
    (\<exists>rows. extends h (w_trail s) rows \<and>
      (case r of
         Inr es \<Rightarrow> w_trail s' = rows @ es \<and> length es = length rqs
       | Inl x \<Rightarrow> w_trail s' = rows))"
  by (rule batch_loop_spec [OF assms(1,2) assms(3) [unfolded record_batch_def]])

definition batch0 :: "(v1_error + trace list) \<times> v1_state" where
  "batch0 = record_batch v1_host0 (\<lambda>_. ''2026'') peer0
     [request0 ''ann'' ''doc2'', (request0 ''ann'' ''doc3'')\<lparr>rq_action := ''no_such_action''\<rparr>] state1"

theorem batch_atomic_witness:
  "fst batch0 = Inl V1ValueError \<and> (\<exists>rows. extends v1_host0 (w_trail state1) rows \<and> w_trail (snd batch0) = rows)"
proof -
  have f: "fst batch0 = Inl V1ValueError" by code_simp
  then have b: "batch0 = (Inl V1ValueError, snd batch0)" by (simp add: prod_eq_iff)
  from batch_atomic [OF peer0_ok state1_ok b [unfolded batch0_def]] f show ?thesis
    unfolding batch0_def by simp
qed

section \<open>Verification\<close>

text \<open>
  The life of a trail: records, batches and compactions, with new writers opened on the table
  at any time.
\<close>

inductive trail_run :: "v1_host \<Rightarrow> v1_state \<Rightarrow> bool" for h where
  run_empty: "trail_run h empty_v1"
| run_record: "trail_run h s \<Longrightarrow> peers_ok h env \<Longrightarrow> record_entry h clock env rq s = (r, s') \<Longrightarrow> trail_run h s'"
| run_batch: "trail_run h s \<Longrightarrow> peers_ok h env \<Longrightarrow> record_batch h clock env rqs s = (rs, s') \<Longrightarrow> trail_run h s'"
| run_compact: "trail_run h s \<Longrightarrow> compact_trail q b a s = (n, s') \<Longrightarrow> trail_run h s'"
| run_open: "trail_run h s \<Longrightarrow> trail_run h (open_writer s)"

lemma open_writer_ok: "audit_ok h s \<Longrightarrow> audit_ok h (open_writer s)"
  by (auto simp: audit_ok_def open_writer_def head_ok_def next_seq_def seed_chain_ok)

lemma trail_run_ok: "trail_run h s \<Longrightarrow> audit_ok h s"
proof (induction rule: trail_run.induct)
  case (run_record s env clock rq r s')
  with record_entry_spec show ?case by blast
next
  case (run_batch s env clock rqs rs s')
  from batch_loop_spec [OF run_batch(2,4) run_batch(3) [unfolded record_batch_def]] show ?case by blast
next
  case (run_compact s q b a n s')
  then show ?case by (blast intro: compact_trail_ok)
qed (auto intro: empty_v1_ok open_writer_ok)

text \<open>
  C9. What writers wrote verifies: after any run of records, batches and compactions, over any
  range and with any chunk size, \<open>verify_chain\<close> answers valid and has examined every entry of the
  range.
\<close>

theorem written_trail_verifies:
  assumes "trail_run h s" "0 < chunk_size"
  shows "cv_valid (verify_chain h from_seq to_seq chunk_size (w_trail s)) \<and>
    cv_checked (verify_chain h from_seq to_seq chunk_size (w_trail s)) =
      length (filter (in_range from_seq to_seq) (w_trail s))"
proof -
  have ok: "trail_ok h (w_trail s)" using trail_run_ok [OF assms(1)] by (simp add: audit_ok_def)
  have dist: "distinct (map tr_seq (w_trail s))" using trail_ok_seqs [OF ok] by simp
  from verify_chain_valid [OF assms(2) dist, of h from_seq to_seq] trail_ok_intact [OF ok, of from_seq to_seq]
  show ?thesis by (simp add: ranged_def)
qed

lemma state1_run: "trail_run v1_host0 state1"
  using state1_reached run_record [OF run_empty peer0_ok] unfolding recorded0_def by blast

theorem written_trail_verifies_witness:
  "cv_valid (verify_chain v1_host0 1 None 1 (w_trail state1)) \<and> length (w_trail state1) = 2"
proof -
  have "length (w_trail state1) = 2" by code_simp
  with written_trail_verifies [OF state1_run, of 1 1 None] show ?thesis by simp
qed

text \<open>
  C10. Verification is exact and chunking is invisible: on a table with distinct sequence numbers
  the answer is valid exactly when, over the whole range at once, every digest is right and
  every entry after the first names its predecessor's digest.
\<close>

theorem verify_chain_exact:
  assumes "0 < chunk_size" "distinct (map tr_seq rows)"
  shows "(cv_valid (verify_chain h from_seq to_seq chunk_size rows) \<longleftrightarrow>
      intact h None (sort_key tr_seq (filter (in_range from_seq to_seq) rows))) \<and>
    verify_chain h from_seq to_seq chunk_size rows = verify_chain h from_seq to_seq 1 rows"
proof
  show "cv_valid (verify_chain h from_seq to_seq chunk_size rows) \<longleftrightarrow>
      intact h None (sort_key tr_seq (filter (in_range from_seq to_seq) rows))"
    using verify_chain_valid(1) [OF assms] unfolding ranged_def .
  show "verify_chain h from_seq to_seq chunk_size rows = verify_chain h from_seq to_seq 1 rows"
    unfolding verify_chain_def verify_loop_pass [OF assms] verify_loop_pass [OF zero_less_one assms(2)] ..
qed

theorem verify_chain_exact_witness:
  "verify_chain v1_host0 1 None 5000 (rev (w_trail state1)) = verify_chain v1_host0 1 None 1 (rev (w_trail state1))"
proof (rule verify_chain_exact [THEN conjunct2])
  show "distinct (map tr_seq (rev (w_trail state1)))" by code_simp
qed simp

text \<open>
  C11. Tamper evidence: two trails of the same length that both verify and end in the same digest
  agree on identity, sequence, actor, action, target and time of every entry, or show two
  digested texts with the same digest, provided no field contains the separator.
\<close>

theorem trail_tamper_evident:
  assumes "distinct (map tr_seq es)" "distinct (map tr_seq fs)" "sorted (map tr_seq es)" "sorted (map tr_seq fs)"
    and "cv_valid (verify_chain h 0 None n es)" "cv_valid (verify_chain h 0 None n fs)" "0 < n"
    and "length es = length fs" "es = [] \<or> tr_hash (last es) = tr_hash (last fs)"
    and "\<forall>t \<in> set es \<union> set fs. bar_free t"
  shows "map covered es = map covered fs \<or>
    (\<exists>t \<in> set es. \<exists>u \<in> set fs. entry_payload t \<noteq> entry_payload u \<and>
      v_hash h (entry_payload t) = v_hash h (entry_payload u))"
proof -
  have all: "ranged 0 None rows = rows" if "sorted (map tr_seq rows)" for rows
    using that by (simp add: ranged_def in_range_def [abs_def] sort_key_sorted)
  have ie: "intact h None es" "intact h None fs"
    using verify_chain_valid(1) [OF assms(7)] all assms(1-6) by auto
  have hash: "entry_hash h = (\<lambda>t. v_hash h (entry_payload t))" by (rule ext) (rule entry_hash_payload)
  show ?thesis
  proof (cases "es = []")
    case True
    with assms(8) show ?thesis by simp
  next
    case False
    with assms(8) have ne: "fs \<noteq> []" by auto
    have l: "linked tr_prev tr_hash (\<lambda>t. v_hash h (entry_payload t)) (tr_prev (hd es)) es"
      "linked tr_prev tr_hash (\<lambda>t. v_hash h (entry_payload t)) (tr_prev (hd fs)) fs"
      using ie False ne by (simp_all add: intact_def flip: hash)
    have "map entry_payload es = map entry_payload fs \<or>
      (\<exists>t \<in> set es. \<exists>u \<in> set fs. entry_payload t \<noteq> entry_payload u \<and>
        v_hash h (entry_payload t) = v_hash h (entry_payload u))"
      using trail_chain.linked_agree [OF l] assms(8,9,10) False ne by (simp add: last_digest_last)
    moreover have "map covered es = map covered fs" if "map entry_payload es = map entry_payload fs"
    proof (rule nth_equalityI)
      fix i assume i: "i < length (map covered es)"
      then have p: "entry_payload (es ! i) = entry_payload (fs ! i)" "i < length fs"
        using that assms(8) by (metis length_map nth_map)+
      have "bar_free (es ! i)" "bar_free (fs ! i)" using assms(8,10) i p(2) by auto
      from entry_payload_inj [OF this p(1)] have "covered (es ! i) = covered (fs ! i) \<or> tr_hash (es ! i) \<noteq> tr_hash (fs ! i)"
        by (auto simp: covered_def)
      moreover have "tr_hash (es ! i) = tr_hash (fs ! i)"
        using linked_expected [OF l(1)] linked_expected [OF l(2)] i p by simp
      ultimately show "map covered es ! i = map covered fs ! i" using i p(2) by simp
    qed (use assms(8) in simp)
    ultimately show ?thesis by blast
  qed
qed

theorem trail_tamper_evident_witness:
  "map covered (w_trail state1) = map covered (w_trail state1) \<or>
    (\<exists>t \<in> set (w_trail state1). \<exists>u \<in> set (w_trail state1). entry_payload t \<noteq> entry_payload u \<and>
      v_hash v1_host0 (entry_payload t) = v_hash v1_host0 (entry_payload u))"
proof (rule trail_tamper_evident [where n = 5000])
  have "list_all (\<lambda>t. list_all (\<lambda>f. CHR ''|'' \<notin> set f)
      [tr_id t, tr_actor t, tr_action t, tr_ttype t, tr_tid t, tr_time t]) (w_trail state1)" by code_simp
  then show "\<forall>t \<in> set (w_trail state1) \<union> set (w_trail state1). bar_free t"
    by (simp add: bar_free_def list_all_iff)
  have valid: "cv_valid (verify_chain v1_host0 0 None 5000 (w_trail state1))" by code_simp
  show "cv_valid (verify_chain v1_host0 0 None 5000 (w_trail state1))"
    "cv_valid (verify_chain v1_host0 0 None 5000 (w_trail state1))" by (rule valid)+
qed (code_simp | simp)+

text \<open>
  What verification cannot see: the recorded states, scope, metadata and parent of entries are
  not digested, so any rewriting of those columns leaves the answer of \<open>verify_chain\<close> as it was.
\<close>

theorem verification_ignores_states:
  assumes "\<And>t. covered (f t) = covered t" "0 < chunk_size" "distinct (map tr_seq rows)"
  shows "cv_valid (verify_chain h from_seq to_seq chunk_size (map f rows)) =
    cv_valid (verify_chain h from_seq to_seq chunk_size rows)"
proof -
  have s: "tr_seq (f t) = tr_seq t" for t using covered_fields [OF assms(1)] by simp
  then have d: "distinct (map tr_seq (map f rows))" using assms(3) by (simp add: comp_def)
  have "map covered (map f (ranged from_seq to_seq rows)) = map covered (ranged from_seq to_seq rows)"
    using assms(1) by simp
  from intact_covered [OF this] show ?thesis
    unfolding verify_chain_valid(1) [OF assms(2) d] verify_chain_valid(1) [OF assms(2,3)] ranged_map [OF s] .
qed

theorem verification_ignores_states_witness:
  "cv_valid (verify_chain v1_host0 1 None 5000
      (map (\<lambda>t. t\<lparr>tr_after := Some (JObj [(''state'', JStr ''forged'')])\<rparr>) (w_trail state1)))"
proof -
  have d: "distinct (map tr_seq (w_trail state1))" by code_simp
  have "cv_valid (verify_chain v1_host0 1 None 5000 (w_trail state1))" by code_simp
  then show ?thesis
    using verification_ignores_states [of "\<lambda>t. t\<lparr>tr_after := Some (JObj [(''state'', JStr ''forged'')])\<rparr>" 5000,
        OF _ _ d, of v1_host0 1 None]
    by (simp add: covered_def)
qed

section \<open>Retention\<close>

lemma retention_parts:
  assumes "retention_apply h cutoff p s = (Inr r, s')"
  obtains s1 s2 c where "prune_by_age h cutoff p s = (Inr (), s1)" "prune_by_count h p s1 = (Inr (), s2)"
    "map covered (w_trail s') = map covered (w_trail s2)"
    "r = \<lparr>rr_deleted = length (w_trail s) - length (w_trail s'), rr_compacted = c\<rparr>"
proof -
  from assms obtain s1 s2 c where 1: "prune_by_age h cutoff p s = (Inr (), s1)" "prune_by_count h p s1 = (Inr (), s2)"
    and c: "(if rp_compact_before p \<or> rp_compact_after p
      then compact_trail None (rp_compact_before p) (rp_compact_after p) else returnS 0) s2 = (Inr c, s')"
    and r: "r = \<lparr>rr_deleted = length (w_trail s) - length (w_trail s'), rr_compacted = c\<rparr>"
    by (auto simp: retention_apply_def bindS_Inr_iff)
  from c have "map covered (w_trail s') = map covered (w_trail s2)"
    by (auto split: if_splits dest: compact_trail_covered)
  with 1 r show thesis using that by blast
qed

text \<open>
  Retention keeps the chain verifiable: when it succeeds on a trail whose times do not
  decrease, what remains is a final segment of the trail in every digested column and is
  again a chain; it has no entry older than the cutoff and no more than the allowed number.
\<close>

theorem retention_keeps_chain:
  assumes "retention_apply h cutoff p s = (Inr r, s')" "trail_ok h (w_trail s)"
    and "sorted (map tr_time (w_trail s))"
  shows "trail_ok h (w_trail s') \<and>
    (\<exists>k \<le> length (w_trail s). map covered (w_trail s') = map covered (drop k (w_trail s)) \<and> rr_deleted r = k) \<and>
    (\<forall>n. rp_max_entries p = Some n \<longrightarrow> length (w_trail s') \<le> n) \<and>
    (\<forall>d. rp_max_age_days p = Some d \<longrightarrow> (\<forall>t \<in> set (w_trail s'). \<not> tr_time t < cutoff d))"
proof -
  from retention_parts [OF assms(1)] obtain s1 s2 c where age: "prune_by_age h cutoff p s = (Inr (), s1)"
    and count: "prune_by_count h p s1 = (Inr (), s2)"
    and cov: "map covered (w_trail s') = map covered (w_trail s2)"
    and r: "r = \<lparr>rr_deleted = length (w_trail s) - length (w_trail s'), rr_compacted = c\<rparr>" by blast
  from prune_by_age_Inr [OF age assms(3)] obtain k1 where k1: "k1 \<le> length (w_trail s)" "w_trail s1 = drop k1 (w_trail s)"
    "\<forall>d. rp_max_age_days p = Some d \<longrightarrow> (\<forall>t \<in> set (w_trail s1). \<not> tr_time t < cutoff d)" by blast
  have "trail_ok h (w_trail s1)" unfolding k1(2) by (rule trail_ok_drop [OF assms(2)])
  from prune_by_count_Inr [OF count this] obtain k2 where k2: "k2 \<le> length (w_trail s1)" "w_trail s2 = drop k2 (w_trail s1)"
    "\<forall>n. rp_max_entries p = Some n \<longrightarrow> length (w_trail s2) = min n (length (w_trail s1))" by blast
  have len: "length (w_trail s') = length (w_trail s2)" using cov by (metis length_map)
  have s2: "w_trail s2 = drop (k1 + k2) (w_trail s)" "k1 + k2 \<le> length (w_trail s)"
    using k1 k2 by (auto simp: add.commute)
  have "trail_ok h (w_trail s')" unfolding trail_ok_covered [OF cov] s2(1) by (rule trail_ok_drop [OF assms(2)])
  moreover have "map covered (w_trail s') = map covered (drop (k1 + k2) (w_trail s))" using cov s2 by simp
  moreover have "rr_deleted r = k1 + k2" using r len s2 by simp
  moreover have "\<not> tr_time t < cutoff d" if "rp_max_age_days p = Some d" "t \<in> set (w_trail s')" for t d
  proof -
    have "covered t \<in> covered ` set (w_trail s2)" using that(2) cov by (metis image_eqI set_map)
    then obtain u where u: "u \<in> set (w_trail s2)" "covered t = covered u" by blast
    then have "u \<in> set (w_trail s1)" "tr_time t = tr_time u"
      using k2(2) by (auto simp: covered_def dest: in_set_dropD)
    with k1(3) that(1) show ?thesis by auto
  qed
  moreover have "length (w_trail s') \<le> n" if "rp_max_entries p = Some n" for n
    using k2(3) that len by simp
  ultimately show ?thesis using s2(2) by blast
qed

definition retained0 :: "(v1_error + retention_result) \<times> v1_state" where
  "retained0 = retention_apply v1_host0 (\<lambda>_. ''2024'')
     \<lparr>rp_max_age_days = Some 30, rp_max_entries = Some 1, rp_compact_before = False, rp_compact_after = True\<rparr> state1"

theorem retention_keeps_chain_witness:
  "\<exists>r. fst retained0 = Inr r \<and> rr_deleted r \<le> 2 \<and> trail_ok v1_host0 (w_trail (snd retained0))"
proof -
  have "(case fst retained0 of Inr r \<Rightarrow> rr_deleted r = 1 | Inl _ \<Rightarrow> False)" by code_simp
  then obtain r where r: "fst retained0 = Inr r" "rr_deleted r = 1" using case_okD by blast
  then have eq: "retained0 = (Inr r, snd retained0)" by (simp add: prod_eq_iff)
  have t: "sorted (map tr_time (w_trail state1))" by code_simp
  have "trail_ok v1_host0 (w_trail state1)" using state1_ok by (simp add: audit_ok_def)
  from retention_keeps_chain [OF eq [unfolded retained0_def] this t] r show ?thesis
    unfolding retained0_def by simp
qed

text \<open>
  A nested trace pins its parent: when a retained entry names an older entry as its parent,
  pruning by age fails as a whole and deletes nothing.
\<close>

theorem retention_blocked_by_child:
  assumes "rp_max_age_days p = Some d" "child \<in> set (w_trail s)" "parent \<in> set (w_trail s)"
    and "tr_parent child = Some (tr_id parent)" "tr_time parent < cutoff d" "\<not> tr_time child < cutoff d"
  shows "retention_apply h cutoff p s = (Inl (v_violation h ForeignKeyMissing), s)"
proof -
  have "prune_by_age h cutoff p s = (Inl (v_violation h ForeignKeyMissing), s)"
    using assms by (auto simp: prune_by_age_def delete_traces_def Let_def list_ex_iff)
  then show ?thesis by (simp add: retention_apply_def bindS_Inl)
qed

definition nested1 :: v1_state where
  "nested1 = snd (record_entry v1_host0 (\<lambda>_. ''2026'') (\<lambda>_ rows. rows)
     ((request0 ''ann'' ''doc1'')\<lparr>rq_parent := Some ''peer''\<rparr>) state1)"

definition age_policy :: retention_policy where
  "age_policy = \<lparr>rp_max_age_days = Some 365, rp_max_entries = None, rp_compact_before = False, rp_compact_after = False\<rparr>"

theorem retention_blocked_by_child_witness:
  "retention_apply v1_host0 (\<lambda>_. ''2025'') age_policy nested1 = (Inl (v_violation v1_host0 ForeignKeyMissing), nested1)"
proof (rule retention_blocked_by_child [where child = "last (w_trail nested1)" and parent = "hd (w_trail nested1)"])
  have ne: "w_trail nested1 \<noteq> []" by code_simp
  show "last (w_trail nested1) \<in> set (w_trail nested1)" "hd (w_trail nested1) \<in> set (w_trail nested1)"
    using ne by simp_all
  show "rp_max_age_days age_policy = Some 365" by (simp add: age_policy_def)
qed code_simp+

end
