(* ===== verification/V1_Tenancy_Properties.thy ===== *)
theory V1_Tenancy_Properties
  imports V1_Tenancy_Facts V1_Audit_Properties
begin

text \<open>
  The properties of the v1 tenancy service, with a sample organisation of two principals as the
  concrete input of the witnesses.
\<close>

section \<open>A sample organisation\<close>

definition org0 :: tenant where
  "org0 = \<lparr>w_next = 0, w_trail = [], w_seq = 0, w_last = '''', tn_audited = True,
     tn_principals = [''ann'', ''bob''],
     tn_objects = [\<lparr>ob_id = ''doc1'', ob_owner = ''ann'', ob_type = ''Document'', ob_lifecycle = Active,
       ob_version = 1, ob_created = ''2024-01-01'', ob_entry = None\<rparr>],
     tn_scopes = [], tn_members = [], tn_projections = []\<rparr>"

text \<open>Ann creates a company and a team below it, adds Bob to the team and shares a document in the company.\<close>

definition org1 :: tenant where
  "org1 = snd (bindS (create_scope v1_host0 ''2024-01-01'' ''company'' ''ann'' '''' None []) (\<lambda>company.
     bindS (create_scope v1_host0 ''2024-01-02'' ''team'' ''ann'' '''' (Some (sc_id company)) []) (\<lambda>team.
     bindS (add_member v1_host0 ''2024-01-03'' (sc_id team) ''bob'' Editor ''ann'' (Some ''2024-06-01'')) (\<lambda>_.
       project v1_host0 ''2024-01-04'' (sc_id company) ''doc1'' ''ann'' ReadAccess))) org0)"

lemma org1_scopes: "map sr_id (tn_scopes org1) = [''t0'', ''t4'']"
  by code_simp


section \<open>Invariants\<close>



section \<open>Frozen and archived scopes\<close>

lemma frozen_bind:
  "get_scope x s = (Inr (Some sc), s) \<Longrightarrow> sc_lifecycle sc \<in> {Deprecated, Archived} \<Longrightarrow>
   bindS (mutable_scope x) f s = (Inl ScopeFrozen, s)"
  by (intro raised_bind frozen_mutable_scope)

lemma frozen_project:
  assumes "get_scope x s = (Inr (Some sc), s)" "sc_lifecycle sc \<in> {Deprecated, Archived}"
  shows "project h now x obj actor access s = (Inl ScopeFrozen, s)"
proof -
  have "project_guard x obj actor s = Inl ScopeFrozen"
    using assms by (auto simp: project_guard_def get_scope_def bindE_Inr_iff is_frozen_def is_archived_def split: option.splits)
  then show ?thesis unfolding project_def by (intro raised_bind) simp
qed

text \<open>
  A frozen or archived scope refuses every change: renaming, updating, freezing, adding one
  or many members, revoking members and projecting objects all raise \<open>ScopeFrozenError\<close> and
  leave the whole state, audit trail included, as it was.
\<close>

theorem frozen_scope_refuses:
  fixes s :: "'x tenant_scheme"
  assumes "get_scope x s = (Inr (Some sc), s)" "sc_lifecycle sc \<in> {Deprecated, Archived}"
  shows "rename_scope h now x name actor s = (Inl ScopeFrozen, s)
    \<and> update_scope h now x desc meta actor s = (Inl ScopeFrozen, s)
    \<and> freeze_scope h now x actor s = (Inl ScopeFrozen, s)
    \<and> add_member h now x who role actor expires s = (Inl ScopeFrozen, s)
    \<and> add_members h now x members actor s = (Inl ScopeFrozen, s)
    \<and> revoke_member h now x who actor role_opt s = (Inl ScopeFrozen, s)
    \<and> project h now x obj actor access s = (Inl ScopeFrozen, s)"
proof -
  note m = frozen_bind [OF assms]
  have "freeze_scope h now x actor s = (Inl ScopeFrozen, s)"
    using assms by (auto simp: freeze_scope_def get_scope_or_raise_def bindS_def is_active_def)
  with frozen_project [OF assms] show ?thesis
    by (simp add: m rename_scope_def update_scope_def add_member_def add_members_def revoke_member_def)
qed

definition frozen1 :: tenant where
  "frozen1 = snd (freeze_scope v1_host0 ''2024-02-01'' ''t0'' ''ann'' org1)"

definition frozen_scope1 :: scope where
  "frozen_scope1 = (case fst (get_scope ''t0'' frozen1) of Inr (Some sc) \<Rightarrow> sc
     | _ \<Rightarrow> \<lparr>sc_id = '''', sc_name = '''', sc_owner = '''', sc_created = '''', sc_description = '''',
          sc_parent = None, sc_entry = None, sc_lifecycle = Draft, sc_metadata = []\<rparr>)"

lemma frozen_scope1_eq: "get_scope ''t0'' frozen1 = (Inr (Some frozen_scope1), frozen1)"
proof -
  have "(case fst (get_scope ''t0'' frozen1) of Inr (Some sc) \<Rightarrow> True | _ \<Rightarrow> False)" by code_simp
  then obtain sc where f: "fst (get_scope ''t0'' frozen1) = Inr (Some sc)"
    by (auto split: sum.splits option.splits)
  then have "frozen_scope1 = sc" by (simp add: frozen_scope1_def)
  moreover have "snd (get_scope ''t0'' frozen1) = frozen1"
    using reads_get_scope [of "''t0''"] unfolding reads_def by blast
  ultimately show ?thesis using f by (simp add: prod_eq_iff)
qed

lemma frozen_scope1_lifecycle: "sc_lifecycle frozen_scope1 \<in> {Deprecated, Archived}"
proof -
  have "sc_lifecycle frozen_scope1 = Deprecated" by code_simp
  then show ?thesis by simp
qed

theorem frozen_scope_refuses_witness:
  "add_member v1_host0 ''2024-02-02'' ''t0'' ''bob'' Viewer ''ann'' None frozen1 = (Inl ScopeFrozen, frozen1)"
  using frozen_scope_refuses [OF frozen_scope1_eq frozen_scope1_lifecycle] by blast

text \<open>
  Freezing does not cover unsharing: on a frozen or archived scope \<open>project\<close> raises
  \<open>ScopeFrozenError\<close>, while \<open>revoke_projection\<close> archives an active projection of the same scope
  and object all the same, and changes no scope.
\<close>

theorem projection_revocable_when_frozen:
  assumes "get_scope x s = (Inr (Some sc), s)" "sc_lifecycle sc \<in> {Deprecated, Archived}"
    and "fst (is_projected x obj s) = Inr True" "revoke_projection h now x obj actor s = (r, s')"
  shows "project h now x obj actor access s = (Inl ScopeFrozen, s) \<and>
    fst (is_projected x obj s') = Inr False \<and> tn_scopes s' = tn_scopes s"
proof -
  from assms(3) obtain p where p: "find (active_projection x obj) (tn_projections s) = Some p"
    by (cases "find (active_projection x obj) (tn_projections s)") (auto simp: is_projected_def list_ex_iff find_None_iff)
  let ?t = "s\<lparr>tn_projections := sql_update_where (active_projection x obj) (\<lambda>p. p\<lparr>pj_lifecycle := Archived\<rparr>) (tn_projections s)\<rparr>"
  from p assms(4) obtain r1 rq where "audit_event h now rq ?t = (r1, s')"
    by (auto simp: revoke_projection_def update_projections_def bindS_def split: prod.splits sum.splits)
  note f = audit_event_fields [OF this]
  have "\<forall>p \<in> set (tn_projections s'). \<not> active_projection x obj p"
    unfolding f by simp (rule update_where_all, simp_all add: active_projection_def)
  with f frozen_project [OF assms(1,2)] show ?thesis by (simp add: is_projected_def list_ex_iff)
qed

theorem projection_revocable_when_frozen_witness:
  "fst (is_projected ''t0'' ''doc1'' frozen1) = Inr True \<and>
   fst (is_projected ''t0'' ''doc1'' (snd (revoke_projection v1_host0 ''2024-02-02'' ''t0'' ''doc1'' ''bob'' frozen1))) = Inr False"
proof -
  have p: "fst (is_projected ''t0'' ''doc1'' frozen1) = Inr True" by code_simp
  from projection_revocable_when_frozen [OF frozen_scope1_eq frozen_scope1_lifecycle this prod.collapse [symmetric]] p
  show ?thesis by blast
qed

text \<open>
  C13. Archiving dissolves a scope completely and nothing else: afterwards the scope is archived
  and has no active membership and no active projection, while the memberships, projections
  and rows of all other scopes are exactly those from before.
\<close>

theorem archive_dissolves:
  assumes "archive_scope h now x actor s = (Inr sc, s')"
  shows "sc_id sc = x \<and> sc_lifecycle sc = Archived \<and>
    (\<forall>m \<in> set (tn_members s'). mb_scope m = x \<longrightarrow> mb_lifecycle m \<noteq> Active) \<and>
    (\<forall>p \<in> set (tn_projections s'). pj_scope p = x \<longrightarrow> pj_lifecycle p \<noteq> Active) \<and>
    filter (\<lambda>m. mb_scope m \<noteq> x) (tn_members s') = filter (\<lambda>m. mb_scope m \<noteq> x) (tn_members s) \<and>
    filter (\<lambda>p. pj_scope p \<noteq> x) (tn_projections s') = filter (\<lambda>p. pj_scope p \<noteq> x) (tn_projections s) \<and>
    filter (\<lambda>r. sr_id r \<noteq> x) (tn_scopes s') = filter (\<lambda>r. sr_id r \<noteq> x) (tn_scopes s)"
proof -
  note a = archive_scope_Inr [OF assms]
  have "\<forall>m \<in> set (tn_members s'). mb_scope m = x \<longrightarrow> mb_lifecycle m \<noteq> Active"
    "\<forall>p \<in> set (tn_projections s'). pj_scope p = x \<longrightarrow> pj_lifecycle p \<noteq> Active"
    using archived_scope_rows [OF assms] by blast+
  moreover have "filter (\<lambda>m. mb_scope m \<noteq> x) (tn_members s') = filter (\<lambda>m. mb_scope m \<noteq> x) (tn_members s)"
    using a unfolding archive_rows_def by (auto intro!: update_where_others)
  moreover have "filter (\<lambda>p. pj_scope p \<noteq> x) (tn_projections s') = filter (\<lambda>p. pj_scope p \<noteq> x) (tn_projections s)"
    using a unfolding archive_rows_def by (auto intro!: update_where_others)
  moreover have "filter (\<lambda>r. sr_id r \<noteq> x) (tn_scopes s') = filter (\<lambda>r. sr_id r \<noteq> x) (tn_scopes s)"
    using a unfolding archive_rows_def by (auto intro!: update_where_others)
  ultimately show ?thesis using a by blast
qed

definition archived1 :: "(v1_error + scope) \<times> tenant" where
  "archived1 = archive_scope v1_host0 ''2024-03-01'' ''t4'' ''ann'' org1"

theorem archive_dissolves_witness:
  "\<exists>sc. fst archived1 = Inr sc \<and> sc_id sc = ''t4'' \<and>
     (\<forall>m \<in> set (tn_members (snd archived1)). mb_scope m = ''t4'' \<longrightarrow> mb_lifecycle m \<noteq> Active)"
proof -
  have "is_ok (fst archived1)" by code_simp
  then obtain sc where a: "archived1 = (Inr sc, snd archived1)" by (auto simp: is_ok_iff prod_eq_iff)
  from archive_dissolves [OF a [unfolded archived1_def]] a show ?thesis
    unfolding archived1_def by (metis fst_conv)
qed

section \<open>Memberships\<close>

text \<open>
  C14. Revocation is immediate: after \<open>revoke_member\<close> without a role the principal has no active
  membership in the scope and \<open>is_member\<close> answers no at any time, the count returned is the
  number of memberships revoked, and grants of other principals or scopes are untouched.
\<close>

theorem revocation_immediate:
  assumes "revoke_member h now x who actor None s = (Inr n, s')"
  shows "fst (is_member later x who s') = Inr False \<and>
    n = length (filter (\<lambda>m. mb_scope m = x \<and> mb_principal m = who \<and> mb_lifecycle m = Active) (tn_members s)) \<and>
    filter (\<lambda>m. \<not> (mb_scope m = x \<and> mb_principal m = who)) (tn_members s') =
      filter (\<lambda>m. \<not> (mb_scope m = x \<and> mb_principal m = who)) (tn_members s)"
proof -
  have P: "revocable x who None = (\<lambda>m. mb_scope m = x \<and> mb_principal m = who \<and> mb_lifecycle m = Active)"
    by (rule ext) (simp add: revocable_def given_def)
  from revoke_member_Inr [OF assms] have n: "n = length (filter (revocable x who None) (tn_members s))"
    and s': "tn_members s' = sql_update_where (revocable x who None) (\<lambda>m. m\<lparr>mb_lifecycle := Archived\<rparr>) (tn_members s)"
    by simp_all
  have "\<forall>m \<in> set (tn_members s'). mb_scope m = x \<longrightarrow> mb_principal m = who \<longrightarrow> mb_lifecycle m \<noteq> Active"
    unfolding s' P by (rule update_where_all) simp_all
  then have none: "\<not> list_ex (\<lambda>m. mb_scope m = x \<and> mb_principal m = who \<and> active_membership later m) (tn_members s')"
    "\<not> list_ex (lapsed later x who) (tn_members s')"
    unfolding list_ex_iff active_membership_def lapsed_def by blast+
  then have "fst (is_member later x who s') = Inr False" by (simp add: is_member_def)
  moreover have "filter (\<lambda>m. \<not> (mb_scope m = x \<and> mb_principal m = who)) (tn_members s') =
      filter (\<lambda>m. \<not> (mb_scope m = x \<and> mb_principal m = who)) (tn_members s)"
    using update_where_others [where key = "\<lambda>m. (mb_scope m, mb_principal m)" and x = "(x, who)" and rows = "tn_members s"
      and P = "revocable x who None" and f = "\<lambda>m. m\<lparr>mb_lifecycle := Archived\<rparr>"] unfolding s' P by simp
  ultimately show ?thesis using n P by simp
qed

definition revoked1 :: "(v1_error + nat) \<times> tenant" where
  "revoked1 = revoke_member v1_host0 ''2024-02-01'' ''t4'' ''bob'' ''ann'' None org1"

theorem revocation_immediate_witness:
  "fst revoked1 = Inr 1 \<and> fst (is_member ''2024-02-02'' ''t4'' ''bob'' (snd revoked1)) = Inr False"
proof -
  have f: "fst revoked1 = Inr 1" by code_simp
  then have r: "revoked1 = (Inr 1, snd revoked1)" by (simp add: prod_eq_iff)
  from revocation_immediate [OF r [unfolded revoked1_def]] f show ?thesis unfolding revoked1_def by blast
qed

text \<open>
  An expired membership cannot be renewed by granting it again: while its row is still marked
  active, \<open>add_member\<close> returns the expired row unchanged, whatever new expiry was asked for, and
  the principal remains no member.
\<close>

theorem expired_not_renewed:
  assumes "mutable_scope x s = (Inr sc, s)"
    and "find (same_grant x who role) (tn_members s) = Some m" "mb_lifecycle m = Active"
    and "mb_expires m = Some t" "t \<le> now"
    and "\<forall>n \<in> set (tn_members s). mb_scope n = x \<and> mb_principal n = who \<longrightarrow> n = m"
  shows "add_member h now x who role actor expires s = (Inr m, s) \<and> fst (is_member now x who s) = Inr False"
proof
  show "add_member h now x who role actor expires s = (Inr m, s)"
    using assms(1-3) by (simp add: add_member_def bindS_def [of "mutable_scope x"] add_membership_def)
  have "\<not> list_ex (\<lambda>n. mb_scope n = x \<and> mb_principal n = who \<and> active_membership now n) (tn_members s)"
    using assms(4-6) by (auto simp: list_ex_iff active_membership_def)
  then show "fst (is_member now x who s) = Inr False"
    by (simp add: is_member_def bindS_def whenS_def update_members_def)
qed

theorem expired_not_renewed_witness:
  "\<exists>m. add_member v1_host0 ''2024-07-01'' ''t4'' ''bob'' Editor ''ann'' (Some ''2025-01-01'') org1 = (Inr m, org1)
     \<and> fst (is_member ''2024-07-01'' ''t4'' ''bob'' org1) = Inr False"
proof -
  have "is_ok (fst (mutable_scope ''t4'' org1))" by code_simp
  then obtain sc where "fst (mutable_scope ''t4'' org1) = Inr sc" by (auto simp: is_ok_iff)
  then have sc: "mutable_scope ''t4'' org1 = (Inr sc, org1)"
    using mutable_scope_state [of "''t4''" org1] by (metis prod.collapse)
  have "(case find (same_grant ''t4'' ''bob'' Editor) (tn_members org1) of
      Some m \<Rightarrow> mb_lifecycle m = Active \<and> mb_expires m = Some ''2024-06-01'' | None \<Rightarrow> False)" by code_simp
  then obtain m where m: "find (same_grant ''t4'' ''bob'' Editor) (tn_members org1) = Some m" "mb_lifecycle m = Active"
    "mb_expires m = Some ''2024-06-01''" by (auto split: option.splits)
  have "map (\<lambda>n. mb_scope n = ''t4'' \<and> mb_principal n = ''bob'') (tn_members org1) = [False, False, True]" by code_simp
  then have "\<forall>n \<in> set (tn_members org1). mb_scope n = ''t4'' \<and> mb_principal n = ''bob'' \<longrightarrow> n = m"
    using find_SomeD [OF m(1)] by (auto simp: map_eq_Cons_conv same_grant_def)
  moreover have "''2024-06-01'' \<le> (''2024-07-01'' :: string)" by code_simp
  ultimately show ?thesis using expired_not_renewed [OF sc m] by blast
qed

section \<open>Visibility\<close>



section \<open>Hierarchy\<close>

text \<open>
  C16. Walking the hierarchy is safe on any data, cycles included: \<open>ancestors\<close> returns distinct
  scopes other than the start, each the parent of the one before and reachable from it by
  parent links, and \<open>descendants\<close> returns distinct scopes other than the start, at most
  \<open>max_total\<close> of them.
\<close>

theorem hierarchy_walks_safe:
  assumes "ancestors x s = (Inr up, s1)" "descendants x max_depth max_total s = (Inr down, s2)"
  shows "distinct (map sc_id up) \<and> x \<notin> sc_id ` set up \<and> chain_up up \<and>
    (\<forall>sc \<in> set up. (parent_of (tn_scopes s))\<^sup>*\<^sup>* x (sc_id sc)) \<and>
    distinct (map sc_id down) \<and> x \<notin> sc_id ` set down \<and> length down \<le> max_total \<and> s1 = s \<and> s2 = s"
proof -
  have a: "ancestors_loop (tn_scopes s) x (Some x) [] [] = Inr up" "s1 = s"
    using assms(1) by (auto simp: ancestors_def)
  have d: "descendants_loop (tn_scopes s) max_depth max_total [(x, 0)] [x] [] = Inr down" "s2 = s"
    using assms(2) by (auto simp: descendants_def)
  from ancestors_loop_spec [OF a(1)] descendants_loop_spec [OF d(1), of x] a(2) d(2) show ?thesis
    by (auto simp: chain_up_def)
qed

definition cyclic1 :: tenant where
  "cyclic1 = tn_scopes_update (map (\<lambda>r. r\<lparr>sr_parent := Some ''t4''\<rparr>)) org1"

theorem hierarchy_walks_safe_witness:
  "\<exists>up down. ancestors ''t0'' cyclic1 = (Inr up, cyclic1) \<and> descendants ''t0'' 10 1 cyclic1 = (Inr down, cyclic1)
     \<and> distinct (map sc_id up) \<and> length down \<le> 1"
proof -
  have "is_ok (fst (ancestors ''t0'' cyclic1))" by code_simp
  moreover have "is_ok (fst (descendants ''t0'' 10 1 cyclic1))" by code_simp
  ultimately obtain up down where u: "ancestors ''t0'' cyclic1 = (Inr up, cyclic1)"
    and d: "descendants ''t0'' 10 1 cyclic1 = (Inr down, cyclic1)"
    unfolding is_ok_iff ancestors_def descendants_def by auto
  from hierarchy_walks_safe [OF u d] have "distinct (map sc_id up)" "length down \<le> 1" by simp_all
  with u d show ?thesis by (intro exI conjI)
qed

end
