(* ===== verification/V1_Rules.thy ===== *)
theory V1_Rules
  imports V1_Audit_Facts
begin

text \<open>
  \<open>legacy/v1/scoped/rules\<close>: rules with versions and bindings (\<open>models.py\<close>), their store and the
  deny-overrides engine (\<open>engine.py\<close>), its cache (\<open>cache.py\<close>) and the compiled index
  (\<open>compiler.py\<close>).

  Rows hold their enum members and the parsed conditions. Each statement commits by itself, so an
  operation that raises keeps the writes before the raise. Monotonic clock readings are
  arguments: for each kind of target, the time of the look-up and the time of the store.
\<close>

section \<open>Models\<close>

datatype rule_type =
  AccessRule | SharingRule | VisibilityRule | OwnershipRule | ConstraintRule | RedactionRule
| RateLimitRule | QuotaRule | FeatureFlagRule

fun rule_type_value :: "rule_type \<Rightarrow> string" where
  "rule_type_value AccessRule = ''access''"
| "rule_type_value SharingRule = ''sharing''"
| "rule_type_value VisibilityRule = ''visibility''"
| "rule_type_value OwnershipRule = ''ownership''"
| "rule_type_value ConstraintRule = ''constraint''"
| "rule_type_value RedactionRule = ''redaction''"
| "rule_type_value RateLimitRule = ''rate_limit''"
| "rule_type_value QuotaRule = ''quota''"
| "rule_type_value FeatureFlagRule = ''feature_flag''"

datatype rule_effect = Allow | Deny

fun effect_value :: "rule_effect \<Rightarrow> string" where
  "effect_value Allow = ''ALLOW''"
| "effect_value Deny = ''DENY''"

datatype binding_target =
  ScopeTarget | PrincipalTarget | ObjectTypeTarget | ObjectTarget | EnvironmentTarget | ConnectorTarget

fun target_value :: "binding_target \<Rightarrow> string" where
  "target_value ScopeTarget = ''scope''"
| "target_value PrincipalTarget = ''principal''"
| "target_value ObjectTypeTarget = ''object_type''"
| "target_value ObjectTarget = ''object''"
| "target_value EnvironmentTarget = ''environment''"
| "target_value ConnectorTarget = ''connector''"

record rule =
  ru_id :: string
  ru_name :: string
  ru_type :: rule_type
  ru_effect :: rule_effect
  ru_priority :: int
  ru_conditions :: metadata
  ru_created_at :: string
  ru_created_by :: string
  ru_version :: nat
  ru_description :: string
  ru_entry :: "string option"
  ru_lifecycle :: lifecycle

definition rule_snapshot :: "rule \<Rightarrow> json" where
  "rule_snapshot r = JObj
     [(''id'', JStr (ru_id r)), (''name'', JStr (ru_name r)), (''description'', JStr (ru_description r)),
      (''rule_type'', JStr (rule_type_value (ru_type r))), (''effect'', JStr (effect_value (ru_effect r))),
      (''priority'', JInt (ru_priority r)), (''conditions'', JObj (ru_conditions r)),
      (''created_at'', JStr (ru_created_at r)), (''created_by'', JStr (ru_created_by r)),
      (''current_version'', JInt (int (ru_version r))), (''lifecycle'', JStr (lifecycle_name (ru_lifecycle r)))]"

record rule_version =
  rv_id :: string
  rv_rule :: string
  rv_version :: nat
  rv_conditions :: metadata
  rv_effect :: rule_effect
  rv_priority :: int
  rv_created_at :: string
  rv_created_by :: string
  rv_reason :: string

record rule_binding =
  bd_id :: string
  bd_rule :: string
  bd_target :: binding_target
  bd_target_id :: string
  bd_at :: string
  bd_by :: string
  bd_lifecycle :: lifecycle

record evaluation_result =
  er_allowed :: bool
  er_matching :: "rule list"
  er_deny :: "rule list"
  er_allow :: "rule list"

section \<open>The cache\<close>

text \<open>\<open>RuleCache\<close>, as a dict from keys to an expiry time and the value.\<close>

record rule_cache =
  ca_ttl :: int
  ca_store :: "string \<Rightarrow> (int \<times> rule list) option"
  ca_hits :: nat
  ca_misses :: nat

definition new_cache :: "int \<Rightarrow> rule_cache" where
  "new_cache ttl = \<lparr>ca_ttl = ttl, ca_store = (\<lambda>_. None), ca_hits = 0, ca_misses = 0\<rparr>"

definition cache_get :: "int \<Rightarrow> string \<Rightarrow> rule_cache \<Rightarrow> rule list option \<times> rule_cache" where
  "cache_get now k c =
     (case ca_store c k of
        None \<Rightarrow> (None, c\<lparr>ca_misses := ca_misses c + 1\<rparr>)
      | Some (expires, v) \<Rightarrow>
          if now > expires
          then (None, c\<lparr>ca_store := (ca_store c)(k := None), ca_misses := ca_misses c + 1\<rparr>)
          else (Some v, c\<lparr>ca_hits := ca_hits c + 1\<rparr>))"

definition cache_put :: "int \<Rightarrow> string \<Rightarrow> rule list \<Rightarrow> rule_cache \<Rightarrow> rule_cache" where
  "cache_put now k v c = c\<lparr>ca_store := (ca_store c)(k \<mapsto> (now + ca_ttl c, v))\<rparr>"

definition cache_invalidate :: "string option \<Rightarrow> rule_cache \<Rightarrow> rule_cache" where
  "cache_invalidate key c =
     (case key of
        None \<Rightarrow> c\<lparr>ca_store := (\<lambda>_. None)\<rparr>
      | Some k \<Rightarrow> c\<lparr>ca_store := (ca_store c)(k := None)\<rparr>)"

section \<open>The state of the rule service\<close>

record rule_base = v1_state +
  rb_audited :: bool
  rb_rules :: "rule list"
  rb_versions :: "rule_version list"
  rb_bindings :: "rule_binding list"
  rb_cache :: "rule_cache option"

definition rule_audit :: "v1_host \<Rightarrow> string \<Rightarrow> trace_request \<Rightarrow> ('x rule_base_scheme, unit) sop" where
  "rule_audit h now rq =
     bindS (getS rb_audited) (\<lambda>b.
       whenS b (bindS (record_entry h (\<lambda>_. now) (\<lambda>_ rows. rows) rq) (\<lambda>_. returnS ())))"

definition rule_request :: "string \<Rightarrow> string \<Rightarrow> string \<Rightarrow> json option \<Rightarrow> json option \<Rightarrow> trace_request" where
  "rule_request actor action rule_id before after =
     \<lparr>rq_actor = actor, rq_action = action, rq_ttype = ''Rule'', rq_tid = rule_id, rq_scope = None,
      rq_before = before, rq_after = after, rq_meta = [], rq_parent = None\<rparr>"

text \<open>\<open>if self._cache is not None: self._cache.invalidate()\<close>; the store shares the engine's cache.\<close>

definition drop_cache :: "('x rule_base_scheme, unit) sop" where
  "drop_cache = modifyS (\<lambda>s. s\<lparr>rb_cache := map_option (cache_invalidate None) (rb_cache s)\<rparr>)"

section \<open>The store: rules and versions\<close>

definition insert_rule :: "v1_host \<Rightarrow> rule \<Rightarrow> ('x rule_base_scheme, unit) sop" where
  "insert_rule h r s =
     (if list_ex (\<lambda>x. ru_id x = ru_id r) (rb_rules s) then (Inl (v_violation h IdTaken), s)
      else (Inr (), s\<lparr>rb_rules := rb_rules s @ [r]\<rparr>))"

definition insert_version :: "v1_host \<Rightarrow> rule_version \<Rightarrow> ('x rule_base_scheme, unit) sop" where
  "insert_version h v s =
     (if list_ex (\<lambda>x. rv_id x = rv_id v) (rb_versions s) then (Inl (v_violation h IdTaken), s)
      else if list_ex (\<lambda>x. rv_rule x = rv_rule v \<and> rv_version x = rv_version v) (rb_versions s)
      then (Inl (v_violation h KeyTaken), s)
      else if \<not> list_ex (\<lambda>r. ru_id r = rv_rule v) (rb_rules s) then (Inl (v_violation h ForeignKeyMissing), s)
      else (Inr (), s\<lparr>rb_versions := rb_versions s @ [v]\<rparr>))"

definition update_rules :: "string \<Rightarrow> (rule \<Rightarrow> rule) \<Rightarrow> ('x rule_base_scheme, unit) sop" where
  "update_rules rule_id f =
     modifyS (\<lambda>s. s\<lparr>rb_rules := sql_update_where (\<lambda>r. ru_id r = rule_id) f (rb_rules s)\<rparr>)"

definition update_bindings ::
  "(rule_binding \<Rightarrow> bool) \<Rightarrow> (rule_binding \<Rightarrow> rule_binding) \<Rightarrow> ('x rule_base_scheme, unit) sop" where
  "update_bindings P f = modifyS (\<lambda>s. s\<lparr>rb_bindings := sql_update_where P f (rb_bindings s)\<rparr>)"

text \<open>\<open>created_by or rule.created_by\<close>: the empty text counts as missing.\<close>

definition version_of :: "string \<Rightarrow> string \<Rightarrow> rule \<Rightarrow> string \<Rightarrow> string option \<Rightarrow> rule_version" where
  "version_of vid now r reason created_by =
     \<lparr>rv_id = vid, rv_rule = ru_id r, rv_version = ru_version r, rv_conditions = ru_conditions r,
      rv_effect = ru_effect r, rv_priority = ru_priority r, rv_created_at = now,
      rv_created_by = (case created_by of None \<Rightarrow> ru_created_by r | Some by \<Rightarrow> if by = [] then ru_created_by r else by),
      rv_reason = reason\<rparr>"

definition create_version ::
  "v1_host \<Rightarrow> string \<Rightarrow> rule \<Rightarrow> string \<Rightarrow> string option \<Rightarrow> ('x rule_base_scheme, rule_version) sop" where
  "create_version h now r reason created_by =
     bindS (fresh_id h) (\<lambda>vid.
     bindS (insert_version h (version_of vid now r reason created_by)) (\<lambda>_.
       returnS (version_of vid now r reason created_by)))"

definition create_rule ::
  "v1_host \<Rightarrow> string \<Rightarrow> string \<Rightarrow> rule_type \<Rightarrow> rule_effect \<Rightarrow> metadata option \<Rightarrow> int \<Rightarrow> string \<Rightarrow> string \<Rightarrow>
   ('x rule_base_scheme, rule) sop" where
  "create_rule h now name rtype effect conditions priority description created_by =
     bindS (fresh_id h) (\<lambda>rule_id.
     let r = \<lparr>ru_id = rule_id, ru_name = name, ru_type = rtype, ru_effect = effect, ru_priority = priority,
              ru_conditions = (case conditions of None \<Rightarrow> [] | Some c \<Rightarrow> c), ru_created_at = now,
              ru_created_by = created_by, ru_version = 1, ru_description = description, ru_entry = None,
              ru_lifecycle = Active\<rparr>
     in bindS (insert_rule h r) (\<lambda>_.
        bindS (create_version h now r ''created'' None) (\<lambda>_.
        bindS (rule_audit h now (rule_request created_by ''rule_change'' rule_id None (Some (rule_snapshot r)))) (\<lambda>_.
        bindS drop_cache (\<lambda>_. returnS r)))))"

definition get_rule :: "string \<Rightarrow> ('x rule_base_scheme, rule option) sop" where
  "get_rule rule_id = getS (\<lambda>s. find (\<lambda>r. ru_id r = rule_id) (rb_rules s))"

definition get_rule_or_raise :: "string \<Rightarrow> ('x rule_base_scheme, rule) sop" where
  "get_rule_or_raise rule_id =
     bindS (get_rule rule_id) (\<lambda>x. case x of None \<Rightarrow> raiseS V1ValueError | Some r \<Rightarrow> returnS r)"

definition list_rules ::
  "rule_type option \<Rightarrow> rule_effect option \<Rightarrow> bool \<Rightarrow> ('x rule_base_scheme, rule list) sop" where
  "list_rules rtype effect active_only =
     getS (\<lambda>s. sql_order True ru_priority
       (filter (\<lambda>r. given rtype (ru_type r) \<and> given effect (ru_effect r)
          \<and> (active_only \<longrightarrow> ru_lifecycle r = Active)) (rb_rules s)))"

definition changed_rule :: "metadata option \<Rightarrow> rule_effect option \<Rightarrow> int option \<Rightarrow> rule \<Rightarrow> rule" where
  "changed_rule conditions effect priority r =
     r\<lparr>ru_conditions := (case conditions of None \<Rightarrow> ru_conditions r | Some c \<Rightarrow> c),
       ru_effect := (case effect of None \<Rightarrow> ru_effect r | Some e \<Rightarrow> e),
       ru_priority := (case priority of None \<Rightarrow> ru_priority r | Some p \<Rightarrow> p),
       ru_version := ru_version r + 1\<rparr>"

definition update_rule ::
  "v1_host \<Rightarrow> string \<Rightarrow> string \<Rightarrow> string \<Rightarrow> metadata option \<Rightarrow> rule_effect option \<Rightarrow> int option \<Rightarrow> string \<Rightarrow>
   ('x rule_base_scheme, rule) sop" where
  "update_rule h now rule_id updated_by conditions effect priority reason =
     bindS (get_rule_or_raise rule_id) (\<lambda>old.
     let r = changed_rule conditions effect priority old
     in bindS (update_rules rule_id (\<lambda>x. x\<lparr>ru_conditions := ru_conditions r, ru_effect := ru_effect r,
                ru_priority := ru_priority r, ru_version := ru_version r\<rparr>)) (\<lambda>_.
        bindS (create_version h now r reason (Some updated_by)) (\<lambda>_.
        bindS (rule_audit h now (rule_request updated_by ''rule_change'' rule_id
                (Some (rule_snapshot old)) (Some (rule_snapshot r)))) (\<lambda>_.
        bindS drop_cache (\<lambda>_. returnS r)))))"

definition archive_rule :: "v1_host \<Rightarrow> string \<Rightarrow> string \<Rightarrow> string \<Rightarrow> ('x rule_base_scheme, rule) sop" where
  "archive_rule h now rule_id archived_by =
     bindS (get_rule_or_raise rule_id) (\<lambda>r.
     bindS (update_rules rule_id (\<lambda>x. x\<lparr>ru_lifecycle := Archived\<rparr>)) (\<lambda>_.
     bindS (update_bindings (\<lambda>b. bd_rule b = rule_id \<and> bd_lifecycle b = Active) (\<lambda>b. b\<lparr>bd_lifecycle := Archived\<rparr>)) (\<lambda>_.
     bindS (rule_audit h now (rule_request archived_by ''lifecycle_change'' rule_id None
             (Some (JObj [(''lifecycle'', JStr ''ARCHIVED'')])))) (\<lambda>_.
     bindS drop_cache (\<lambda>_. returnS (r\<lparr>ru_lifecycle := Archived\<rparr>))))))"

definition get_versions :: "string \<Rightarrow> ('x rule_base_scheme, rule_version list) sop" where
  "get_versions rule_id =
     getS (\<lambda>s. sql_order False rv_version (filter (\<lambda>v. rv_rule v = rule_id) (rb_versions s)))"

section \<open>The store: bindings\<close>

definition same_binding :: "string \<Rightarrow> binding_target \<Rightarrow> string \<Rightarrow> rule_binding \<Rightarrow> bool" where
  "same_binding rule_id target tid b \<longleftrightarrow> bd_rule b = rule_id \<and> bd_target b = target \<and> bd_target_id b = tid"

definition insert_binding :: "v1_host \<Rightarrow> rule_binding \<Rightarrow> ('x rule_base_scheme, unit) sop" where
  "insert_binding h b s =
     (if list_ex (\<lambda>x. bd_id x = bd_id b) (rb_bindings s) then (Inl (v_violation h IdTaken), s)
      else if list_ex (same_binding (bd_rule b) (bd_target b) (bd_target_id b)) (rb_bindings s)
      then (Inl (v_violation h KeyTaken), s)
      else if \<not> list_ex (\<lambda>r. ru_id r = bd_rule b) (rb_rules s) then (Inl (v_violation h ForeignKeyMissing), s)
      else (Inr (), s\<lparr>rb_bindings := rb_bindings s @ [b]\<rparr>))"

definition bind_rule ::
  "v1_host \<Rightarrow> string \<Rightarrow> string \<Rightarrow> binding_target \<Rightarrow> string \<Rightarrow> string \<Rightarrow> ('x rule_base_scheme, rule_binding) sop" where
  "bind_rule h now rule_id target tid bound_by =
     bindS (fresh_id h) (\<lambda>bid.
     let b = \<lparr>bd_id = bid, bd_rule = rule_id, bd_target = target, bd_target_id = tid, bd_at = now,
              bd_by = bound_by, bd_lifecycle = Active\<rparr>
     in bindS (insert_binding h b) (\<lambda>_.
        bindS drop_cache (\<lambda>_. returnS b)))"

definition active_binding :: "string \<Rightarrow> binding_target \<Rightarrow> string \<Rightarrow> rule_binding \<Rightarrow> bool" where
  "active_binding rule_id target tid b \<longleftrightarrow> same_binding rule_id target tid b \<and> bd_lifecycle b = Active"

definition unbind_rule :: "string \<Rightarrow> binding_target \<Rightarrow> string \<Rightarrow> ('x rule_base_scheme, bool) sop" where
  "unbind_rule rule_id target tid =
     bindS (getS (\<lambda>s. list_ex (active_binding rule_id target tid) (rb_bindings s))) (\<lambda>found.
       if \<not> found then returnS False
       else
         bindS (update_bindings (active_binding rule_id target tid) (\<lambda>b. b\<lparr>bd_lifecycle := Archived\<rparr>)) (\<lambda>_.
         bindS drop_cache (\<lambda>_. returnS True)))"

definition get_bindings :: "string \<Rightarrow> bool \<Rightarrow> ('x rule_base_scheme, rule_binding list) sop" where
  "get_bindings rule_id active_only =
     getS (\<lambda>s. filter (\<lambda>b. bd_rule b = rule_id \<and> (active_only \<longrightarrow> bd_lifecycle b = Active)) (rb_bindings s))"

definition get_target_bindings ::
  "binding_target \<Rightarrow> string \<Rightarrow> bool \<Rightarrow> ('x rule_base_scheme, rule_binding list) sop" where
  "get_target_bindings target tid active_only =
     getS (\<lambda>s. filter (\<lambda>b. bd_target b = target \<and> bd_target_id b = tid
       \<and> (active_only \<longrightarrow> bd_lifecycle b = Active)) (rb_bindings s))"

section \<open>The engine\<close>

record access_request =
  aq_action :: string
  aq_principal :: "string option"
  aq_kind :: "string option"
  aq_type :: "string option"
  aq_object :: "string option"
  aq_scope :: "string option"
  aq_env :: "string option"

text \<open>The targets whose rules are collected, in order; the empty text counts as missing.\<close>

definition request_targets :: "access_request \<Rightarrow> (binding_target \<times> string) list" where
  "request_targets q =
     concat (map (\<lambda>(t, x). case x of None \<Rightarrow> [] | Some i \<Rightarrow> if i = [] then [] else [(t, i)])
       [(ScopeTarget, aq_scope q), (PrincipalTarget, aq_principal q), (ObjectTypeTarget, aq_type q),
        (ObjectTarget, aq_object q), (EnvironmentTarget, aq_env q)])"

text \<open>The join of rules and bindings on the rule's id.\<close>

definition bound_rules :: "binding_target \<Rightarrow> string \<Rightarrow> 'x rule_base_scheme \<Rightarrow> rule list" where
  "bound_rules target tid s =
     concat (map (\<lambda>r. map (\<lambda>_. r) (filter (active_binding (ru_id r) target tid) (rb_bindings s)))
       (filter (\<lambda>r. ru_lifecycle r = Active) (rb_rules s)))"

definition cache_key :: "binding_target \<Rightarrow> string \<Rightarrow> string" where
  "cache_key target tid = target_value target @ '':'' @ tid"

definition rules_for_target ::
  "(binding_target \<Rightarrow> int \<times> int) \<Rightarrow> binding_target \<Rightarrow> string \<Rightarrow> ('x rule_base_scheme, rule list) sop" where
  "rules_for_target ticks target tid =
     bindS (getS rb_cache) (\<lambda>cache.
       case cache of
         None \<Rightarrow> getS (bound_rules target tid)
       | Some c \<Rightarrow>
           let (hit, c') = cache_get (fst (ticks target)) (cache_key target tid) c
           in bindS (modifyS (\<lambda>s. s\<lparr>rb_cache := Some c'\<rparr>)) (\<lambda>_.
              case hit of
                Some rs \<Rightarrow> returnS rs
              | None \<Rightarrow>
                  bindS (getS (bound_rules target tid)) (\<lambda>rs.
                  bindS (modifyS (\<lambda>s. s\<lparr>rb_cache := Some (cache_put (snd (ticks target)) (cache_key target tid) rs c')\<rparr>)) (\<lambda>_.
                    returnS rs))))"

fun unique_rules :: "string list \<Rightarrow> rule list \<Rightarrow> rule list" where
  "unique_rules seen [] = []"
| "unique_rules seen (r # rs) =
     (if ru_id r \<in> set seen then unique_rules seen rs else r # unique_rules (ru_id r # seen) rs)"

text \<open>A condition is a single value or a list of allowed values.\<close>

definition cond_allows :: "json \<Rightarrow> string \<Rightarrow> bool" where
  "cond_allows expected actual =
     (case expected of JArr xs \<Rightarrow> JStr actual \<in> set xs | v \<Rightarrow> v = JStr actual)"

definition cond_ok :: "string \<Rightarrow> string option \<Rightarrow> metadata \<Rightarrow> bool" where
  "cond_ok key actual conds =
     (case map_of conds key of
        None \<Rightarrow> True
      | Some expected \<Rightarrow> (case actual of None \<Rightarrow> True | Some v \<Rightarrow> cond_allows expected v))"

definition matches_conditions :: "access_request \<Rightarrow> rule \<Rightarrow> bool" where
  "matches_conditions q r =
     (let conds = ru_conditions r
      in if conds = [] then True
         else cond_ok ''action'' (Some (aq_action q)) conds \<and> cond_ok ''principal_kind'' (aq_kind q) conds
           \<and> cond_ok ''object_type'' (aq_type q) conds \<and> cond_ok ''scope_id'' (aq_scope q) conds)"

definition deny_overrides :: "rule list \<Rightarrow> evaluation_result" where
  "deny_overrides matching =
     (let sorted = sort_key (\<lambda>r. - ru_priority r) matching;
          denies = filter (\<lambda>r. ru_effect r = Deny) sorted;
          allows = filter (\<lambda>r. ru_effect r = Allow) sorted
      in \<lparr>er_allowed = (if denies \<noteq> [] then False else allows \<noteq> []),
          er_matching = sorted, er_deny = denies, er_allow = allows\<rparr>)"

definition or_default :: "string option \<Rightarrow> string \<Rightarrow> string" where
  "or_default x dflt = (case x of None \<Rightarrow> dflt | Some v \<Rightarrow> if v = [] then dflt else v)"

definition check_request :: "access_request \<Rightarrow> evaluation_result \<Rightarrow> trace_request" where
  "check_request q res =
     \<lparr>rq_actor = or_default (aq_principal q) ''system'', rq_action = ''access_check'',
      rq_ttype = or_default (aq_type q) ''unknown'', rq_tid = or_default (aq_object q) ''unknown'',
      rq_scope = aq_scope q, rq_before = None, rq_after = None,
      rq_meta = [(''action_checked'', JStr (aq_action q)),
                 (''result'', JStr (if er_allowed res then ''allowed'' else ''denied'')),
                 (''rules_matched'', JInt (int (length (er_matching res))))],
      rq_parent = None\<rparr>"

definition evaluate_request ::
  "v1_host \<Rightarrow> string \<Rightarrow> (binding_target \<Rightarrow> int \<times> int) \<Rightarrow> access_request \<Rightarrow>
   ('x rule_base_scheme, evaluation_result) sop" where
  "evaluate_request h now ticks q =
     bindS (mapS (\<lambda>(t, i). rules_for_target ticks t i) (request_targets q)) (\<lambda>cs.
     let res = deny_overrides (filter (matches_conditions q) (unique_rules [] (concat cs)))
     in bindS (rule_audit h now (check_request q res)) (\<lambda>_. returnS res))"

end
