(* ===== verification/V1_Rule_Tools.thy ===== *)
theory V1_Rule_Tools
  imports V1_Rules
begin

text \<open>
  What is built around the rule engine: explanations of a decision (\<open>engine.py\<close>), the compiled
  index (\<open>compiler.py\<close>) and the factories of common rules (\<open>builtins.py\<close>). The texts of an
  explanation are represented by the data they are rendered from.
\<close>

section \<open>Explanations\<close>

record condition_match =
  cm_key :: string
  cm_matched :: bool
  cm_expected :: json
  cm_actual :: "string option"

datatype explain_reason = AllSatisfied string rule_effect | FailedOn string "string list"

record rule_explanation =
  xp_rule :: rule
  xp_matched :: bool
  xp_effect :: rule_effect
  xp_priority :: int
  xp_target :: string
  xp_target_id :: string
  xp_conditions :: "condition_match list"
  xp_reason :: explain_reason

datatype explain_summary = DeniedBy string int | AllowedBy nat | NoMatchingRules

record evaluation_explanation =
  ee_result :: evaluation_result
  ee_explanations :: "rule_explanation list"
  ee_summary :: explain_summary

definition value_matches :: "json \<Rightarrow> string option \<Rightarrow> bool" where
  "value_matches expected actual = (case actual of None \<Rightarrow> True | Some v \<Rightarrow> cond_allows expected v)"

definition condition_matches :: "access_request \<Rightarrow> metadata \<Rightarrow> condition_match list" where
  "condition_matches q conds =
     concat (map (\<lambda>(key, actual). case map_of conds key of
         None \<Rightarrow> []
       | Some expected \<Rightarrow> [\<lparr>cm_key = key, cm_matched = value_matches expected actual,
                           cm_expected = expected, cm_actual = actual\<rparr>])
       [(''action'', Some (aq_action q)), (''principal_kind'', aq_kind q),
        (''object_type'', aq_type q), (''scope_id'', aq_scope q)])"

definition explain_match :: "access_request \<Rightarrow> rule \<times> binding_target \<times> string \<Rightarrow> rule_explanation" where
  "explain_match q cand =
     (let (r, t, i) = cand;
          conds = ru_conditions r;
          ms = condition_matches q conds;
          matched = (if conds = [] then True else list_all cm_matched ms)
      in \<lparr>xp_rule = r, xp_matched = matched, xp_effect = ru_effect r, xp_priority = ru_priority r,
          xp_target = target_value t, xp_target_id = i, xp_conditions = ms,
          xp_reason = (if matched then AllSatisfied (ru_name r) (ru_effect r)
                       else FailedOn (ru_name r) (map cm_key (filter (\<lambda>m. \<not> cm_matched m) ms)))\<rparr>)"

fun unique_candidates ::
  "string list \<Rightarrow> (rule \<times> binding_target \<times> string) list \<Rightarrow> (rule \<times> binding_target \<times> string) list" where
  "unique_candidates seen [] = []"
| "unique_candidates seen (c # cs) =
     (if ru_id (fst c) \<in> set seen then unique_candidates seen cs
      else c # unique_candidates (ru_id (fst c) # seen) cs)"

definition summarise :: "evaluation_result \<Rightarrow> explain_summary" where
  "summarise res =
     (case er_deny res of
        r # _ \<Rightarrow> DeniedBy (ru_name r) (ru_priority r)
      | [] \<Rightarrow> if er_allow res \<noteq> [] then AllowedBy (length (er_allow res)) else NoMatchingRules)"

text \<open>The environment of the request is not consulted: the method has no parameter for it.\<close>

definition evaluate_with_explanation ::
  "(binding_target \<Rightarrow> int \<times> int) \<Rightarrow> access_request \<Rightarrow> ('x rule_base_scheme, evaluation_explanation) sop" where
  "evaluate_with_explanation ticks q =
     bindS (mapS (\<lambda>(t, i). bindS (rules_for_target ticks t i) (\<lambda>rs. returnS (map (\<lambda>r. (r, t, i)) rs)))
              (request_targets (q\<lparr>aq_env := None\<rparr>))) (\<lambda>cs.
     let explanations = map (explain_match q) (unique_candidates [] (concat cs));
         res = deny_overrides (map xp_rule (filter xp_matched explanations))
     in returnS \<lparr>ee_result = res, ee_explanations = explanations, ee_summary = summarise res\<rparr>)"

section \<open>The compiled index\<close>

record compiled_rules =
  cr_index :: "string \<Rightarrow> (string \<Rightarrow> (rule \<times> rule_binding) list option) option"
  cr_all :: "rule list"

definition empty_compiled :: compiled_rules where
  "empty_compiled = \<lparr>cr_index = (\<lambda>_. None), cr_all = []\<rparr>"

definition compiled_add :: "rule \<Rightarrow> rule_binding \<Rightarrow> compiled_rules \<Rightarrow> compiled_rules" where
  "compiled_add r b c =
     (let key = target_value (bd_target b);
          target_map = (case cr_index c key of None \<Rightarrow> (\<lambda>_. None) | Some m \<Rightarrow> m);
          entries = (case target_map (bd_target_id b) of None \<Rightarrow> [] | Some es \<Rightarrow> es)
      in \<lparr>cr_index = (cr_index c)(key \<mapsto> target_map(bd_target_id b \<mapsto> entries @ [(r, b)])),
          cr_all = cr_all c @ [r]\<rparr>)"

definition compiled_lookup :: "binding_target \<Rightarrow> string \<Rightarrow> compiled_rules \<Rightarrow> rule list" where
  "compiled_lookup target tid c =
     (let entries = (case cr_index c (target_value target) of
            None \<Rightarrow> [] | Some m \<Rightarrow> (case m tid of None \<Rightarrow> [] | Some es \<Rightarrow> es))
      in sort_key (\<lambda>r. - ru_priority r) (map fst entries))"

definition compiled_size :: "compiled_rules \<Rightarrow> nat" where
  "compiled_size c = length (cr_all c)"

definition compile_rules :: "rule_type option \<Rightarrow> string option \<Rightarrow> 'x rule_base_scheme \<Rightarrow> compiled_rules" where
  "compile_rules rtype scope_id s =
     (let rows = sql_order True ru_priority
            (filter (\<lambda>r. ru_lifecycle r = Active \<and> given rtype (ru_type r)) (rb_rules s));
          rule_map = fold (\<lambda>r m. m(ru_id r \<mapsto> r)) rows (\<lambda>_. None);
          bindings = filter (\<lambda>b. bd_rule b \<in> ru_id ` set rows \<and> bd_lifecycle b = Active
            \<and> (case scope_id of None \<Rightarrow> True | Some i \<Rightarrow> bd_target b = ScopeTarget \<and> bd_target_id b = i)) (rb_bindings s)
      in if rows = [] then empty_compiled
         else fold (\<lambda>b c. case rule_map (bd_rule b) of None \<Rightarrow> c | Some r \<Rightarrow> compiled_add r b c)
                bindings empty_compiled)"

section \<open>Factories\<close>

definition bound_rule ::
  "v1_host \<Rightarrow> string \<Rightarrow> string \<Rightarrow> rule_type \<Rightarrow> rule_effect \<Rightarrow> metadata \<Rightarrow> int \<Rightarrow> string \<Rightarrow> string \<Rightarrow>
   ('x rule_base_scheme, rule) sop" where
  "bound_rule h now name rtype effect conditions priority scope_id created_by =
     bindS (create_rule h now name rtype effect (Some conditions) priority '''' created_by) (\<lambda>r.
     bindS (bind_rule h now (ru_id r) ScopeTarget scope_id created_by) (\<lambda>_. returnS r))"

definition type_condition :: "string option \<Rightarrow> metadata" where
  "type_condition object_type =
     (case object_type of None \<Rightarrow> [] | Some t \<Rightarrow> if t = [] then [] else [(''object_type'', JStr t)])"

definition allow_crud_in_scope ::
  "v1_host \<Rightarrow> string \<Rightarrow> string \<Rightarrow> string \<Rightarrow> string option \<Rightarrow> string list option \<Rightarrow> string \<Rightarrow> int \<Rightarrow>
   ('x rule_base_scheme, rule) sop" where
  "allow_crud_in_scope h now scope_id created_by object_type actions name priority =
     (let acts = (case actions of None \<Rightarrow> [] | Some a \<Rightarrow> a);
          acts' = (if acts \<noteq> [] then acts else [''create'', ''read'', ''update'', ''delete''])
      in bound_rule h now name AccessRule Allow
           ((''action'', JArr (map JStr acts')) # type_condition object_type) priority scope_id created_by)"

definition deny_action_in_scope ::
  "v1_host \<Rightarrow> string \<Rightarrow> string \<Rightarrow> string \<Rightarrow> string \<Rightarrow> string option \<Rightarrow> string \<Rightarrow> int \<Rightarrow>
   ('x rule_base_scheme, rule) sop" where
  "deny_action_in_scope h now scope_id action created_by object_type name priority =
     bound_rule h now name AccessRule Deny
       ((''action'', JStr action) # type_condition object_type) priority scope_id created_by"

definition deny_sharing_outside_scope ::
  "v1_host \<Rightarrow> string \<Rightarrow> string \<Rightarrow> string \<Rightarrow> string \<Rightarrow> int \<Rightarrow> ('x rule_base_scheme, rule) sop" where
  "deny_sharing_outside_scope h now scope_id created_by name priority =
     bound_rule h now name SharingRule Deny [(''action'', JStr ''projection'')] priority scope_id created_by"

definition restrict_to_principal_kind ::
  "v1_host \<Rightarrow> string \<Rightarrow> string \<Rightarrow> string \<Rightarrow> string \<Rightarrow> string \<Rightarrow> string \<Rightarrow> int \<Rightarrow>
   ('x rule_base_scheme, rule) sop" where
  "restrict_to_principal_kind h now kind action scope_id created_by name priority =
     bound_rule h now name ConstraintRule Deny
       [(''action'', JStr action), (''principal_kind'', JStr kind)] priority scope_id created_by"

definition redact_fields_for_kind ::
  "v1_host \<Rightarrow> string \<Rightarrow> string \<Rightarrow> string \<Rightarrow> metadata \<Rightarrow> string \<Rightarrow> string \<Rightarrow> string \<Rightarrow> int \<Rightarrow>
   ('x rule_base_scheme, rule) sop" where
  "redact_fields_for_kind h now object_type kind redactions scope_id created_by name priority =
     bound_rule h now name RedactionRule Deny
       [(''object_type'', JStr object_type), (''principal_kind'', JStr kind), (''redactions'', JObj redactions)]
       priority scope_id created_by"

definition rate_limit_action ::
  "v1_host \<Rightarrow> string \<Rightarrow> string list \<Rightarrow> int \<Rightarrow> int \<Rightarrow> string \<Rightarrow> string \<Rightarrow> string \<Rightarrow> int \<Rightarrow>
   ('x rule_base_scheme, rule) sop" where
  "rate_limit_action h now actions max_count window_seconds scope_id created_by name priority =
     bound_rule h now name RateLimitRule Deny
       [(''action'', JArr (map JStr actions)),
        (''rate_limit'', JObj [(''max_count'', JInt max_count), (''window_seconds'', JInt window_seconds)])]
       priority scope_id created_by"

definition quota_for_object_type ::
  "v1_host \<Rightarrow> string \<Rightarrow> string \<Rightarrow> int \<Rightarrow> string \<Rightarrow> string \<Rightarrow> string \<Rightarrow> int \<Rightarrow> ('x rule_base_scheme, rule) sop" where
  "quota_for_object_type h now object_type max_count scope_id created_by name priority =
     bound_rule h now name QuotaRule Deny
       [(''object_type'', JStr object_type), (''quota'', JObj [(''max_count'', JInt max_count)])]
       priority scope_id created_by"

definition feature_flag ::
  "v1_host \<Rightarrow> string \<Rightarrow> string \<Rightarrow> bool \<Rightarrow> int \<Rightarrow> string option \<Rightarrow> string \<Rightarrow> string option \<Rightarrow> int \<Rightarrow>
   ('x rule_base_scheme, rule) sop" where
  "feature_flag h now feature enabled rollout scope_id created_by name priority =
     (let scope = (case scope_id of None \<Rightarrow> [] | Some i \<Rightarrow> i);
          conds = (''feature_flag'', JObj [(''feature_name'', JStr feature), (''enabled'', JBool enabled),
                    (''rollout_percentage'', JInt rollout)]) #
                  (if scope \<noteq> [] then [(''scope_id'', JStr scope)] else [])
      in bindS (create_rule h now (or_default name (''Feature flag: '' @ feature)) FeatureFlagRule
                 (if enabled then Allow else Deny) (Some conds) priority '''' created_by) (\<lambda>r.
         bindS (if scope \<noteq> [] then bindS (bind_rule h now (ru_id r) ScopeTarget scope created_by) (\<lambda>_. returnS ())
                else returnS ()) (\<lambda>_. returnS r)))"

end
