(* ===== verification/V1_Rules_Facts.thy ===== *)
theory V1_Rules_Facts
  imports V1_Rule_Tools
begin

text \<open>
  Facts about the rule service: what the operations keep of its tables, the cache's coherence,
  the interface between the engine and its source of rules, and the declarative reading of
  a decision.
\<close>

section \<open>Tables\<close>

definition rule_tables :: "'x rule_base_scheme \<Rightarrow> bool \<times> rule list \<times> rule_version list \<times> rule_binding list" where
  "rule_tables s = (rb_audited s, rb_rules s, rb_versions s, rb_bindings s)"

lemma base_more: "v1_state.more s = v1_state.more t \<Longrightarrow> rule_tables s = rule_tables t \<and> rb_cache s = rb_cache t"
  by (cases s, cases t) (simp add: rule_tables_def)

lemma rule_audit_same:
  "rule_tables (snd (rule_audit h now rq s)) = rule_tables s \<and> rb_cache (snd (rule_audit h now rq s)) = rb_cache s"
  by (auto simp: rule_audit_def bindS_def whenS_def split: prod.splits sum.splits
      dest!: record_entry_more base_more)

lemma rule_audit_fields:
  assumes "rule_audit h now rq s = (r, s')"
  shows "rb_audited s' = rb_audited s" "rb_rules s' = rb_rules s" "rb_versions s' = rb_versions s"
    "rb_bindings s' = rb_bindings s" "rb_cache s' = rb_cache s"
  using rule_audit_same [of h now rq s] assms by (simp_all add: rule_tables_def)

lemma rule_audit_stable: "rule_audit h now rq s = (r, s') \<Longrightarrow> rb_versions s' = rb_versions s \<and> rb_rules s' = rb_rules s
    \<and> rb_bindings s' = rb_bindings s \<and> rb_cache s' = rb_cache s"
  by (intro conjI rule_audit_fields)

lemma rule_audit_quiet: "\<not> rb_audited s \<Longrightarrow> rule_audit h now rq s = (Inr (), s)"
  by (simp add: rule_audit_def)

lemma bound_rules_tables: "rule_tables s = rule_tables t \<Longrightarrow> bound_rules target tid s = bound_rules target tid t"
  by (simp add: rule_tables_def bound_rules_def)

lemma bound_rules_iff: "r \<in> set (bound_rules target tid s) \<longleftrightarrow>
  r \<in> set (rb_rules s) \<and> ru_lifecycle r = Active \<and> (\<exists>b \<in> set (rb_bindings s). active_binding (ru_id r) target tid b)"
  by (auto simp: bound_rules_def)

section \<open>Invariants of the tables\<close>

text \<open>Rule ids are distinct, and so are the version numbers of each rule.\<close>

definition rules_ok :: "'x rule_base_scheme \<Rightarrow> bool" where
  "rules_ok s \<longleftrightarrow> distinct (map ru_id (rb_rules s))
     \<and> distinct (map (\<lambda>v. (rv_rule v, rv_version v)) (rb_versions s))"

lemma rules_ok_cong: "rule_tables s = rule_tables t \<Longrightarrow> rules_ok s = rules_ok t"
  by (simp add: rule_tables_def rules_ok_def)

lemma keeps_rule_audit [keeps_intros]: "keeps rules_ok (rule_audit h now rq)"
  using rules_ok_cong rule_audit_same by (fastforce simp: keeps_def)

lemma keeps_rule_fresh [keeps_intros]: "keeps rules_ok (fresh_id h)"
  by (simp add: keeps_def fresh_id_def rules_ok_def)

lemma keeps_drop_cache [keeps_intros]: "keeps rules_ok drop_cache"
  by (simp add: keeps_def drop_cache_def rules_ok_def)

lemma keeps_insert_rule [keeps_intros]: "keeps rules_ok (insert_rule h r)"
  by (auto simp: keeps_def insert_rule_def rules_ok_def list_ex_iff)

lemma keeps_insert_version [keeps_intros]: "keeps rules_ok (insert_version h v)"
  by (auto simp: keeps_def insert_version_def rules_ok_def list_ex_iff image_iff)

lemma keeps_insert_binding [keeps_intros]: "keeps rules_ok (insert_binding h b)"
  by (simp add: keeps_def insert_binding_def rules_ok_def)

lemma keeps_update_rules [keeps_intros]: "(\<And>r. ru_id (f r) = ru_id r) \<Longrightarrow> keeps rules_ok (update_rules rule_id f)"
  by (simp add: keeps_def update_rules_def rules_ok_def sql_update_where_key)

lemma keeps_update_bindings [keeps_intros]: "keeps rules_ok (update_bindings P f)"
  by (simp add: keeps_def update_bindings_def rules_ok_def)

lemma keeps_get_rule_or_raise [keeps_intros]: "keeps I (get_rule_or_raise rule_id)"
  unfolding get_rule_or_raise_def get_rule_def by (intro keeps_intros)

lemma keeps_create_version [keeps_intros]: "keeps rules_ok (create_version h now r reason by)"
  unfolding create_version_def by (intro keeps_intros)

lemma keeps_create_rule: "keeps rules_ok (create_rule h now name rtype effect conds priority desc by)"
  unfolding create_rule_def by (intro keeps_intros)

lemma keeps_update_rule: "keeps rules_ok (update_rule h now rule_id by conds effect priority reason)"
  unfolding update_rule_def by (intro keeps_intros) simp

lemma keeps_archive_rule: "keeps rules_ok (archive_rule h now rule_id by)"
  unfolding archive_rule_def by (intro keeps_intros) simp

lemma keeps_bind_rule: "keeps rules_ok (bind_rule h now rule_id target tid by)"
  unfolding bind_rule_def by (intro keeps_intros)

lemma keeps_unbind_rule: "keeps rules_ok (unbind_rule rule_id target tid)"
  unfolding unbind_rule_def by (intro keeps_intros)

lemma keeps_rules_for_target [keeps_intros]: "keeps rules_ok (rules_for_target ticks target tid)"
  unfolding rules_for_target_def by (intro keeps_intros) (simp_all add: rules_ok_def)

lemma keeps_evaluate: "keeps rules_ok (evaluate_request h now ticks q)"
  unfolding evaluate_request_def by (intro keeps_intros)

lemma keeps_explain: "keeps rules_ok (evaluate_with_explanation ticks q)"
  unfolding evaluate_with_explanation_def by (intro keeps_intros)

section \<open>Version histories\<close>

text \<open>
  Every rule has the versions from one to its current one, and the current one holds what the
  rule says now; versions belong to stored rules.
\<close>

definition current_in :: "rule_version list \<Rightarrow> rule \<Rightarrow> bool" where
  "current_in vs r \<longleftrightarrow> (\<exists>v \<in> set vs. rv_rule v = ru_id r \<and> rv_version v = ru_version r
     \<and> rv_conditions v = ru_conditions r \<and> rv_effect v = ru_effect r \<and> rv_priority v = ru_priority r)"

definition numbered_in :: "rule_version list \<Rightarrow> rule \<Rightarrow> bool" where
  "numbered_in vs r \<longleftrightarrow> rv_version ` {v \<in> set vs. rv_rule v = ru_id r} = {1..ru_version r}"

definition versions_ok :: "'x rule_base_scheme \<Rightarrow> bool" where
  "versions_ok s \<longleftrightarrow>
     (\<forall>r \<in> set (rb_rules s). current_in (rb_versions s) r \<and> numbered_in (rb_versions s) r) \<and>
     (\<forall>v \<in> set (rb_versions s). rv_rule v \<in> ru_id ` set (rb_rules s))"

lemma create_version_Inr:
  assumes "create_version h now r reason by s = (Inr v, s')"
  shows "rb_versions s' = rb_versions s @ [v] \<and> rb_rules s' = rb_rules s \<and> rb_bindings s' = rb_bindings s
    \<and> v = version_of (rv_id v) now r reason by"
  using assms
  by (auto simp: create_version_def bindS_Inr_iff fresh_id_def insert_version_def version_of_def list_ex_iff
      split: if_splits)

lemma drop_cache_fields:
  "drop_cache s = (Inr x, s') \<Longrightarrow> rb_versions s' = rb_versions s \<and> rb_rules s' = rb_rules s \<and> rb_bindings s' = rb_bindings s"
  by (auto simp: drop_cache_def)

lemma create_rule_Inr:
  assumes "create_rule h now name rtype effect conds priority desc by s = (Inr r, s')"
  shows "\<exists>v. rb_versions s' = rb_versions s @ [v] \<and> rb_rules s' = rb_rules s @ [r] \<and> rb_bindings s' = rb_bindings s
    \<and> v = version_of (rv_id v) now r ''created'' None \<and> ru_version r = 1 \<and> ru_id r \<notin> ru_id ` set (rb_rules s)
    \<and> ru_lifecycle r = Active"
proof -
  let ?s1 = "s\<lparr>w_next := Suc (w_next s)\<rparr>"
  from assms obtain s2 where ins: "insert_rule h r ?s1 = (Inr (), s2)"
    and "bindS (create_version h now r ''created'' None) (\<lambda>_.
      bindS (rule_audit h now (rule_request by ''rule_change'' (ru_id r) None (Some (rule_snapshot r)))) (\<lambda>_.
      bindS drop_cache (\<lambda>_. returnS r))) s2 = (Inr r, s')"
    and r: "ru_version r = 1" "ru_lifecycle r = Active"
    by (auto simp: create_rule_def bindS_Inr_iff Let_def fresh_id_def)
  then obtain v s3 where v: "create_version h now r ''created'' None s2 = (Inr v, s3)"
    and rest: "rb_versions s' = rb_versions s3" "rb_rules s' = rb_rules s3" "rb_bindings s' = rb_bindings s3"
    by (auto simp: bindS_Inr_iff dest!: rule_audit_stable drop_cache_fields)
  have "rb_versions s2 = rb_versions s \<and> rb_rules s2 = rb_rules s @ [r] \<and> rb_bindings s2 = rb_bindings s
      \<and> ru_id r \<notin> ru_id ` set (rb_rules s)"
    using ins by (auto simp: insert_rule_def list_ex_iff split: if_splits)
  with r rest show ?thesis using create_version_Inr [OF v] by auto
qed

lemma update_rule_Inr:
  assumes "update_rule h now rule_id by conds effect priority reason s = (Inr r, s')"
  shows "\<exists>old v. find (\<lambda>r. ru_id r = rule_id) (rb_rules s) = Some old \<and> r = changed_rule conds effect priority old
    \<and> rb_versions s' = rb_versions s @ [v] \<and> v = version_of (rv_id v) now r reason (Some by)
    \<and> rb_rules s' = sql_update_where (\<lambda>x. ru_id x = rule_id) (\<lambda>x. x\<lparr>ru_conditions := ru_conditions r,
        ru_effect := ru_effect r, ru_priority := ru_priority r, ru_version := ru_version r\<rparr>) (rb_rules s)
    \<and> rb_bindings s' = rb_bindings s"
proof -
  from assms obtain old where old: "get_rule_or_raise rule_id s = (Inr old, s)"
    by (auto simp: update_rule_def bindS_Inr_iff get_rule_or_raise_def get_rule_def split: option.splits)
  then have f: "find (\<lambda>r. ru_id r = rule_id) (rb_rules s) = Some old"
    by (auto simp: get_rule_or_raise_def get_rule_def split: option.splits)
  define r' where "r' = changed_rule conds effect priority old"
  let ?s1 = "s\<lparr>rb_rules := sql_update_where (\<lambda>x. ru_id x = rule_id) (\<lambda>x. x\<lparr>ru_conditions := ru_conditions r',
        ru_effect := ru_effect r', ru_priority := ru_priority r', ru_version := ru_version r'\<rparr>) (rb_rules s)\<rparr>"
  from assms old have "bindS (create_version h now r' reason (Some by)) (\<lambda>_.
      bindS (rule_audit h now (rule_request by ''rule_change'' rule_id (Some (rule_snapshot old)) (Some (rule_snapshot r')))) (\<lambda>_.
      bindS drop_cache (\<lambda>_. returnS r'))) ?s1 = (Inr r, s')"
    by (simp add: update_rule_def bindS_Inr [where m = "get_rule_or_raise rule_id", OF old] Let_def update_rules_def r'_def)
  then obtain v s2 where v: "create_version h now r' reason (Some by) ?s1 = (Inr v, s2)" and "r = r'"
    "rb_versions s' = rb_versions s2" "rb_rules s' = rb_rules s2" "rb_bindings s' = rb_bindings s2"
    by (auto simp: bindS_Inr_iff dest!: rule_audit_stable drop_cache_fields)
  with f show ?thesis using create_version_Inr [OF v] by (auto simp: r'_def)
qed

lemma version_of_fields [simp]:
  "rv_rule (version_of vid now r reason by) = ru_id r" "rv_version (version_of vid now r reason by) = ru_version r"
  "rv_conditions (version_of vid now r reason by) = ru_conditions r" "rv_effect (version_of vid now r reason by) = ru_effect r"
  "rv_priority (version_of vid now r reason by) = ru_priority r"
  by (simp_all add: version_of_def)

lemma create_rule_versions:
  assumes "create_rule h now name rtype effect conds priority desc by s = (Inr r, s')" "versions_ok s"
  shows "versions_ok s'"
proof -
  from create_rule_Inr [OF assms(1)] obtain v where v: "rb_versions s' = rb_versions s @ [v]" "rb_rules s' = rb_rules s @ [r]"
    "rv_rule v = ru_id r" "rv_version v = 1" "rv_conditions v = ru_conditions r" "rv_effect v = ru_effect r"
    "rv_priority v = ru_priority r" "ru_version r = 1" "ru_id r \<notin> ru_id ` set (rb_rules s)"
    by (metis version_of_fields)
  have "rv_rule x \<noteq> ru_id r" if "x \<in> set (rb_versions s)" for x
  proof -
    have "rv_rule x \<in> ru_id ` set (rb_rules s)" using assms(2) that by (simp add: versions_ok_def)
    with v(9) show ?thesis by metis
  qed
  then have none: "{x \<in> set (rb_versions s). rv_rule x = ru_id r} = {}" by blast
  have "current_in (rb_versions s') x \<and> numbered_in (rb_versions s') x" if "x \<in> set (rb_rules s)" for x
  proof -
    have "ru_id x \<noteq> ru_id r" using that v(9) by (metis image_eqI)
    then have "{y. (y = v \<or> y \<in> set (rb_versions s)) \<and> rv_rule y = ru_id x} = {y \<in> set (rb_versions s). rv_rule y = ru_id x}"
      using v(3) by auto
    with that assms(2) v(1) show ?thesis by (auto simp: versions_ok_def current_in_def numbered_in_def)
  qed
  moreover have "current_in (rb_versions s') r" using v by (auto simp: current_in_def)
  moreover have "numbered_in (rb_versions s') r"
  proof -
    have "{y. (y = v \<or> y \<in> set (rb_versions s)) \<and> rv_rule y = ru_id r} = {v}" using none v(3) by blast
    then show ?thesis using v by (simp add: numbered_in_def)
  qed
  ultimately show ?thesis using assms(2) v by (auto simp: versions_ok_def)
qed

lemma update_rule_versions:
  assumes "update_rule h now rule_id by conds effect priority reason s = (Inr r, s')" "versions_ok s" "rules_ok s"
  shows "versions_ok s'"
proof -
  from update_rule_Inr [OF assms(1)] obtain old v where f: "find (\<lambda>r. ru_id r = rule_id) (rb_rules s) = Some old"
    and r: "r = changed_rule conds effect priority old" and v0: "v = version_of (rv_id v) now r reason (Some by)"
    and s': "rb_versions s' = rb_versions s @ [v]" "rb_rules s' = sql_update_where (\<lambda>x. ru_id x = rule_id) (\<lambda>x. x\<lparr>ru_conditions := ru_conditions r,
        ru_effect := ru_effect r, ru_priority := ru_priority r, ru_version := ru_version r\<rparr>) (rb_rules s)" by blast
  from f have old: "old \<in> set (rb_rules s)" "ru_id old = rule_id" by (auto dest: find_SomeD)
  have v: "rv_rule v = rule_id" "rv_version v = ru_version r" "rv_conditions v = ru_conditions r"
    "rv_effect v = ru_effect r" "rv_priority v = ru_priority r"
    using arg_cong [OF v0, of rv_rule] arg_cong [OF v0, of rv_version] arg_cong [OF v0, of rv_conditions]
      arg_cong [OF v0, of rv_effect] arg_cong [OF v0, of rv_priority] r old(2) by (simp_all add: changed_rule_def)
  have vr: "ru_version r = Suc (ru_version old)" using r by (simp add: changed_rule_def)
  have same: "q = old" if "q \<in> set (rb_rules s)" "ru_id q = rule_id" for q
    using that old assms(3) by (auto simp: rules_ok_def distinct_map dest: inj_onD)
  have "current_in (rb_versions s') x \<and> numbered_in (rb_versions s') x" if x: "x \<in> set (rb_rules s')" for x
  proof -
    from x s'(2) obtain q where q: "q \<in> set (rb_rules s)"
      "x = (if ru_id q = rule_id then q\<lparr>ru_conditions := ru_conditions r, ru_effect := ru_effect r,
        ru_priority := ru_priority r, ru_version := ru_version r\<rparr> else q)"
      unfolding sql_update_where_def by auto
    show ?thesis
    proof (cases "ru_id q = rule_id")
      case True
      have "{y \<in> set (rb_versions s'). rv_rule y = rule_id} = insert v {y \<in> set (rb_versions s). rv_rule y = rule_id}"
        using s'(1) v(1) by auto
      moreover have "rv_version ` {y \<in> set (rb_versions s). rv_rule y = rule_id} = {1..ru_version old}"
        using assms(2) old by (auto simp: versions_ok_def numbered_in_def)
      ultimately have "rv_version ` {y \<in> set (rb_versions s'). rv_rule y = rule_id} = {1..ru_version r}"
        using v(2) vr by (simp add: atLeastAtMostSuc_conv)
      with True q(2) v s'(1) show ?thesis by (auto simp: current_in_def numbered_in_def)
    next
      case False
      then have "{y \<in> set (rb_versions s'). rv_rule y = ru_id q} = {y \<in> set (rb_versions s). rv_rule y = ru_id q}"
        using s'(1) v(1) by auto
      with False q assms(2) s'(1) show ?thesis by (auto simp: versions_ok_def current_in_def numbered_in_def)
    qed
  qed
  moreover have "ru_id ` set (rb_rules s') = ru_id ` set (rb_rules s)"
    unfolding s'(2) set_map [symmetric] by (simp add: sql_update_where_key)
  moreover have "rv_rule v \<in> ru_id ` set (rb_rules s)" using v(1) old by (metis image_eqI)
  ultimately show ?thesis using assms(2) s'(1) by (auto simp: versions_ok_def)
qed

section \<open>Coherence of the cache\<close>

lemma cache_key_inj: "cache_key t i = cache_key t' i' \<Longrightarrow> t = t' \<and> i = i'"
  by (cases t; cases t') (simp_all add: cache_key_def)

definition coherent :: "'x rule_base_scheme \<Rightarrow> bool" where
  "coherent s \<longleftrightarrow> (\<forall>c. rb_cache s = Some c \<longrightarrow>
     (\<forall>t i expires rs. ca_store c (cache_key t i) = Some (expires, rs) \<longrightarrow> rs = bound_rules t i s))"

lemma coherent_cong: "rule_tables s = rule_tables t \<Longrightarrow> rb_cache s = rb_cache t \<Longrightarrow> coherent s = coherent t"
  unfolding coherent_def using bound_rules_tables [of s t] by simp

lemma drop_cache_coherent: "drop_cache s = (r, s') \<Longrightarrow> coherent s'"
  unfolding drop_cache_def coherent_def cache_invalidate_def by (cases "rb_cache s") auto

lemma dropped_coherent: "bindS drop_cache (\<lambda>_. returnS x) s = (Inr y, s') \<Longrightarrow> coherent s'"
  by (auto simp: bindS_Inr_iff intro: drop_cache_coherent)

text \<open>A store operation that returned has dropped the cache or changed nothing.\<close>

lemma create_rule_coherent: "create_rule h now name rtype effect conds priority desc by s = (Inr r, s') \<Longrightarrow> coherent s'"
  by (auto simp: create_rule_def bindS_Inr_iff Let_def intro: drop_cache_coherent)

lemma update_rule_coherent: "update_rule h now rule_id by conds effect priority reason s = (Inr r, s') \<Longrightarrow> coherent s'"
  by (auto simp: update_rule_def bindS_Inr_iff Let_def intro: drop_cache_coherent)

lemma archive_rule_coherent: "archive_rule h now rule_id by s = (Inr r, s') \<Longrightarrow> coherent s'"
  by (auto simp: archive_rule_def bindS_Inr_iff intro: drop_cache_coherent)

lemma bind_rule_coherent: "bind_rule h now rule_id target tid by s = (Inr b, s') \<Longrightarrow> coherent s'"
  by (auto simp: bind_rule_def bindS_Inr_iff Let_def intro: drop_cache_coherent)

lemma unbind_rule_coherent: "unbind_rule rule_id target tid s = (Inr b, s') \<Longrightarrow> coherent s \<Longrightarrow> coherent s'"
  by (auto simp: unbind_rule_def bindS_Inr_iff split: if_splits intro: drop_cache_coherent)

lemma rules_for_target_ok:
  assumes "coherent s"
  shows "\<exists>s'. rules_for_target ticks target tid s = (Inr (bound_rules target tid s), s') \<and>
    coherent s' \<and> rule_tables s' = rule_tables s"
proof (cases "rb_cache s")
  case None
  with assms show ?thesis by (simp add: rules_for_target_def)
next
  case (Some c)
  let ?k = "cache_key target tid"
  have fresh: "coherent (s\<lparr>rb_cache := Some c'\<rparr>) \<and> rule_tables (s\<lparr>rb_cache := Some c'\<rparr>) = rule_tables s"
    if "\<And>t i e rs. ca_store c' (cache_key t i) = Some (e, rs) \<Longrightarrow> rs = bound_rules t i s" for c'
    using that by (auto simp: coherent_def rule_tables_def bound_rules_def)
  have old: "rs = bound_rules t i s" if "ca_store c (cache_key t i) = Some (e, rs)" for t i e rs
    using assms Some that unfolding coherent_def by blast
  obtain hit c' where g: "cache_get (fst (ticks target)) ?k c = (hit, c')"
    by (cases "cache_get (fst (ticks target)) ?k c") auto
  have sub: "ca_store c' x = Some v \<Longrightarrow> ca_store c x = Some v" for x v
    using g by (auto simp: cache_get_def split: option.splits if_splits)
  have hit: "rs = bound_rules target tid s" if "hit = Some rs" for rs
    using g that old by (auto simp: cache_get_def split: option.splits if_splits)
  show ?thesis
  proof (cases hit)
    case (Some rs)
    with g \<open>rb_cache s = Some c\<close> hit fresh [of c'] sub old show ?thesis
      by (auto simp: rules_for_target_def)
  next
    case None
    have "bound_rules target tid (s\<lparr>rb_cache := Some c'\<rparr>) = bound_rules target tid s"
      by (simp add: bound_rules_def)
    moreover have "coherent (s\<lparr>rb_cache := Some (cache_put (snd (ticks target)) ?k (bound_rules target tid s) c')\<rparr>)
        \<and> rule_tables (s\<lparr>rb_cache := Some (cache_put (snd (ticks target)) ?k (bound_rules target tid s) c')\<rparr>) = rule_tables s"
      by (rule fresh) (auto simp: cache_put_def split: if_splits dest!: cache_key_inj sub old)
    ultimately show ?thesis using g \<open>rb_cache s = Some c\<close> None by (simp add: rules_for_target_def)
  qed
qed

section \<open>The engine's source of rules\<close>

text \<open>
  What the engine needs of the look-up it calls: it never raises, it answers what the tables
  say, and it changes none of its later answers.
\<close>

locale rule_source =
  fixes look :: "binding_target \<Rightarrow> string \<Rightarrow> ('s, rule list) sop"
    and answer :: "binding_target \<Rightarrow> string \<Rightarrow> 's \<Rightarrow> rule list"
    and good :: "'s \<Rightarrow> bool"
  assumes look_ok: "good s \<Longrightarrow> \<exists>s'. look t i s = (Inr (answer t i s), s') \<and> good s'"
    and answer_stable: "good s \<Longrightarrow> good s' \<Longrightarrow> answer t i s' = answer t i s"
begin

lemma looks_ok: "good s \<Longrightarrow>
  \<exists>s'. mapS (\<lambda>(t, i). look t i) ts s = (Inr (map (\<lambda>(t, i). answer t i s) ts), s') \<and> good s'"
  by (rule mapS_returns [where good = good and A = "\<lambda>ti s. case ti of (t, i) \<Rightarrow> answer t i s"])
    (auto dest: look_ok intro: answer_stable)

lemma tagged_looks_ok: "good s \<Longrightarrow>
  \<exists>s'. mapS (\<lambda>(t, i). bindS (look t i) (\<lambda>rs. returnS (map (\<lambda>r. (r, t, i)) rs))) ts s =
    (Inr (map (\<lambda>(t, i). map (\<lambda>r. (r, t, i)) (answer t i s)) ts), s') \<and> good s'"
proof (rule mapS_returns [where good = good and A = "\<lambda>ti s. case ti of (t, i) \<Rightarrow> map (\<lambda>r. (r, t, i)) (answer t i s)"])
  fix ti :: "binding_target \<times> string" and s assume g: "good s"
  obtain t i where ti: "ti = (t, i)" by (cases ti)
  from look_ok [OF g, of t i] obtain s1 where "look t i s = (Inr (answer t i s), s1)" "good s1" by blast
  then show "\<exists>s'. (case ti of (t, i) \<Rightarrow> bindS (look t i) (\<lambda>rs. returnS (map (\<lambda>r. (r, t, i)) rs))) s =
      (Inr (case ti of (t, i) \<Rightarrow> map (\<lambda>r. (r, t, i)) (answer t i s)), s') \<and> good s'"
    unfolding ti by (auto simp: bindS_Inr)
next
  fix ti :: "binding_target \<times> string" and s s' assume "good s" "good s'"
  then show "(case ti of (t, i) \<Rightarrow> map (\<lambda>r. (r, t, i)) (answer t i s')) =
      (case ti of (t, i) \<Rightarrow> map (\<lambda>r. (r, t, i)) (answer t i s))"
    using answer_stable [of s s'] by (cases ti) simp
qed

end

interpretation cached_rules: rule_source "rules_for_target ticks" bound_rules "\<lambda>s. coherent s \<and> rule_tables s = T"
  for ticks T
proof
  show "\<exists>s'. rules_for_target ticks t i s = (Inr (bound_rules t i s), s') \<and> (coherent s' \<and> rule_tables s' = T)"
    if "coherent s \<and> rule_tables s = T" for s t i
    using rules_for_target_ok [of s ticks t i] that by auto
  show "bound_rules t i s' = bound_rules t i s"
    if "coherent s \<and> rule_tables s = T" "coherent s' \<and> rule_tables s' = T" for s s' :: "'a rule_base_scheme" and t i
    using bound_rules_tables [of s' s] that by simp
qed

section \<open>Decisions\<close>

lemma unique_rules_set: "ru_id ` set (unique_rules seen rs) = ru_id ` set rs - set seen"
  by (induction seen rs rule: unique_rules.induct) auto

lemma unique_rules_subset: "set (unique_rules seen rs) \<subseteq> set rs"
  by (induction seen rs rule: unique_rules.induct) auto

lemma unique_rules_distinct: "distinct (map ru_id (unique_rules seen rs))"
proof (induction seen rs rule: unique_rules.induct)
  case (2 seen r rs)
  then show ?case using unique_rules_set [of "ru_id r # seen" rs] by auto
qed simp

lemma unique_rules_inj: "inj_on ru_id (set rs) \<Longrightarrow> set (unique_rules [] rs) = set rs"
proof (rule antisym [OF unique_rules_subset], rule subsetI)
  fix r assume inj: "inj_on ru_id (set rs)" and r: "r \<in> set rs"
  then have "ru_id r \<in> ru_id ` set (unique_rules [] rs)" by (simp add: unique_rules_set)
  then obtain q where q: "q \<in> set (unique_rules [] rs)" "ru_id q = ru_id r" by auto
  then have "q = r" using inj r unique_rules_subset [of "[]" rs] by (auto dest: inj_onD)
  with q show "r \<in> set (unique_rules [] rs)" by simp
qed

text \<open>A rule applies to a request: it is active, bound to one of its targets, and matches it.\<close>

definition applies :: "access_request \<Rightarrow> 'x rule_base_scheme \<Rightarrow> rule \<Rightarrow> bool" where
  "applies q s r \<longleftrightarrow> r \<in> set (rb_rules s) \<and> ru_lifecycle r = Active \<and> matches_conditions q r
     \<and> (\<exists>(t, i) \<in> set (request_targets q). \<exists>b \<in> set (rb_bindings s). active_binding (ru_id r) t i b)"

definition candidates :: "access_request \<Rightarrow> 'x rule_base_scheme \<Rightarrow> rule list" where
  "candidates q s = concat (map (\<lambda>(t, i). bound_rules t i s) (request_targets q))"

lemma candidates_applies:
  assumes "rules_ok s"
  shows "r \<in> set (filter (matches_conditions q) (unique_rules [] (candidates q s))) \<longleftrightarrow> applies q s r"
proof -
  have sub: "set (candidates q s) \<subseteq> set (rb_rules s)" by (auto simp: candidates_def bound_rules_iff)
  have "inj_on ru_id (set (candidates q s))"
    using assms sub unfolding rules_ok_def distinct_map by (auto intro: inj_on_subset)
  then show ?thesis
    by (auto simp: unique_rules_inj applies_def candidates_def bound_rules_iff)
qed

text \<open>What the deny-overrides combination of a list of rules says.\<close>

lemma deny_overrides_spec:
  "set (er_matching (deny_overrides rs)) = set rs"
  "distinct (map ru_id rs) \<Longrightarrow> distinct (map ru_id (er_matching (deny_overrides rs)))"
  "sorted_wrt (\<lambda>a b. ru_priority a \<ge> ru_priority b) (er_matching (deny_overrides rs))"
  "er_allowed (deny_overrides rs) \<longleftrightarrow> (\<exists>r \<in> set rs. ru_effect r = Allow) \<and> (\<forall>r \<in> set rs. ru_effect r \<noteq> Deny)"
proof -
  let ?s = "sort_key (\<lambda>r. - ru_priority r) rs"
  have "sorted (map (\<lambda>r. - ru_priority r) ?s)" by simp
  then show "sorted_wrt (\<lambda>a b. ru_priority a \<ge> ru_priority b) (er_matching (deny_overrides rs))"
    by (simp add: deny_overrides_def Let_def sorted_map)
  show "distinct (map ru_id rs) \<Longrightarrow> distinct (map ru_id (er_matching (deny_overrides rs)))"
    by (simp add: deny_overrides_def Let_def distinct_map)
qed (auto simp: deny_overrides_def Let_def filter_empty_conv)

lemma evaluate_cases:
  assumes "coherent s"
  shows "\<exists>s1. coherent s1 \<and> rule_tables s1 = rule_tables s \<and>
    evaluate_request h now ticks q s =
      (let res = deny_overrides (filter (matches_conditions q) (unique_rules [] (candidates q s)))
       in bindS (rule_audit h now (check_request q res)) (\<lambda>_. returnS res) s1)"
proof -
  from cached_rules.looks_ok [of s "rule_tables s" ticks "request_targets q"] assms
  obtain s1 where "mapS (\<lambda>(t, i). rules_for_target ticks t i) (request_targets q) s =
      (Inr (map (\<lambda>(t, i). bound_rules t i s) (request_targets q)), s1)"
    "coherent s1" "rule_tables s1 = rule_tables s" by blast
  then show ?thesis
    by (intro exI [of _ s1]) (simp add: evaluate_request_def bindS_Inr candidates_def Let_def)
qed

lemma evaluate_result:
  assumes "coherent s" "evaluate_request h now ticks q s = (r, s')"
  shows "(case r of
      Inr res \<Rightarrow> res = deny_overrides (filter (matches_conditions q) (unique_rules [] (candidates q s)))
    | Inl e \<Rightarrow> rb_audited s) \<and> coherent s' \<and> rule_tables s' = rule_tables s"
proof -
  from evaluate_cases [OF assms(1), of h now ticks q] obtain s1 where s1: "coherent s1" "rule_tables s1 = rule_tables s"
    "evaluate_request h now ticks q s =
      (let res = deny_overrides (filter (matches_conditions q) (unique_rules [] (candidates q s)))
       in bindS (rule_audit h now (check_request q res)) (\<lambda>_. returnS res) s1)" by blast
  define res where "res = deny_overrides (filter (matches_conditions q) (unique_rules [] (candidates q s)))"
  obtain a s2 where a: "rule_audit h now (check_request q res) s1 = (a, s2)"
    by (cases "rule_audit h now (check_request q res) s1") auto
  have s2: "coherent s2 \<and> rule_tables s2 = rule_tables s"
    using rule_audit_same [of h now "check_request q res" s1] a s1(1,2) coherent_cong [of s2 s1] by simp
  have run: "(r, s') = bindS (rule_audit h now (check_request q res)) (\<lambda>_. returnS res) s1"
    using assms(2) s1(3) by (simp add: res_def Let_def)
  show ?thesis
  proof (cases a)
    case (Inl e)
    have "rb_audited s1" using a Inl rule_audit_quiet [of s1] by (cases "rb_audited s1") auto
    then have "rb_audited s" using s1(2) by (simp add: rule_tables_def)
    with run Inl a s2 show ?thesis by (simp add: bindS_def)
  next
    case (Inr u)
    with run a s2 show ?thesis by (simp add: bindS_def res_def)
  qed
qed

section \<open>Explanations\<close>

lemma condition_matches_all: "list_all cm_matched (condition_matches q conds) \<longleftrightarrow>
  cond_ok ''action'' (Some (aq_action q)) conds \<and> cond_ok ''principal_kind'' (aq_kind q) conds
  \<and> cond_ok ''object_type'' (aq_type q) conds \<and> cond_ok ''scope_id'' (aq_scope q) conds"
  by (auto simp: condition_matches_def cond_ok_def value_matches_def split: option.splits)

lemma explain_matched: "xp_matched (explain_match q (r, t, i)) = matches_conditions q r"
  by (simp add: explain_match_def matches_conditions_def Let_def condition_matches_all)

lemma explain_rule [simp]: "xp_rule (explain_match q c) = fst c"
  by (simp add: explain_match_def Let_def split: prod.splits)

lemma explain_matched_fst: "xp_matched (explain_match q c) = matches_conditions q (fst c)"
  using explain_matched [of q "fst c" "fst (snd c)" "snd (snd c)"] by simp

lemma unique_candidates_rules: "map fst (unique_candidates seen cs) = unique_rules seen (map fst cs)"
  by (induction seen cs rule: unique_candidates.induct) auto

lemma explained_rules:
  "map xp_rule (filter xp_matched (map (explain_match q) cs)) = filter (matches_conditions q) (map fst cs)"
  by (induction cs) (auto simp: explain_matched_fst)

lemma explanation_result:
  assumes "coherent s"
  shows "\<exists>ex s'. evaluate_with_explanation ticks q s = (Inr ex, s') \<and> coherent s' \<and> rule_tables s' = rule_tables s \<and>
    map xp_rule (ee_explanations ex) = unique_rules [] (candidates (q\<lparr>aq_env := None\<rparr>) s) \<and>
    (\<forall>x \<in> set (ee_explanations ex). xp_matched x = matches_conditions q (xp_rule x)) \<and>
    ee_result ex = deny_overrides (filter (matches_conditions q) (unique_rules [] (candidates (q\<lparr>aq_env := None\<rparr>) s)))"
proof -
  let ?ts = "request_targets (q\<lparr>aq_env := None\<rparr>)"
  let ?cs = "concat (map (\<lambda>(t, i). map (\<lambda>r. (r, t, i)) (bound_rules t i s)) ?ts)"
  from cached_rules.tagged_looks_ok [of s "rule_tables s" ticks ?ts] assms
  obtain s1 where s1: "mapS (\<lambda>(t, i). bindS (rules_for_target ticks t i) (\<lambda>rs. returnS (map (\<lambda>r. (r, t, i)) rs))) ?ts s =
      (Inr (map (\<lambda>(t, i). map (\<lambda>r. (r, t, i)) (bound_rules t i s)) ?ts), s1)"
    "coherent s1" "rule_tables s1 = rule_tables s" by blast
  have "map fst ?cs = candidates (q\<lparr>aq_env := None\<rparr>) s"
    by (simp add: candidates_def map_concat comp_def case_prod_unfold)
  then have u: "map fst (unique_candidates [] ?cs) = unique_rules [] (candidates (q\<lparr>aq_env := None\<rparr>) s)"
    by (simp add: unique_candidates_rules)
  define xs where "xs = map (explain_match q) (unique_candidates [] ?cs)"
  have "map xp_rule xs = unique_rules [] (candidates (q\<lparr>aq_env := None\<rparr>) s)"
    using u by (simp add: xs_def comp_def)
  moreover have "map xp_rule (filter xp_matched xs) =
      filter (matches_conditions q) (unique_rules [] (candidates (q\<lparr>aq_env := None\<rparr>) s))"
    unfolding xs_def explained_rules u ..
  moreover have "\<forall>x \<in> set xs. xp_matched x = matches_conditions q (xp_rule x)"
    by (auto simp: xs_def explain_matched_fst)
  moreover have "evaluate_with_explanation ticks q s =
      (Inr \<lparr>ee_result = deny_overrides (map xp_rule (filter xp_matched xs)), ee_explanations = xs,
        ee_summary = summarise (deny_overrides (map xp_rule (filter xp_matched xs)))\<rparr>, s1)"
    using s1(1) by (simp add: evaluate_with_explanation_def bindS_Inr Let_def xs_def)
  ultimately show ?thesis using s1(2,3) by simp
qed

end
