(* ===== verification/V1_Rule_Checks.thy ===== *)
theory V1_Rule_Checks
  imports V1_Rules
begin

text \<open>
  The engines that read rules of one type: field redaction (\<open>redaction.py\<close>), rate limits over the
  audit trail (\<open>rate_limit.py\<close>), quotas (\<open>quotas.py\<close>) and feature flags (\<open>features.py\<close>).

  Conditions are JSON, so a malformed configuration raises what Python raises: a missing key
  (\<open>V1KeyError\<close>), a value of the wrong type (\<open>V1TypeError\<close>), a method of another type
  (\<open>V1AttributeError\<close>), an unknown enum value (\<open>V1ValueError\<close>).
\<close>

section \<open>Reading conditions\<close>

text \<open>The active rules of one type, as \<open>_get_rules_by_type\<close> and its twins list them.\<close>

definition rules_of_type :: "rule_type \<Rightarrow> rule list \<Rightarrow> rule list" where
  "rules_of_type t = filter (\<lambda>r. ru_type r = t \<and> ru_lifecycle r = Active)"

text \<open>\<open>cfg.get(key, dflt)\<close> and \<open>cfg[key]\<close> on a parsed value.\<close>

fun json_get :: "json \<Rightarrow> string \<Rightarrow> json \<Rightarrow> v1_error + json" where
  "json_get (JObj m) key dflt = Inr (meta_get m key dflt)"
| "json_get _ key dflt = Inl V1AttributeError"

fun json_item :: "json \<Rightarrow> string \<Rightarrow> v1_error + json" where
  "json_item (JObj m) key = (case map_of m key of None \<Rightarrow> Inl V1KeyError | Some v \<Rightarrow> Inr v)"
| "json_item _ key = Inl V1TypeError"

text \<open>A value used as a number: integers, and truth values, which are integers in Python.\<close>

fun json_int :: "json \<Rightarrow> v1_error + int" where
  "json_int (JInt i) = Inr i"
| "json_int (JBool b) = Inr (if b then 1 else 0)"
| "json_int _ = Inl V1TypeError"

fun json_truthy :: "json \<Rightarrow> bool" where
  "json_truthy JNull = False"
| "json_truthy (JBool b) = b"
| "json_truthy (JInt i) = (i \<noteq> 0)"
| "json_truthy (JStr s) = (s \<noteq> [])"
| "json_truthy (JArr xs) = (xs \<noteq> [])"
| "json_truthy (JObj m) = (m \<noteq> [])"

section \<open>Redaction\<close>

datatype redaction_strategy = Mask | Replace | Omit

definition strategy_of :: "json \<Rightarrow> v1_error + redaction_strategy" where
  "strategy_of v =
     (if v = JStr ''mask'' then Inr Mask else if v = JStr ''replace'' then Inr Replace
      else if v = JStr ''omit'' then Inr Omit else Inl V1ValueError)"

record field_redaction =
  fr_field :: string
  fr_strategy :: redaction_strategy
  fr_mask :: json
  fr_visible :: json
  fr_replacement :: json

definition redaction_from_dict :: "string \<Rightarrow> json \<Rightarrow> v1_error + field_redaction" where
  "redaction_from_dict field config =
     bindE (json_get config ''strategy'' (JStr ''replace'')) (\<lambda>sv.
     bindE (strategy_of sv) (\<lambda>strategy.
     bindE (json_get config ''mask_char'' (JStr ''*'')) (\<lambda>mask.
     bindE (json_get config ''visible_chars'' (JInt 0)) (\<lambda>visible.
     bindE (json_get config ''replacement'' (JStr ''[REDACTED]'')) (\<lambda>replacement.
       Inr \<lparr>fr_field = field, fr_strategy = strategy, fr_mask = mask, fr_visible = visible,
            fr_replacement = replacement\<rparr>)))))"

record redaction_result =
  rd_data :: metadata
  rd_fields :: "string list"
  rd_rules :: "string list"

definition redaction_matches :: "string option \<Rightarrow> string option \<Rightarrow> string option \<Rightarrow> rule \<Rightarrow> bool" where
  "redaction_matches object_type kind scope_id r \<longleftrightarrow>
     cond_ok ''object_type'' object_type (ru_conditions r) \<and> cond_ok ''principal_kind'' kind (ru_conditions r)
     \<and> cond_ok ''scope_id'' scope_id (ru_conditions r)"

text \<open>\<open>x * n\<close> for the values that have it.\<close>

fun json_times :: "json \<Rightarrow> nat \<Rightarrow> v1_error + json" where
  "json_times (JStr s) n = Inr (JStr (concat (replicate n s)))"
| "json_times (JArr xs) n = Inr (JArr (concat (replicate n xs)))"
| "json_times (JInt i) n = Inr (JInt (i * int n))"
| "json_times (JBool b) n = Inr (JInt (if b then int n else 0))"
| "json_times _ n = Inl V1TypeError"

text \<open>\<open>masked + s\<close> with a string on the right.\<close>

fun json_append :: "json \<Rightarrow> string \<Rightarrow> v1_error + json" where
  "json_append (JStr m) s = Inr (JStr (m @ s))"
| "json_append _ s = Inl V1TypeError"

text \<open>
  \<open>show\<close> is Python's \<open>str\<close> on values: the value itself for a text. \<open>s[-n:]\<close> are the last \<open>n\<close>
  characters.
\<close>

definition redact_value :: "(json \<Rightarrow> string) \<Rightarrow> json \<Rightarrow> field_redaction \<Rightarrow> v1_error + json" where
  "redact_value show value fr =
     (case fr_strategy fr of
        Replace \<Rightarrow> Inr (fr_replacement fr)
      | Mask \<Rightarrow>
          let s = show value
          in bindE (json_int (fr_visible fr)) (\<lambda>n.
               if n > 0 \<and> int (length s) > n
               then bindE (json_times (fr_mask fr) (length s - nat n)) (\<lambda>masked.
                      json_append masked (drop (length s - nat n) s))
               else json_times (fr_mask fr) (length s))
      | Omit \<Rightarrow> Inr value)"

definition meta_del :: "string \<Rightarrow> metadata \<Rightarrow> metadata" where
  "meta_del k = filter (\<lambda>(k', v). k' \<noteq> k)"

definition note_field :: "string \<Rightarrow> string list \<Rightarrow> string list" where
  "note_field f fs = (if f \<in> set fs then fs else fs @ [f])"

definition redact_field ::
  "(json \<Rightarrow> string) \<Rightarrow> string \<times> json \<Rightarrow> metadata \<times> string list \<Rightarrow> v1_error + metadata \<times> string list" where
  "redact_field show fc acc =
     (let (field, config) = fc; (result, redacted) = acc
      in bindE (redaction_from_dict field config) (\<lambda>fr.
           case map_of result field of
             None \<Rightarrow> Inr (result, redacted)
           | Some value \<Rightarrow>
               if fr_strategy fr = Omit then Inr (meta_del field result, note_field field redacted)
               else bindE (redact_value show value fr) (\<lambda>v.
                      Inr (meta_set field v result, note_field field redacted))))"

definition redact_rule ::
  "(json \<Rightarrow> string) \<Rightarrow> string option \<Rightarrow> string option \<Rightarrow> string option \<Rightarrow> rule \<Rightarrow>
   metadata \<times> string list \<times> string list \<Rightarrow> v1_error + metadata \<times> string list \<times> string list" where
  "redact_rule show object_type kind scope_id r acc =
     (let (result, redacted, applied) = acc; cfg = meta_get (ru_conditions r) ''redactions'' (JObj [])
      in if \<not> redaction_matches object_type kind scope_id r then Inr acc
         else if \<not> json_truthy cfg then Inr acc
         else case cfg of
                JObj items \<Rightarrow>
                  bindE (foldE (redact_field show) items (result, redacted)) (\<lambda>(result', redacted').
                    Inr (result', redacted', applied @ [ru_id r]))
              | _ \<Rightarrow> Inl V1AttributeError)"

definition redact ::
  "(json \<Rightarrow> string) \<Rightarrow> rule list \<Rightarrow> metadata \<Rightarrow> string option \<Rightarrow> string option \<Rightarrow> string option \<Rightarrow>
   v1_error + redaction_result" where
  "redact show rules data object_type kind scope_id =
     bindE (foldE (redact_rule show object_type kind scope_id) (rules_of_type RedactionRule rules) (data, [], []))
       (\<lambda>(result, redacted, applied). Inr \<lparr>rd_data = result, rd_fields = redacted, rd_rules = applied\<rparr>)"

section \<open>Rate limits\<close>

record rate_limit_result =
  rl_current :: nat
  rl_max :: int
  rl_window :: int
  rl_rule :: string

text \<open>\<open>None\<close>: the rule has no limit.\<close>

definition rate_limit_config :: "rule \<Rightarrow> v1_error + (json \<times> json) option" where
  "rate_limit_config r =
     (case meta_get (ru_conditions r) ''rate_limit'' JNull of
        JNull \<Rightarrow> Inr None
      | cfg \<Rightarrow> bindE (json_item cfg ''max_count'') (\<lambda>m.
               bindE (json_item cfg ''window_seconds'') (\<lambda>w. Inr (Some (m, w)))))"

definition count_actions ::
  "(int \<Rightarrow> string) \<Rightarrow> string \<Rightarrow> string option \<Rightarrow> string option \<Rightarrow> int \<Rightarrow> trace list \<Rightarrow> nat" where
  "count_actions cutoff action who scope_id window rows =
     length (filter (\<lambda>t. tr_action t = action \<and> tr_time t \<ge> cutoff window \<and> given who (tr_actor t)
       \<and> (case scope_id of None \<Rightarrow> True | Some i \<Rightarrow> tr_scope t = Some i)) rows)"

fun rate_limit_scan ::
  "(int \<Rightarrow> string) \<Rightarrow> string \<Rightarrow> string option \<Rightarrow> string option \<Rightarrow> trace list \<Rightarrow> rule list \<Rightarrow>
   v1_error + rate_limit_result option" where
  "rate_limit_scan cutoff action who scope_id rows [] = Inr None"
| "rate_limit_scan cutoff action who scope_id rows (r # rs) =
     (if \<not> cond_ok ''action'' (Some action) (ru_conditions r)
      then rate_limit_scan cutoff action who scope_id rows rs
      else bindE (rate_limit_config r) (\<lambda>config.
        case config of
          None \<Rightarrow> rate_limit_scan cutoff action who scope_id rows rs
        | Some (m, w) \<Rightarrow>
            bindE (json_int w) (\<lambda>window.
            let n = count_actions cutoff action who scope_id window rows
            in bindE (json_int m) (\<lambda>limit.
               if int n \<ge> limit
               then Inr (Some \<lparr>rl_current = n, rl_max = limit, rl_window = window, rl_rule = ru_id r\<rparr>)
               else rate_limit_scan cutoff action who scope_id rows rs))))"

definition rate_limit_check ::
  "(int \<Rightarrow> string) \<Rightarrow> rule list \<Rightarrow> string \<Rightarrow> string option \<Rightarrow> string option \<Rightarrow> trace list \<Rightarrow>
   v1_error + rate_limit_result option" where
  "rate_limit_check cutoff rules action who scope_id rows =
     rate_limit_scan cutoff action who scope_id rows (rules_of_type RateLimitRule rules)"

definition rate_limit_or_raise ::
  "(int \<Rightarrow> string) \<Rightarrow> rule list \<Rightarrow> string \<Rightarrow> string option \<Rightarrow> string option \<Rightarrow> trace list \<Rightarrow> v1_error + unit" where
  "rate_limit_or_raise cutoff rules action who scope_id rows =
     bindE (rate_limit_check cutoff rules action who scope_id rows) (\<lambda>res.
       if res \<noteq> None then Inl RateLimitExceeded else Inr ())"

section \<open>Quotas\<close>

definition allowed_tables :: "string list" where
  "allowed_tables =
     [''scoped_objects'', ''scopes'', ''environments'', ''secrets'', ''contracts'', ''rules'',
      ''integrations'', ''plugins'']"

definition allowed_columns :: "string list" where
  "allowed_columns =
     [''id'', ''object_type'', ''owner_id'', ''registry_entry_id'', ''current_version'', ''created_at'',
      ''lifecycle'', ''name'', ''description'', ''parent_scope_id'', ''scope_id'', ''classification'',
      ''state'', ''ephemeral'', ''kind'', ''integration_type'', ''role'']"

text \<open>\<open>v not in names\<close> for a frozen set of texts: lists and dicts cannot be hashed.\<close>

definition named_in :: "string list \<Rightarrow> json \<Rightarrow> v1_error + bool" where
  "named_in names v =
     (case v of JArr _ \<Rightarrow> Inl V1TypeError | JObj _ \<Rightarrow> Inl V1TypeError
      | _ \<Rightarrow> Inr (v \<in> JStr ` set names))"

record quota_config =
  qc_max :: json
  qc_table :: json
  qc_column :: json
  qc_value :: json
  qc_scope :: json

definition quota_object_type :: "rule \<Rightarrow> json" where
  "quota_object_type r =
     (case meta_get (ru_conditions r) ''object_type'' JNull of
        JArr [] \<Rightarrow> JNull | JArr (x # _) \<Rightarrow> x | v \<Rightarrow> v)"

definition quota_parse :: "rule \<Rightarrow> json \<Rightarrow> v1_error + quota_config option" where
  "quota_parse r cfg =
     bindE (json_get cfg ''count_table'' (JStr ''scoped_objects'')) (\<lambda>table.
     bindE (json_get cfg ''count_column'' (JStr ''object_type'')) (\<lambda>column.
     bindE (json_get cfg ''scope_column'' JNull) (\<lambda>scope_column.
     bindE (named_in allowed_tables table) (\<lambda>table_ok.
     if \<not> table_ok then Inr None
     else bindE (named_in allowed_columns column) (\<lambda>column_ok.
       if \<not> column_ok then Inr None
       else bindE (if scope_column = JNull then Inr True else named_in allowed_columns scope_column) (\<lambda>scope_ok.
         if \<not> scope_ok then Inr None
         else
           bindE (json_item cfg ''max_count'') (\<lambda>m.
           bindE (json_get cfg ''count_value''
                   (if json_truthy (quota_object_type r) then quota_object_type r else JStr '''')) (\<lambda>value.
             Inr (Some \<lparr>qc_max = m, qc_table = table, qc_column = column, qc_value = value,
                        qc_scope = scope_column\<rparr>)))))))))"

definition quota_config_of :: "rule \<Rightarrow> v1_error + quota_config option" where
  "quota_config_of r =
     (case meta_get (ru_conditions r) ''quota'' JNull of
        JNull \<Rightarrow> Inr None
      | cfg \<Rightarrow> quota_parse r cfg)"

text \<open>The counting query: the table and the columns that must equal given values.\<close>

definition count_query :: "quota_config \<Rightarrow> string option \<Rightarrow> json \<times> (json \<times> json) list" where
  "count_query c scope_id =
     (qc_table c,
      [(qc_column c, qc_value c)] @
      (case scope_id of
         None \<Rightarrow> []
       | Some i \<Rightarrow>
           if json_truthy (qc_scope c) then [(qc_scope c, JStr i)]
           else if qc_table c = JStr ''scoped_objects'' then [(JStr ''scope_id'', JStr i)] else []) @
      [(JStr ''lifecycle'', JStr ''ACTIVE'')])"

record quota_result =
  qr_current :: int
  qr_max :: int
  qr_rule :: string
  qr_type :: string

text \<open>\<open>run\<close> executes a counting query, in the database or inside a transaction.\<close>

fun quota_scan ::
  "(json \<times> (json \<times> json) list \<Rightarrow> v1_error + int) \<Rightarrow> string \<Rightarrow> string option \<Rightarrow> rule list \<Rightarrow>
   v1_error + quota_result option" where
  "quota_scan run object_type scope_id [] = Inr None"
| "quota_scan run object_type scope_id (r # rs) =
     (if \<not> cond_ok ''object_type'' (Some object_type) (ru_conditions r) then quota_scan run object_type scope_id rs
      else bindE (quota_config_of r) (\<lambda>config.
        case config of
          None \<Rightarrow> quota_scan run object_type scope_id rs
        | Some c \<Rightarrow>
            bindE (run (count_query c scope_id)) (\<lambda>n.
            bindE (json_int (qc_max c)) (\<lambda>limit.
              if n \<ge> limit
              then Inr (Some \<lparr>qr_current = n, qr_max = limit, qr_rule = ru_id r, qr_type = object_type\<rparr>)
              else quota_scan run object_type scope_id rs))))"

definition quota_check ::
  "(json \<times> (json \<times> json) list \<Rightarrow> v1_error + int) \<Rightarrow> rule list \<Rightarrow> string \<Rightarrow> string option \<Rightarrow>
   v1_error + quota_result option" where
  "quota_check run rules object_type scope_id = quota_scan run object_type scope_id (rules_of_type QuotaRule rules)"

definition quota_or_raise ::
  "(json \<times> (json \<times> json) list \<Rightarrow> v1_error + int) \<Rightarrow> rule list \<Rightarrow> string \<Rightarrow> string option \<Rightarrow> v1_error + unit" where
  "quota_or_raise run rules object_type scope_id =
     bindE (quota_check run rules object_type scope_id) (\<lambda>res.
       if res \<noteq> None then Inl QuotaExceeded else Inr ())"

record quota_usage =
  qu_current :: int
  qu_max :: int
  qu_remaining :: int

fun usage_scan ::
  "(json \<times> (json \<times> json) list \<Rightarrow> v1_error + int) \<Rightarrow> string \<Rightarrow> string option \<Rightarrow> rule list \<Rightarrow>
   (string \<times> quota_usage) list \<Rightarrow> v1_error + (string \<times> quota_usage) list" where
  "usage_scan run object_type scope_id [] usage = Inr usage"
| "usage_scan run object_type scope_id (r # rs) usage =
     (if \<not> cond_ok ''object_type'' (Some object_type) (ru_conditions r) then usage_scan run object_type scope_id rs usage
      else bindE (quota_config_of r) (\<lambda>config.
        case config of
          None \<Rightarrow> usage_scan run object_type scope_id rs usage
        | Some c \<Rightarrow>
            bindE (run (count_query c scope_id)) (\<lambda>n.
            bindE (json_int (qc_max c)) (\<lambda>limit.
              usage_scan run object_type scope_id rs
                (filter (\<lambda>(k, _). k \<noteq> ru_id r) usage @
                  [(ru_id r, \<lparr>qu_current = n, qu_max = limit, qu_remaining = max 0 (limit - n)\<rparr>)])))))"

definition quota_get_usage ::
  "(json \<times> (json \<times> json) list \<Rightarrow> v1_error + int) \<Rightarrow> rule list \<Rightarrow> string \<Rightarrow> string option \<Rightarrow>
   v1_error + (string \<times> quota_usage) list" where
  "quota_get_usage run rules object_type scope_id =
     usage_scan run object_type scope_id (rules_of_type QuotaRule rules) []"

section \<open>Feature flags\<close>

record flag_config =
  ff_name :: json
  ff_enabled :: json
  ff_rollout :: json

definition flag_config_of :: "rule \<Rightarrow> v1_error + flag_config option" where
  "flag_config_of r =
     (case meta_get (ru_conditions r) ''feature_flag'' JNull of
        JNull \<Rightarrow> Inr None
      | cfg \<Rightarrow>
          bindE (json_item cfg ''feature_name'') (\<lambda>name.
          bindE (json_get cfg ''enabled'' (JBool True)) (\<lambda>enabled.
          bindE (json_get cfg ''rollout_percentage'' (JInt 100)) (\<lambda>rollout.
            Inr (Some \<lparr>ff_name = name, ff_enabled = enabled, ff_rollout = rollout\<rparr>)))))"

record flag_result =
  fl_enabled :: json
  fl_name :: string
  fl_rule :: "string option"
  fl_rollout :: json

fun flag_matching :: "string \<Rightarrow> string option \<Rightarrow> rule list \<Rightarrow> v1_error + rule list" where
  "flag_matching feature scope_id [] = Inr []"
| "flag_matching feature scope_id (r # rs) =
     bindE (flag_config_of r) (\<lambda>config.
     bindE (flag_matching feature scope_id rs) (\<lambda>rest.
       Inr (case config of
              None \<Rightarrow> rest
            | Some c \<Rightarrow>
                if ff_name c = JStr feature \<and> cond_ok ''scope_id'' scope_id (ru_conditions r) then r # rest else rest)))"

text \<open>The first eight digits of a hexadecimal digest, as a number, modulo one hundred.\<close>

definition rollout_bucket :: "v1_host \<Rightarrow> string \<Rightarrow> string \<Rightarrow> int" where
  "rollout_bucket h feature who =
     int (foldl (\<lambda>n c. 16 * n + hex_val c) 0 (take 8 (v_hash h (who @ '':'' @ feature))) mod 100)"

definition in_rollout :: "v1_host \<Rightarrow> string \<Rightarrow> string \<Rightarrow> int \<Rightarrow> bool" where
  "in_rollout h feature who percentage \<longleftrightarrow> rollout_bucket h feature who < percentage"

definition flag_decide :: "v1_host \<Rightarrow> string \<Rightarrow> string option \<Rightarrow> flag_config \<Rightarrow> v1_error + json" where
  "flag_decide h feature who c =
     (if \<not> json_truthy (ff_enabled c) then Inr (ff_enabled c)
      else bindE (json_int (ff_rollout c)) (\<lambda>p.
        Inr (if p < 100 \<and> or_default who '''' \<noteq> ''''
             then JBool (in_rollout h feature (or_default who '''') p) else ff_enabled c)))"

definition flag_is_enabled ::
  "v1_host \<Rightarrow> rule list \<Rightarrow> string \<Rightarrow> string option \<Rightarrow> string option \<Rightarrow> v1_error + flag_result" where
  "flag_is_enabled h rules feature who scope_id =
     bindE (flag_matching feature scope_id (rules_of_type FeatureFlagRule rules)) (\<lambda>matching.
       case sort_key (\<lambda>r. - ru_priority r) matching of
         [] \<Rightarrow> Inr \<lparr>fl_enabled = JBool False, fl_name = feature, fl_rule = None, fl_rollout = JInt 0\<rparr>
       | winner # _ \<Rightarrow>
           bindE (flag_config_of winner) (\<lambda>config.
             case config of
               None \<Rightarrow> Inr \<lparr>fl_enabled = JBool False, fl_name = feature, fl_rule = Some (ru_id winner), fl_rollout = JInt 0\<rparr>
             | Some c \<Rightarrow>
                 bindE (flag_decide h feature who c) (\<lambda>enabled.
                   Inr \<lparr>fl_enabled = enabled, fl_name = feature, fl_rule = Some (ru_id winner), fl_rollout = ff_rollout c\<rparr>)))"

text \<open>Membership in a set of JSON values: equal keys hash alike, lists and dicts do not hash.\<close>

fun hash_key :: "json \<Rightarrow> v1_error + json" where
  "hash_key (JBool b) = Inr (JInt (if b then 1 else 0))"
| "hash_key (JArr xs) = Inl V1TypeError"
| "hash_key (JObj m) = Inl V1TypeError"
| "hash_key v = Inr v"

fun flag_list :: "json list \<Rightarrow> rule list \<Rightarrow> v1_error + flag_config list" where
  "flag_list seen [] = Inr []"
| "flag_list seen (r # rs) =
     bindE (flag_config_of r) (\<lambda>config.
       case config of
         None \<Rightarrow> flag_list seen rs
       | Some c \<Rightarrow>
           bindE (hash_key (ff_name c)) (\<lambda>k.
             if k \<in> set seen then flag_list seen rs
             else bindE (flag_list (k # seen) rs) (\<lambda>cs. Inr (c # cs))))"

definition list_flags :: "rule list \<Rightarrow> v1_error + flag_config list" where
  "list_flags rules = flag_list [] (rules_of_type FeatureFlagRule rules)"

end
