(* ===== verification/V1_Rule_Checks_Facts.thy ===== *)
theory V1_Rule_Checks_Facts
  imports V1_Rule_Checks
begin

text \<open>
  Facts about redaction, limits and feature flags. Rate limits and quotas share one contract, the
  scan for the first violated rule, stated as a locale and interpreted for both.
\<close>

section \<open>Redaction\<close>

lemma map_of_meta_del: "map_of (meta_del k m) = (map_of m)(k := None)"
  by (induction m) (auto simp: meta_del_def fun_eq_iff)

text \<open>What one configuration makes of the value of its field, if it is there.\<close>

definition redacted :: "(json \<Rightarrow> string) \<Rightarrow> string \<Rightarrow> json \<Rightarrow> json option \<Rightarrow> json option" where
  "redacted show f config old =
     (case (old, redaction_from_dict f config) of
        (Some x, Inr fr) \<Rightarrow>
          if fr_strategy fr = Omit then None
          else (case redact_value show x fr of Inr y \<Rightarrow> Some y | Inl e \<Rightarrow> None)
      | _ \<Rightarrow> None)"

lemma redacted_None [simp]: "redacted show f config None = None"
  by (simp add: redacted_def)

lemma redact_field_Inr:
  assumes "redact_field show (f, config) (m, fs) = Inr (m', fs')"
  shows "map_of m' = (map_of m)(f := redacted show f config (map_of m f)) \<and>
    set fs' = set fs \<union> (if map_of m f = None then {} else {f})"
proof -
  from assms obtain fr where fr: "redaction_from_dict f config = Inr fr"
    by (auto simp: redact_field_def bindE_Inr_iff)
  show ?thesis
  proof (cases "map_of m f")
    case None
    with assms fr show ?thesis by (auto simp: redact_field_def)
  next
    case (Some v)
    have "map_of m' = (map_of m)(f := redacted show f config (Some v)) \<and> fs' = note_field f fs"
    proof (cases "fr_strategy fr = Omit")
      case True
      with assms fr Some have "m' = meta_del f m" "fs' = note_field f fs" by (simp_all add: redact_field_def)
      with True fr show ?thesis by (simp add: redacted_def map_of_meta_del)
    next
      case False
      with assms fr Some obtain w where "redact_value show v fr = Inr w" "m' = meta_set f w m" "fs' = note_field f fs"
        by (auto simp: redact_field_def bindE_Inr_iff)
      with False fr show ?thesis by (simp add: redacted_def map_of_meta_set)
    qed
    with Some show ?thesis by (auto simp: note_field_def)
  qed
qed

text \<open>The configurations of one field among those of all fields.\<close>

definition configs_of :: "string \<Rightarrow> (string \<times> json) list \<Rightarrow> json list" where
  "configs_of f items = map snd (filter (\<lambda>i. fst i = f) items)"

lemma redact_fields_Inr:
  assumes "foldE (redact_field show) items (m, fs) = Inr (m', fs')"
  shows "(\<forall>f. map_of m' f = fold (redacted show f) (configs_of f items) (map_of m f)) \<and>
    set fs' = set fs \<union> {f \<in> fst ` set items. map_of m f \<noteq> None}"
  using assms
proof (induction items arbitrary: m fs)
  case (Cons item items)
  obtain f config where item: "item = (f, config)" by (cases item)
  from Cons.prems obtain m1 fs1 where one: "redact_field show (f, config) (m, fs) = Inr (m1, fs1)"
    and rest: "foldE (redact_field show) items (m1, fs1) = Inr (m', fs')"
    by (auto simp: item bindE_Inr_iff)
  note a = redact_field_Inr [OF one]
  have "map_of m' g = fold (redacted show g) (configs_of g (item # items)) (map_of m g)" for g
    using Cons.IH [OF rest] a by (simp add: item configs_of_def)
  moreover have "set fs' = set fs \<union> {g \<in> fst ` set (item # items). map_of m g \<noteq> None}"
    using Cons.IH [OF rest] a by (auto simp: item)
  ultimately show ?case by blast
qed (simp add: configs_of_def)

definition rule_items :: "rule \<Rightarrow> (string \<times> json) list" where
  "rule_items r = (case meta_get (ru_conditions r) ''redactions'' (JObj []) of JObj items \<Rightarrow> items | _ \<Rightarrow> [])"

lemma redact_rule_Inr:
  assumes "redact_rule show ot kind sid r (m, fs, ap) = Inr (m', fs', ap')"
  shows "foldE (redact_field show) (if redaction_matches ot kind sid r then rule_items r else []) (m, fs) = Inr (m', fs')"
  using assms
  by (auto simp: redact_rule_def Let_def rule_items_def bindE_Inr_iff split: if_splits json.splits)

text \<open>Rules apply one after the other, so the configurations of all matching rules do.\<close>

lemma redact_rules_Inr:
  "foldE (redact_rule show ot kind sid) rs (m, fs, ap) = Inr (m', fs', ap') \<Longrightarrow>
    foldE (redact_field show) (concat (map rule_items (filter (redaction_matches ot kind sid) rs))) (m, fs) = Inr (m', fs')"
proof (induction rs arbitrary: m fs ap)
  case (Cons r rs)
  from Cons.prems obtain m1 fs1 ap1 where one: "redact_rule show ot kind sid r (m, fs, ap) = Inr (m1, fs1, ap1)"
    and rest: "foldE (redact_rule show ot kind sid) rs (m1, fs1, ap1) = Inr (m', fs', ap')"
    by (auto simp: bindE_Inr_iff)
  from redact_rule_Inr [OF one] Cons.IH [OF rest] show ?case by (simp add: foldE_append split: if_splits)
qed simp

text \<open>A mask hides all but at most the visible characters at the end.\<close>

lemma redact_value_mask:
  "fr_strategy fr = Mask \<Longrightarrow> fr_mask fr = JStr m \<Longrightarrow> fr_visible fr = JInt n \<Longrightarrow>
    redact_value show x fr = (let s = show x; k = if 0 < n \<and> n < int (length s) then nat n else 0
      in Inr (JStr (concat (replicate (length s - k) m) @ drop (length s - k) s)))"
  by (simp add: redact_value_def Let_def)

section \<open>First violations\<close>

locale first_violation =
  fixes scan :: "'r list \<Rightarrow> v1_error + 'v option"
    and skips :: "'r \<Rightarrow> bool"
    and check :: "'r \<Rightarrow> v1_error + 'v option"
  assumes scan_Nil: "scan [] = Inr None"
    and scan_Cons: "scan (r # rs) =
      (if skips r then scan rs
       else bindE (check r) (\<lambda>x. case x of None \<Rightarrow> scan rs | Some v \<Rightarrow> Inr (Some v)))"
begin

definition passes :: "'r \<Rightarrow> bool" where
  "passes r \<longleftrightarrow> skips r \<or> check r = Inr None"

lemma scan_step: "passes r \<Longrightarrow> scan (r # rs) = scan rs"
  by (auto simp: passes_def scan_Cons)

lemma scan_None: "scan rs = Inr None \<longleftrightarrow> (\<forall>r \<in> set rs. passes r)"
proof (induction rs)
  case (Cons r rs)
  show ?case
  proof (cases "passes r")
    case False
    then have "scan (r # rs) \<noteq> Inr None"
      by (auto simp: passes_def scan_Cons bindE_Inr_iff split: option.splits)
    with False show ?thesis by simp
  qed (simp add: scan_step Cons.IH)
qed (simp add: scan_Nil)

lemma scan_Some: "scan rs = Inr (Some v) \<longleftrightarrow>
  (\<exists>xs r ys. rs = xs @ r # ys \<and> (\<forall>x \<in> set xs. passes x) \<and> \<not> skips r \<and> check r = Inr (Some v))"
proof (induction rs)
  case (Cons r rs)
  show ?case
  proof (cases "passes r")
    case True
    have "(\<exists>xs q ys. r # rs = xs @ q # ys \<and> (\<forall>x \<in> set xs. passes x) \<and> \<not> skips q \<and> check q = Inr (Some v)) \<longleftrightarrow>
        (\<exists>xs q ys. rs = xs @ q # ys \<and> (\<forall>x \<in> set xs. passes x) \<and> \<not> skips q \<and> check q = Inr (Some v))"
      (is "?L \<longleftrightarrow> ?R")
    proof
      assume ?L
      then obtain xs q ys where l: "r # rs = xs @ q # ys" "\<forall>x \<in> set xs. passes x" "\<not> skips q" "check q = Inr (Some v)" by blast
      then have "xs \<noteq> []" using True by (auto simp: passes_def)
      with l show ?R by (cases xs) auto
    next
      assume ?R
      then obtain xs q ys where "rs = xs @ q # ys" "\<forall>x \<in> set xs. passes x" "\<not> skips q" "check q = Inr (Some v)" by blast
      with True show ?L by (intro exI [of _ "r # xs"]) auto
    qed
    with True Cons.IH show ?thesis by (simp add: scan_step)
  next
    case False
    then have f: "\<not> skips r" "check r \<noteq> Inr None" by (auto simp: passes_def)
    then have "scan (r # rs) = Inr (Some v) \<longleftrightarrow> check r = Inr (Some v)"
      by (auto simp: scan_Cons bindE_Inr_iff split: option.splits)
    moreover have "(\<exists>xs q ys. r # rs = xs @ q # ys \<and> (\<forall>x \<in> set xs. passes x) \<and> \<not> skips q \<and> check q = Inr (Some v))
        \<longleftrightarrow> check r = Inr (Some v)"
      using False f by (auto simp: Cons_eq_append_conv intro: exI [of _ "[]"])
    ultimately show ?thesis by simp
  qed
qed (simp add: scan_Nil)

end

text \<open>One rule of each kind.\<close>

definition rate_rule_check ::
  "(int \<Rightarrow> string) \<Rightarrow> string \<Rightarrow> string option \<Rightarrow> string option \<Rightarrow> trace list \<Rightarrow> rule \<Rightarrow> v1_error + rate_limit_result option" where
  "rate_rule_check cutoff action who scope_id rows r =
     bindE (rate_limit_config r) (\<lambda>config.
       case config of
         None \<Rightarrow> Inr None
       | Some (m, w) \<Rightarrow>
           bindE (json_int w) (\<lambda>window.
           bindE (json_int m) (\<lambda>limit.
             let n = count_actions cutoff action who scope_id window rows
             in Inr (if int n \<ge> limit
                     then Some \<lparr>rl_current = n, rl_max = limit, rl_window = window, rl_rule = ru_id r\<rparr> else None))))"

definition quota_rule_check ::
  "(json \<times> (json \<times> json) list \<Rightarrow> v1_error + int) \<Rightarrow> string \<Rightarrow> string option \<Rightarrow> rule \<Rightarrow> v1_error + quota_result option" where
  "quota_rule_check run object_type scope_id r =
     bindE (quota_config_of r) (\<lambda>config.
       case config of
         None \<Rightarrow> Inr None
       | Some c \<Rightarrow>
           bindE (run (count_query c scope_id)) (\<lambda>n.
           bindE (json_int (qc_max c)) (\<lambda>limit.
             Inr (if n \<ge> limit
                  then Some \<lparr>qr_current = n, qr_max = limit, qr_rule = ru_id r, qr_type = object_type\<rparr> else None))))"

interpretation rate_scan: first_violation "rate_limit_scan cutoff action who scope_id rows"
  "\<lambda>r. \<not> cond_ok ''action'' (Some action) (ru_conditions r)" "rate_rule_check cutoff action who scope_id rows"
  for cutoff action who scope_id rows
  by unfold_locales
    (auto simp: rate_rule_check_def bindE_assoc Let_def intro!: bindE_cong split: option.splits)

interpretation quota_scan: first_violation "quota_scan run object_type scope_id"
  "\<lambda>r. \<not> cond_ok ''object_type'' (Some object_type) (ru_conditions r)" "quota_rule_check run object_type scope_id"
  for run object_type scope_id
  by unfold_locales
    (auto simp: quota_rule_check_def bindE_assoc Let_def intro!: bindE_cong split: option.splits)

section \<open>Feature flags\<close>

lemma rollout_bucket_bounds: "0 \<le> rollout_bucket h feature who \<and> rollout_bucket h feature who < 100"
  by (simp add: rollout_bucket_def)

definition flag_applies :: "string \<Rightarrow> string option \<Rightarrow> rule \<Rightarrow> bool" where
  "flag_applies feature scope_id r \<longleftrightarrow> (\<exists>c. flag_config_of r = Inr (Some c) \<and> ff_name c = JStr feature)
     \<and> cond_ok ''scope_id'' scope_id (ru_conditions r)"

lemma flag_matching_Inr:
  "flag_matching feature scope_id rs = Inr ms \<Longrightarrow> ms = filter (flag_applies feature scope_id) rs"
  by (induction rs arbitrary: ms) (auto simp: bindE_Inr_iff flag_applies_def split: option.splits)

lemma sort_key_hd_max:
  assumes "sort_key (\<lambda>r. - f r) rs = w # ws"
  shows "w \<in> set rs \<and> (\<forall>r \<in> set rs. f r \<le> (f w :: int))"
proof -
  have "sorted (map (\<lambda>r. - f r) (w # ws))" using sorted_sort_key [of "\<lambda>r. - f r" rs] assms by simp
  moreover have "set rs = set (w # ws)" using assms by (metis set_sort)
  ultimately show ?thesis by auto
qed

end
