(* ===== verification/V1_Rules_Properties.thy ===== *)
theory V1_Rules_Properties
  imports V1_Rules_Facts V1_Rule_Checks_Facts V1_Audit_Properties
begin

text \<open>
  The rule service as a step system, and its properties: decisions are what the tables say
  whatever the cache holds, explanations agree with them, version histories are complete, and
  redaction, limits and feature flags do what their rules ask.
\<close>

section \<open>The service as a step system\<close>

text \<open>
  Calls of the store that returned, and evaluations with any outcome. A store operation that
  raised after its first write is not a step: it leaves the cache as it was.
\<close>

inductive rule_step :: "v1_host \<Rightarrow> 'x rule_base_scheme \<Rightarrow> 'x rule_base_scheme \<Rightarrow> bool" for h where
  did_create: "create_rule h now name rtype effect conds priority desc actor s = (Inr r, s') \<Longrightarrow> rule_step h s s'"
| did_update: "update_rule h now rid actor conds_opt effect_opt prio_opt reason s = (Inr r, s') \<Longrightarrow> rule_step h s s'"
| did_archive: "archive_rule h now rid actor s = (Inr r, s') \<Longrightarrow> rule_step h s s'"
| did_bind: "bind_rule h now rid target tid actor s = (Inr b, s') \<Longrightarrow> rule_step h s s'"
| did_unbind: "unbind_rule rid target tid s = (Inr found, s') \<Longrightarrow> rule_step h s s'"
| did_evaluate: "evaluate_request h now ticks q s = (res, s') \<Longrightarrow> rule_step h s s'"
| did_explain: "evaluate_with_explanation ticks q s = (ex, s') \<Longrightarrow> rule_step h s s'"

inductive rule_run :: "v1_host \<Rightarrow> 'x rule_base_scheme \<Rightarrow> 'x rule_base_scheme \<Rightarrow> bool" for h s0 where
  rules_start: "rule_run h s0 s0"
| rules_step: "rule_run h s0 s \<Longrightarrow> rule_step h s s' \<Longrightarrow> rule_run h s0 s'"

definition no_rules :: "'x rule_base_scheme \<Rightarrow> bool" where
  "no_rules s \<longleftrightarrow> rb_rules s = [] \<and> rb_versions s = [] \<and> rb_bindings s = []
     \<and> (case rb_cache s of None \<Rightarrow> True | Some c \<Rightarrow> \<forall>k. ca_store c k = None)"

definition service_ok :: "'x rule_base_scheme \<Rightarrow> bool" where
  "service_ok s \<longleftrightarrow> coherent s \<and> rules_ok s \<and> versions_ok s"

lemma no_rules_ok: "no_rules s \<Longrightarrow> service_ok s"
  by (auto simp: no_rules_def service_ok_def coherent_def rules_ok_def versions_ok_def split: option.splits)

lemma versions_ok_cong: "rb_rules s' = rb_rules s \<Longrightarrow> rb_versions s' = rb_versions s \<Longrightarrow> versions_ok s' = versions_ok s"
  by (simp add: versions_ok_def)

lemma archive_rule_Inr:
  assumes "archive_rule h now rid actor s = (Inr r, s')"
  shows "rb_versions s' = rb_versions s \<and>
    rb_rules s' = sql_update_where (\<lambda>x. ru_id x = rid) (\<lambda>x. x\<lparr>ru_lifecycle := Archived\<rparr>) (rb_rules s)"
  using assms
  by (auto simp: archive_rule_def bindS_Inr_iff update_rules_def update_bindings_def get_rule_or_raise_def get_rule_def
      split: option.splits dest!: rule_audit_stable drop_cache_fields)

lemma archive_rule_versions: "archive_rule h now rid actor s = (Inr r, s') \<Longrightarrow> versions_ok s \<Longrightarrow> versions_ok s'"
proof -
  assume a: "archive_rule h now rid actor s = (Inr r, s')" and ok: "versions_ok s"
  note f = archive_rule_Inr [OF a]
  have "\<forall>x \<in> set (rb_rules s'). current_in (rb_versions s) x \<and> numbered_in (rb_versions s) x"
    unfolding conjunct2 [OF f]
    by (rule update_where_ball) (use ok in \<open>auto simp: versions_ok_def current_in_def numbered_in_def\<close>)
  moreover have "ru_id ` set (rb_rules s') = ru_id ` set (rb_rules s)"
    unfolding conjunct2 [OF f] set_map [symmetric] by (simp add: sql_update_where_key)
  ultimately show "versions_ok s'" using ok f by (simp add: versions_ok_def)
qed

lemma bind_rule_same:
  "bind_rule h now rid target tid actor s = (Inr b, s') \<Longrightarrow> rb_rules s' = rb_rules s \<and> rb_versions s' = rb_versions s"
  by (auto simp: bind_rule_def bindS_Inr_iff Let_def fresh_id_def insert_binding_def drop_cache_def split: if_splits)

lemma unbind_rule_same:
  "unbind_rule rid target tid s = (Inr b, s') \<Longrightarrow> rb_rules s' = rb_rules s \<and> rb_versions s' = rb_versions s"
  by (auto simp: unbind_rule_def bindS_Inr_iff update_bindings_def drop_cache_def split: if_splits)

lemma tables_versions: "rule_tables s' = rule_tables s \<Longrightarrow> versions_ok s' = versions_ok s \<and> rb_versions s' = rb_versions s"
  by (simp add: rule_tables_def versions_ok_def)

lemma rule_step_ok:
  "rule_step h s s' \<Longrightarrow> service_ok s \<Longrightarrow> service_ok s' \<and> (\<exists>vs. rb_versions s' = rb_versions s @ vs)"
  unfolding service_ok_def
proof (induction rule: rule_step.induct)
  case (did_create now name rtype effect conds priority desc actor s r s')
  then show ?case
    using create_rule_coherent create_rule_versions keepsD [OF keeps_create_rule] create_rule_Inr by metis
next
  case (did_update now rid actor conds_opt effect_opt prio_opt reason s r s')
  then show ?case
    using update_rule_coherent update_rule_versions keepsD [OF keeps_update_rule] update_rule_Inr by metis
next
  case (did_archive now rid actor s r s')
  then show ?case
    using archive_rule_coherent archive_rule_versions keepsD [OF keeps_archive_rule] archive_rule_Inr
    by (metis append_Nil2)
next
  case (did_bind now rid target tid actor s b s')
  then show ?case
    using bind_rule_coherent keepsD [OF keeps_bind_rule] bind_rule_same versions_ok_cong by (metis append_Nil2)
next
  case (did_unbind rid target tid s found s')
  then show ?case
    using unbind_rule_coherent keepsD [OF keeps_unbind_rule] unbind_rule_same versions_ok_cong by (metis append_Nil2)
next
  case (did_evaluate now ticks q s res s')
  then show ?case
    using evaluate_result keepsD [OF keeps_evaluate] tables_versions by (metis append_Nil2)
next
  case (did_explain ticks q s ex s')
  then show ?case
    using explanation_result [of s ticks q] keepsD [OF keeps_explain] tables_versions by (metis append_Nil2 snd_conv)
qed

lemma rule_run_ok:
  "rule_run h s0 s \<Longrightarrow> service_ok s0 \<Longrightarrow> service_ok s \<and> (\<exists>vs. rb_versions s = rb_versions s0 @ vs)"
proof (induction rule: rule_run.induct)
  case (rules_step s s')
  then show ?case using rule_step_ok by (metis append.assoc)
qed simp

section \<open>A sample service\<close>

definition rules0 :: rule_base where
  "rules0 = \<lparr>w_next = 0, w_trail = [], w_seq = 0, w_last = '''', rb_audited = True, rb_rules = [], rb_versions = [],
     rb_bindings = [], rb_cache = Some (new_cache 60)\<rparr>"

definition clock0 :: "binding_target \<Rightarrow> int \<times> int" where
  "clock0 t = (0, 0)"

text \<open>Reading is allowed in scope s1, deleting is denied there, and a first check fills the cache.\<close>

definition read_request :: access_request where
  "read_request = \<lparr>aq_action = ''read'', aq_principal = Some ''ann'', aq_kind = Some ''user'', aq_type = Some ''Document'',
     aq_object = None, aq_scope = Some ''s1'', aq_env = None\<rparr>"

definition allowed1 :: "(v1_error + rule) \<times> rule_base" where
  "allowed1 = create_rule v1_host0 ''2024-01-01'' ''readers'' AccessRule Allow (Some [(''action'', JArr [JStr ''read'', JStr ''delete''])])
     0 '''' ''ann'' rules0"

definition bound1 :: "(v1_error + rule_binding) \<times> rule_base" where
  "bound1 = bind_rule v1_host0 ''2024-01-01'' ''t0'' ScopeTarget ''s1'' ''ann'' (snd allowed1)"

definition checked1 :: "(v1_error + evaluation_result) \<times> rule_base" where
  "checked1 = evaluate_request v1_host0 ''2024-01-02'' clock0 read_request (snd bound1)"

lemma sample_returns: "is_ok (fst allowed1)" "is_ok (fst bound1)" "is_ok (fst checked1)"
  by code_simp+

lemma rules0_empty: "no_rules rules0"
  by (simp add: no_rules_def rules0_def new_cache_def)

lemma ok_pair: "is_ok (fst x) \<Longrightarrow> \<exists>y. x = (Inr y, snd x)"
  by (metis is_ok_iff prod.collapse)

lemma sample_run: "rule_run v1_host0 rules0 (snd checked1)"
proof -
  from sample_returns(1) obtain r where "allowed1 = (Inr r, snd allowed1)" using ok_pair by blast
  then have "rule_step v1_host0 rules0 (snd allowed1)" by (metis allowed1_def did_create)
  moreover from sample_returns(2) obtain b where "bound1 = (Inr b, snd bound1)" using ok_pair by blast
  then have "rule_step v1_host0 (snd allowed1) (snd bound1)" by (metis bound1_def did_bind)
  moreover have "rule_step v1_host0 (snd bound1) (snd checked1)"
    by (rule did_evaluate [where now = "''2024-01-02''" and ticks = clock0 and q = read_request and res = "fst checked1"])
      (simp add: checked1_def)
  ultimately show ?thesis by (meson rules_start rules_step)
qed

section \<open>Decisions\<close>

text \<open>
  C17. Decisions are what the tables say: after any run of store calls that returned and of
  evaluations, whatever the cache holds and whatever its clock shows, the matching rules of an
  evaluation are exactly the active rules bound to a target of the request whose conditions
  match, each once, by descending priority, and access is allowed exactly when one of them
  allows and none denies.
\<close>

theorem access_decision:
  assumes "rule_run h s0 s" "no_rules s0" "evaluate_request h now ticks q s = (Inr res, s')"
  shows "set (er_matching res) = Collect (applies q s) \<and> distinct (map ru_id (er_matching res)) \<and>
    sorted_wrt (\<lambda>a b. ru_priority a \<ge> ru_priority b) (er_matching res) \<and>
    (er_allowed res \<longleftrightarrow> (\<exists>r. applies q s r \<and> ru_effect r = Allow) \<and> (\<forall>r. applies q s r \<longrightarrow> ru_effect r \<noteq> Deny))"
proof -
  have ok: "coherent s" "rules_ok s"
    using rule_run_ok [OF assms(1) no_rules_ok [OF assms(2)]] by (simp_all add: service_ok_def)
  let ?ms = "filter (matches_conditions q) (unique_rules [] (candidates q s))"
  have res: "res = deny_overrides ?ms" using evaluate_result [OF ok(1) assms(3)] by simp
  have "distinct (map ru_id ?ms)" by (rule distinct_map_filter [OF unique_rules_distinct])
  moreover have ms: "set ?ms = Collect (applies q s)" using candidates_applies [OF ok(2)] by blast
  ultimately show ?thesis
    unfolding res deny_overrides_spec(4) deny_overrides_spec(1) ms
    using deny_overrides_spec(2,3) [of ?ms] by (simp only: mem_Collect_eq Bex_def Ball_def)
qed

theorem access_decision_witness:
  "\<exists>res. fst (evaluate_request v1_host0 ''2024-01-03'' clock0 read_request (snd checked1)) = Inr res \<and> er_allowed res
     \<and> (\<exists>r. applies read_request (snd checked1) r)"
proof -
  let ?e = "evaluate_request v1_host0 ''2024-01-03'' clock0 read_request (snd checked1)"
  have "(case fst ?e of Inr res \<Rightarrow> er_allowed res | Inl e \<Rightarrow> False)" by code_simp
  then obtain res where res: "fst ?e = Inr res" "er_allowed res" by (auto split: sum.splits)
  then have "?e = (Inr res, snd ?e)" by (simp add: prod_eq_iff)
  from access_decision [OF sample_run rules0_empty this] res show ?thesis by blast
qed

text \<open>
  Explanations agree with decisions: for a request without an environment, on the same state,
  \<open>evaluate_with_explanation\<close> returns, its result is the one \<open>evaluate\<close> computes, and a candidate
  is reported as matched exactly when it is one of the matching rules. (With an environment
  they may differ, because the explanation ignores rules bound to environments.)
\<close>

theorem explanation_agrees:
  assumes "rule_run h s0 s" "no_rules s0" "aq_env q = None" "evaluate_request h now ticks q s = (Inr res, s')"
  shows "\<exists>ex s''. evaluate_with_explanation ticks' q s = (Inr ex, s'') \<and> ee_result ex = res \<and>
    (\<forall>x \<in> set (ee_explanations ex). xp_matched x \<longleftrightarrow> xp_rule x \<in> set (er_matching res)) \<and>
    set (er_matching res) \<subseteq> xp_rule ` set (ee_explanations ex)"
proof -
  have ok: "coherent s" using rule_run_ok [OF assms(1) no_rules_ok [OF assms(2)]] by (simp add: service_ok_def)
  have q: "q\<lparr>aq_env := None\<rparr> = q" using assms(3) by simp
  let ?us = "unique_rules [] (candidates q s)"
  have res: "res = deny_overrides (filter (matches_conditions q) ?us)" using evaluate_result [OF ok assms(4)] by simp
  from explanation_result [OF ok, of ticks' q, unfolded q] obtain ex s'' where
    ex: "evaluate_with_explanation ticks' q s = (Inr ex, s'')" "map xp_rule (ee_explanations ex) = ?us"
      "\<forall>x \<in> set (ee_explanations ex). xp_matched x = matches_conditions q (xp_rule x)" "ee_result ex = res"
    unfolding res by blast
  have us: "xp_rule ` set (ee_explanations ex) = set ?us" using ex(2) by (metis set_map)
  then have m: "set (er_matching res) = {r \<in> xp_rule ` set (ee_explanations ex). matches_conditions q r}"
    unfolding res deny_overrides_spec(1) by simp
  show ?thesis using ex(1,3,4) m by (intro exI [of _ ex] exI [of _ s'']) auto
qed

theorem explanation_agrees_witness:
  "\<exists>ex. fst (evaluate_with_explanation clock0 read_request (snd checked1)) = Inr ex \<and> er_allowed (ee_result ex)"
proof -
  let ?e = "evaluate_request v1_host0 ''2024-01-03'' clock0 read_request (snd checked1)"
  have "(case fst ?e of Inr res \<Rightarrow> er_allowed res | Inl e \<Rightarrow> False)" by code_simp
  then obtain res where res: "fst ?e = Inr res" "er_allowed res" by (auto split: sum.splits)
  then have e: "?e = (Inr res, snd ?e)" by (simp add: prod_eq_iff)
  have "aq_env read_request = None" by (simp add: read_request_def)
  from explanation_agrees [OF sample_run rules0_empty this e, of clock0] res show ?thesis by fastforce
qed

section \<open>Versions\<close>

text \<open>
  Rules have complete, immutable histories: in every state reached by calls that returned, the
  versions of a rule are numbered from one to its current version without gaps, the current
  one holds the rule's conditions, effect and priority, and later calls only append versions.
\<close>

theorem rule_versions_complete:
  assumes "rule_run h s0 s" "no_rules s0" "rule_run h s s'"
  shows "(\<forall>r \<in> set (rb_rules s'). rv_version ` {v \<in> set (rb_versions s'). rv_rule v = ru_id r} = {1..ru_version r} \<and>
      (\<exists>v \<in> set (rb_versions s'). rv_rule v = ru_id r \<and> rv_version v = ru_version r \<and> rv_conditions v = ru_conditions r
         \<and> rv_effect v = ru_effect r \<and> rv_priority v = ru_priority r)) \<and>
    take (length (rb_versions s)) (rb_versions s') = rb_versions s"
proof -
  have "service_ok s" using rule_run_ok [OF assms(1) no_rules_ok [OF assms(2)]] by simp
  from rule_run_ok [OF assms(3) this] have "versions_ok s'" "\<exists>vs. rb_versions s' = rb_versions s @ vs"
    by (simp_all add: service_ok_def)
  then show ?thesis by (auto simp: versions_ok_def current_in_def numbered_in_def)
qed

definition updated1 :: "(v1_error + rule) \<times> rule_base" where
  "updated1 = update_rule v1_host0 ''2024-01-04'' ''t0'' ''bob'' None (Some Deny) None ''lockdown'' (snd checked1)"

theorem rule_versions_complete_witness:
  "rv_version ` {v \<in> set (rb_versions (snd updated1)). rv_rule v = ''t0''} = {1..2}"
proof -
  have "is_ok (fst updated1)" by code_simp
  then obtain r where "updated1 = (Inr r, snd updated1)" using ok_pair by blast
  then have "rule_step v1_host0 (snd checked1) (snd updated1)" by (metis updated1_def did_update)
  then have "rule_run v1_host0 (snd checked1) (snd updated1)" by (meson rules_start rules_step)
  moreover have "map (\<lambda>r. (ru_id r, ru_version r)) (rb_rules (snd updated1)) = [(''t0'', 2)]" by code_simp
  then obtain r where "r \<in> set (rb_rules (snd updated1))" "ru_id r = ''t0''" "ru_version r = 2" by auto
  ultimately show ?thesis using rule_versions_complete [OF sample_run rules0_empty] by fastforce
qed

section \<open>Bindings\<close>

text \<open>
  A rule that was unbound cannot be bound again: the archived row keeps the unique key, so the
  insert fails and nothing but the identifier counter changes.
\<close>

lemma rebind_refused:
  assumes "unbind_rule rid target tid s = (Inr True, s1)"
  shows "fst (bind_rule h now rid target tid actor s1) \<in> {Inl (v_violation h IdTaken), Inl (v_violation h KeyTaken)} \<and>
    rb_bindings (snd (bind_rule h now rid target tid actor s1)) = rb_bindings s1"
proof -
  from assms obtain x where x: "x \<in> set (rb_bindings s)" "active_binding rid target tid x"
    and rows: "rb_bindings s1 = sql_update_where (active_binding rid target tid) (\<lambda>b. b\<lparr>bd_lifecycle := Archived\<rparr>) (rb_bindings s)"
    by (auto simp: unbind_rule_def bindS_Inr_iff update_bindings_def list_ex_iff split: if_splits dest!: drop_cache_fields)
  have "x\<lparr>bd_lifecycle := Archived\<rparr> \<in> set (rb_bindings s1)"
    unfolding rows sql_update_where_def using x by (auto intro!: image_eqI)
  moreover have "same_binding rid target tid (x\<lparr>bd_lifecycle := Archived\<rparr>)"
    using x(2) by (simp add: active_binding_def same_binding_def)
  ultimately have taken: "list_ex (same_binding rid target tid) (rb_bindings s1)" by (auto simp: list_ex_iff)
  then show ?thesis
    by (auto simp: bind_rule_def bindS_def fresh_id_def insert_binding_def Let_def split: sum.splits prod.splits)
qed

end
