(* ===== verification/V1_Rule_Checks_Properties.thy ===== *)
theory V1_Rule_Checks_Properties
  imports V1_Rule_Checks_Facts V1_Audit_Properties
begin

text \<open>
  Properties of the typed rule engines: redaction hides what its rules name and nothing else,
  rate limits and quotas refuse exactly when a limit is reached, and a feature flag follows the
  rule of the highest priority. Each rests on the locales and lemmas of \<open>V1_Rule_Checks_Facts\<close>.
\<close>

section \<open>Redaction\<close>

lemma fold_redacted_None: "fold (redacted show f) cs None = None"
  by (induction cs) simp_all

lemma fold_redacted_omit:
  assumes "config \<in> set cs" "redaction_from_dict f config = Inr fr" "fr_strategy fr = Omit"
  shows "fold (redacted show f) cs v = None"
proof -
  from assms(1) obtain xs ys where cs: "cs = xs @ config # ys" by (meson split_list)
  have "redacted show f config w = None" for w using assms(2,3) by (simp add: redacted_def split: option.splits)
  then show ?thesis by (simp add: cs fold_redacted_None)
qed

text \<open>
  C18. Redaction is exact and hides: each field of the result is what the configurations of that field
  in the active matching rules, applied in order, make of its original value, so unconfigured
  fields keep their value; a field that some matching rule omits is absent; a field masked by
  one rule shows at most the configured number of characters at its end; and the reported
  fields are exactly the configured ones that were present.
\<close>

theorem redaction_hides:
  assumes "redact show rules data object_type kind scope_id = Inr res"
    and "items = concat (map rule_items (filter (redaction_matches object_type kind scope_id) (rules_of_type RedactionRule rules)))"
  shows "(\<forall>f. map_of (rd_data res) f = fold (redacted show f) (configs_of f items) (map_of data f)) \<and>
    (\<forall>f \<in> dom (map_of data). f \<notin> fst ` set items \<longrightarrow> map_of (rd_data res) f = map_of data f) \<and>
    (\<forall>f config fr. (f, config) \<in> set items \<and> redaction_from_dict f config = Inr fr \<and> fr_strategy fr = Omit \<longrightarrow>
      map_of (rd_data res) f = None) \<and>
    (\<forall>f config fr m n x. configs_of f items = [config] \<and> redaction_from_dict f config = Inr fr \<and> fr_strategy fr = Mask \<and>
      fr_mask fr = JStr m \<and> fr_visible fr = JInt n \<and> map_of data f = Some x \<longrightarrow>
      map_of (rd_data res) f = Some (JStr (let s = show x; k = if 0 < n \<and> n < int (length s) then nat n else 0
        in concat (replicate (length s - k) m) @ drop (length s - k) s))) \<and>
    set (rd_fields res) = {f \<in> fst ` set items. map_of data f \<noteq> None}"
proof -
  from assms(1) obtain m fs ap where loop:
    "foldE (redact_rule show object_type kind scope_id) (rules_of_type RedactionRule rules) (data, [], []) = Inr (m, fs, ap)"
    and res: "res = \<lparr>rd_data = m, rd_fields = fs, rd_rules = ap\<rparr>"
    by (auto simp: redact_def bindE_Inr_iff)
  from redact_fields_Inr [OF redact_rules_Inr [OF loop], folded assms(2)] have
    each: "map_of (rd_data res) f = fold (redacted show f) (configs_of f items) (map_of data f)"
    and fields: "set (rd_fields res) = {f \<in> fst ` set items. map_of data f \<noteq> None}" for f
    by (simp_all add: res)
  have "configs_of f items = []" if "f \<notin> fst ` set items" for f
    using that by (force simp: configs_of_def filter_empty_conv)
  then have rest: "map_of (rd_data res) f = map_of data f" if "f \<notin> fst ` set items" for f
    using that by (simp add: each)
  have listed: "config \<in> set (configs_of f items)" if "(f, config) \<in> set items" for f config
    using that by (force simp: configs_of_def)
  have omit: "map_of (rd_data res) f = None"
    if "(f, config) \<in> set items" "redaction_from_dict f config = Inr fr" "fr_strategy fr = Omit" for f config fr
    unfolding each by (rule fold_redacted_omit [OF listed [OF that(1)] that(2,3)])
  show ?thesis
    using each fields rest omit by (intro conjI) (blast | auto simp: redacted_def redact_value_mask Let_def)+
qed

text \<open>A rule that masks the card number for support staff and omits the token.\<close>

definition mask_rule :: rule where
  "mask_rule = \<lparr>ru_id = ''r1'', ru_name = ''mask'', ru_type = RedactionRule, ru_effect = Deny, ru_priority = 0,
     ru_conditions = [(''principal_kind'', JStr ''support''),
       (''redactions'', JObj [(''card'', JObj [(''strategy'', JStr ''mask''), (''visible_chars'', JInt 2)]),
                             (''token'', JObj [(''strategy'', JStr ''omit'')])])],
     ru_created_at = ''t'', ru_created_by = ''ann'', ru_version = 1, ru_description = '''', ru_entry = None,
     ru_lifecycle = Active\<rparr>"

definition card_data :: metadata where
  "card_data = [(''name'', JStr ''ann''), (''card'', JStr ''41117''), (''token'', JStr ''x'')]"

fun show_text :: "json \<Rightarrow> string" where
  "show_text (JStr s) = s"
| "show_text _ = []"

lemma mask_result: "redact show_text [mask_rule] card_data None (Some ''support'') None
    = Inr \<lparr>rd_data = [(''name'', JStr ''ann''), (''card'', JStr ''***17'')], rd_fields = [''card'', ''token''], rd_rules = [''r1'']\<rparr>"
  by code_simp

theorem redaction_hides_witness:
  "\<exists>res. redact show_text [mask_rule] card_data None (Some ''support'') None = Inr res
    \<and> map_of (rd_data res) ''card'' = Some (JStr ''***17'') \<and> map_of (rd_data res) ''token'' = None"
proof -
  let ?card = "JObj [(''strategy'', JStr ''mask''), (''visible_chars'', JInt 2)]"
  have "rules_of_type RedactionRule [mask_rule] = [mask_rule]" by (simp add: rules_of_type_def mask_rule_def)
  moreover have "redaction_matches None (Some ''support'') None mask_rule" by code_simp
  moreover have items: "rule_items mask_rule = [(''card'', ?card), (''token'', JObj [(''strategy'', JStr ''omit'')])]"
    by code_simp
  ultimately have all: "rule_items mask_rule = concat (map rule_items
      (filter (redaction_matches None (Some ''support'') None) (rules_of_type RedactionRule [mask_rule])))"
    by simp
  note facts = redaction_hides [OF mask_result all, unfolded items]
  have "redaction_from_dict ''token'' (JObj [(''strategy'', JStr ''omit'')])
      = Inr \<lparr>fr_field = ''token'', fr_strategy = Omit, fr_mask = JStr ''*'', fr_visible = JInt 0, fr_replacement = JStr ''[REDACTED]''\<rparr>"
    by code_simp
  then have "map_of (rd_data \<lparr>rd_data = [(''name'', JStr ''ann''), (''card'', JStr ''***17'')], rd_fields = [''card'', ''token''], rd_rules = [''r1'']\<rparr>) ''token'' = None"
    by (intro facts [THEN conjunct2, THEN conjunct2, THEN conjunct1, rule_format]) (rule conjI [OF _ conjI], auto)
  then show ?thesis unfolding mask_result by simp
qed

section \<open>Limits\<close>







definition under_quota ::
  "(json \<times> (json \<times> json) list \<Rightarrow> v1_error + int) \<Rightarrow> string \<Rightarrow> string option \<Rightarrow> rule \<Rightarrow> bool" where
  "under_quota run object_type scope_id r \<longleftrightarrow>
     \<not> cond_ok ''object_type'' (Some object_type) (ru_conditions r) \<or> quota_config_of r = Inr None
     \<or> (\<exists>c n limit. quota_config_of r = Inr (Some c) \<and> run (count_query c scope_id) = Inr n
          \<and> json_int (qc_max c) = Inr limit \<and> n < limit)"

lemma quota_passes: "quota_scan.passes object_type run scope_id r = under_quota run object_type scope_id r"
proof (cases "quota_config_of r")
  case (Inl e)
  then show ?thesis by (simp add: quota_scan.passes_def under_quota_def quota_rule_check_def)
next
  case (Inr c)
  then show ?thesis
    by (cases c) (auto simp: quota_scan.passes_def under_quota_def quota_rule_check_def bindE_Inr_iff not_le split: if_splits)
qed

text \<open>Only tables and columns of the allow lists reach the counting query.\<close>

lemma quota_config_allowed:
  "quota_config_of r = Inr (Some c) \<Longrightarrow> qc_table c \<in> JStr ` set allowed_tables \<and> qc_column c \<in> JStr ` set allowed_columns
     \<and> (qc_scope c = JNull \<or> qc_scope c \<in> JStr ` set allowed_columns)"
  by (auto simp: quota_config_of_def quota_parse_def bindE_Inr_iff named_in_def split: json.splits if_splits)

text \<open>
  Quotas are exact and inject nothing: the check passes exactly when the counts of all active
  quota rules matching the type are below their limits, otherwise a result names a rule whose
  count has reached its limit; and every counting query, with or without a scope, names only a
  table and columns of the allow lists.
\<close>

theorem quota_exact:
  "(quota_or_raise run rules object_type scope_id = Inr () \<longleftrightarrow>
      (\<forall>r \<in> set (rules_of_type QuotaRule rules). under_quota run object_type scope_id r)) \<and>
   (quota_check run rules object_type scope_id = Inr (Some v) \<longrightarrow>
      (\<exists>r c. r \<in> set (rules_of_type QuotaRule rules) \<and> qr_rule v = ru_id r \<and> quota_config_of r = Inr (Some c)
        \<and> run (count_query c scope_id) = Inr (qr_current v) \<and> json_int (qc_max c) = Inr (qr_max v)
        \<and> qr_current v \<ge> qr_max v)) \<and>
   (\<forall>r c. quota_config_of r = Inr (Some c) \<longrightarrow> fst (count_query c scope_id) \<in> JStr ` set allowed_tables
      \<and> (\<forall>(column, value) \<in> set (snd (count_query c scope_id)). column \<in> JStr ` set allowed_columns))"
proof (intro conjI)
  have "quota_or_raise run rules object_type scope_id = Inr () \<longleftrightarrow> quota_check run rules object_type scope_id = Inr None"
    by (auto simp: quota_or_raise_def bindE_Inr_iff split: if_splits)
  then show "quota_or_raise run rules object_type scope_id = Inr () \<longleftrightarrow>
      (\<forall>r \<in> set (rules_of_type QuotaRule rules). under_quota run object_type scope_id r)"
    by (simp add: quota_check_def quota_scan.scan_None quota_passes)
next
  show "quota_check run rules object_type scope_id = Inr (Some v) \<longrightarrow>
      (\<exists>r c. r \<in> set (rules_of_type QuotaRule rules) \<and> qr_rule v = ru_id r \<and> quota_config_of r = Inr (Some c)
        \<and> run (count_query c scope_id) = Inr (qr_current v) \<and> json_int (qc_max c) = Inr (qr_max v)
        \<and> qr_current v \<ge> qr_max v)"
    unfolding quota_check_def quota_scan.scan_Some
    by (fastforce simp: quota_rule_check_def bindE_Inr_iff split: option.splits if_splits)
next
  have "JStr ''scope_id'' \<in> JStr ` set allowed_columns" "JStr ''lifecycle'' \<in> JStr ` set allowed_columns"
    by (simp_all add: allowed_columns_def)
  then show "\<forall>r c. quota_config_of r = Inr (Some c) \<longrightarrow> fst (count_query c scope_id) \<in> JStr ` set allowed_tables
      \<and> (\<forall>(column, value) \<in> set (snd (count_query c scope_id)). column \<in> JStr ` set allowed_columns)"
    by (auto simp: count_query_def dest!: quota_config_allowed split: option.splits)
qed

definition two_documents :: rule where
  "two_documents = mask_rule\<lparr>ru_type := QuotaRule,
     ru_conditions := [(''object_type'', JStr ''Document''), (''quota'', JObj [(''max_count'', JInt 2)])]\<rparr>"

theorem quota_exact_witness:
  "quota_or_raise (\<lambda>_. Inr 1) [two_documents] ''Document'' None = Inr ()"
proof -
  have "rules_of_type QuotaRule [two_documents] = [two_documents]" by (simp add: rules_of_type_def two_documents_def mask_rule_def)
  moreover have "quota_config_of two_documents = Inr (Some \<lparr>qc_max = JInt 2, qc_table = JStr ''scoped_objects'',
      qc_column = JStr ''object_type'', qc_value = JStr ''Document'', qc_scope = JNull\<rparr>)" by code_simp
  then have "under_quota (\<lambda>_. Inr 1) ''Document'' None two_documents" by (simp add: under_quota_def)
  ultimately show ?thesis using quota_exact [of "\<lambda>_. Inr 1" "[two_documents]" "''Document''" None] by simp
qed

section \<open>Feature flags\<close>

text \<open>
  A feature flag follows its most important rule: with no active flag rule for the feature in
  the scope it is off; otherwise the result names such a rule of maximal priority and follows
  its configuration. With the flag on and a named principal, a rollout of zero or less is off for
  everybody, one of a hundred or more leaves it on for everybody, and in between it is on exactly
  for the buckets below the percentage.
\<close>

theorem flag_decision:
  assumes "flag_is_enabled h rules feature who scope_id = Inr res"
  shows "case fl_rule res of
      None \<Rightarrow> fl_enabled res = JBool False \<and>
        (\<forall>r \<in> set (rules_of_type FeatureFlagRule rules). \<not> flag_applies feature scope_id r)
    | Some i \<Rightarrow> \<exists>w c. w \<in> set (rules_of_type FeatureFlagRule rules) \<and> ru_id w = i \<and> flag_applies feature scope_id w \<and>
        (\<forall>r \<in> set (rules_of_type FeatureFlagRule rules). flag_applies feature scope_id r \<longrightarrow> ru_priority r \<le> ru_priority w) \<and>
        flag_config_of w = Inr (Some c) \<and>
        (\<not> json_truthy (ff_enabled c) \<longrightarrow> fl_enabled res = ff_enabled c) \<and>
        (\<forall>p x. json_truthy (ff_enabled c) \<and> ff_rollout c = JInt p \<and> who = Some x \<and> x \<noteq> '''' \<longrightarrow>
          fl_enabled res = (if p \<le> 0 then JBool False else if p \<ge> 100 then ff_enabled c
                            else JBool (rollout_bucket h feature x < p)))"
proof -
  from assms obtain ms where ms: "flag_matching feature scope_id (rules_of_type FeatureFlagRule rules) = Inr ms"
    by (auto simp: flag_is_enabled_def bindE_Inr_iff)
  note apply_iff = flag_matching_Inr [OF ms]
  show ?thesis
  proof (cases "sort_key (\<lambda>r. - ru_priority r) ms")
    case Nil
    then have "ms = []" by (metis set_empty set_sort)
    then have "\<forall>r \<in> set (rules_of_type FeatureFlagRule rules). \<not> flag_applies feature scope_id r"
      using apply_iff by (metis filter_empty_conv)
    moreover have "fl_rule res = None \<and> fl_enabled res = JBool False"
      using assms Nil by (auto simp: flag_is_enabled_def ms)
    ultimately show ?thesis by simp
  next
    case (Cons w ws)
    from sort_key_hd_max [OF Cons] have w: "w \<in> set ms" "\<forall>r \<in> set ms. ru_priority r \<le> ru_priority w" by auto
    then obtain c where c: "flag_config_of w = Inr (Some c)" by (auto simp: apply_iff flag_applies_def)
    with assms Cons obtain v where v: "flag_decide h feature who c = Inr v" "fl_enabled res = v" "fl_rule res = Some (ru_id w)"
      by (auto simp: flag_is_enabled_def ms bindE_Inr_iff)
    have b: "0 \<le> rollout_bucket h feature x" "rollout_bucket h feature x < 100" for x
      using rollout_bucket_bounds by blast+
    have off: "\<not> json_truthy (ff_enabled c) \<longrightarrow> v = ff_enabled c" using v(1) by (auto simp: flag_decide_def)
    have on: "v = (if p \<le> 0 then JBool False else if p \<ge> 100 then ff_enabled c else JBool (rollout_bucket h feature x < p))"
      if "json_truthy (ff_enabled c)" "ff_rollout c = JInt p" "who = Some x" "x \<noteq> ''''" for p x
      using v(1) that b [of x] by (auto simp: flag_decide_def in_rollout_def or_default_def)
    show ?thesis unfolding v(2,3) option.case
      by (intro exI [of _ w] exI [of _ c]) (use w c off on in \<open>auto simp: apply_iff\<close>)
  qed
qed

definition beta_flag :: rule where
  "beta_flag = mask_rule\<lparr>ru_type := FeatureFlagRule,
     ru_conditions := [(''feature_flag'', JObj [(''feature_name'', JStr ''beta''), (''rollout_percentage'', JInt 0)])]\<rparr>"

theorem flag_decision_witness:
  "\<exists>res. flag_is_enabled v1_host0 [beta_flag] ''beta'' (Some ''ann'') None = Inr res \<and> fl_enabled res = JBool False"
proof -
  let ?f = "flag_is_enabled v1_host0 [beta_flag] ''beta'' (Some ''ann'') None"
  have cfg: "flag_config_of beta_flag = Inr (Some \<lparr>ff_name = JStr ''beta'', ff_enabled = JBool True, ff_rollout = JInt 0\<rparr>)"
    by code_simp
  moreover have "cond_ok ''scope_id'' None (ru_conditions beta_flag)" by code_simp
  moreover have "rules_of_type FeatureFlagRule [beta_flag] = [beta_flag]" by (simp add: rules_of_type_def beta_flag_def mask_rule_def)
  ultimately obtain res where res: "?f = Inr res" "fl_rule res = Some (ru_id beta_flag)"
    by (simp add: flag_is_enabled_def flag_decide_def)
  obtain w c where w: "w \<in> set (rules_of_type FeatureFlagRule [beta_flag])" "flag_config_of w = Inr (Some c)"
    and on: "\<forall>p x. json_truthy (ff_enabled c) \<and> ff_rollout c = JInt p \<and> Some ''ann'' = Some x \<and> x \<noteq> '''' \<longrightarrow>
      fl_enabled res = (if p \<le> 0 then JBool False else if p \<ge> 100 then ff_enabled c
                        else JBool (rollout_bucket v1_host0 ''beta'' x < p))"
    using flag_decision [OF res(1), unfolded res(2) option.case] by blast
  from w(1) have "w = beta_flag" by (simp add: rules_of_type_def split: if_splits)
  with w(2) cfg have "c = \<lparr>ff_name = JStr ''beta'', ff_enabled = JBool True, ff_rollout = JInt 0\<rparr>" by simp
  then have "fl_enabled res = JBool False" using on [rule_format, of 0 "''ann''"] by simp
  with res(1) show ?thesis by blast
qed

end
