(* ===== verification/V1_Types_Properties.thy ===== *)
theory V1_Types_Properties
  imports V1_Types
begin

text \<open>URNs and their text: printing and parsing are inverse to each other.\<close>

lemma urn_parse_str:
  assumes "CHR '':'' \<notin> set (u_kind u)" "CHR '':'' \<notin> set (u_namespace u)"
    "u_kind u \<noteq> []" "u_namespace u \<noteq> []" "u_name u \<noteq> []" "u_version u \<ge> 1"
  shows "urn_parse (urn_str u) = Inr u"
proof -
  note parts = urn_str_parts [OF assms(1,2,6)]
  then have "length (split_on (CHR '':'') (u_name u)) \<ge> 1" by (cases "split_on (CHR '':'') (u_name u)") auto
  then show ?thesis
    using assms unfolding urn_parse_def parts by (simp add: Let_def py_int_show_nat mk_urn_def join_split butlast_append)
qed

lemma split_on_free: "p \<in> set (split_on c s) \<Longrightarrow> c \<notin> set p"
  by (induction s arbitrary: p) (auto split: list.splits if_splits)

lemma urn_parse_parts:
  assumes "urn_parse raw = Inr u"
  shows "CHR '':'' \<notin> set (u_kind u) \<and> CHR '':'' \<notin> set (u_namespace u) \<and>
    u_kind u \<noteq> [] \<and> u_namespace u \<noteq> [] \<and> u_name u \<noteq> [] \<and> u_version u \<ge> 1"
proof -
  let ?ps = "split_on (CHR '':'') raw"
  from assms have "length ?ps \<ge> 5" by (auto simp: urn_parse_def Let_def split: if_splits)
  then have "?ps ! 1 \<in> set ?ps" "?ps ! 2 \<in> set ?ps" by auto
  then have "CHR '':'' \<notin> set (?ps ! 1)" "CHR '':'' \<notin> set (?ps ! 2)" using split_on_free by blast+
  with assms show ?thesis by (auto simp: urn_parse_def Let_def mk_urn_def split: if_splits option.splits)
qed

text \<open>
  URNs round trip: a URN built by the constructor whose kind and namespace contain no colon is
  read back from its text (its name may contain colons), the text of any parsed URN parses to
  the same URN, and different URNs of this kind have different texts.
\<close>

theorem urn_roundtrip:
  assumes "mk_urn kind namespace name version = Inr u" "CHR '':'' \<notin> set kind" "CHR '':'' \<notin> set namespace"
  shows "urn_parse (urn_str u) = Inr u \<and> (\<forall>raw w. urn_parse raw = Inr w \<longrightarrow> urn_parse (urn_str w) = Inr w)
    \<and> (\<forall>raw w. urn_parse raw = Inr w \<and> urn_str w = urn_str u \<longrightarrow> w = u)"
proof -
  have u: "urn_parse (urn_str u) = Inr u"
    using assms by (intro urn_parse_str) (auto simp: mk_urn_def split: if_splits)
  have w: "urn_parse (urn_str w) = Inr w" if "urn_parse raw = Inr w" for raw w
    using urn_parse_parts [OF that] by (intro urn_parse_str) auto
  have "w = u" if "urn_parse raw = Inr w" "urn_str w = urn_str u" for raw w
    using w [OF that(1)] u unfolding that(2) by simp
  with u w show ?thesis by blast
qed

theorem urn_roundtrip_witness:
  "\<exists>u. mk_urn ''model'' ''billing'' ''Invoice:Line'' 12 = Inr u \<and> urn_parse (urn_str u) = Inr u"
proof -
  obtain u where u: "mk_urn ''model'' ''billing'' ''Invoice:Line'' 12 = Inr u" by (auto simp: mk_urn_def)
  from urn_roundtrip [OF u] u show ?thesis by simp
qed

end
