(* ===== verification/V1_Deployments.thy ===== *)
theory V1_Deployments
  imports V1_Visibility
begin

text \<open>
  \<open>legacy/v1/scoped/deployments\<close>: targets, deployments and gates (\<open>models.py\<close>), the executor with
  the deployment state machine (\<open>executor.py\<close>), gate checks (\<open>gates.py\<close>) and rollbacks, which are
  deployments themselves (\<open>rollback.py\<close>).

  The tables extend those of the tenancy service, whose scopes and objects deployments refer to.
  \<open>_validate_json_dict\<close> accepts every value of the type of metadata, so it does not appear. The
  callback that performs a deployment is an operation on the whole state and may raise.
\<close>

section \<open>Models\<close>

datatype deploy_state = Pending | Deploying | Deployed | DeployFailed | RolledBack

fun deploy_state_value :: "deploy_state \<Rightarrow> string" where
  "deploy_state_value Pending = ''pending''"
| "deploy_state_value Deploying = ''deploying''"
| "deploy_state_value Deployed = ''deployed''"
| "deploy_state_value DeployFailed = ''failed''"
| "deploy_state_value RolledBack = ''rolled_back''"

definition terminal_states :: "deploy_state list" where
  "terminal_states = [Deployed, DeployFailed, RolledBack]"

datatype gate_type = StageCheck | RuleCheck | Approval | CustomGate

fun gate_value :: "gate_type \<Rightarrow> string" where
  "gate_value StageCheck = ''stage_check''"
| "gate_value RuleCheck = ''rule_check''"
| "gate_value Approval = ''approval''"
| "gate_value CustomGate = ''custom''"

record deploy_target =
  dt_id :: string
  dt_name :: string
  dt_type :: string
  dt_owner :: string
  dt_created :: string
  dt_config :: metadata
  dt_lifecycle :: lifecycle

record deployment =
  dp_id :: string
  dp_target :: string
  dp_by :: string
  dp_version :: nat
  dp_state :: deploy_state
  dp_object :: "string option"
  dp_scope :: "string option"
  dp_at :: "string option"
  dp_rollback_of :: "string option"
  dp_metadata :: metadata

definition deployment_terminal :: "deployment \<Rightarrow> bool" where
  "deployment_terminal d \<longleftrightarrow> dp_state d \<in> set terminal_states"

definition deployment_snapshot :: "deployment \<Rightarrow> json" where
  "deployment_snapshot d = JObj
     [(''id'', JStr (dp_id d)), (''target_id'', JStr (dp_target d)), (''object_id'', opt_str (dp_object d)),
      (''scope_id'', opt_str (dp_scope d)), (''version'', JInt (int (dp_version d))),
      (''state'', JStr (deploy_state_value (dp_state d))), (''deployed_at'', opt_str (dp_at d)),
      (''deployed_by'', JStr (dp_by d)), (''rollback_of'', opt_str (dp_rollback_of d)),
      (''metadata'', JObj (dp_metadata d))]"

record gate =
  gt_id :: string
  gt_deployment :: string
  gt_type :: gate_type
  gt_passed :: bool
  gt_at :: string
  gt_details :: metadata

definition gate_snapshot :: "gate \<Rightarrow> json" where
  "gate_snapshot g = JObj
     [(''id'', JStr (gt_id g)), (''deployment_id'', JStr (gt_deployment g)), (''gate_type'', JStr (gate_value (gt_type g))),
      (''passed'', JBool (gt_passed g)), (''checked_at'', JStr (gt_at g)), (''details'', JObj (gt_details g))]"

record gate_result =
  gr_deployment :: string
  gr_all_passed :: bool
  gr_gates :: "gate list"
  gr_failed :: nat

section \<open>The state\<close>

record deployer = tenant +
  dy_targets :: "deploy_target list"
  dy_deployments :: "deployment list"
  dy_gates :: "gate list"

definition deploy_request ::
  "string \<Rightarrow> string \<Rightarrow> string \<Rightarrow> string \<Rightarrow> json option \<Rightarrow> json option \<Rightarrow> trace_request" where
  "deploy_request actor action ttype tid before after =
     \<lparr>rq_actor = actor, rq_action = action, rq_ttype = ttype, rq_tid = tid, rq_scope = None,
      rq_before = before, rq_after = after, rq_meta = [], rq_parent = None\<rparr>"

text \<open>\<open>if self._audit is not None and actor is not None\<close>.\<close>

definition audit_by :: "v1_host \<Rightarrow> string \<Rightarrow> string option \<Rightarrow> (string \<Rightarrow> trace_request) \<Rightarrow> ('x tenant_scheme, unit) sop" where
  "audit_by h now actor rq = (case actor of None \<Rightarrow> returnS () | Some a \<Rightarrow> audit_event h now (rq a))"

section \<open>Targets\<close>

definition insert_target :: "v1_host \<Rightarrow> deploy_target \<Rightarrow> ('x deployer_scheme, unit) sop" where
  "insert_target h t s =
     (if list_ex (\<lambda>x. dt_id x = dt_id t) (dy_targets s) then (Inl (v_violation h IdTaken), s)
      else if dt_owner t \<notin> set (tn_principals s) then (Inl (v_violation h ForeignKeyMissing), s)
      else (Inr (), s\<lparr>dy_targets := dy_targets s @ [t]\<rparr>))"

definition create_target ::
  "v1_host \<Rightarrow> string \<Rightarrow> string \<Rightarrow> string \<Rightarrow> string \<Rightarrow> metadata \<Rightarrow> ('x deployer_scheme, deploy_target) sop" where
  "create_target h now name ttype owner config =
     bindS (fresh_id h) (\<lambda>tid.
     let t = \<lparr>dt_id = tid, dt_name = name, dt_type = ttype, dt_owner = owner, dt_created = now,
              dt_config = config, dt_lifecycle = Active\<rparr>
     in bindS (insert_target h t) (\<lambda>_.
        bindS (audit_event h now (deploy_request owner ''create'' ''deployment_target'' tid None
          (Some (JObj [(''name'', JStr name), (''target_type'', JStr ttype)])))) (\<lambda>_.
          returnS t)))"

definition get_target :: "string \<Rightarrow> ('x deployer_scheme, deploy_target option) sop" where
  "get_target tid = getS (\<lambda>s. find (\<lambda>t. dt_id t = tid) (dy_targets s))"

definition list_targets :: "string option \<Rightarrow> bool \<Rightarrow> nat \<Rightarrow> ('x deployer_scheme, deploy_target list) sop" where
  "list_targets owner active_only limit =
     getS (\<lambda>s. sql_limit (Some limit) 0 (sql_order True dt_created
       (filter (\<lambda>t. given owner (dt_owner t) \<and> (active_only \<longrightarrow> dt_lifecycle t = Active)) (dy_targets s))))"

definition archive_target :: "v1_host \<Rightarrow> string \<Rightarrow> string \<Rightarrow> string option \<Rightarrow> ('x deployer_scheme, unit) sop" where
  "archive_target h now tid actor =
     bindS (modifyS (\<lambda>s. s\<lparr>dy_targets := sql_update_where (\<lambda>t. dt_id t = tid)
       (\<lambda>t. t\<lparr>dt_lifecycle := Archived\<rparr>) (dy_targets s)\<rparr>)) (\<lambda>_.
       audit_by h now actor (\<lambda>a. deploy_request a ''lifecycle_change'' ''deployment_target'' tid
         (Some (JObj [(''lifecycle'', JStr ''ACTIVE'')])) (Some (JObj [(''lifecycle'', JStr ''ARCHIVED'')]))))"

definition require_target :: "string \<Rightarrow> bool \<Rightarrow> ('x deployer_scheme, deploy_target) sop" where
  "require_target tid active_only =
     bindS (get_target tid) (\<lambda>x.
       case x of
         None \<Rightarrow> raiseS DeploymentFailed
       | Some t \<Rightarrow> if active_only \<and> dt_lifecycle t \<noteq> Active then raiseS DeploymentFailed else returnS t)"

definition require_object :: "string \<Rightarrow> ('x deployer_scheme, unit) sop" where
  "require_object oid =
     bindS (getS (\<lambda>s. list_ex (\<lambda>r. ob_id r = oid) (tn_objects s))) (\<lambda>found.
       if found then returnS () else raiseS DeploymentFailed)"

definition require_scope :: "string \<Rightarrow> ('x deployer_scheme, unit) sop" where
  "require_scope sid =
     bindS (getS (\<lambda>s. list_ex (\<lambda>r. sr_id r = sid) (tn_scopes s))) (\<lambda>found.
       if found then returnS () else raiseS ScopeNotFound)"

section \<open>Deployments\<close>

definition get_deployment :: "string \<Rightarrow> ('x deployer_scheme, deployment option) sop" where
  "get_deployment did = getS (\<lambda>s. find (\<lambda>d. dp_id d = did) (dy_deployments s))"

text \<open>The version of the next deployment to a target.\<close>

definition next_version :: "string \<Rightarrow> deployment list \<Rightarrow> nat" where
  "next_version tid ds = fold max (map dp_version (filter (\<lambda>d. dp_target d = tid) ds)) 0 + 1"

definition refers :: "string option \<Rightarrow> string set \<Rightarrow> bool" where
  "refers x ids \<longleftrightarrow> (case x of None \<Rightarrow> True | Some i \<Rightarrow> i \<in> ids)"

definition insert_deployment :: "v1_host \<Rightarrow> deployment \<Rightarrow> ('x deployer_scheme, unit) sop" where
  "insert_deployment h d s =
     (if list_ex (\<lambda>x. dp_id x = dp_id d) (dy_deployments s) then (Inl (v_violation h IdTaken), s)
      else if \<not> list_ex (\<lambda>t. dt_id t = dp_target d) (dy_targets s)
        \<or> \<not> refers (dp_object d) (ob_id ` set (tn_objects s)) \<or> \<not> refers (dp_scope d) (sr_id ` set (tn_scopes s))
        \<or> \<not> refers (dp_rollback_of d) (insert (dp_id d) (dp_id ` set (dy_deployments s)))
      then (Inl (v_violation h ForeignKeyMissing), s)
      else (Inr (), s\<lparr>dy_deployments := dy_deployments s @ [d]\<rparr>))"

text \<open>The checks of \<open>create_deployment\<close>.\<close>

definition check_rollback_of :: "string option \<Rightarrow> string \<Rightarrow> ('x deployer_scheme, unit) sop" where
  "check_rollback_of rollback_of tid =
     (case rollback_of of
        None \<Rightarrow> returnS ()
      | Some r \<Rightarrow>
          bindS (get_deployment r) (\<lambda>x.
            case x of
              None \<Rightarrow> raiseS DeploymentFailed
            | Some original \<Rightarrow> if dp_target original \<noteq> tid then raiseS DeploymentFailed else returnS ()))"

definition create_deployment ::
  "v1_host \<Rightarrow> string \<Rightarrow> string \<Rightarrow> string \<Rightarrow> string option \<Rightarrow> string option \<Rightarrow> metadata \<Rightarrow> string option \<Rightarrow>
   ('x deployer_scheme, deployment) sop" where
  "create_deployment h now tid deployed_by object_id scope_id meta rollback_of =
     bindS (require_target tid True) (\<lambda>_.
     bindS (case object_id of None \<Rightarrow> returnS () | Some i \<Rightarrow> require_object i) (\<lambda>_.
     bindS (case scope_id of None \<Rightarrow> returnS () | Some i \<Rightarrow> require_scope i) (\<lambda>_.
     bindS (check_rollback_of rollback_of tid) (\<lambda>_.
     bindS (getS (\<lambda>s. next_version tid (dy_deployments s))) (\<lambda>v.
     bindS (fresh_id h) (\<lambda>did.
     let d = \<lparr>dp_id = did, dp_target = tid, dp_by = deployed_by, dp_version = v, dp_state = Pending,
              dp_object = object_id, dp_scope = scope_id, dp_at = None, dp_rollback_of = rollback_of,
              dp_metadata = meta\<rparr>
     in bindS (insert_deployment h d) (\<lambda>_.
        bindS (audit_event h now (deploy_request deployed_by ''deploy'' ''deployment'' did None
          (Some (deployment_snapshot d)))) (\<lambda>_.
          returnS d))))))))"

definition list_deployments ::
  "string option \<Rightarrow> deploy_state option \<Rightarrow> nat \<Rightarrow> ('x deployer_scheme, deployment list) sop" where
  "list_deployments tid state limit =
     getS (\<lambda>s. sql_limit (Some limit) 0 (sql_order True dp_version
       (filter (\<lambda>d. given tid (dp_target d) \<and> given state (dp_state d)) (dy_deployments s))))"

fun allowed_transitions :: "deploy_state \<Rightarrow> deploy_state list" where
  "allowed_transitions Pending = [Deploying]"
| "allowed_transitions Deploying = [Deployed, DeployFailed]"
| "allowed_transitions Deployed = [RolledBack]"
| "allowed_transitions DeployFailed = []"
| "allowed_transitions RolledBack = []"

definition update_deployment :: "string \<Rightarrow> (deployment \<Rightarrow> deployment) \<Rightarrow> ('x deployer_scheme, unit) sop" where
  "update_deployment did f =
     modifyS (\<lambda>s. s\<lparr>dy_deployments := sql_update_where (\<lambda>d. dp_id d = did) f (dy_deployments s)\<rparr>)"

definition moved_to :: "string \<Rightarrow> deploy_state \<Rightarrow> deployment \<Rightarrow> deployment" where
  "moved_to now new d = d\<lparr>dp_state := new, dp_at := (if new = Deployed then Some now else dp_at d)\<rparr>"

definition transition_state ::
  "v1_host \<Rightarrow> string \<Rightarrow> string \<Rightarrow> deploy_state \<Rightarrow> string option \<Rightarrow> ('x deployer_scheme, deployment) sop" where
  "transition_state h now did new actor =
     bindS (get_deployment did) (\<lambda>x.
       case x of
         None \<Rightarrow> raiseS DeploymentFailed
       | Some d \<Rightarrow>
           if new \<notin> set (allowed_transitions (dp_state d)) then raiseS DeploymentFailed
           else
             bindS (update_deployment did (moved_to now new)) (\<lambda>_.
             bindS (audit_by h now actor (\<lambda>a. deploy_request a ''deploy'' ''deployment'' did
               (Some (deployment_snapshot d)) (Some (deployment_snapshot (moved_to now new d))))) (\<lambda>_.
               returnS (moved_to now new d))))"

text \<open>\<open>try: success = deploy_fn(dep)\<close>; a missing callback counts as success.\<close>

definition call_deploy ::
  "(deployment \<Rightarrow> ('x deployer_scheme, bool) sop) option \<Rightarrow> deployment \<Rightarrow> ('x deployer_scheme, bool) sop" where
  "call_deploy fn d s =
     (case fn of
        None \<Rightarrow> (Inr True, s)
      | Some f \<Rightarrow> (case f d s of (Inl e, t) \<Rightarrow> (Inr False, t) | (Inr b, t) \<Rightarrow> (Inr b, t)))"

definition execute_deployment ::
  "v1_host \<Rightarrow> string \<Rightarrow> string \<Rightarrow> string \<Rightarrow> (deployment \<Rightarrow> ('x deployer_scheme, bool) sop) option \<Rightarrow>
   ('x deployer_scheme, deployment) sop" where
  "execute_deployment h now did actor fn =
     bindS (get_deployment did) (\<lambda>x.
       case x of
         None \<Rightarrow> raiseS DeploymentFailed
       | Some d \<Rightarrow>
           if dp_state d \<noteq> Pending then raiseS DeploymentFailed
           else
             bindS (require_target (dp_target d) True) (\<lambda>_.
             bindS (getS (\<lambda>s. filter (\<lambda>g. gt_deployment g = did) (dy_gates s))) (\<lambda>gates.
             if list_ex (\<lambda>g. \<not> gt_passed g) gates then raiseS DeploymentGateFailed
             else
               bindS (transition_state h now did Deploying (Some actor)) (\<lambda>d1.
               bindS (call_deploy fn d1) (\<lambda>success.
                 transition_state h now did (if success then Deployed else DeployFailed) (Some actor))))))"

section \<open>Gates\<close>

definition insert_gate :: "v1_host \<Rightarrow> gate \<Rightarrow> ('x deployer_scheme, unit) sop" where
  "insert_gate h g s =
     (if list_ex (\<lambda>x. gt_id x = gt_id g) (dy_gates s) then (Inl (v_violation h IdTaken), s)
      else if \<not> list_ex (\<lambda>d. dp_id d = gt_deployment g) (dy_deployments s) then (Inl (v_violation h ForeignKeyMissing), s)
      else (Inr (), s\<lparr>dy_gates := dy_gates s @ [g]\<rparr>))"

definition record_gate ::
  "v1_host \<Rightarrow> string \<Rightarrow> string \<Rightarrow> gate_type \<Rightarrow> bool \<Rightarrow> metadata \<Rightarrow> string option \<Rightarrow> ('x deployer_scheme, gate) sop" where
  "record_gate h now did gtype passed details checked_by =
     bindS (fresh_id h) (\<lambda>gid.
     let g = \<lparr>gt_id = gid, gt_deployment = did, gt_type = gtype, gt_passed = passed, gt_at = now,
              gt_details = details\<rparr>
     in bindS (insert_gate h g) (\<lambda>_.
        bindS (audit_by h now checked_by (\<lambda>a. deploy_request a ''gate_check'' ''deployment_gate'' gid None
          (Some (gate_snapshot g)))) (\<lambda>_.
          returnS g)))"

definition get_gates :: "string \<Rightarrow> ('x deployer_scheme, gate list) sop" where
  "get_gates did = getS (\<lambda>s. sql_order False gt_at (filter (\<lambda>g. gt_deployment g = did) (dy_gates s)))"

definition gate_summary :: "bool \<Rightarrow> string \<Rightarrow> gate list \<Rightarrow> gate_result" where
  "gate_summary need_some did gates =
     (let failed = filter (\<lambda>g. \<not> gt_passed g) gates
      in \<lparr>gr_deployment = did, gr_all_passed = (length failed = 0 \<and> (need_some \<longrightarrow> length gates > 0)),
          gr_gates = gates, gr_failed = length failed\<rparr>)"

definition check_all_passed :: "string \<Rightarrow> ('x deployer_scheme, gate_result) sop" where
  "check_all_passed did = bindS (get_gates did) (\<lambda>gs. returnS (gate_summary True did gs))"

definition check_all_passed_or_none :: "string \<Rightarrow> ('x deployer_scheme, gate_result) sop" where
  "check_all_passed_or_none did = bindS (get_gates did) (\<lambda>gs. returnS (gate_summary False did gs))"

section \<open>Rollback\<close>

definition rollback_deployment ::
  "v1_host \<Rightarrow> string \<Rightarrow> string \<Rightarrow> string \<Rightarrow> metadata \<Rightarrow> ('x deployer_scheme, deployment) sop" where
  "rollback_deployment h now did actor meta =
     bindS (get_deployment did) (\<lambda>x.
       case x of
         None \<Rightarrow> raiseS DeploymentRollbackFailed
       | Some original \<Rightarrow>
           if dp_state original \<noteq> Deployed then raiseS DeploymentRollbackFailed
           else
             let meta' = (if meta = [] then [(''reason'', JStr (''rollback of '' @ did))] else meta)
             in bindS (create_deployment h now (dp_target original) actor (dp_object original) (dp_scope original)
                  meta' (Some did)) (\<lambda>reversal.
                bindS (transition_state h now did RolledBack (Some actor)) (\<lambda>_.
                bindS (audit_event h now (deploy_request actor ''deploy_rollback'' ''deployment'' (dp_id reversal)
                  (Some (deployment_snapshot original)) (Some (deployment_snapshot reversal)))) (\<lambda>_.
                  returnS reversal))))"

text \<open>The first deployment that reverses a given one.\<close>

definition reversal_of :: "string \<Rightarrow> deployment list \<Rightarrow> string option" where
  "reversal_of did ds =
     (case sql_order False dp_version (filter (\<lambda>d. dp_rollback_of d = Some did) ds) of
        [] \<Rightarrow> None | d # _ \<Rightarrow> Some (dp_id d))"

text \<open>The loop of \<open>get_rollback_chain\<close>; it ends because every round meets a deployment not seen before.\<close>

function chain_loop :: "deployment list \<Rightarrow> string option \<Rightarrow> string list \<Rightarrow> v1_error + deployment list" where
  "chain_loop ds current seen =
     (case current of
        None \<Rightarrow> Inr []
      | Some i \<Rightarrow>
          if i \<in> set seen then Inl DeploymentRollbackFailed
          else case find (\<lambda>d. dp_id d = i) ds of
                 None \<Rightarrow> Inr []
               | Some d \<Rightarrow> bindE (chain_loop ds (reversal_of i ds) (i # seen)) (\<lambda>chain. Inr (d # chain)))"
  by pat_completeness auto

termination
proof (relation "measure (\<lambda>(ds, current, seen). unseen dp_id seen ds)", goal_cases)
  case (2 ds current seen i d)
  then have "d \<in> set ds" "dp_id d = i" by (auto dest: find_SomeD)
  with 2 show ?case using unseen_less [of d ds dp_id seen] by simp
qed simp

declare chain_loop.simps [simp del]

definition get_rollback_chain :: "string \<Rightarrow> ('x deployer_scheme, deployment list) sop" where
  "get_rollback_chain did s = (chain_loop (dy_deployments s) (Some did) [], s)"

end
