(* ===== verification/V1_Deployments_Facts.thy ===== *)
theory V1_Deployments_Facts
  imports V1_Deployments V1_Tenancy_Facts
begin

text \<open>
  The deployment service refines an abstract machine on its three tables: rows of targets,
  deployments and gates are added under the conditions the code checks, and a deployment moves
  along the allowed transitions. Every operation, also one that raises, performs steps of that
  machine; its invariants are therefore those of the service.
\<close>

section \<open>The abstract machine\<close>

type_synonym deploy_db = "deploy_target list \<times> deployment list \<times> gate list"

definition deploy_db :: "'x deployer_scheme \<Rightarrow> deploy_db" where
  "deploy_db s = (dy_targets s, dy_deployments s, dy_gates s)"

text \<open>What \<open>create_deployment\<close> has checked and computed of a row it inserts.\<close>

definition new_deployment :: "deploy_target list \<Rightarrow> deployment list \<Rightarrow> deployment \<Rightarrow> bool" where
  "new_deployment ts ds d \<longleftrightarrow>
     (\<forall>e \<in> set ds. dp_id e \<noteq> dp_id d) \<and> dp_version d = next_version (dp_target d) ds \<and> dp_state d = Pending \<and> dp_at d = None
     \<and> (\<exists>t \<in> set ts. dt_id t = dp_target d \<and> dt_lifecycle t = Active)
     \<and> (\<forall>r. dp_rollback_of d = Some r \<longrightarrow> (\<exists>e \<in> set ds. dp_id e = r \<and> dp_target e = dp_target d))"

inductive deploy_change :: "deploy_db \<Rightarrow> deploy_db \<Rightarrow> bool" where
  target_added: "\<forall>x \<in> set ts. dt_id x \<noteq> dt_id t \<Longrightarrow> deploy_change (ts, ds, gs) (ts @ [t], ds, gs)"
| target_archived: "deploy_change (ts, ds, gs) (sql_update_where (\<lambda>t. dt_id t = i) (\<lambda>t. t\<lparr>dt_lifecycle := Archived\<rparr>) ts, ds, gs)"
| deployment_added: "new_deployment ts ds d \<Longrightarrow> deploy_change (ts, ds, gs) (ts, ds @ [d], gs)"
| deployment_moved: "find (\<lambda>d. dp_id d = i) ds = Some d \<Longrightarrow> new \<in> set (allowed_transitions (dp_state d)) \<Longrightarrow>
    deploy_change (ts, ds, gs) (ts, sql_update_where (\<lambda>d. dp_id d = i) (moved_to now new) ds, gs)"
| gate_added: "\<exists>d \<in> set ds. dp_id d = gt_deployment g \<Longrightarrow> deploy_change (ts, ds, gs) (ts, ds, gs @ [g])"

abbreviation deploy_run :: "deploy_db \<Rightarrow> deploy_db \<Rightarrow> bool" where
  "deploy_run \<equiv> deploy_change\<^sup>*\<^sup>*"

text \<open>The states the machine can have reached from given tables, as an invariant of operations.\<close>

definition deployed_from :: "deploy_db \<Rightarrow> 'x deployer_scheme \<Rightarrow> bool" where
  "deployed_from x s \<longleftrightarrow> deploy_run x (deploy_db s)"

lemma deployed_from_more: "v1_state.more s = v1_state.more t \<Longrightarrow> deployed_from x s = deployed_from x t"
  by (cases s, cases t) (simp add: deployed_from_def deploy_db_def)

lemma deployed_step: "deployed_from x s \<Longrightarrow> deploy_change (deploy_db s) (deploy_db t) \<Longrightarrow> deployed_from x t"
  unfolding deployed_from_def by (rule rtranclp.rtrancl_into_rtrancl)

lemma deployed_new:
  assumes "deployed_from x s" "new_deployment (dy_targets s) (dy_deployments s) d \<or> (\<exists>e \<in> set (dy_deployments s). dp_id e = dp_id d)"
  shows "deployed_from x (snd (insert_deployment h d s))"
  using assms
  by (auto simp: insert_deployment_def list_ex_iff deploy_db_def intro!: deployment_added elim!: deployed_step)

section \<open>What the operations keep\<close>

lemma reads_deploy [reads_intros]:
  "reads (get_deployment i1)" "reads (get_target i2)" "reads (require_target i3 b)" "reads (require_object i4)"
  "reads (require_scope i5)" "reads (check_rollback_of r i6)"
  unfolding get_deployment_def get_target_def require_target_def require_object_def require_scope_def check_rollback_of_def
  by (intro reads_intros; fail)+

lemmas keeps_deploy_reads [keeps_intros] = reads_deploy [THEN keeps_reads]

lemma require_target_Inr:
  "fst (require_target i True s) = Inr t \<Longrightarrow> t \<in> set (dy_targets s) \<and> dt_id t = i \<and> dt_lifecycle t = Active"
  by (auto simp: require_target_def get_target_def split: option.splits if_splits dest!: find_SomeD)

lemma check_rollback_Inr: "fst (check_rollback_of r i s) = Inr u \<Longrightarrow>
    \<forall>q. r = Some q \<longrightarrow> (\<exists>e \<in> set (dy_deployments s). dp_id e = q \<and> dp_target e = i)"
  by (auto simp: check_rollback_of_def get_deployment_def split: option.splits if_splits dest!: find_SomeD)

lemma reads_optional:
  "reads (case obj of None \<Rightarrow> returnS () | Some i \<Rightarrow> require_object i)"
  "reads (case sid of None \<Rightarrow> returnS () | Some i \<Rightarrow> require_scope i)"
  by (intro reads_intros)+


text \<open>
  An invariant of recording and of the writes under the conditions the code has checked is an
  invariant of every operation.
\<close>

locale deployment_invariant =
  fixes h :: v1_host
    and I :: "'x deployer_scheme \<Rightarrow> bool"
  assumes inv_record: "keeps I (audit_event h now rq)"
    and inv_fresh: "keeps I (fresh_id h)"
    and inv_insert_target: "keeps I (insert_target h t)"
    and inv_archive_target: "I s \<Longrightarrow>
        I (s\<lparr>dy_targets := sql_update_where (\<lambda>t. dt_id t = i) (\<lambda>t. t\<lparr>dt_lifecycle := Archived\<rparr>) (dy_targets s)\<rparr>)"
    and inv_insert_gate: "keeps I (insert_gate h g)"
    and inv_insert_new: "I s \<Longrightarrow> new_deployment (dy_targets s) (dy_deployments s) d
        \<or> (\<exists>e \<in> set (dy_deployments s). dp_id e = dp_id d) \<Longrightarrow> I (snd (insert_deployment h d s))"
    and inv_move: "I s \<Longrightarrow> find (\<lambda>d. dp_id d = i) (dy_deployments s) = Some e \<Longrightarrow> new \<in> set (allowed_transitions (dp_state e)) \<Longrightarrow>
        I (snd (update_deployment i (moved_to now new) s))"
begin

lemma keeps_audit_by: "keeps I (audit_by h now actor rq)"
  unfolding audit_by_def by (intro keeps_intros inv_record)

lemma keeps_create_target: "keeps I (create_target h now name ttype owner config)"
  unfolding create_target_def by (intro keeps_intros inv_record inv_fresh inv_insert_target)

lemma keeps_archive_target: "keeps I (archive_target h now i actor)"
  unfolding archive_target_def by (intro keeps_intros keeps_audit_by inv_archive_target)

lemma keeps_record_gate: "keeps I (record_gate h now i gtype passed details actor)"
  unfolding record_gate_def by (intro keeps_intros keeps_audit_by inv_fresh inv_insert_gate)

lemma keeps_create_deployment: "keeps I (create_deployment h now i by obj sid meta rb)"
  unfolding keeps_def
proof (intro allI impI)
  fix s :: "'x deployer_scheme"
  assume s: "I s"

  show "I (snd (create_deployment h now i by obj sid meta rb s))"
  proof (cases "fst (require_target i True s)")
    case (Inl e)
    with s show ?thesis by (simp add: create_deployment_def bindS_reads reads_deploy)
  next
    case (Inr t)
    show ?thesis
    proof (cases "fst (check_rollback_of rb i s)")
      case (Inl e)
      with s Inr show ?thesis
        by (auto simp: create_deployment_def bindS_reads reads_deploy reads_optional split: sum.splits)
    next
      case rb: (Inr u)
      let ?s = "snd (fresh_id h s)"
      let ?d = "\<lparr>dp_id = v_id h (w_next s), dp_target = i, dp_by = by, dp_version = next_version i (dy_deployments s),
        dp_state = Pending, dp_object = obj, dp_scope = sid, dp_at = None, dp_rollback_of = rb, dp_metadata = meta\<rparr>"
      have "new_deployment (dy_targets s) (dy_deployments s) ?d \<or> (\<exists>e \<in> set (dy_deployments s). dp_id e = dp_id ?d)"
        using require_target_Inr [OF Inr] check_rollback_Inr [OF rb] by (auto simp: new_deployment_def)
      then have "I (snd (insert_deployment h ?d ?s))"
        using keeps_snd [OF inv_fresh s] by (intro inv_insert_new) (simp_all add: fresh_id_def)
      then have "I (snd (bindS (insert_deployment h ?d) (\<lambda>_. bindS (audit_event h now (deploy_request by ''deploy'' ''deployment'' (dp_id ?d) None
          (Some (deployment_snapshot ?d)))) (\<lambda>_. returnS ?d)) ?s))"
        by (rule keeps_after) (intro keeps_intros inv_record)
      with s Inr rb show ?thesis
        by (auto simp: create_deployment_def bindS_reads reads_deploy reads_optional Let_def bindS_def [of "fresh_id h"] fresh_id_def split: sum.splits)
    qed
  qed
qed

lemma keeps_transition: "keeps I (transition_state h now i new actor)"
  unfolding keeps_def
proof (intro allI impI)
  fix s :: "'x deployer_scheme"
  assume s: "I s"
  show "I (snd (transition_state h now i new actor s))"
  proof (cases "find (\<lambda>d. dp_id d = i) (dy_deployments s)")
    case None
    with s show ?thesis by (simp add: transition_state_def get_deployment_def)
  next
    case (Some d)
    show ?thesis
    proof (cases "new \<in> set (allowed_transitions (dp_state d))")
      case False
      with s Some show ?thesis by (simp add: transition_state_def get_deployment_def)
    next
      case True
      have "I (snd (update_deployment i (moved_to now new) s))"
        by (rule inv_move [OF s Some True])
      then have "I (snd (bindS (update_deployment i (moved_to now new)) f s))"
        if "\<And>y. keeps I (f y)" for f :: "unit \<Rightarrow> ('x deployer_scheme, deployment) sop"
        using that by (rule keeps_after)
      with Some True show ?thesis
        by (simp add: transition_state_def get_deployment_def keeps_intros keeps_audit_by)
    qed
  qed
qed

lemma keeps_execute:
  assumes "\<And>f d. fn = Some f \<Longrightarrow> keeps I (f d)"
  shows "keeps I (execute_deployment h now i actor fn)"
proof -
  have "keeps I (call_deploy fn d)" for d
    using assms by (auto simp: keeps_def call_deploy_def split: option.splits prod.splits sum.splits) (metis snd_conv)+
  then show ?thesis unfolding execute_deployment_def by (intro keeps_intros keeps_transition)
qed

lemma keeps_rollback: "keeps I (rollback_deployment h now i actor meta)"
  unfolding rollback_deployment_def by (intro keeps_intros inv_record keeps_create_deployment keeps_transition)

end

interpretation deploy_refines: deployment_invariant h "deployed_from x" for h x
proof
  show "keeps (deployed_from x) (audit_event h now rq)" for now rq
    by (rule keeps_event_more [OF deployed_from_more])
  show "keeps (deployed_from x) (fresh_id h)" by (rule keeps_fresh_more [OF deployed_from_more])
  show "keeps (deployed_from x) (insert_target h t)" for t
    by (auto simp: keeps_def insert_target_def deploy_db_def list_ex_iff intro!: target_added elim!: deployed_step)
  show "keeps (deployed_from x) (insert_gate h g)" for g
    by (auto simp: keeps_def insert_gate_def deploy_db_def list_ex_iff intro!: gate_added elim!: deployed_step)
  show "deployed_from x (snd (insert_deployment h d s))"
    if "deployed_from x s" "new_deployment (dy_targets s) (dy_deployments s) d \<or> (\<exists>e \<in> set (dy_deployments s). dp_id e = dp_id d)" for s d
    using that by (rule deployed_new)
qed (auto simp: update_deployment_def deploy_db_def intro: target_archived deployment_moved elim!: deployed_step)

lemma audit_ok_deployer [simp]:
  fixes s :: "'x deployer_scheme"
  shows "audit_ok h (dy_targets_update f1 s) = audit_ok h s" "audit_ok h (dy_deployments_update f2 s) = audit_ok h s"
    "audit_ok h (dy_gates_update f3 s) = audit_ok h s"
  by (simp_all add: audit_ok_def head_ok_def)

interpretation deploy_audit: deployment_invariant h "audit_ok h" for h
  by unfold_locales
    (auto simp: keeps_def insert_target_def insert_gate_def insert_deployment_def update_deployment_def
      intro!: keeps_snd [OF keeps_audit_event] keeps_snd [OF keeps_fresh_id])

end
