(* ===== verification/V1_Deployments_Properties.thy ===== *)
theory V1_Deployments_Properties
  imports V1_Deployments_Facts V1_Audit_Properties
begin

text \<open>
  The deployment service as a step system and its properties: the tables it reaches, how a
  deployment advances, what gates and callbacks decide, and the chain of rollbacks.
\<close>

section \<open>Invariants of the machine\<close>

abbreviation of_target :: "string \<Rightarrow> deployment list \<Rightarrow> deployment list" where
  "of_target i ds \<equiv> filter (\<lambda>d. dp_target d = i) ds"

definition numbered :: "deployment list \<Rightarrow> bool" where
  "numbered ds \<longleftrightarrow> (\<forall>i. map dp_version (of_target i ds) = [1..<Suc (length (of_target i ds))])"

definition deploy_ok :: "deploy_db \<Rightarrow> bool" where
  "deploy_ok x \<longleftrightarrow> (case x of (ts, ds, gs) \<Rightarrow>
     distinct (map dt_id ts) \<and> distinct (map dp_id ds) \<and>
     numbered ds \<and> (\<forall>d \<in> set ds. dp_target d \<in> dt_id ` set ts) \<and>
     (\<forall>d \<in> set ds. dp_at d \<noteq> None \<longleftrightarrow> dp_state d \<in> {Deployed, RolledBack}) \<and>
     (\<forall>d \<in> set ds. \<forall>r. dp_rollback_of d = Some r \<longrightarrow>
        (\<exists>e \<in> set ds. dp_id e = r \<and> dp_target e = dp_target d \<and> dp_version e < dp_version d)) \<and>
     (\<forall>g \<in> set gs. gt_deployment g \<in> dp_id ` set ds))"

lemma fold_max_upt: "fold max [1..<Suc n] 0 = n"
  by (induction n) auto

lemma next_version_count: "numbered ds \<Longrightarrow> next_version i ds = Suc (length (of_target i ds))"
  by (simp only: next_version_def numbered_def fold_max_upt)

lemma numbered_snoc: "numbered ds \<Longrightarrow> dp_version d = next_version (dp_target d) ds \<Longrightarrow> numbered (ds @ [d])"
proof -
  assume num: "numbered ds" and v: "dp_version d = next_version (dp_target d) ds"
  have "map dp_version (of_target i (ds @ [d])) = [1..<Suc (length (of_target i (ds @ [d])))]" for i
  proof (cases "dp_target d = i")
    case True
    have "[1..<Suc (Suc n)] = [1..<Suc n] @ [Suc n]" for n by simp
    with True num v show ?thesis by (simp add: numbered_def next_version_count [OF num] del: upt_Suc)
  next
    case False
    with num show ?thesis by (simp add: numbered_def del: upt_Suc)
  qed
  then show ?thesis by (simp add: numbered_def)
qed

lemma numbered_below:
  assumes "numbered ds" "e \<in> set ds" "dp_target e = i"
  shows "dp_version e < next_version i ds"
proof -
  have "dp_version e \<in> set (map dp_version (of_target i ds))" using assms(2,3) by auto
  then show ?thesis using assms(1) unfolding next_version_count [OF assms(1)] numbered_def by (simp only: set_upt) simp
qed

text \<open>A deployment as it was before and after some calls: only its state and time may change.\<close>

definition fixed_part :: "deployment \<Rightarrow> _" where
  "fixed_part d = (dp_id d, dp_target d, dp_by d, dp_version d, dp_object d, dp_scope d, dp_rollback_of d, dp_metadata d)"

definition advanced :: "deployment \<Rightarrow> deployment \<Rightarrow> bool" where
  "advanced d e \<longleftrightarrow> fixed_part e = fixed_part d \<and> (\<lambda>a b. b \<in> set (allowed_transitions a))\<^sup>*\<^sup>* (dp_state d) (dp_state e)"

lemma advanced_refl [simp]: "advanced d d"
  by (simp add: advanced_def)

lemma advanced_trans: "advanced d e \<Longrightarrow> advanced e f \<Longrightarrow> advanced d f"
  unfolding advanced_def by (auto intro: rtranclp_trans)

lemma moved_fixed [simp]: "fixed_part (moved_to now new d) = fixed_part d"
  by (simp add: fixed_part_def moved_to_def)

lemma moved_simps [simp]:
  "dp_id (moved_to now new d) = dp_id d" "dp_target (moved_to now new d) = dp_target d"
  "dp_version (moved_to now new d) = dp_version d" "dp_rollback_of (moved_to now new d) = dp_rollback_of d"
  "dp_state (moved_to now new d) = new"
  by (simp_all add: moved_to_def)

lemma advanced_moved: "new \<in> set (allowed_transitions (dp_state d)) \<Longrightarrow> advanced d (moved_to now new d)"
  by (auto simp: advanced_def)

text \<open>A move rewrites one row, the others stay.\<close>

lemma moved_rows:
  assumes "distinct (map dp_id ds)" "find (\<lambda>d. dp_id d = i) ds = Some d"
  shows "sql_update_where (\<lambda>d. dp_id d = i) (moved_to now new) ds = map (\<lambda>e. if e = d then moved_to now new d else e) ds"
proof -
  from assms(2) have d: "d \<in> set ds" "dp_id d = i" by (auto dest: find_SomeD)
  have "dp_id e = i \<longleftrightarrow> e = d" if "e \<in> set ds" for e
    using d that assms(1) by (auto simp: distinct_map dest: inj_onD)
  then show ?thesis by (auto simp: sql_update_where_def)
qed

lemma moved_columns:
  assumes "\<And>e. col (moved_to now new e) = col e"
  shows "map col (filter (\<lambda>d. P (dp_target d)) (sql_update_where Q (moved_to now new) ds)) = map col (filter (\<lambda>d. P (dp_target d)) ds)"
  using assms by (induction ds) (auto simp: sql_update_where_def)

lemma allowed_at:
  "new \<in> set (allowed_transitions (dp_state d)) \<Longrightarrow> dp_at d \<noteq> None \<longleftrightarrow> dp_state d \<in> {Deployed, RolledBack} \<Longrightarrow>
    dp_at (moved_to now new d) \<noteq> None \<longleftrightarrow> new \<in> {Deployed, RolledBack}"
  by (cases "dp_state d") (auto simp: moved_to_def)

lemma deploy_change_ok: "deploy_change x y \<Longrightarrow> deploy_ok x \<Longrightarrow> deploy_ok y"
proof (induction rule: deploy_change.induct)
  case (target_added t ts ds gs)
  then show ?case by (fastforce simp: deploy_ok_def)
next
  case (target_archived ts ds gs i)
  then show ?case by (simp add: deploy_ok_def sql_update_where_key [where key = dt_id] flip: set_map)
next
  case (deployment_added ts ds d gs)
  then have new: "new_deployment ts ds d" and ok: "deploy_ok (ts, ds, gs)" by simp_all
  have v: "dp_version d = next_version (dp_target d) ds" and num: "numbered ds"
    using new ok by (simp_all add: new_deployment_def deploy_ok_def)
  have before: "dp_version e < dp_version d" if "e \<in> set ds" "dp_target e = dp_target d" for e
    unfolding v by (rule numbered_below [OF num that])
  have "numbered (ds @ [d])" by (rule numbered_snoc [OF num v])
  moreover from new obtain t where "t \<in> set ts" "dp_target d = dt_id t" by (auto simp: new_deployment_def)
  then have "dp_target d \<in> dt_id ` set ts" by (rule image_eqI [rotated])
  moreover have "\<forall>e \<in> set (ds @ [d]). \<forall>r. dp_rollback_of e = Some r \<longrightarrow>
      (\<exists>f \<in> set (ds @ [d]). dp_id f = r \<and> dp_target f = dp_target e \<and> dp_version f < dp_version e)"
  proof (intro ballI allI impI)
    fix e r
    assume e: "e \<in> set (ds @ [d])" "dp_rollback_of e = Some r"
    have "\<exists>f \<in> set ds. dp_id f = r \<and> dp_target f = dp_target e \<and> dp_version f < dp_version e"
    proof (cases "e \<in> set ds")
      case True
      with ok e(2) show ?thesis by (simp add: deploy_ok_def)
    next
      case False
      with e(1) have "e = d" by simp
      with new e(2) obtain f where "f \<in> set ds" "dp_id f = r" "dp_target f = dp_target e" by (auto simp: new_deployment_def)
      with before \<open>e = d\<close> show ?thesis by blast
    qed
    then show "\<exists>f \<in> set (ds @ [d]). dp_id f = r \<and> dp_target f = dp_target e \<and> dp_version f < dp_version e" by auto
  qed
  ultimately show ?case using ok new by (auto simp: deploy_ok_def new_deployment_def)
next
  case (deployment_moved i ds d new ts gs now)
  then have ok: "deploy_ok (ts, ds, gs)" and mv: "find (\<lambda>d. dp_id d = i) ds = Some d" "new \<in> set (allowed_transitions (dp_state d))"
    by simp_all
  let ?ds = "sql_update_where (\<lambda>d. dp_id d = i) (moved_to now new) ds"
  from mv(1) have d: "d \<in> set ds" by (auto dest: find_SomeD)
  have rows: "?ds = map (\<lambda>e. if e = d then moved_to now new d else e) ds"
    using ok mv(1) by (intro moved_rows) (simp_all add: deploy_ok_def)
  have ids: "map dp_id ?ds = map dp_id ds" by (rule sql_update_where_key) simp
  have vs: "map dp_version (of_target k ?ds) = map dp_version (of_target k ds)" for k
    by (rule moved_columns) simp
  have num: "numbered ?ds"
    using ok vs unfolding deploy_ok_def prod.case numbered_def by (metis length_map)
  have at: "\<forall>e \<in> set ?ds. dp_at e \<noteq> None \<longleftrightarrow> dp_state e \<in> {Deployed, RolledBack}"
    unfolding rows using ok d allowed_at [OF mv(2)] by (auto simp: deploy_ok_def)
  have rb: "\<forall>e \<in> set ?ds. \<forall>r. dp_rollback_of e = Some r \<longrightarrow>
      (\<exists>f \<in> set ?ds. dp_id f = r \<and> dp_target f = dp_target e \<and> dp_version f < dp_version e)"
  proof (intro ballI allI impI)
    fix e r
    assume "e \<in> set ?ds" "dp_rollback_of e = Some r"
    then obtain e' where "e' \<in> set ds" "dp_rollback_of e' = Some r" "dp_target e = dp_target e'" "dp_version e = dp_version e'"
      by (auto simp: sql_update_where_def)
    moreover have "\<forall>d \<in> set ds. \<forall>r. dp_rollback_of d = Some r \<longrightarrow>
        (\<exists>e \<in> set ds. dp_id e = r \<and> dp_target e = dp_target d \<and> dp_version e < dp_version d)"
      using ok by (simp add: deploy_ok_def)
    ultimately obtain f where "f \<in> set ds" "dp_id f = r" "dp_target f = dp_target e" "dp_version f < dp_version e"
      by metis
    then show "\<exists>f \<in> set ?ds. dp_id f = r \<and> dp_target f = dp_target e \<and> dp_version f < dp_version e"
      by (intro bexI [of _ "if dp_id f = i then moved_to now new f else f"]) (auto simp: sql_update_where_def)
  qed
  have tg: "\<forall>e \<in> set ?ds. dp_target e \<in> dt_id ` set ts"
    using ok by (auto simp: sql_update_where_def deploy_ok_def)
  have "dp_id ` set ?ds = dp_id ` set ds" by (metis ids set_map)
  then show ?case using ok ids num at rb tg by (simp add: deploy_ok_def)
next
  case (gate_added g ds ts gs)
  then show ?case by (auto simp: deploy_ok_def intro: rev_image_eqI)
qed

lemma deploy_change_advances:
  assumes "deploy_change x y" "deploy_ok x" "d \<in> set (fst (snd x))"
  shows "\<exists>e \<in> set (fst (snd y)). advanced d e"
  using assms
proof (induction rule: deploy_change.induct)
  case (deployment_moved i ds c new ts gs now)
  then have rows: "sql_update_where (\<lambda>d. dp_id d = i) (moved_to now new) ds = map (\<lambda>e. if e = c then moved_to now new c else e) ds"
    by (intro moved_rows) (simp_all add: deploy_ok_def)
  have "advanced d (if d = c then moved_to now new c else d)"
    using advanced_moved [OF deployment_moved(2)] by simp
  moreover have "(if d = c then moved_to now new c else d) \<in> set (map (\<lambda>e. if e = c then moved_to now new c else e) ds)"
    using deployment_moved(4) unfolding set_map by (intro image_eqI [of _ _ d]) simp_all
  ultimately show ?case unfolding fst_conv snd_conv rows by blast
qed (auto intro: advanced_refl rev_bexI)

lemma deploy_run_ok:
  "deploy_run x y \<Longrightarrow> deploy_ok x \<Longrightarrow> deploy_ok y \<and> (\<forall>d \<in> set (fst (snd x)). \<exists>e \<in> set (fst (snd y)). advanced d e)"
proof (induction rule: rtranclp_induct)
  case (step y z)
  then show ?case using deploy_change_ok deploy_change_advances by (meson advanced_trans)
qed (use advanced_refl in blast)

section \<open>The rollback chain\<close>

text \<open>Each deployment of a chain reverses the one before it, and the last one was not reversed.\<close>

fun reversal_chain :: "deployment list \<Rightarrow> deployment list \<Rightarrow> bool" where
  "reversal_chain ds [] = True"
| "reversal_chain ds [d] = (\<forall>e \<in> set ds. dp_rollback_of e \<noteq> Some (dp_id d))"
| "reversal_chain ds (d # e # chain) =
     (dp_rollback_of e = Some (dp_id d) \<and> dp_version d < dp_version e \<and> reversal_chain ds (e # chain))"

lemma reversal_of_None: "reversal_of i ds = None \<longleftrightarrow> (\<forall>d \<in> set ds. dp_rollback_of d \<noteq> Some i)"
proof -
  have "reversal_of i ds = None \<longleftrightarrow> sql_order False dp_version (filter (\<lambda>d. dp_rollback_of d = Some i) ds) = []"
    unfolding reversal_of_def by (auto split: list.splits)
  also have "\<dots> \<longleftrightarrow> filter (\<lambda>d. dp_rollback_of d = Some i) ds = []" by (metis set_empty sql_order_set)
  finally show ?thesis by (simp add: filter_empty_conv)
qed

lemma reversal_of_Some:
  assumes "reversal_of i ds = Some j"
  shows "\<exists>d \<in> set ds. dp_id d = j \<and> dp_rollback_of d = Some i"
proof -
  from assms obtain d es where "sql_order False dp_version (filter (\<lambda>d. dp_rollback_of d = Some i) ds) = d # es" "j = dp_id d"
    by (auto simp: reversal_of_def split: list.splits)
  then have "d \<in> set (sql_order False dp_version (filter (\<lambda>d. dp_rollback_of d = Some i) ds))" by simp
  with \<open>j = dp_id d\<close> show ?thesis by auto
qed

lemma find_id: "distinct (map dp_id ds) \<Longrightarrow> d \<in> set ds \<Longrightarrow> find (\<lambda>e. dp_id e = dp_id d) ds = Some d"
  by (induction ds) auto

lemma chain_loop_returns:
  assumes "deploy_ok (ts, ds, gs)" "d \<in> set ds" "\<forall>i \<in> set seen. \<exists>e \<in> set ds. dp_id e = i \<and> dp_version e < dp_version d"
  shows "\<exists>chain. chain_loop ds (Some (dp_id d)) seen = Inr (d # chain) \<and> reversal_chain ds (d # chain) \<and> set chain \<subseteq> set ds"
  using assms(2,3)
proof (induction "unseen dp_id seen ds" arbitrary: d seen rule: less_induct)
  case less
  have ids: "distinct (map dp_id ds)" using assms(1) by (simp add: deploy_ok_def)
  then have same: "e = f" if "e \<in> set ds" "f \<in> set ds" "dp_id e = dp_id f" for e f
    using that by (auto simp: distinct_map dest: inj_onD)
  have new: "dp_id d \<notin> set seen"
  proof
    assume "dp_id d \<in> set seen"
    then obtain e where "e \<in> set ds" "dp_id e = dp_id d" "dp_version e < dp_version d" using less.prems(2) by blast
    with same [of e d] less.prems(1) show False by simp
  qed
  note unfold = chain_loop.simps [of ds "Some (dp_id d)" seen]
  show ?case
  proof (cases "reversal_of (dp_id d) ds")
    case None
    moreover from None have "\<forall>e \<in> set ds. dp_rollback_of e \<noteq> Some (dp_id d)" by (simp add: reversal_of_None)
    ultimately show ?thesis
      using new find_id [OF ids less.prems(1)] by (simp add: unfold chain_loop.simps [of ds None])
  next
    case (Some j)
    then obtain e where e: "e \<in> set ds" "dp_id e = j" "dp_rollback_of e = Some (dp_id d)" using reversal_of_Some by blast
    with assms(1) obtain f where "f \<in> set ds" "dp_id f = dp_id d" "dp_version f < dp_version e"
      unfolding deploy_ok_def prod.case by blast
    with same [of f d] less.prems(1) have later: "dp_version d < dp_version e" by simp
    have "unseen dp_id (dp_id d # seen) ds < unseen dp_id seen ds" using less.prems(1) new by (rule unseen_less)
    moreover have "\<forall>i \<in> set (dp_id d # seen). \<exists>g \<in> set ds. dp_id g = i \<and> dp_version g < dp_version e"
      using less.prems later by (auto intro: less_trans)
    ultimately obtain chain where "chain_loop ds (Some (dp_id e)) (dp_id d # seen) = Inr (e # chain)"
        "reversal_chain ds (e # chain)" "set chain \<subseteq> set ds"
      using less.hyps e(1) by blast
    then show ?thesis
      using new find_id [OF ids less.prems(1)] Some e later by (simp add: unfold)
  qed
qed

section \<open>The service as a step system\<close>

text \<open>
  Any call, whether it returns or raises. A deployment callback may do anything that the service
  itself could do to its tables, and may keep the trail.
\<close>

definition well_behaved :: "v1_host \<Rightarrow> (deployment \<Rightarrow> ('x deployer_scheme, bool) sop) \<Rightarrow> bool" where
  "well_behaved h f \<longleftrightarrow> (\<forall>d. keeps (audit_ok h) (f d) \<and> (\<forall>x. keeps (deployed_from x) (f d)))"

lemma well_behavedD:
  "well_behaved h f \<Longrightarrow> keeps (deployed_from x) (f d)" "well_behaved h f \<Longrightarrow> keeps (audit_ok h) (f d)"
  by (simp_all add: well_behaved_def del: split_paired_All)

inductive deployer_step :: "v1_host \<Rightarrow> 'x deployer_scheme \<Rightarrow> 'x deployer_scheme \<Rightarrow> bool" for h s where
  step_create_target: "deployer_step h s (snd (create_target h now name ttype owner config s))"
| step_archive_target: "deployer_step h s (snd (archive_target h now i by s))"
| step_create: "deployer_step h s (snd (create_deployment h now i actor obj sid meta rb s))"
| step_transition: "deployer_step h s (snd (transition_state h now i new by s))"
| step_execute: "(\<And>f. fn = Some f \<Longrightarrow> well_behaved h f) \<Longrightarrow> deployer_step h s (snd (execute_deployment h now i actor fn s))"
| step_gate: "deployer_step h s (snd (record_gate h now i gtype passed details by s))"
| step_rollback: "deployer_step h s (snd (rollback_deployment h now i actor meta s))"

abbreviation deployer_run :: "v1_host \<Rightarrow> 'x deployer_scheme \<Rightarrow> 'x deployer_scheme \<Rightarrow> bool" where
  "deployer_run h \<equiv> (deployer_step h)\<^sup>*\<^sup>*"

lemma deployer_step_keeps:
  assumes "deployer_step h s t"
  shows "deploy_run (deploy_db s) (deploy_db t)" "audit_ok h s \<Longrightarrow> audit_ok h t"
proof -
  have start: "deployed_from (deploy_db s) s" by (simp add: deployed_from_def)
  from assms have "deployed_from (deploy_db s) t"
    by cases (auto intro!: keeps_snd [where I = "deployed_from (deploy_db s)", OF _ start] deploy_refines.keeps_create_target deploy_refines.keeps_archive_target
      deploy_refines.keeps_create_deployment deploy_refines.keeps_transition deploy_refines.keeps_execute
      deploy_refines.keeps_record_gate deploy_refines.keeps_rollback intro: well_behavedD)
  then show "deploy_run (deploy_db s) (deploy_db t)" by (simp add: deployed_from_def)
  assume ok: "audit_ok h s"
  from assms show "audit_ok h t"
    by cases (auto intro!: keeps_snd [where I = "audit_ok h", OF _ ok] deploy_audit.keeps_create_target deploy_audit.keeps_archive_target
      deploy_audit.keeps_create_deployment deploy_audit.keeps_transition deploy_audit.keeps_execute
      deploy_audit.keeps_record_gate deploy_audit.keeps_rollback intro: well_behavedD)
qed

lemma deployer_run_keeps: "deployer_run h s t \<Longrightarrow> deploy_run (deploy_db s) (deploy_db t) \<and> (audit_ok h s \<longrightarrow> audit_ok h t)"
proof (induction rule: rtranclp_induct)
  case (step t u)
  then show ?case using deployer_step_keeps [OF step(2)] by (meson rtranclp_trans)
qed simp

section \<open>A sample\<close>

definition deployer0 :: deployer where
  "deployer0 = \<lparr>w_next = 0, w_trail = [], w_seq = 0, w_last = '''', tn_audited = True,
     tn_principals = [''ann''], tn_objects = [], tn_scopes = [], tn_members = [], tn_projections = [],
     dy_targets = [], dy_deployments = [], dy_gates = []\<rparr>"

definition target1 :: "(v1_error + deploy_target) \<times> deployer" where
  "target1 = create_target v1_host0 ''2024-01-01'' ''prod'' ''cluster'' ''ann'' [] deployer0"

definition created1 :: "(v1_error + deployment) \<times> deployer" where
  "created1 = create_deployment v1_host0 ''2024-01-02'' ''t0'' ''ann'' None None [] None (snd target1)"

definition executed1 :: "(v1_error + deployment) \<times> deployer" where
  "executed1 = execute_deployment v1_host0 ''2024-01-03'' ''t2'' ''ann'' None (snd created1)"

definition reversed1 :: "(v1_error + deployment) \<times> deployer" where
  "reversed1 = rollback_deployment v1_host0 ''2024-01-04'' ''t2'' ''ann'' [] (snd executed1)"

lemma reversed1_run: "deployer_run v1_host0 deployer0 (snd reversed1)"
proof -
  have a: "deployer_step v1_host0 deployer0 (snd target1)" unfolding target1_def by (rule step_create_target)
  have b: "deployer_step v1_host0 (snd target1) (snd created1)" unfolding created1_def by (rule step_create)
  have c: "deployer_step v1_host0 (snd created1) (snd executed1)" unfolding executed1_def by (rule step_execute) simp
  have d: "deployer_step v1_host0 (snd executed1) (snd reversed1)" unfolding reversed1_def by (rule step_rollback)
  note run = converse_rtranclp_into_rtranclp [where r = "deployer_step v1_host0 :: deployer \<Rightarrow> deployer \<Rightarrow> bool"]
  show ?thesis by (rule run [OF a], rule run [OF b], rule run [OF c], rule run [OF d], rule rtranclp.rtrancl_refl)
qed

lemma reversed1_rows:
  "map (\<lambda>d. (dp_id d, dp_version d, dp_state d, dp_rollback_of d)) (dy_deployments (snd reversed1))
    = [(''t2'', 1, RolledBack, None), (''t6'', 2, Pending, Some ''t2'')]"
  by code_simp

section \<open>The properties\<close>

definition no_deployments :: "'x deployer_scheme \<Rightarrow> bool" where
  "no_deployments s \<longleftrightarrow> dy_targets s = [] \<and> dy_deployments s = [] \<and> dy_gates s = []"

lemma no_deployments_ok: "no_deployments s \<Longrightarrow> deploy_ok (deploy_db s)"
  by (simp add: no_deployments_def deploy_db_def deploy_ok_def numbered_def)

text \<open>
  C20. The deployment service refines its state machine: whatever is called, also when calls or
  callbacks raise, its tables evolve by the machine's steps; in every state reached the versions
  of a target are numbered without gaps, reversals point to an earlier deployment of the same
  target, a deployment has a time exactly when it is deployed or rolled back; no deployment
  disappears or changes except along the allowed transitions; and the audit trail stays a chain.
\<close>

theorem deployments_follow_machine:
  assumes "deployer_run h s0 s" "no_deployments s0" "deployer_run h s t"
  shows "deploy_run (deploy_db s) (deploy_db t) \<and> deploy_ok (deploy_db t) \<and>
    (\<forall>d \<in> set (dy_deployments s). \<exists>e \<in> set (dy_deployments t). advanced d e) \<and> (audit_ok h s0 \<longrightarrow> audit_ok h t)"
proof -
  have "deploy_ok (deploy_db s)"
    using deployer_run_keeps [OF assms(1)] deploy_run_ok no_deployments_ok [OF assms(2)] by blast
  moreover have "audit_ok h s0 \<longrightarrow> audit_ok h t" using deployer_run_keeps [OF assms(1)] deployer_run_keeps [OF assms(3)] by blast
  moreover have "fst (snd (deploy_db u)) = dy_deployments u" for u :: "'a deployer_scheme" by (simp add: deploy_db_def)
  ultimately show ?thesis using deployer_run_keeps [OF assms(3)] deploy_run_ok by metis
qed

theorem deployments_follow_machine_witness:
  "deploy_ok (deploy_db (snd reversed1)) \<and> length (dy_deployments (snd reversed1)) = 2"
proof
  have "no_deployments deployer0" by (simp add: no_deployments_def deployer0_def)
  from deployments_follow_machine [OF reversed1_run this rtranclp.rtrancl_refl] show "deploy_ok (deploy_db (snd reversed1))" by blast
  show "length (dy_deployments (snd reversed1)) = 2"
    using arg_cong [OF reversed1_rows, of length] by simp
qed

text \<open>
  The chain of rollbacks is always found: from every deployment of a state the service has
  reached, \<open>get_rollback_chain\<close> ends without meeting its cycle check, changes nothing, and
  returns that deployment followed by its reversals, each of which reverses the one before it
  with a higher version, up to one that was never reversed.
\<close>

theorem rollback_chain_returns:
  assumes "deployer_run h s0 s" "no_deployments s0" "d \<in> set (dy_deployments s)"
  shows "\<exists>chain. get_rollback_chain (dp_id d) s = (Inr (d # chain), s) \<and> reversal_chain (dy_deployments s) (d # chain) \<and>
    set chain \<subseteq> set (dy_deployments s)"
proof -
  have "deploy_ok (deploy_db s)"
    using deployer_run_keeps [OF assms(1)] deploy_run_ok no_deployments_ok [OF assms(2)] by blast
  from chain_loop_returns [OF this [unfolded deploy_db_def] assms(3), of "[]"] show ?thesis
    by (simp add: get_rollback_chain_def)
qed

theorem rollback_chain_returns_witness:
  "\<exists>chain. fst (get_rollback_chain ''t2'' (snd reversed1)) = Inr chain \<and> map dp_id chain = [''t2'', ''t6'']"
proof -
  from arg_cong [OF reversed1_rows, of "map fst"] have "map dp_id (dy_deployments (snd reversed1)) = [''t2'', ''t6'']"
    by (simp add: o_def)
  then have "''t2'' \<in> dp_id ` set (dy_deployments (snd reversed1))" by (metis list.set_intros(1) set_map)
  then obtain d where d: "d \<in> set (dy_deployments (snd reversed1))" "dp_id d = ''t2''" by auto
  have "no_deployments deployer0" by (simp add: no_deployments_def deployer0_def)
  from rollback_chain_returns [OF reversed1_run this d(1)] obtain chain where
    "get_rollback_chain ''t2'' (snd reversed1) = (Inr (d # chain), snd reversed1)" by (auto simp: d(2))
  moreover have "(case fst (get_rollback_chain ''t2'' (snd reversed1)) of Inr c \<Rightarrow> map dp_id c = [''t2'', ''t6''] | _ \<Rightarrow> False)"
    by code_simp
  ultimately show ?thesis by auto
qed

text \<open>
  Gates and callbacks decide: executing a pending deployment to an active target with a failed
  gate raises \<open>DeploymentGateFailedError\<close> and changes nothing, so the callback never runs; when
  execution returns, the deployment was pending, no gate had failed, and the result is deployed
  exactly when there is no callback or the callback returned true, and failed when it returned
  false or raised.
\<close>

theorem gates_decide:
  assumes "find (\<lambda>d. dp_id d = i) (dy_deployments s) = Some d0"
  shows "(dp_state d0 = Pending \<and> fst (require_target (dp_target d0) True s) = Inr tgt \<and>
      (\<exists>g \<in> set (dy_gates s). gt_deployment g = i \<and> \<not> gt_passed g) \<longrightarrow>
      execute_deployment h now i actor fn s = (Inl DeploymentGateFailed, s)) \<and>
    (execute_deployment h now i actor fn s = (Inr d, t) \<longrightarrow>
      dp_state d0 = Pending \<and> (\<forall>g \<in> set (dy_gates s). gt_deployment g = i \<longrightarrow> gt_passed g) \<and>
      dp_state d \<in> {Deployed, DeployFailed} \<and>
      (\<exists>d1 s1. transition_state h now i Deploying (Some actor) s = (Inr d1, s1) \<and>
        (dp_state d = Deployed \<longleftrightarrow> (case fn of None \<Rightarrow> True | Some f \<Rightarrow> fst (f d1 s1) = Inr True))))"
proof (intro conjI impI; (elim conjE)?)
  assume "dp_state d0 = Pending" "fst (require_target (dp_target d0) True s) = Inr tgt"
    "\<exists>g \<in> set (dy_gates s). gt_deployment g = i \<and> \<not> gt_passed g"
  then show "execute_deployment h now i actor fn s = (Inl DeploymentGateFailed, s)"
    using assms by (auto simp: execute_deployment_def get_deployment_def bindS_reads reads_deploy list_ex_iff)
next
  assume e: "execute_deployment h now i actor fn s = (Inr d, t)"
  have state: "transition_state h now i new by s2 = (Inr d2, s3) \<Longrightarrow> dp_state d2 = new" for new "by" s2 d2 s3
    by (auto simp: transition_state_def bindS_Inr_iff split: option.splits if_splits)
  from e assms show p: "dp_state d0 = Pending"
    by (auto simp: execute_deployment_def get_deployment_def split: if_splits)
  from e p assms obtain r where r: "fst (require_target (dp_target d0) True s) = Inr r"
    by (auto simp: execute_deployment_def get_deployment_def bindS_reads reads_deploy split: sum.splits)
  with e p assms show gates: "\<forall>g \<in> set (dy_gates s). gt_deployment g = i \<longrightarrow> gt_passed g"
    by (auto simp: execute_deployment_def get_deployment_def bindS_reads reads_deploy list_ex_iff split: if_splits)
  with e p r assms obtain d1 s1 b s2 where
    d1: "transition_state h now i Deploying (Some actor) s = (Inr d1, s1)" and b: "call_deploy fn d1 s1 = (Inr b, s2)"
    and d: "transition_state h now i (if b then Deployed else DeployFailed) (Some actor) s2 = (Inr d, t)"
    by (auto simp: execute_deployment_def get_deployment_def bindS_reads reads_deploy list_ex_iff bindS_Inr_iff split: if_splits)
  from state [OF d] show "dp_state d \<in> {Deployed, DeployFailed}" by simp
  have "b \<longleftrightarrow> (case fn of None \<Rightarrow> True | Some f \<Rightarrow> fst (f d1 s1) = Inr True)"
    using b by (auto simp: call_deploy_def split: option.splits prod.splits sum.splits)
  with d1 state [OF d] show "\<exists>d1 s1. transition_state h now i Deploying (Some actor) s = (Inr d1, s1) \<and>
      (dp_state d = Deployed \<longleftrightarrow> (case fn of None \<Rightarrow> True | Some f \<Rightarrow> fst (f d1 s1) = Inr True))"
    by (intro exI [of _ d1] exI [of _ s1]) simp
qed

theorem gates_decide_witness:
  "\<exists>d. find (\<lambda>d. dp_id d = ''t2'') (dy_deployments (snd created1)) = Some d \<and> dp_state d = Pending \<and>
    (\<exists>e. fst executed1 = Inr e \<and> dp_state e \<in> {Deployed, DeployFailed})"
proof -
  have "(case find (\<lambda>d. dp_id d = ''t2'') (dy_deployments (snd created1)) of Some d \<Rightarrow> True | None \<Rightarrow> False)" by code_simp
  then obtain d where d: "find (\<lambda>d. dp_id d = ''t2'') (dy_deployments (snd created1)) = Some d" by (auto split: option.splits)
  have "is_ok (fst executed1)" by code_simp
  then obtain e where e: "executed1 = (Inr e, snd executed1)" by (metis is_ok_iff prod.collapse)
  from gates_decide [OF d] e [unfolded executed1_def] have "dp_state d = Pending \<and> dp_state e \<in> {Deployed, DeployFailed}"
    by metis
  with d e show ?thesis by (metis fst_conv)
qed

end
