(* ===== verification/V1_Guard.thy ===== *)
theory V1_Guard
  imports V1_Visibility V1_Rules
begin

text \<open>
  Services that consult the rule engine before they act. The engine they were given, if any, is part
  of the state: its tables and cache; it shares the audit trail, so it runs on the part of the
  state that a rule base consists of.
\<close>

type_synonym rule_tables = "unit rule_base_ext"

record guarded = tenant +
  gd_engine :: "rule_tables option"

text \<open>The rule engine, on its tables and the shared trail.\<close>

definition engine_part :: "rule_tables \<Rightarrow> 'x guarded_scheme \<Rightarrow> rule_base" where
  "engine_part e s = v1_state.extend (v1_state.truncate s) e"

definition engine_put :: "rule_base \<Rightarrow> 'x guarded_scheme \<Rightarrow> 'x guarded_scheme" where
  "engine_put t s = s\<lparr>w_next := w_next t, w_trail := w_trail t, w_seq := w_seq t, w_last := w_last t,
     gd_engine := Some (v1_state.more t)\<rparr>"

text \<open>
  A check of rules: without an engine, and when no rule matches, everything passes; the clock
  readings are those of the engine's cache.
\<close>

definition denied_by_rules :: "evaluation_result \<Rightarrow> bool" where
  "denied_by_rules res \<longleftrightarrow> \<not> er_allowed res \<and> (er_deny res \<noteq> [] \<or> er_matching res \<noteq> [])"

definition check_rules ::
  "v1_host \<Rightarrow> string \<Rightarrow> (binding_target \<Rightarrow> int \<times> int) \<Rightarrow> access_request \<Rightarrow> v1_error \<Rightarrow> ('x guarded_scheme, unit) sop" where
  "check_rules h now ticks q denial =
     bindS (getS gd_engine) (\<lambda>engine.
       case engine of
         None \<Rightarrow> returnS ()
       | Some e \<Rightarrow>
           bindS (zoomS (engine_part e) engine_put (evaluate_request h now ticks q)) (\<lambda>res.
             if denied_by_rules res then raiseS denial else returnS ()))"

end
