(* ===== verification/V1_Environments.thy ===== *)
theory V1_Environments
  imports V1_Guard
begin

text \<open>
  \<open>legacy/v1/scoped/environments\<close>: environments and their states (\<open>models.py\<close>), spawning and the
  transitions (\<open>lifecycle.py\<close>) and the objects an environment contains (\<open>container.py\<close>).

  The service works on the tables of tenancy, extended by its own, and consults the rule engine
  when one was passed. The engine shares the audit trail, so it runs on the part of the state
  that a rule base consists of. \<open>_validate_json_dict\<close> accepts every value of the type of
  metadata. \<open>promote\<close> needs promotions, which \<open>V1_Flow\<close> adds.
\<close>

section \<open>Models\<close>

datatype env_state = Spawning | EnvActive | Suspended | Completed | Discarded | Promoted

fun env_state_value :: "env_state \<Rightarrow> string" where
  "env_state_value Spawning = ''spawning''"
| "env_state_value EnvActive = ''active''"
| "env_state_value Suspended = ''suspended''"
| "env_state_value Completed = ''completed''"
| "env_state_value Discarded = ''discarded''"
| "env_state_value Promoted = ''promoted''"

datatype object_origin = CreatedHere | ProjectedIn

fun origin_value :: "object_origin \<Rightarrow> string" where
  "origin_value CreatedHere = ''created''"
| "origin_value ProjectedIn = ''projected''"

fun valid_transitions :: "env_state \<Rightarrow> env_state list" where
  "valid_transitions Spawning = [EnvActive]"
| "valid_transitions EnvActive = [Suspended, Completed]"
| "valid_transitions Suspended = [EnvActive]"
| "valid_transitions Completed = [Discarded, Promoted]"
| "valid_transitions Discarded = []"
| "valid_transitions Promoted = [Discarded]"

record environment =
  en_id :: string
  en_name :: string
  en_owner :: string
  en_created :: string
  en_state :: env_state
  en_description :: string
  en_template :: "string option"
  en_scope :: "string option"
  en_ephemeral :: bool
  en_completed :: "string option"
  en_metadata :: metadata

definition can_transition_to :: "environment \<Rightarrow> env_state \<Rightarrow> bool" where
  "can_transition_to e target \<longleftrightarrow> target \<in> set (valid_transitions (en_state e))"

definition env_terminal :: "environment \<Rightarrow> bool" where
  "env_terminal e \<longleftrightarrow> en_state e \<in> {Discarded}"

definition env_mutable :: "environment \<Rightarrow> bool" where
  "env_mutable e \<longleftrightarrow> en_state e = EnvActive"

definition environment_snapshot :: "environment \<Rightarrow> json" where
  "environment_snapshot e = JObj
     [(''id'', JStr (en_id e)), (''name'', JStr (en_name e)), (''owner_id'', JStr (en_owner e)),
      (''state'', JStr (env_state_value (en_state e))), (''description'', JStr (en_description e)),
      (''template_id'', opt_str (en_template e)), (''scope_id'', opt_str (en_scope e)),
      (''ephemeral'', JBool (en_ephemeral e)), (''created_at'', JStr (en_created e)),
      (''completed_at'', opt_str (en_completed e)), (''metadata'', JObj (en_metadata e))]"

record env_template =
  et_id :: string
  et_name :: string
  et_owner :: string
  et_created :: string
  et_description :: string
  et_config :: metadata
  et_lifecycle :: lifecycle

record env_object =
  eo_id :: string
  eo_env :: string
  eo_object :: string
  eo_origin :: object_origin
  eo_added :: string

definition env_object_snapshot :: "env_object \<Rightarrow> json" where
  "env_object_snapshot ob = JObj
     [(''id'', JStr (eo_id ob)), (''environment_id'', JStr (eo_env ob)), (''object_id'', JStr (eo_object ob)),
      (''origin'', JStr (origin_value (eo_origin ob))), (''added_at'', JStr (eo_added ob))]"

section \<open>The state\<close>

record environ = guarded +
  ev_rows :: "environment list"
  ev_objects :: "env_object list"
  ev_templates :: "env_template list"

section \<open>Reading\<close>

definition get_env :: "string \<Rightarrow> ('x environ_scheme, environment option) sop" where
  "get_env env_id = getS (\<lambda>s. find (\<lambda>e. en_id e = env_id) (ev_rows s))"

definition get_env_or_raise :: "string \<Rightarrow> ('x environ_scheme, environment) sop" where
  "get_env_or_raise env_id =
     bindS (get_env env_id) (\<lambda>x. case x of None \<Rightarrow> raiseS EnvironmentNotFound | Some e \<Rightarrow> returnS e)"

definition list_environments ::
  "string option \<Rightarrow> env_state option \<Rightarrow> bool option \<Rightarrow> nat \<Rightarrow> nat \<Rightarrow> ('x environ_scheme, environment list) sop" where
  "list_environments owner state ephemeral limit offset =
     getS (\<lambda>s. sql_limit (Some limit) offset (sql_order True en_created
       (filter (\<lambda>e. given owner (en_owner e) \<and> given state (en_state e) \<and> given ephemeral (en_ephemeral e)) (ev_rows s))))"

definition require_env_owner :: "environment \<Rightarrow> string \<Rightarrow> v1_error + unit" where
  "require_env_owner e actor = (if en_owner e \<noteq> actor then Inl AccessDenied else Inr ())"

definition env_request ::
  "string \<Rightarrow> string \<Rightarrow> environment \<Rightarrow> json option \<Rightarrow> json option \<Rightarrow> trace_request" where
  "env_request actor action e before after =
     \<lparr>rq_actor = actor, rq_action = action, rq_ttype = ''environment'', rq_tid = en_id e, rq_scope = en_scope e,
      rq_before = before, rq_after = after, rq_meta = [], rq_parent = None\<rparr>"

section \<open>Spawning\<close>

definition insert_environment :: "v1_host \<Rightarrow> environment \<Rightarrow> ('x environ_scheme, unit) sop" where
  "insert_environment h e s =
     (if list_ex (\<lambda>x. en_id x = en_id e) (ev_rows s) then (Inl (v_violation h IdTaken), s)
      else if en_owner e \<notin> set (tn_principals s)
        \<or> (case en_template e of None \<Rightarrow> False | Some t \<Rightarrow> \<not> list_ex (\<lambda>x. et_id x = t) (ev_templates s))
        \<or> (case en_scope e of None \<Rightarrow> False | Some x \<Rightarrow> \<not> list_ex (\<lambda>r. sr_id r = x) (tn_scopes s))
      then (Inl (v_violation h ForeignKeyMissing), s)
      else (Inr (), s\<lparr>ev_rows := ev_rows s @ [e]\<rparr>))"

definition spawn ::
  "v1_host \<Rightarrow> string \<Rightarrow> string \<Rightarrow> string \<Rightarrow> string \<Rightarrow> string option \<Rightarrow> bool \<Rightarrow> metadata \<Rightarrow>
   ('x environ_scheme, environment) sop" where
  "spawn h now name owner description template ephemeral meta =
     bindS (fresh_id h) (\<lambda>env_id.
     bindS (create_scope h now (''env:'' @ name) owner (''Auto-created scope for environment '' @ env_id) None []) (\<lambda>sc.
     let e = \<lparr>en_id = env_id, en_name = name, en_owner = owner, en_created = now, en_state = Spawning,
              en_description = description, en_template = template, en_scope = Some (sc_id sc),
              en_ephemeral = ephemeral, en_completed = None, en_metadata = meta\<rparr>
     in bindS (on_error (insert_environment h e)
                (bindS (archive_scope h now (sc_id sc) owner) (\<lambda>_. returnS ()))) (\<lambda>_.
        bindS (audit_event h now (env_request owner ''env_spawn'' e None (Some (environment_snapshot e)))) (\<lambda>_.
          returnS e))))"

section \<open>Transitions\<close>

definition update_env :: "string \<Rightarrow> (environment \<Rightarrow> environment) \<Rightarrow> ('x environ_scheme, unit) sop" where
  "update_env env_id f = modifyS (\<lambda>s. s\<lparr>ev_rows := sql_update_where (\<lambda>e. en_id e = env_id) f (ev_rows s)\<rparr>)"

fun transition_action :: "env_state \<Rightarrow> string" where
  "transition_action EnvActive = ''env_resume''"
| "transition_action Suspended = ''env_suspend''"
| "transition_action Completed = ''env_complete''"
| "transition_action Discarded = ''env_discard''"
| "transition_action Promoted = ''env_promote''"
| "transition_action Spawning = ''lifecycle_change''"

definition env_transition ::
  "v1_host \<Rightarrow> string \<Rightarrow> string \<Rightarrow> env_state \<Rightarrow> string \<Rightarrow> ('x environ_scheme, environment) sop" where
  "env_transition h now env_id target actor =
     bindS (get_env_or_raise env_id) (\<lambda>e.
     bindS (liftS (require_env_owner e actor)) (\<lambda>_.
       if \<not> can_transition_to e target then raiseS EnvironmentStateInvalid
       else
         let e' = e\<lparr>en_state := target\<rparr>
         in bindS (update_env env_id (\<lambda>x. x\<lparr>en_state := target\<rparr>)) (\<lambda>_.
            bindS (audit_event h now (env_request actor (transition_action target) e'
              (Some (environment_snapshot e)) (Some (environment_snapshot e')))) (\<lambda>_.
              returnS e'))))"

definition env_activate :: "v1_host \<Rightarrow> string \<Rightarrow> string \<Rightarrow> string \<Rightarrow> ('x environ_scheme, environment) sop" where
  "env_activate h now env_id actor = env_transition h now env_id EnvActive actor"

definition env_suspend :: "v1_host \<Rightarrow> string \<Rightarrow> string \<Rightarrow> string \<Rightarrow> ('x environ_scheme, environment) sop" where
  "env_suspend h now env_id actor = env_transition h now env_id Suspended actor"

definition env_resume :: "v1_host \<Rightarrow> string \<Rightarrow> string \<Rightarrow> string \<Rightarrow> ('x environ_scheme, environment) sop" where
  "env_resume h now env_id actor = env_transition h now env_id EnvActive actor"

definition env_complete :: "v1_host \<Rightarrow> string \<Rightarrow> string \<Rightarrow> string \<Rightarrow> ('x environ_scheme, environment) sop" where
  "env_complete h now env_id actor =
     bindS (env_transition h now env_id Completed actor) (\<lambda>e.
     bindS (update_env env_id (\<lambda>x. x\<lparr>en_completed := Some now\<rparr>)) (\<lambda>_.
       returnS (e\<lparr>en_completed := Some now\<rparr>)))"

text \<open>\<open>_tombstone_created_objects\<close>: one update per contained object of that origin.\<close>

definition created_object_ids :: "string \<Rightarrow> env_object list \<Rightarrow> string list" where
  "created_object_ids env_id os = map eo_object (filter (\<lambda>ob. eo_env ob = env_id \<and> eo_origin ob = CreatedHere) os)"

definition tombstone_created :: "string \<Rightarrow> 'x environ_scheme \<Rightarrow> 'x environ_scheme" where
  "tombstone_created env_id s =
     s\<lparr>tn_objects := fold (\<lambda>i. sql_update_where (\<lambda>b. ob_id b = i \<and> ob_lifecycle b \<noteq> Archived)
         (\<lambda>b. b\<lparr>ob_lifecycle := Archived\<rparr>)) (created_object_ids env_id (ev_objects s)) (tn_objects s)\<rparr>"

definition env_discard :: "v1_host \<Rightarrow> string \<Rightarrow> string \<Rightarrow> string \<Rightarrow> ('x environ_scheme, environment) sop" where
  "env_discard h now env_id actor =
     bindS (get_env_or_raise env_id) (\<lambda>prev.
     bindS (env_transition h now env_id Discarded actor) (\<lambda>e.
     bindS (on_error
              (bindS (modifyS (tombstone_created env_id)) (\<lambda>_.
                 case en_scope e of
                   None \<Rightarrow> returnS ()
                 | Some x \<Rightarrow> if x = [] then returnS () else bindS (archive_scope h now x actor) (\<lambda>_. returnS ())))
              (update_env env_id (\<lambda>x. x\<lparr>en_state := en_state prev\<rparr>))) (\<lambda>_.
       returnS e)))"

section \<open>Templates\<close>

definition insert_template :: "v1_host \<Rightarrow> env_template \<Rightarrow> ('x environ_scheme, unit) sop" where
  "insert_template h t s =
     (if list_ex (\<lambda>x. et_id x = et_id t) (ev_templates s) then (Inl (v_violation h IdTaken), s)
      else if et_owner t \<notin> set (tn_principals s) then (Inl (v_violation h ForeignKeyMissing), s)
      else (Inr (), s\<lparr>ev_templates := ev_templates s @ [t]\<rparr>))"

definition create_template ::
  "v1_host \<Rightarrow> string \<Rightarrow> string \<Rightarrow> string \<Rightarrow> string \<Rightarrow> metadata \<Rightarrow> ('x environ_scheme, env_template) sop" where
  "create_template h now name owner description config =
     bindS (fresh_id h) (\<lambda>tid.
     let t = \<lparr>et_id = tid, et_name = name, et_owner = owner, et_created = now, et_description = description,
              et_config = config, et_lifecycle = Active\<rparr>
     in bindS (insert_template h t) (\<lambda>_. returnS t))"

definition get_template :: "string \<Rightarrow> ('x environ_scheme, env_template option) sop" where
  "get_template tid = getS (\<lambda>s. find (\<lambda>t. et_id t = tid) (ev_templates s))"

definition list_templates :: "string option \<Rightarrow> nat \<Rightarrow> ('x environ_scheme, env_template list) sop" where
  "list_templates owner limit =
     getS (\<lambda>s. sql_limit (Some limit) 0 (sql_order True et_created
       (filter (\<lambda>t. et_lifecycle t = Active \<and> (case owner of None \<Rightarrow> True | Some p \<Rightarrow> p = [] \<or> et_owner t = p)) (ev_templates s))))"

definition spawn_from_template ::
  "v1_host \<Rightarrow> string \<Rightarrow> string \<Rightarrow> string \<Rightarrow> string option \<Rightarrow> ('x environ_scheme, environment) sop" where
  "spawn_from_template h now tid owner name =
     bindS (get_template tid) (\<lambda>x.
       case x of
         None \<Rightarrow> raiseS EnvironmentNotFound
       | Some t \<Rightarrow>
           spawn h now (or_default name (et_name t @ '' instance'')) owner (et_description t) (Some tid) True
             [(''template_config'', JObj (et_config t))])"

section \<open>The container\<close>

definition require_active_env :: "string \<Rightarrow> ('x environ_scheme, environment) sop" where
  "require_active_env env_id =
     bindS (get_env env_id) (\<lambda>x.
       case x of
         None \<Rightarrow> raiseS EnvironmentNotFound
       | Some e \<Rightarrow> if en_state e \<noteq> EnvActive then raiseS EnvironmentStateInvalid else returnS e)"

definition insert_env_object :: "v1_host \<Rightarrow> env_object \<Rightarrow> ('x environ_scheme, unit) sop" where
  "insert_env_object h ob s =
     (if list_ex (\<lambda>x. eo_id x = eo_id ob) (ev_objects s) then (Inl (v_violation h IdTaken), s)
      else if list_ex (\<lambda>x. eo_env x = eo_env ob \<and> eo_object x = eo_object ob) (ev_objects s)
      then (Inl (v_violation h KeyTaken), s)
      else if \<not> list_ex (\<lambda>e. en_id e = eo_env ob) (ev_rows s) \<or> \<not> list_ex (\<lambda>b. ob_id b = eo_object ob) (tn_objects s)
      then (Inl (v_violation h ForeignKeyMissing), s)
      else (Inr (), s\<lparr>ev_objects := ev_objects s @ [ob]\<rparr>))"

definition container_request ::
  "string \<Rightarrow> string \<Rightarrow> string option \<Rightarrow> json option \<Rightarrow> json option \<Rightarrow> metadata \<Rightarrow> trace_request" where
  "container_request actor tid scope_id before after meta =
     \<lparr>rq_actor = actor, rq_action = ''lifecycle_change'', rq_ttype = ''environment_object'', rq_tid = tid,
      rq_scope = scope_id, rq_before = before, rq_after = after, rq_meta = meta, rq_parent = None\<rparr>"

text \<open>\<open>if self._audit and actor_id\<close>: the empty text counts as no actor.\<close>

definition audit_if_actor ::
  "v1_host \<Rightarrow> string \<Rightarrow> string option \<Rightarrow> (string \<Rightarrow> trace_request) \<Rightarrow> ('x tenant_scheme, unit) sop" where
  "audit_if_actor h now actor rq =
     (case actor of None \<Rightarrow> returnS () | Some a \<Rightarrow> if a = [] then returnS () else audit_event h now (rq a))"

definition add_object ::
  "v1_host \<Rightarrow> string \<Rightarrow> (binding_target \<Rightarrow> int \<times> int) \<Rightarrow> string \<Rightarrow> string \<Rightarrow> string option \<Rightarrow> object_origin \<Rightarrow>
   ('x environ_scheme, env_object) sop" where
  "add_object h now ticks env_id object_id actor origin =
     bindS (require_active_env env_id) (\<lambda>e.
     bindS (case actor of None \<Rightarrow> returnS () | Some a \<Rightarrow> liftS (require_env_owner e a)) (\<lambda>_.
     bindS (case actor of
              None \<Rightarrow> returnS ()
            | Some a \<Rightarrow> check_rules h now ticks
                \<lparr>aq_action = ''add_object'', aq_principal = Some a, aq_kind = None, aq_type = None, aq_object = None,
                 aq_scope = en_scope e, aq_env = Some env_id\<rparr> AccessDenied) (\<lambda>_.
     bindS (fresh_id h) (\<lambda>oid.
     let ob = \<lparr>eo_id = oid, eo_env = env_id, eo_object = object_id, eo_origin = origin, eo_added = now\<rparr>
     in bindS (insert_env_object h ob) (\<lambda>_.
        bindS (audit_if_actor h now actor (\<lambda>a. container_request a oid (en_scope e) None
          (Some (env_object_snapshot ob)) [(''origin'', JStr (origin_value origin))])) (\<lambda>_.
          returnS ob))))))"

definition project_in ::
  "v1_host \<Rightarrow> string \<Rightarrow> (binding_target \<Rightarrow> int \<times> int) \<Rightarrow> string \<Rightarrow> string \<Rightarrow> string option \<Rightarrow> ('x environ_scheme, env_object) sop" where
  "project_in h now ticks env_id object_id actor = add_object h now ticks env_id object_id actor ProjectedIn"

definition remove_object ::
  "v1_host \<Rightarrow> string \<Rightarrow> string \<Rightarrow> string \<Rightarrow> string option \<Rightarrow> ('x environ_scheme, bool) sop" where
  "remove_object h now env_id object_id actor =
     bindS (get_env env_id) (\<lambda>env.
     bindS (case (actor, env) of (Some a, Some e) \<Rightarrow> liftS (require_env_owner e a) | _ \<Rightarrow> returnS ()) (\<lambda>_.
     bindS (getS (\<lambda>s. find (\<lambda>ob. eo_env ob = env_id \<and> eo_object ob = object_id) (ev_objects s))) (\<lambda>row.
       case row of
         None \<Rightarrow> returnS False
       | Some ob \<Rightarrow>
           bindS (modifyS (\<lambda>s. s\<lparr>ev_objects :=
             filter (\<lambda>x. \<not> (eo_env x = env_id \<and> eo_object x = object_id)) (ev_objects s)\<rparr>)) (\<lambda>_.
           bindS (audit_if_actor h now actor (\<lambda>a. container_request a (eo_id ob)
             (case env of None \<Rightarrow> None | Some e \<Rightarrow> en_scope e) (Some (env_object_snapshot ob)) None [])) (\<lambda>_.
             returnS True)))))"

definition list_env_objects ::
  "string \<Rightarrow> object_origin option \<Rightarrow> nat \<Rightarrow> ('x environ_scheme, env_object list) sop" where
  "list_env_objects env_id origin limit =
     getS (\<lambda>s. sql_limit (Some limit) 0 (sql_order False eo_added
       (filter (\<lambda>ob. eo_env ob = env_id \<and> given origin (eo_origin ob)) (ev_objects s))))"

definition get_created_object_ids :: "string \<Rightarrow> ('x environ_scheme, string list) sop" where
  "get_created_object_ids env_id = getS (\<lambda>s. created_object_ids env_id (ev_objects s))"

definition get_projected_object_ids :: "string \<Rightarrow> ('x environ_scheme, string list) sop" where
  "get_projected_object_ids env_id =
     getS (\<lambda>s. map eo_object (filter (\<lambda>ob. eo_env ob = env_id \<and> eo_origin ob = ProjectedIn) (ev_objects s)))"

definition contains_object :: "string \<Rightarrow> string \<Rightarrow> ('x environ_scheme, bool) sop" where
  "contains_object env_id object_id =
     getS (\<lambda>s. list_ex (\<lambda>ob. eo_env ob = env_id \<and> eo_object ob = object_id) (ev_objects s))"

definition count_objects :: "string \<Rightarrow> ('x environ_scheme, nat) sop" where
  "count_objects env_id = getS (\<lambda>s. length (filter (\<lambda>ob. eo_env ob = env_id) (ev_objects s)))"

end
