(* ===== verification/V1_Flow.thy ===== *)
theory V1_Flow
  imports V1_Environments
begin

text \<open>
  \<open>legacy/v1/scoped/flow\<close>: pipelines whose stages objects move through (\<open>pipeline.py\<close>), channels
  that permit flows (\<open>engine.py\<close>) and promotions of objects from environments into scopes
  (\<open>promotion.py\<close>); and \<open>EnvironmentLifecycle.promote\<close>, which is built on promotions.

  Optional collaborators are arguments: whether a promotion manager has a flow engine and a
  projection manager, and whether an environment service has a container and promotions.
\<close>

section \<open>Models\<close>

datatype flow_point = EnvironmentPoint | ScopePoint | StagePoint

fun flow_point_value :: "flow_point \<Rightarrow> string" where
  "flow_point_value EnvironmentPoint = ''environment''"
| "flow_point_value ScopePoint = ''scope''"
| "flow_point_value StagePoint = ''stage''"

record pipeline =
  pp_id :: string
  pp_name :: string
  pp_owner :: string
  pp_created :: string
  pp_description :: string
  pp_lifecycle :: lifecycle

record stage =
  sg_id :: string
  sg_pipeline :: string
  sg_name :: string
  sg_ordinal :: int
  sg_metadata :: metadata

record stage_transition =
  st_id :: string
  st_object :: string
  st_to :: string
  st_at :: string
  st_by :: string
  st_from :: "string option"
  st_reason :: string

record flow_channel =
  ch_id :: string
  ch_name :: string
  ch_source_type :: flow_point
  ch_source :: string
  ch_target_type :: flow_point
  ch_target :: string
  ch_owner :: string
  ch_created :: string
  ch_allowed :: "string list"
  ch_lifecycle :: lifecycle

definition allows_type :: "flow_channel \<Rightarrow> string \<Rightarrow> bool" where
  "allows_type c object_type = (if ch_allowed c = [] then True else object_type \<in> set (ch_allowed c))"

record promotion =
  pm_id :: string
  pm_object :: string
  pm_env :: string
  pm_scope :: string
  pm_at :: string
  pm_by :: string
  pm_stage :: "string option"

definition promotion_snapshot :: "promotion \<Rightarrow> json" where
  "promotion_snapshot p = JObj
     [(''id'', JStr (pm_id p)), (''object_id'', JStr (pm_object p)), (''source_env_id'', JStr (pm_env p)),
      (''target_scope_id'', JStr (pm_scope p)), (''target_stage_id'', opt_str (pm_stage p)),
      (''promoted_at'', JStr (pm_at p)), (''promoted_by'', JStr (pm_by p))]"

record flowing = environ +
  fw_pipelines :: "pipeline list"
  fw_stages :: "stage list"
  fw_transitions :: "stage_transition list"
  fw_channels :: "flow_channel list"
  fw_promotions :: "promotion list"

definition flow_request ::
  "string \<Rightarrow> string \<Rightarrow> string \<Rightarrow> string \<Rightarrow> string option \<Rightarrow> json option \<Rightarrow> json option \<Rightarrow> trace_request" where
  "flow_request actor action ttype tid scope_id before after =
     \<lparr>rq_actor = actor, rq_action = action, rq_ttype = ttype, rq_tid = tid, rq_scope = scope_id,
      rq_before = before, rq_after = after, rq_meta = [], rq_parent = None\<rparr>"

section \<open>Pipelines and stages\<close>

definition insert_pipeline :: "v1_host \<Rightarrow> pipeline \<Rightarrow> ('x flowing_scheme, unit) sop" where
  "insert_pipeline h p s =
     (if list_ex (\<lambda>x. pp_id x = pp_id p) (fw_pipelines s) then (Inl (v_violation h IdTaken), s)
      else if pp_owner p \<notin> set (tn_principals s) then (Inl (v_violation h ForeignKeyMissing), s)
      else (Inr (), s\<lparr>fw_pipelines := fw_pipelines s @ [p]\<rparr>))"

definition create_pipeline ::
  "v1_host \<Rightarrow> string \<Rightarrow> string \<Rightarrow> string \<Rightarrow> string \<Rightarrow> ('x flowing_scheme, pipeline) sop" where
  "create_pipeline h now name owner description =
     bindS (fresh_id h) (\<lambda>pid.
     let p = \<lparr>pp_id = pid, pp_name = name, pp_owner = owner, pp_created = now, pp_description = description,
              pp_lifecycle = Active\<rparr>
     in bindS (insert_pipeline h p) (\<lambda>_.
        bindS (audit_event h now (flow_request owner ''create'' ''pipeline'' pid None None
          (Some (JObj [(''name'', JStr name), (''description'', JStr description)])))) (\<lambda>_.
          returnS p)))"

definition get_pipeline :: "string \<Rightarrow> ('x flowing_scheme, pipeline option) sop" where
  "get_pipeline pid = getS (\<lambda>s. find (\<lambda>p. pp_id p = pid) (fw_pipelines s))"

definition list_pipelines :: "string option \<Rightarrow> bool \<Rightarrow> nat \<Rightarrow> ('x flowing_scheme, pipeline list) sop" where
  "list_pipelines owner active_only limit =
     getS (\<lambda>s. sql_limit (Some limit) 0 (sql_order True pp_created
       (filter (\<lambda>p. (case owner of None \<Rightarrow> True | Some w \<Rightarrow> w = [] \<or> pp_owner p = w)
         \<and> (active_only \<longrightarrow> pp_lifecycle p = Active)) (fw_pipelines s))))"

definition archive_pipeline :: "v1_host \<Rightarrow> string \<Rightarrow> string \<Rightarrow> string \<Rightarrow> ('x flowing_scheme, unit) sop" where
  "archive_pipeline h now pid archived_by =
     bindS (modifyS (\<lambda>s. s\<lparr>fw_pipelines := sql_update_where (\<lambda>p. pp_id p = pid)
       (\<lambda>p. p\<lparr>pp_lifecycle := Archived\<rparr>) (fw_pipelines s)\<rparr>)) (\<lambda>_.
       audit_event h now (flow_request archived_by ''lifecycle_change'' ''pipeline'' pid None
         (Some (JObj [(''lifecycle'', JStr ''ACTIVE'')])) (Some (JObj [(''lifecycle'', JStr ''ARCHIVED'')]))))"

definition insert_stage :: "v1_host \<Rightarrow> stage \<Rightarrow> ('x flowing_scheme, unit) sop" where
  "insert_stage h g s =
     (if list_ex (\<lambda>x. sg_id x = sg_id g) (fw_stages s) then (Inl (v_violation h IdTaken), s)
      else if list_ex (\<lambda>x. sg_pipeline x = sg_pipeline g \<and> sg_name x = sg_name g) (fw_stages s)
      then (Inl (v_violation h KeyTaken), s)
      else (Inr (), s\<lparr>fw_stages := fw_stages s @ [g]\<rparr>))"

definition add_stage ::
  "v1_host \<Rightarrow> string \<Rightarrow> string \<Rightarrow> string \<Rightarrow> int \<Rightarrow> metadata \<Rightarrow> ('x flowing_scheme, stage) sop" where
  "add_stage h now pid name ordinal meta =
     bindS (fresh_id h) (\<lambda>gid.
     let g = \<lparr>sg_id = gid, sg_pipeline = pid, sg_name = name, sg_ordinal = ordinal, sg_metadata = meta\<rparr>
     in bindS (insert_stage h g) (\<lambda>_.
        bindS (get_pipeline pid) (\<lambda>p.
        bindS (case p of
                 None \<Rightarrow> returnS ()
               | Some pl \<Rightarrow> audit_event h now (flow_request (pp_owner pl) ''create'' ''stage'' gid None None
                   (Some (JObj [(''name'', JStr name), (''ordinal'', JInt ordinal), (''pipeline_id'', JStr pid)])))) (\<lambda>_.
          returnS g))))"

definition get_stage :: "string \<Rightarrow> ('x flowing_scheme, stage option) sop" where
  "get_stage gid = getS (\<lambda>s. find (\<lambda>g. sg_id g = gid) (fw_stages s))"

definition get_stages :: "string \<Rightarrow> ('x flowing_scheme, stage list) sop" where
  "get_stages pid = getS (\<lambda>s. sql_order False sg_ordinal (filter (\<lambda>g. sg_pipeline g = pid) (fw_stages s)))"

definition get_stage_by_name :: "string \<Rightarrow> string \<Rightarrow> ('x flowing_scheme, stage option) sop" where
  "get_stage_by_name pid name = getS (\<lambda>s. find (\<lambda>g. sg_pipeline g = pid \<and> sg_name g = name) (fw_stages s))"

section \<open>Stage transitions\<close>

definition get_current_stage :: "string \<Rightarrow> ('x flowing_scheme, stage_transition option) sop" where
  "get_current_stage object_id =
     getS (\<lambda>s. case sql_order True st_at (filter (\<lambda>t. st_object t = object_id) (fw_transitions s)) of
                 [] \<Rightarrow> None | t # _ \<Rightarrow> Some t)"

definition get_transition_history :: "string \<Rightarrow> nat \<Rightarrow> ('x flowing_scheme, stage_transition list) sop" where
  "get_transition_history object_id limit =
     getS (\<lambda>s. sql_limit (Some limit) 0 (sql_order True st_at (filter (\<lambda>t. st_object t = object_id) (fw_transitions s))))"

definition insert_transition :: "v1_host \<Rightarrow> stage_transition \<Rightarrow> ('x flowing_scheme, unit) sop" where
  "insert_transition h t s =
     (if list_ex (\<lambda>x. st_id x = st_id t) (fw_transitions s) then (Inl (v_violation h IdTaken), s)
      else if \<not> list_ex (\<lambda>b. ob_id b = st_object t) (tn_objects s) \<or> \<not> list_ex (\<lambda>g. sg_id g = st_to t) (fw_stages s)
        \<or> (case st_from t of None \<Rightarrow> False | Some f \<Rightarrow> \<not> list_ex (\<lambda>g. sg_id g = f) (fw_stages s))
      then (Inl (v_violation h ForeignKeyMissing), s)
      else (Inr (), s\<lparr>fw_transitions := fw_transitions s @ [t]\<rparr>))"

definition object_row_of :: "string \<Rightarrow> ('x flowing_scheme, object_row option) sop" where
  "object_row_of object_id = getS (\<lambda>s. find (\<lambda>b. ob_id b = object_id) (tn_objects s))"

text \<open>The target stage, and the source stage of the same pipeline if one is given.\<close>

definition check_stages :: "string \<Rightarrow> string option \<Rightarrow> ('x flowing_scheme, stage) sop" where
  "check_stages to_id from_id =
     bindS (get_stage to_id) (\<lambda>x.
       case x of
         None \<Rightarrow> raiseS FlowFailed
       | Some target \<Rightarrow>
           (case from_id of
              None \<Rightarrow> returnS target
            | Some f \<Rightarrow>
                bindS (get_stage f) (\<lambda>y.
                  case y of
                    None \<Rightarrow> raiseS FlowFailed
                  | Some source \<Rightarrow>
                      if sg_pipeline source \<noteq> sg_pipeline target then raiseS StageTransitionDenied else returnS target)))"

text \<open>The pipeline must not be archived.\<close>

definition check_pipeline :: "string \<Rightarrow> ('x flowing_scheme, unit) sop" where
  "check_pipeline pid =
     bindS (get_pipeline pid) (\<lambda>p.
       if (case p of None \<Rightarrow> False | Some x \<Rightarrow> pp_lifecycle x \<noteq> Active) then raiseS StageTransitionDenied else returnS ())"

text \<open>The caller must own the object.\<close>

definition check_object_owner :: "string \<Rightarrow> string \<Rightarrow> ('x flowing_scheme, object_row) sop" where
  "check_object_owner object_id actor =
     bindS (object_row_of object_id) (\<lambda>b.
       case b of
         None \<Rightarrow> raiseS FlowFailed
       | Some row \<Rightarrow> if ob_owner row \<noteq> actor then raiseS AccessDenied else returnS row)"

text \<open>The given source must be the current stage, or none on initial placement.\<close>

definition check_current :: "string \<Rightarrow> string option \<Rightarrow> ('x flowing_scheme, unit) sop" where
  "check_current object_id from_id =
     bindS (get_current_stage object_id) (\<lambda>current.
       if map_option st_to current \<noteq> from_id then raiseS StageTransitionDenied else returnS ())"

definition stage_transition_op ::
  "v1_host \<Rightarrow> string \<Rightarrow> (binding_target \<Rightarrow> int \<times> int) \<Rightarrow> string \<Rightarrow> string \<Rightarrow> string \<Rightarrow> string option \<Rightarrow> string \<Rightarrow>
   ('x flowing_scheme, stage_transition) sop" where
  "stage_transition_op h now ticks object_id to_id actor from_id reason =
     bindS (check_stages to_id from_id) (\<lambda>target.
     bindS (check_pipeline (sg_pipeline target)) (\<lambda>_.
     bindS (check_object_owner object_id actor) (\<lambda>row.
     bindS (check_rules h now ticks
       \<lparr>aq_action = ''stage_transition'', aq_principal = Some actor, aq_kind = None, aq_type = Some (ob_type row),
        aq_object = Some object_id, aq_scope = Some (sg_pipeline target), aq_env = None\<rparr> StageTransitionDenied) (\<lambda>_.
     bindS (check_current object_id from_id) (\<lambda>_.
     bindS (fresh_id h) (\<lambda>tid.
     let t = \<lparr>st_id = tid, st_object = object_id, st_to = to_id, st_at = now, st_by = actor, st_from = from_id,
              st_reason = reason\<rparr>
     in bindS (insert_transition h t) (\<lambda>_.
        bindS (audit_event h now (flow_request actor ''stage_transition'' ''stage_transition'' tid None
          (case from_id of None \<Rightarrow> None | Some f \<Rightarrow> if f = [] then None else Some (JObj [(''stage_id'', JStr f)]))
          (Some (JObj [(''stage_id'', JStr to_id), (''object_id'', JStr object_id)])))) (\<lambda>_.
          returnS t))))))))"

section \<open>Channels\<close>

definition insert_channel :: "v1_host \<Rightarrow> flow_channel \<Rightarrow> ('x flowing_scheme, unit) sop" where
  "insert_channel h c s =
     (if list_ex (\<lambda>x. ch_id x = ch_id c) (fw_channels s) then (Inl (v_violation h IdTaken), s)
      else if ch_owner c \<notin> set (tn_principals s) then (Inl (v_violation h ForeignKeyMissing), s)
      else (Inr (), s\<lparr>fw_channels := fw_channels s @ [c]\<rparr>))"

definition create_channel ::
  "v1_host \<Rightarrow> string \<Rightarrow> string \<Rightarrow> flow_point \<Rightarrow> string \<Rightarrow> flow_point \<Rightarrow> string \<Rightarrow> string \<Rightarrow> string list \<Rightarrow>
   ('x flowing_scheme, flow_channel) sop" where
  "create_channel h now name stype sid ttype tid owner allowed =
     bindS (fresh_id h) (\<lambda>cid.
     let c = \<lparr>ch_id = cid, ch_name = name, ch_source_type = stype, ch_source = sid, ch_target_type = ttype,
              ch_target = tid, ch_owner = owner, ch_created = now, ch_allowed = allowed, ch_lifecycle = Active\<rparr>
     in bindS (insert_channel h c) (\<lambda>_.
        bindS (audit_event h now (flow_request owner ''create'' ''flow_channel'' cid None None
          (Some (JObj [(''name'', JStr name), (''source_id'', JStr sid), (''target_id'', JStr tid)])))) (\<lambda>_.
          returnS c)))"

definition get_channel :: "string \<Rightarrow> ('x flowing_scheme, flow_channel option) sop" where
  "get_channel cid = getS (\<lambda>s. find (\<lambda>c. ch_id c = cid) (fw_channels s))"

definition channel_matches ::
  "flow_point option \<Rightarrow> string option \<Rightarrow> flow_point option \<Rightarrow> string option \<Rightarrow> bool \<Rightarrow> flow_channel \<Rightarrow> bool" where
  "channel_matches stype sid ttype tid active_only c \<longleftrightarrow>
     given stype (ch_source_type c) \<and> given sid (ch_source c) \<and> given ttype (ch_target_type c)
     \<and> given tid (ch_target c) \<and> (active_only \<longrightarrow> ch_lifecycle c = Active)"

definition list_channels ::
  "flow_point option \<Rightarrow> string option \<Rightarrow> flow_point option \<Rightarrow> string option \<Rightarrow> bool \<Rightarrow> nat \<Rightarrow>
   ('x flowing_scheme, flow_channel list) sop" where
  "list_channels stype sid ttype tid active_only limit =
     getS (\<lambda>s. sql_limit (Some limit) 0 (sql_order True ch_created
       (filter (channel_matches stype sid ttype tid active_only) (fw_channels s))))"

definition archive_channel :: "v1_host \<Rightarrow> string \<Rightarrow> string \<Rightarrow> string \<Rightarrow> ('x flowing_scheme, unit) sop" where
  "archive_channel h now cid archived_by =
     bindS (modifyS (\<lambda>s. s\<lparr>fw_channels := sql_update_where (\<lambda>c. ch_id c = cid)
       (\<lambda>c. c\<lparr>ch_lifecycle := Archived\<rparr>) (fw_channels s)\<rparr>)) (\<lambda>_.
       audit_event h now (flow_request archived_by ''lifecycle_change'' ''flow_channel'' cid None
         (Some (JObj [(''lifecycle'', JStr ''ACTIVE'')])) (Some (JObj [(''lifecycle'', JStr ''ARCHIVED'')]))))"

text \<open>The channel that permits a flow; \<open>None\<close> when it is refused. \<open>100\<close> is the default limit of the listing.\<close>

definition type_permitted :: "string option \<Rightarrow> flow_channel \<Rightarrow> bool" where
  "type_permitted object_type c = (case object_type of None \<Rightarrow> True | Some t \<Rightarrow> allows_type c t)"

definition can_flow ::
  "flow_point \<Rightarrow> string \<Rightarrow> flow_point \<Rightarrow> string \<Rightarrow> string option \<Rightarrow> ('x flowing_scheme, flow_channel option) sop" where
  "can_flow stype sid ttype tid object_type =
     bindS (list_channels (Some stype) (Some sid) (Some ttype) (Some tid) True 100) (\<lambda>cs.
       returnS (find (type_permitted object_type) cs))"

definition can_flow_or_raise ::
  "flow_point \<Rightarrow> string \<Rightarrow> flow_point \<Rightarrow> string \<Rightarrow> string option \<Rightarrow> ('x flowing_scheme, flow_channel) sop" where
  "can_flow_or_raise stype sid ttype tid object_type =
     bindS (can_flow stype sid ttype tid object_type) (\<lambda>r.
       case r of None \<Rightarrow> raiseS FlowBlocked | Some c \<Rightarrow> returnS c)"

definition find_routes :: "flow_point \<Rightarrow> string \<Rightarrow> string option \<Rightarrow> ('x flowing_scheme, flow_channel list) sop" where
  "find_routes stype sid object_type =
     bindS (list_channels (Some stype) (Some sid) None None True 100) (\<lambda>cs.
       returnS (filter (type_permitted object_type) cs))"

section \<open>Promotions\<close>

definition insert_promotion :: "v1_host \<Rightarrow> promotion \<Rightarrow> ('x flowing_scheme, unit) sop" where
  "insert_promotion h p s =
     (if list_ex (\<lambda>x. pm_id x = pm_id p) (fw_promotions s) then (Inl (v_violation h IdTaken), s)
      else if \<not> list_ex (\<lambda>b. ob_id b = pm_object p) (tn_objects s) \<or> \<not> list_ex (\<lambda>e. en_id e = pm_env p) (ev_rows s)
        \<or> \<not> list_ex (\<lambda>r. sr_id r = pm_scope p) (tn_scopes s)
        \<or> (case pm_stage p of None \<Rightarrow> False | Some g \<Rightarrow> \<not> list_ex (\<lambda>x. sg_id x = g) (fw_stages s))
      then (Inl (v_violation h ForeignKeyMissing), s)
      else (Inr (), s\<lparr>fw_promotions := fw_promotions s @ [p]\<rparr>))"

definition require_that :: "v1_error \<Rightarrow> ('s \<Rightarrow> bool) \<Rightarrow> ('s, unit) sop" where
  "require_that e P = bindS (getS P) (\<lambda>b. if b then returnS () else raiseS e)"

definition check_promotion :: "string \<Rightarrow> string \<Rightarrow> string \<Rightarrow> string option \<Rightarrow> ('x flowing_scheme, unit) sop" where
  "check_promotion object_id env_id scope_id stage_id =
     bindS (require_that EnvironmentNotFound (\<lambda>s. list_ex (\<lambda>e. en_id e = env_id) (ev_rows s))) (\<lambda>_.
     bindS (require_that ScopeNotFound (\<lambda>s. list_ex (\<lambda>r. sr_id r = scope_id) (tn_scopes s))) (\<lambda>_.
     bindS (require_that PromotionDenied (\<lambda>s. list_ex (\<lambda>b. ob_id b = object_id) (tn_objects s))) (\<lambda>_.
       case stage_id of
         None \<Rightarrow> returnS ()
       | Some g \<Rightarrow> require_that PromotionDenied (\<lambda>s. list_ex (\<lambda>x. sg_id x = g) (fw_stages s)))))"

definition check_channel :: "bool \<Rightarrow> string \<Rightarrow> string \<Rightarrow> string option \<Rightarrow> ('x flowing_scheme, unit) sop" where
  "check_channel enforced env_id scope_id object_type =
     (if enforced
      then bindS (can_flow EnvironmentPoint env_id ScopePoint scope_id object_type) (\<lambda>r.
             if r = None then raiseS PromotionDenied else returnS ())
      else returnS ())"

definition promotion_type :: "string \<Rightarrow> string option \<Rightarrow> ('x flowing_scheme, string option) sop" where
  "promotion_type object_id object_type =
     (case object_type of
        Some t \<Rightarrow> if t \<noteq> [] then returnS (Some t) else bindS (object_row_of object_id) (\<lambda>b. returnS (map_option ob_type b))
      | None \<Rightarrow> bindS (object_row_of object_id) (\<lambda>b. returnS (map_option ob_type b)))"

definition promote_object ::
  "v1_host \<Rightarrow> string \<Rightarrow> (binding_target \<Rightarrow> int \<times> int) \<Rightarrow> bool \<Rightarrow> bool \<Rightarrow> string \<Rightarrow> string \<Rightarrow> string \<Rightarrow> string \<Rightarrow>
   string option \<Rightarrow> string option \<Rightarrow> access_level \<Rightarrow> ('x flowing_scheme, promotion) sop" where
  "promote_object h now ticks enforced projects object_id env_id scope_id actor stage_id object_type access =
     bindS (check_promotion object_id env_id scope_id stage_id) (\<lambda>_.
     bindS (check_channel enforced env_id scope_id object_type) (\<lambda>_.
     bindS (promotion_type object_id object_type) (\<lambda>otype.
     bindS (check_rules h now ticks
       \<lparr>aq_action = ''promotion'', aq_principal = Some actor, aq_kind = None, aq_type = otype,
        aq_object = Some object_id, aq_scope = Some scope_id, aq_env = Some env_id\<rparr> PromotionDenied) (\<lambda>_.
     bindS (if projects then bindS (project h now scope_id object_id actor access) (\<lambda>_. returnS ()) else returnS ()) (\<lambda>_.
     bindS (fresh_id h) (\<lambda>pid.
     let p = \<lparr>pm_id = pid, pm_object = object_id, pm_env = env_id, pm_scope = scope_id, pm_at = now, pm_by = actor,
              pm_stage = stage_id\<rparr>
     in bindS (insert_promotion h p) (\<lambda>_.
        bindS (audit_event h now (flow_request actor ''promotion'' ''promotion'' pid (Some scope_id) None
          (Some (promotion_snapshot p)))) (\<lambda>_.
          returnS p))))))))"

definition get_promotion :: "string \<Rightarrow> ('x flowing_scheme, promotion option) sop" where
  "get_promotion pid = getS (\<lambda>s. find (\<lambda>p. pm_id p = pid) (fw_promotions s))"

definition list_promotions ::
  "string option \<Rightarrow> string option \<Rightarrow> string option \<Rightarrow> nat \<Rightarrow> ('x flowing_scheme, promotion list) sop" where
  "list_promotions env_id scope_id object_id limit =
     getS (\<lambda>s. sql_limit (Some limit) 0 (sql_order True pm_at
       (filter (\<lambda>p. given env_id (pm_env p) \<and> given scope_id (pm_scope p) \<and> given object_id (pm_object p)) (fw_promotions s))))"

definition count_promotions :: "string \<Rightarrow> ('x flowing_scheme, nat) sop" where
  "count_promotions env_id = getS (\<lambda>s. length (filter (\<lambda>p. pm_env p = env_id) (fw_promotions s)))"

text \<open>\<open>EnvironmentLifecycle.promote\<close>; \<open>enforced\<close> and \<open>projects\<close> describe its promotion manager.\<close>

definition env_promote ::
  "v1_host \<Rightarrow> string \<Rightarrow> (binding_target \<Rightarrow> int \<times> int) \<Rightarrow> bool \<Rightarrow> bool \<Rightarrow> bool \<Rightarrow> string \<Rightarrow> string \<Rightarrow>
   string option \<Rightarrow> string option \<Rightarrow> access_level option \<Rightarrow> ('x flowing_scheme, environment) sop" where
  "env_promote h now ticks wired enforced projects env_id actor target_scope stage_id access =
     bindS (case target_scope of
              None \<Rightarrow> returnS ()
            | Some scope_id \<Rightarrow>
                if \<not> wired then raiseS EnvironmentStateInvalid
                else
                  bindS (get_env_or_raise env_id) (\<lambda>e.
                  bindS (liftS (require_env_owner e actor)) (\<lambda>_.
                  bindS (get_created_object_ids env_id) (\<lambda>ids.
                  bindS (mapS (\<lambda>i. promote_object h now ticks enforced projects i env_id scope_id actor stage_id None
                                (case access of None \<Rightarrow> ReadAccess | Some a \<Rightarrow> a)) ids) (\<lambda>_.
                    returnS ()))))) (\<lambda>_.
       env_transition h now env_id Promoted actor)"

end
