(* ===== verification/V1_Guard_Facts.thy ===== *)
theory V1_Guard_Facts
  imports V1_Guard V1_Tenancy_Facts V1_Rules_Facts
begin

text \<open>
  Invariants of the services that consult rules: those of tenancy that a check of rules keeps. A
  predicate on columns that neither tenancy nor the engine writes is one.
\<close>

section \<open>Columns that tenancy does not write\<close>

lemma tenancy_of_tables:
  fixes I :: "'x tenant_scheme \<Rightarrow> bool"
  assumes more: "\<And>s t. v1_state.more s = v1_state.more t \<Longrightarrow> I s = I t"
    and "\<And>f s. I (tn_members_update f s) = I s" "\<And>f s. I (tn_scopes_update f s) = I s"
    and "\<And>f s. I (tn_projections_update f s) = I s"
  shows "tenancy_invariant h I"
proof
  show "keeps I (audit_event h now rq)" for now rq by (rule keeps_event_more [OF more])
  show "keeps I (fresh_id h)" by (rule keeps_fresh_more [OF more])
qed (auto intro!: keeps_modify simp: assms(2-4) keeps_def insert_membership_def insert_scope_def
    insert_projection_def update_members_def update_projections_def update_scopes_def archive_rows_def)

section \<open>Checks of rules\<close>

lemma keeps_engine:
  assumes "\<And>t s. I (engine_put t s) = I s"
  shows "keeps I (check_rules h now ticks q denial)"
proof -
  have "keeps I (zoomS (engine_part e) engine_put m)" for e m
    by (rule keeps_zoom [where J = "\<lambda>_. True"]) (simp_all add: keeps_def assms)
  then show ?thesis unfolding check_rules_def by (intro keeps_bind keeps_basic keeps_option keeps_if)
qed

text \<open>The engine of a check works on the shared trail.\<close>

lemma audit_ok_cache [simp]: "audit_ok h (rb_cache_update f s) = audit_ok h s"
  by (simp add: audit_ok_def head_ok_def)

lemma keeps_rules_for_target_audit [keeps_intros]: "keeps (audit_ok h) (rules_for_target ticks target tid)"
  unfolding rules_for_target_def by (intro keeps_intros) simp_all

lemma keeps_evaluate_audit [keeps_intros]: "keeps (audit_ok h) (evaluate_request h now ticks q)"
  unfolding evaluate_request_def rule_audit_def by (intro keeps_intros quiet_peers)

lemma keeps_check_audit: "keeps (audit_ok h) (check_rules h now ticks q denial)"
proof -
  have "keeps (audit_ok h) (zoomS (engine_part e) engine_put (evaluate_request h now ticks q))" for e
    by (rule keeps_zoom [OF keeps_evaluate_audit])
      (simp_all add: engine_part_def engine_put_def audit_ok_def head_ok_def v1_state.defs)
  then show ?thesis unfolding check_rules_def by (intro keeps_bind keeps_basic keeps_option keeps_if)
qed

section \<open>Invariants of guarded services\<close>

locale guarded_invariant = tenancy_invariant h I
  for h :: v1_host and I :: "'x guarded_scheme \<Rightarrow> bool" +
  assumes inv_check: "keeps I (check_rules h now ticks q denial)"

lemma guarded_of_column:
  fixes col :: "'x guarded_scheme \<Rightarrow> 'c"
  assumes more: "\<And>s t. v1_state.more s = v1_state.more t \<Longrightarrow> col s = col t"
    and upd: "\<And>f s. col (tn_members_update f s) = col s" "\<And>f s. col (tn_scopes_update f s) = col s"
      "\<And>f s. col (tn_projections_update f s) = col s" "\<And>e s. col (engine_put e s) = col s"
  shows "guarded_invariant h (\<lambda>s. J (col s))"
proof -
  have "tenancy_invariant h (\<lambda>s. J (col s))"
    by (rule tenancy_of_tables, drule more) (simp_all add: upd)
  moreover have "guarded_invariant_axioms h (\<lambda>s. J (col s))"
    by unfold_locales (rule keeps_engine, simp add: upd)
  ultimately show ?thesis by (rule guarded_invariant.intro)
qed

interpretation guard_audit: guarded_invariant h "audit_ok h" for h
  by unfold_locales (rule keeps_check_audit)

lemma tenant_ok_engine [simp]: "tenant_ok (engine_put t s) = tenant_ok s"
  by (simp add: tenant_ok_def engine_put_def)

interpretation guard_tables: guarded_invariant h tenant_ok for h
  by unfold_locales (rule keeps_engine, simp)

end
