(* ===== verification/V1_Environments_Facts.thy ===== *)
theory V1_Environments_Facts
  imports V1_Environments V1_Guard_Facts
begin

text \<open>
  The environment service refines an abstract machine on environments and their contents: every
  operation, also one that raises, and every operation of tenancy performs steps of it. What the
  machine keeps is therefore kept by the service.
\<close>

section \<open>The abstract machine\<close>

type_synonym env_db = "environment list \<times> env_object list"

definition env_db :: "'x environ_scheme \<Rightarrow> env_db" where
  "env_db s = (ev_rows s, ev_objects s)"

abbreviation set_env :: "string \<Rightarrow> (environment \<Rightarrow> environment) \<Rightarrow> environment list \<Rightarrow> environment list" where
  "set_env i f \<equiv> sql_update_where (\<lambda>e. en_id e = i) f"

abbreviation find_env :: "string \<Rightarrow> environment list \<Rightarrow> environment option" where
  "find_env i \<equiv> find (\<lambda>e. en_id e = i)"

definition new_env :: "environment \<Rightarrow> bool" where
  "new_env e \<longleftrightarrow> en_state e = Spawning \<and> en_completed e = None"

text \<open>\<open>env_reverted\<close> is what a discard that fails does to a state it had already written.\<close>

inductive env_change :: "env_db \<Rightarrow> env_db \<Rightarrow> bool" where
  env_spawned: "\<forall>x \<in> set es. en_id x \<noteq> en_id e \<Longrightarrow> new_env e \<Longrightarrow> env_change (es, os) (es @ [e], os)"
| env_moved: "find_env i es = Some e \<Longrightarrow> new \<in> set (valid_transitions (en_state e)) \<Longrightarrow>
    env_change (es, os) (set_env i (\<lambda>x. x\<lparr>en_state := new\<rparr>) es, os)"
| env_dated: "find_env i es = Some e \<Longrightarrow> en_state e = Completed \<Longrightarrow>
    env_change (es, os) (set_env i (\<lambda>x. x\<lparr>en_completed := Some now\<rparr>) es, os)"
| env_reverted: "find_env i es = Some e \<Longrightarrow> en_state e = Discarded \<Longrightarrow> Discarded \<in> set (valid_transitions old) \<Longrightarrow>
    env_change (es, os) (set_env i (\<lambda>x. x\<lparr>en_state := old\<rparr>) es, os)"
| content_added: "find_env (eo_env ob) es = Some e \<Longrightarrow> en_state e = EnvActive \<Longrightarrow>
    \<forall>x \<in> set os. eo_id x \<noteq> eo_id ob \<and> (eo_env x, eo_object x) \<noteq> (eo_env ob, eo_object ob) \<Longrightarrow>
    env_change (es, os) (es, os @ [ob])"
| content_removed: "env_change (es, os) (es, filter P os)"

abbreviation env_run :: "env_db \<Rightarrow> env_db \<Rightarrow> bool" where
  "env_run \<equiv> env_change\<^sup>*\<^sup>*"

definition env_from :: "env_db \<Rightarrow> 'x environ_scheme \<Rightarrow> bool" where
  "env_from x s \<longleftrightarrow> env_run x (env_db s)"

lemma env_db_more: "v1_state.more s = v1_state.more t \<Longrightarrow> env_db s = env_db t"
  by (cases s, cases t) (simp add: env_db_def)

lemma env_from_more: "v1_state.more s = v1_state.more t \<Longrightarrow> env_from x s = env_from x t"
  unfolding env_from_def by (drule env_db_more) simp

lemma env_from_step: "env_from x s \<Longrightarrow> env_change (env_db s) (env_db t) \<Longrightarrow> env_from x t"
  unfolding env_from_def by (rule rtranclp.rtrancl_into_rtrancl)

lemma env_from_same: "env_from x s \<Longrightarrow> env_db t = env_db s \<Longrightarrow> env_from x t"
  by (simp add: env_from_def)

section \<open>What leaves the tables of the service alone\<close>

lemma env_db_tenant [simp]:
  fixes s :: "'x environ_scheme"
  shows "env_db (tn_members_update f1 s) = env_db s" "env_db (tn_scopes_update f2 s) = env_db s"
    "env_db (tn_projections_update f3 s) = env_db s" "env_db (tn_objects_update f4 s) = env_db s"
    "env_db (ev_templates_update f5 s) = env_db s"
  by (simp_all add: env_db_def)

interpretation env_fixed: tenancy_invariant h "\<lambda>s. env_db s = c" for h c
  by (rule tenancy_of_tables, drule env_db_more) simp_all

interpretation env_from_tenancy: tenancy_invariant h "env_from x" for h x
  by (rule tenancy_of_tables, erule env_from_more) (simp_all add: env_from_def)

lemma env_db_engine [simp]: "env_db (engine_put t s) = env_db s"
  by (simp add: engine_put_def env_db_def)

lemma keeps_env_db [keeps_intros]:
  "keeps (\<lambda>s. env_db s = c) (check_rules h now ticks q denial)" "keeps (\<lambda>s. env_db s = c) (fresh_id h)"
  "keeps (\<lambda>s. env_db s = c) (audit_event h now rq)"
  by (rule keeps_engine, simp) (rule env_fixed.inv_fresh env_fixed.inv_record)+

section \<open>Reading\<close>

lemma reads_env [reads_intros]:
  "reads (get_env i1)" "reads (get_env_or_raise i2)" "reads (require_active_env i3)" "reads (get_template i4)"
  "reads (get_created_object_ids i5)"
  unfolding get_env_def get_env_or_raise_def require_active_env_def get_template_def get_created_object_ids_def
  by (intro reads_intros; fail)+

lemmas keeps_env_reads [keeps_intros] = reads_env [THEN keeps_reads]

lemma get_env_or_raise_cases: "get_env_or_raise i s =
    (case find_env i (ev_rows s) of None \<Rightarrow> Inl EnvironmentNotFound | Some e \<Rightarrow> Inr e, s)"
  by (simp add: get_env_or_raise_def get_env_def split: option.splits)

lemma require_active_cases: "require_active_env i s =
    (case find_env i (ev_rows s) of None \<Rightarrow> Inl EnvironmentNotFound
     | Some e \<Rightarrow> if en_state e = EnvActive then Inr e else Inl EnvironmentStateInvalid, s)"
  by (simp add: require_active_env_def get_env_def split: option.splits)

lemma env_transition_Inr:
  assumes "env_transition h now i new actor s = (Inr e', s')"
  shows "\<exists>e. find_env i (ev_rows s) = Some e \<and> en_owner e = actor \<and> new \<in> set (valid_transitions (en_state e))
    \<and> e' = e\<lparr>en_state := new\<rparr> \<and> env_db s' = (set_env i (\<lambda>x. x\<lparr>en_state := new\<rparr>) (ev_rows s), ev_objects s)"
proof -
  from assms obtain e where e: "find_env i (ev_rows s) = Some e" "en_owner e = actor" "new \<in> set (valid_transitions (en_state e))"
    and run: "bindS (audit_event h now (env_request actor (transition_action new) (e\<lparr>en_state := new\<rparr>)
        (Some (environment_snapshot e)) (Some (environment_snapshot (e\<lparr>en_state := new\<rparr>))))) (\<lambda>_. returnS (e\<lparr>en_state := new\<rparr>))
        (s\<lparr>ev_rows := set_env i (\<lambda>x. x\<lparr>en_state := new\<rparr>) (ev_rows s)\<rparr>) = (Inr e', s')"
    by (auto simp: env_transition_def bindS_reads reads_env get_env_or_raise_cases require_env_owner_def Let_def
        update_env_def can_transition_to_def split: option.splits if_splits)
  then have "e' = e\<lparr>en_state := new\<rparr>" by (auto simp: bindS_Inr_iff)
  moreover have "keeps (\<lambda>t. env_db t = env_db (s\<lparr>ev_rows := set_env i (\<lambda>x. x\<lparr>en_state := new\<rparr>) (ev_rows s)\<rparr>))
      (bindS (audit_event h now rq) (\<lambda>_. returnS y))" for rq y
    by (intro keeps_intros)
  from keepsD [OF this refl run] have "env_db s' = (set_env i (\<lambda>x. x\<lparr>en_state := new\<rparr>) (ev_rows s), ev_objects s)"
    by (simp add: env_db_def)
  ultimately show ?thesis using e by blast
qed

lemma find_set_env: "(\<And>e. en_id (f e) = en_id e) \<Longrightarrow>
    find_env i (set_env i f es) = map_option f (find_env i es)"
  by (induction es) (auto simp: sql_update_where_def)

lemma tombstone_env_db [simp]: "env_db (tombstone_created i s) = env_db s"
  by (simp add: tombstone_created_def)

section \<open>Invariants of the service\<close>

text \<open>
  An invariant of tenancy that also the writes of this service keep, under the conditions the code
  has checked when it makes them, is kept by every operation.
\<close>

locale environment_invariant = guarded_invariant h I
  for h :: v1_host and I :: "'x environ_scheme \<Rightarrow> bool" +
  assumes inv_spawned: "new_env e \<Longrightarrow> keeps I (insert_environment h e)"
    and inv_moved: "I s \<Longrightarrow> find_env i (ev_rows s) = Some e \<Longrightarrow> new \<in> set (valid_transitions (en_state e)) \<Longrightarrow>
        I (s\<lparr>ev_rows := set_env i (\<lambda>x. x\<lparr>en_state := new\<rparr>) (ev_rows s)\<rparr>)"
    and inv_dated: "I s \<Longrightarrow> find_env i (ev_rows s) = Some e \<Longrightarrow> en_state e = Completed \<Longrightarrow>
        I (s\<lparr>ev_rows := set_env i (\<lambda>x. x\<lparr>en_completed := Some now\<rparr>) (ev_rows s)\<rparr>)"
    and inv_reverted: "I s \<Longrightarrow> find_env i (ev_rows s) = Some e \<Longrightarrow> en_state e = Discarded \<Longrightarrow>
        Discarded \<in> set (valid_transitions old) \<Longrightarrow>
        I (s\<lparr>ev_rows := set_env i (\<lambda>x. x\<lparr>en_state := old\<rparr>) (ev_rows s)\<rparr>)"
    and inv_content: "I s \<Longrightarrow> find_env (eo_env ob) (ev_rows s) = Some e \<Longrightarrow> en_state e = EnvActive \<Longrightarrow>
        I (snd (insert_env_object h ob s))"
    and inv_removed: "I s \<Longrightarrow> I (s\<lparr>ev_objects := filter P (ev_objects s)\<rparr>)"
    and inv_tombstone: "I s \<Longrightarrow> I (tombstone_created i s)"
    and inv_template: "keeps I (insert_template h t)"
begin

lemma keeps_spawn: "keeps I (spawn h now name owner desc template eph meta)"
  unfolding spawn_def
  by (intro keeps_intros inv_fresh inv_record keeps_create_scope inv_spawned keeps_archive_scope)
    (simp add: new_env_def)

lemma keeps_spawn_from_template: "keeps I (spawn_from_template h now tid owner name)"
  unfolding spawn_from_template_def by (intro keeps_intros keeps_spawn)

lemma keeps_create_template: "keeps I (create_template h now name owner desc config)"
  unfolding create_template_def by (intro keeps_intros inv_fresh inv_template)

lemma keeps_env_transition: "keeps I (env_transition h now i new actor)"
  unfolding keeps_def
proof (intro allI impI)
  fix s :: "'x environ_scheme"
  assume s: "I s"
  show "I (snd (env_transition h now i new actor s))"
  proof (cases "find_env i (ev_rows s)")
    case None
    with s show ?thesis by (simp add: env_transition_def bindS_reads reads_env get_env_or_raise_cases)
  next
    case (Some e)
    have "I (snd (bindS (update_env i (\<lambda>x. x\<lparr>en_state := new\<rparr>)) f s))"
      if "\<And>y. keeps I (f y)" "new \<in> set (valid_transitions (en_state e))" for f :: "unit \<Rightarrow> ('x environ_scheme, environment) sop"
      by (rule keeps_after) (use inv_moved [OF s Some that(2)] that(1) in \<open>simp_all add: update_env_def\<close>)
    with s Some show ?thesis
      by (simp add: env_transition_def bindS_reads reads_env get_env_or_raise_cases require_env_owner_def Let_def
          can_transition_to_def keeps_intros inv_record)
  qed
qed

lemma keeps_env_complete: "keeps I (env_complete h now i actor)"
  unfolding keeps_def
proof (intro allI impI)
  fix s :: "'x environ_scheme"
  assume s: "I s"
  obtain r t where run: "env_transition h now i Completed actor s = (r, t)" by fastforce
  then have t: "I t" using keepsD [OF keeps_env_transition s] by blast
  show "I (snd (env_complete h now i actor s))"
  proof (cases r)
    case (Inr e')
    with run obtain e where "find_env i (ev_rows s) = Some e"
      "ev_rows t = set_env i (\<lambda>x. x\<lparr>en_state := Completed\<rparr>) (ev_rows s)"
      using env_transition_Inr unfolding env_db_def by blast
    then have "find_env i (ev_rows t) = Some (e\<lparr>en_state := Completed\<rparr>)" by (simp add: find_set_env)
    from inv_dated [OF t this] Inr run show ?thesis by (simp add: env_complete_def bindS_Inr update_env_def)
  qed (use run t in \<open>simp add: env_complete_def bindS_Inl\<close>)
qed

lemma keeps_env_discard: "keeps I (env_discard h now i actor)"
  unfolding keeps_def
proof (intro allI impI)
  fix s :: "'x environ_scheme"
  assume s: "I s"
  obtain r t where run: "env_transition h now i Discarded actor s = (r, t)" by fastforce
  then have t: "I t" using keepsD [OF keeps_env_transition s] by blast
  show "I (snd (env_discard h now i actor s))"
  proof (cases r)
    case (Inl err)
    with run t s show ?thesis
      by (auto simp: env_discard_def bindS_reads reads_env get_env_or_raise_cases bindS_Inl split: option.splits)
  next
    case (Inr e)
    with run obtain prev where prev: "find_env i (ev_rows s) = Some prev" "Discarded \<in> set (valid_transitions (en_state prev))"
      and db: "env_db t = (set_env i (\<lambda>x. x\<lparr>en_state := Discarded\<rparr>) (ev_rows s), ev_objects s)"
      using env_transition_Inr by blast
    let ?rest = "bindS (modifyS (tombstone_created i)) (\<lambda>_. case en_scope e of None \<Rightarrow> returnS ()
      | Some x \<Rightarrow> if x = [] then returnS () else bindS (archive_scope h now x actor) (\<lambda>_. returnS ()))"
    obtain r' u where rest: "?rest t = (r', u)" by fastforce
    have "keeps I ?rest" by (intro keeps_intros inv_tombstone keeps_archive_scope)
    from keepsD [OF this t rest] have u: "I u" .
    have "keeps (\<lambda>s. env_db s = env_db t) ?rest" by (intro keeps_intros env_fixed.keeps_archive_scope) simp_all
    from keepsD [OF this refl rest] have "ev_rows u = set_env i (\<lambda>x. x\<lparr>en_state := Discarded\<rparr>) (ev_rows s)"
      using db by (simp add: env_db_def)
    with prev(1) have "find_env i (ev_rows u) = Some (prev\<lparr>en_state := Discarded\<rparr>)" by (simp add: find_set_env)
    from inv_reverted [OF u this _ prev(2)] have undone: "I (u\<lparr>ev_rows := set_env i (\<lambda>x. x\<lparr>en_state := en_state prev\<rparr>) (ev_rows u)\<rparr>)"
      by simp
    have "env_discard h now i actor s = bindS (on_error ?rest (update_env i (\<lambda>x. x\<lparr>en_state := en_state prev\<rparr>))) (\<lambda>_. returnS e) t"
      using prev(1) run Inr by (simp add: env_discard_def bindS_reads reads_env get_env_or_raise_cases bindS_Inr)
    with rest u undone show ?thesis
      by (cases r') (auto simp: bindS_def [of "on_error m f" for m f] on_error_def update_env_def)
  qed
qed

lemma keeps_add_object: "keeps I (add_object h now ticks i object_id actor origin)"
  unfolding keeps_def
proof (intro allI impI)
  fix s :: "'x environ_scheme"
  assume s: "I s"
  show "I (snd (add_object h now ticks i object_id actor origin s))"
  proof (cases "fst (require_active_env i s)")
    case (Inl err)
    with s show ?thesis by (simp add: add_object_def bindS_reads reads_env)
  next
    case (Inr e)
    let ?active = "\<lambda>t. env_db t = env_db s"
    have active: "find_env i (ev_rows t) = Some e \<and> en_state e = EnvActive" if "?active t" for t
      using Inr that by (auto simp: require_active_cases env_db_def split: option.splits if_splits)
    have insert: "I (snd (insert_env_object h ob t))" if "I t" "?active t" "eo_env ob = i" for t ob
      using inv_content [OF that(1), of ob e] active [OF that(2)] that(3) by simp
    have owner: "keeps K (case actor of None \<Rightarrow> returnS () | Some a \<Rightarrow> liftS (require_env_owner e a))"
      for K :: "'x environ_scheme \<Rightarrow> bool" by (intro keeps_intros)
    have check: "keeps K (case actor of None \<Rightarrow> returnS () | Some a \<Rightarrow> check_rules h now ticks (q a) AccessDenied)"
      if "\<And>q. keeps K (check_rules h now ticks q AccessDenied)" for K :: "'x environ_scheme \<Rightarrow> bool" and q
      using that by (intro keeps_option keeps_basic)
    have audit: "keeps I (bindS (audit_if_actor h now actor rq) (\<lambda>_. returnS y))" for rq and y :: env_object
      unfolding audit_if_actor_def by (intro keeps_intros inv_record)
    note under = keeps_under [where J = ?active and I = I]
    have "I (snd (bindS (insert_env_object h ob) (\<lambda>_. bindS (audit_if_actor h now actor rq) (\<lambda>_. returnS ob)) t))"
      if "I t" "?active t" "eo_env ob = i" for t ob rq
      by (rule keeps_after [where I = I], rule insert [OF that], rule audit)
    then show ?thesis
      using Inr s unfolding add_object_def bindS_reads [OF reads_env(3)]
      by (simp only: sum.case Let_def)
        (intro under [OF owner owner] under [OF check check] under [OF inv_fresh] inv_check keeps_env_db; simp)
  qed
qed

lemma keeps_project_in: "keeps I (project_in h now ticks i object_id actor)"
  unfolding project_in_def by (rule keeps_add_object)

lemma keeps_remove_object: "keeps I (remove_object h now i object_id actor)"
  unfolding remove_object_def audit_if_actor_def
  by (intro keeps_intros inv_record inv_removed) (auto intro!: keeps_intros split: option.splits)

end

section \<open>The service keeps the machine, the tables of tenancy and the trail\<close>


interpretation env_refines: environment_invariant h "env_from x" for h x
proof
  show "keeps (env_from x) (check_rules h now ticks q denial)" for now ticks q denial
    by (rule keeps_engine) (simp add: env_from_def)
  show "keeps (env_from x) (insert_environment h e)" if "new_env e" for e
    using that by (auto simp: keeps_def insert_environment_def env_db_def list_ex_iff intro!: env_spawned elim!: env_from_step)
  show "keeps (env_from x) (insert_template h t)" for t
    by (auto simp: keeps_def insert_template_def elim!: env_from_same)
  show "env_from x (snd (insert_env_object h ob s))"
    if "env_from x s" "find_env (eo_env ob) (ev_rows s) = Some e" "en_state e = EnvActive" for s ob e
    using that by (auto simp: insert_env_object_def env_db_def list_ex_iff intro!: content_added elim!: env_from_step)
  show "env_from x (tombstone_created i s)" if "env_from x s" for i s
    using that by (rule env_from_same) simp
qed (auto simp: env_db_def intro: env_moved env_dated env_reverted content_removed elim!: env_from_step)

lemma audit_ok_environ [simp]:
  fixes s :: "'x environ_scheme"
  shows "audit_ok h (ev_rows_update f1 s) = audit_ok h s" "audit_ok h (ev_objects_update f2 s) = audit_ok h s"
    "audit_ok h (ev_templates_update f3 s) = audit_ok h s" "audit_ok h (tn_objects_update f4 s) = audit_ok h s"
  by (simp_all add: audit_ok_def head_ok_def)

interpretation env_audit: environment_invariant h "audit_ok h" for h
  by unfold_locales
    (auto simp: insert_environment_def insert_template_def insert_env_object_def tombstone_created_def keeps_def
      intro!: keeps_snd [OF keeps_check_audit])

lemma tenant_ok_environ [simp]:
  fixes s :: "'x environ_scheme"
  shows "tenant_ok (ev_rows_update f1 s) = tenant_ok s" "tenant_ok (ev_objects_update f2 s) = tenant_ok s"
    "tenant_ok (ev_templates_update f3 s) = tenant_ok s"
  by (simp_all add: tenant_ok_def)

lemma fold_update_column: "(\<And>b. col (f b) = col b) \<Longrightarrow>
    map col (fold (\<lambda>i. sql_update_where (P i) f) is bs) = map col bs"
  by (induction "is" arbitrary: bs) (simp_all add: sql_update_where_key)

lemma tombstone_ids: "map ob_id (tn_objects (tombstone_created i s)) = map ob_id (tn_objects s)"
  by (simp add: tombstone_created_def fold_update_column)

lemma tombstone_tenant_ok: "tenant_ok (tombstone_created i s) = tenant_ok s"
proof -
  have "ob_id ` set (tn_objects (tombstone_created i s)) = ob_id ` set (tn_objects s)"
    using arg_cong [OF tombstone_ids, of set i s] by (simp only: set_map)
  then show ?thesis unfolding tenant_ok_def by (simp only:) (simp add: tombstone_created_def)
qed

interpretation env_tables: environment_invariant h tenant_ok for h
  by unfold_locales
    (simp_all add: keeps_engine insert_environment_def insert_template_def insert_env_object_def tombstone_tenant_ok
      keeps_def [of _ "insert_environment h e" for e] keeps_def [of _ "insert_template h t" for t])

end
