(* ===== verification/V1_Flow_Facts.thy ===== *)
theory V1_Flow_Facts
  imports V1_Flow V1_Environments_Facts
begin

text \<open>
  The flow service refines an abstract machine on pipelines, stages and the table of stage
  transitions. Its operations, and those of environments and tenancy it shares the state with,
  keep every invariant that the single writes keep.
\<close>

section \<open>The abstract machine\<close>

type_synonym flow_db = "(string \<times> string) list \<times> pipeline list \<times> stage list \<times> stage_transition list"

text \<open>Objects matter by their owners, whom no operation changes.\<close>

definition owners :: "'x tenant_scheme \<Rightarrow> (string \<times> string) list" where
  "owners s = map (\<lambda>b. (ob_id b, ob_owner b)) (tn_objects s)"

definition flow_db :: "'x flowing_scheme \<Rightarrow> flow_db" where
  "flow_db s = (owners s, fw_pipelines s, fw_stages s, fw_transitions s)"

abbreviation find_stage :: "string \<Rightarrow> stage list \<Rightarrow> stage option" where
  "find_stage i \<equiv> find (\<lambda>g. sg_id g = i)"

abbreviation history_of :: "string \<Rightarrow> stage_transition list \<Rightarrow> stage_transition list" where
  "history_of i \<equiv> filter (\<lambda>t. st_object t = i)"

definition current_of :: "string \<Rightarrow> stage_transition list \<Rightarrow> stage_transition option" where
  "current_of i ts = (case sql_order True st_at (history_of i ts) of [] \<Rightarrow> None | t # _ \<Rightarrow> Some t)"

definition new_transition :: "flow_db \<Rightarrow> stage_transition \<Rightarrow> bool" where
  "new_transition x t \<longleftrightarrow> (case x of (ws, ps, gs, ts) \<Rightarrow>
     map_of ws (st_object t) = Some (st_by t) \<and>
     (\<exists>g. find_stage (st_to t) gs = Some g
        \<and> (\<forall>f. st_from t = Some f \<longrightarrow> (\<exists>g'. find_stage f gs = Some g' \<and> sg_pipeline g' = sg_pipeline g))
        \<and> (\<forall>p. find (\<lambda>p. pp_id p = sg_pipeline g) ps = Some p \<longrightarrow> pp_lifecycle p = Active)) \<and>
     map_option st_to (current_of (st_object t) ts) = st_from t)"

inductive flow_change :: "flow_db \<Rightarrow> flow_db \<Rightarrow> bool" where
  pipeline_added: "\<forall>x \<in> set ps. pp_id x \<noteq> pp_id p \<Longrightarrow> flow_change (ws, ps, gs, ts) (ws, ps @ [p], gs, ts)"
| pipeline_archived: "flow_change (ws, ps, gs, ts)
    (ws, sql_update_where (\<lambda>p. pp_id p = i) (\<lambda>p. p\<lparr>pp_lifecycle := Archived\<rparr>) ps, gs, ts)"
| stage_added: "\<forall>x \<in> set gs. sg_id x \<noteq> sg_id g \<Longrightarrow> flow_change (ws, ps, gs, ts) (ws, ps, gs @ [g], ts)"
| transition_added: "new_transition (ws, ps, gs, ts) t \<Longrightarrow> flow_change (ws, ps, gs, ts) (ws, ps, gs, ts @ [t])"

abbreviation flow_run :: "flow_db \<Rightarrow> flow_db \<Rightarrow> bool" where
  "flow_run \<equiv> flow_change\<^sup>*\<^sup>*"

definition flow_from :: "flow_db \<Rightarrow> 'x flowing_scheme \<Rightarrow> bool" where
  "flow_from x s \<longleftrightarrow> flow_run x (flow_db s)"

lemma flow_db_more: "v1_state.more s = v1_state.more t \<Longrightarrow> flow_db s = flow_db t"
  by (cases s, cases t) (simp add: flow_db_def owners_def)

lemma flow_from_step: "flow_from x s \<Longrightarrow> flow_change (flow_db s) (flow_db t) \<Longrightarrow> flow_from x t"
  unfolding flow_from_def by (rule rtranclp.rtrancl_into_rtrancl)

lemma flow_from_same: "flow_db t = flow_db s \<Longrightarrow> flow_from x t = flow_from x s"
  by (simp add: flow_from_def)

section \<open>What leaves the tables of the service alone\<close>

lemma tombstone_owners: "owners (tombstone_created i s) = owners s"
  unfolding tombstone_created_def owners_def by (simp add: fold_update_column)

lemma flow_db_environ [simp]:
  fixes s :: "'x flowing_scheme"
  shows "flow_db (tn_members_update f1 s) = flow_db s" "flow_db (tn_scopes_update f2 s) = flow_db s"
    "flow_db (tn_projections_update f3 s) = flow_db s" "flow_db (ev_templates_update f5 s) = flow_db s"
    "flow_db (ev_rows_update f6 s) = flow_db s" "flow_db (ev_objects_update f7 s) = flow_db s"
    "flow_db (fw_channels_update f8 s) = flow_db s" "flow_db (fw_promotions_update f9 s) = flow_db s"
    "flow_db (engine_put e s) = flow_db s"
  by (simp_all add: flow_db_def owners_def engine_put_def)

lemma flow_db_tombstone [simp]: "flow_db (tombstone_created i s) = flow_db s"
  using tombstone_owners [of i s] by (simp add: flow_db_def) (simp add: tombstone_created_def)

text \<open>A predicate on a column that tenancy and environments do not write is an invariant of theirs.\<close>

lemma environment_of_column:
  fixes col :: "'x environ_scheme \<Rightarrow> 'c"
  assumes more: "\<And>s t. v1_state.more s = v1_state.more t \<Longrightarrow> col s = col t"
    and upd: "\<And>f s. col (tn_members_update f s) = col s" "\<And>f s. col (tn_scopes_update f s) = col s"
      "\<And>f s. col (tn_projections_update f s) = col s" "\<And>f s. col (ev_templates_update f s) = col s"
      "\<And>f s. col (ev_rows_update f s) = col s" "\<And>f s. col (ev_objects_update f s) = col s"
      "\<And>e s. col (engine_put e s) = col s" "\<And>i s. col (tombstone_created i s) = col s"
  shows "environment_invariant h (\<lambda>s. J (col s))"
proof -
  have "guarded_invariant h (\<lambda>s. J (col s))"
    by (rule guarded_of_column, erule more) (simp_all add: upd)
  moreover have "environment_invariant_axioms h (\<lambda>s. J (col s))"
    by unfold_locales (simp_all add: upd keeps_def insert_environment_def insert_template_def insert_env_object_def)
  ultimately show ?thesis by (rule environment_invariant.intro)
qed

section \<open>Reading\<close>

lemma reads_flow [reads_intros]:
  "reads (get_stage i1)" "reads (get_pipeline i2)" "reads (object_row_of i3)" "reads (get_current_stage i4)"
  "reads (list_channels a b c d act n)" "reads (require_that err Q)"
  unfolding get_stage_def get_pipeline_def object_row_of_def get_current_stage_def list_channels_def require_that_def
  by (intro reads_intros; fail)+

lemma reads_flow_checks [reads_intros]:
  "reads (check_stages to_id from_id)" "reads (check_pipeline i)" "reads (check_object_owner obj actor)"
  "reads (check_current obj from_id)" "reads (can_flow a b c d ty)" "reads (check_promotion obj env sid stg)"
  "reads (check_channel enforced env sid ty)" "reads (promotion_type obj ty)"
  unfolding check_stages_def check_pipeline_def check_object_owner_def check_current_def can_flow_def
    check_promotion_def check_channel_def promotion_type_def
  by (intro reads_intros; fail)+

lemmas keeps_flow_reads [keeps_intros] = reads_flow [THEN keeps_reads] reads_flow_checks [THEN keeps_reads]

lemma check_stages_Inr: "fst (check_stages to_id from_id s) = Inr g \<longleftrightarrow>
    find_stage to_id (fw_stages s) = Some g \<and>
    (\<forall>f. from_id = Some f \<longrightarrow> (\<exists>g'. find_stage f (fw_stages s) = Some g' \<and> sg_pipeline g' = sg_pipeline g))"
  by (auto simp: check_stages_def get_stage_def split: option.splits if_splits)

lemma check_pipeline_Inr: "fst (check_pipeline i s) = Inr u \<longleftrightarrow>
    (\<forall>p. find (\<lambda>p. pp_id p = i) (fw_pipelines s) = Some p \<longrightarrow> pp_lifecycle p = Active)"
  by (auto simp: check_pipeline_def get_pipeline_def split: option.splits if_splits)

lemma map_of_owners: "map_of (owners s) i = map_option ob_owner (find (\<lambda>b. ob_id b = i) (tn_objects s))"
proof -
  have "map_of (map (\<lambda>b. (ob_id b, ob_owner b)) bs) i = map_option ob_owner (find (\<lambda>b. ob_id b = i) bs)" for bs
    by (induction bs) auto
  then show ?thesis by (simp add: owners_def)
qed

lemma check_owner_Inr: "fst (check_object_owner obj actor s) = Inr row \<longleftrightarrow>
    find (\<lambda>b. ob_id b = obj) (tn_objects s) = Some row \<and> ob_owner row = actor"
  by (auto simp: check_object_owner_def object_row_of_def split: option.splits if_splits)

lemma check_current_Inr: "fst (check_current obj from_id s) = Inr u \<longleftrightarrow>
    map_option st_to (current_of obj (fw_transitions s)) = from_id"
  by (auto simp: check_current_def get_current_stage_def current_of_def split: list.splits)

section \<open>Invariants of the service\<close>

locale flow_invariant = environment_invariant h I
  for h :: v1_host and I :: "'x flowing_scheme \<Rightarrow> bool" +
  assumes inv_pipeline: "keeps I (insert_pipeline h p)"
    and inv_archive_pipeline: "I s \<Longrightarrow> I (s\<lparr>fw_pipelines := sql_update_where (\<lambda>p. pp_id p = i)
        (\<lambda>p. p\<lparr>pp_lifecycle := Archived\<rparr>) (fw_pipelines s)\<rparr>)"
    and inv_stage: "keeps I (insert_stage h g)"
    and inv_transition: "I s \<Longrightarrow> new_transition (flow_db s) t \<Longrightarrow> I (snd (insert_transition h t s))"
    and inv_channel: "keeps I (insert_channel h c)"
    and inv_archive_channel: "I s \<Longrightarrow> I (s\<lparr>fw_channels := sql_update_where (\<lambda>c. ch_id c = i)
        (\<lambda>c. c\<lparr>ch_lifecycle := Archived\<rparr>) (fw_channels s)\<rparr>)"
    and inv_promotion: "keeps I (insert_promotion h q)"
begin

lemma keeps_create_pipeline: "keeps I (create_pipeline h now name owner desc)"
  unfolding create_pipeline_def by (intro keeps_intros inv_fresh inv_record inv_pipeline)

lemma keeps_archive_pipeline: "keeps I (archive_pipeline h now i actor)"
  unfolding archive_pipeline_def by (intro keeps_intros inv_record inv_archive_pipeline)

lemma keeps_add_stage: "keeps I (add_stage h now i name ordinal meta)"
  unfolding add_stage_def by (intro keeps_intros inv_fresh inv_record inv_stage)

lemma keeps_create_channel: "keeps I (create_channel h now name a b c d owner allowed)"
  unfolding create_channel_def by (intro keeps_intros inv_fresh inv_record inv_channel)

lemma keeps_archive_channel: "keeps I (archive_channel h now i actor)"
  unfolding archive_channel_def by (intro keeps_intros inv_record inv_archive_channel)

lemma keeps_promote_object: "keeps I (promote_object h now ticks enforced projects obj env sid actor stg ty access)"
  unfolding promote_object_def
  by (intro keeps_intros inv_check keeps_project inv_fresh inv_record inv_promotion)

lemma keeps_env_promote: "keeps I (env_promote h now ticks wired enforced projects i actor sid stg access)"
  unfolding env_promote_def by (intro keeps_intros keeps_promote_object keeps_env_transition)

end

interpretation flow_fixed: environment_invariant h "\<lambda>s. flow_db s = c" for h c
  by (rule environment_of_column [of flow_db]) (rule flow_db_more, simp_all)

lemma promotions_more: "v1_state.more s = v1_state.more t \<Longrightarrow> fw_promotions s = fw_promotions t"
  by (cases s, cases t) simp

interpretation promotions_fixed: environment_invariant h "\<lambda>s. fw_promotions s = c" for h c
  by (rule environment_of_column [of fw_promotions]) (erule promotions_more, simp_all add: engine_put_def tombstone_created_def)

context flow_invariant
begin

lemma keeps_placement:
  assumes "I t" and new: "\<And>i. fst (check_current obj from_id t) = Inr () \<Longrightarrow> new_transition (flow_db t) (x i)"
  shows "I (snd (bindS (check_current obj from_id) (\<lambda>_. bindS (fresh_id h) (\<lambda>i. bindS (insert_transition h (x i))
    (\<lambda>_. bindS (audit_event h now (rq i)) (\<lambda>_. returnS (x i))))) t))"
proof (cases "fst (check_current obj from_id t)")
  case (Inl e)
  with assms(1) show ?thesis by (simp add: bindS_reads [OF reads_flow_checks(4)])
next
  case (Inr w)
  have "I (snd (bindS (fresh_id h) (\<lambda>i. bindS (insert_transition h (x i))
      (\<lambda>_. bindS (audit_event h now (rq i)) (\<lambda>_. returnS (x i)))) t))"
  proof (rule keeps_under [where J = "\<lambda>v. flow_db v = flow_db t" and I = I, OF inv_fresh flow_fixed.inv_fresh assms(1) refl])
    fix i v assume v: "I v" "flow_db v = flow_db t"
    with new [of i] Inr have "new_transition (flow_db v) (x i)" by simp
    then show "I (snd (bindS (insert_transition h (x i)) (\<lambda>_. bindS (audit_event h now (rq i)) (\<lambda>_. returnS (x i))) v))"
      by (intro keeps_after [where I = I] inv_transition v keeps_intros inv_record)
  qed
  with Inr show ?thesis by (simp add: bindS_reads [OF reads_flow_checks(4)])
qed

lemma keeps_stage_transition: "keeps I (stage_transition_op h now ticks obj to_id actor from_id reason)"
  unfolding keeps_def
proof (intro allI impI)
  fix s :: "'x flowing_scheme"
  assume s: "I s"
  let ?op = "stage_transition_op h now ticks obj to_id actor from_id reason"
  note reading = bindS_reads [OF reads_flow_checks(1)] bindS_reads [OF reads_flow_checks(2)]
    bindS_reads [OF reads_flow_checks(3)]
  show "I (snd (?op s))"
  proof (cases "\<exists>g u row. fst (check_stages to_id from_id s) = Inr g \<and> fst (check_pipeline (sg_pipeline g) s) = Inr u
      \<and> fst (check_object_owner obj actor s) = Inr row")
    case False
    have "fst (check_stages to_id from_id s) = Inr g \<Longrightarrow> fst (check_pipeline (sg_pipeline g) s) = Inr u \<Longrightarrow>
        \<exists>e. fst (check_object_owner obj actor s) = Inl e" for g u
      using False by (cases "fst (check_object_owner obj actor s)") auto
    then show ?thesis
      using s by (auto simp: stage_transition_op_def reading split: sum.splits)
  next
    case True
    then obtain g u row where read: "fst (check_stages to_id from_id s) = Inr g" "fst (check_pipeline (sg_pipeline g) s) = Inr u"
      "fst (check_object_owner obj actor s) = Inr row" by blast
    have new: "new_transition (flow_db t) x"
      if "flow_db t = flow_db s" "fst (check_current obj from_id t) = Inr ()"
        "st_object x = obj" "st_to x = to_id" "st_by x = actor" "st_from x = from_id" for t x
      unfolding that(1) using read that unfolding check_stages_Inr check_pipeline_Inr check_owner_Inr check_current_Inr
      by (auto simp: new_transition_def flow_db_def map_of_owners)
    have "I (snd (bindS (check_rules h now ticks q StageTransitionDenied) (\<lambda>_. bindS (check_current obj from_id) (\<lambda>_.
        bindS (fresh_id h) (\<lambda>i. bindS (insert_transition h (x i)) (\<lambda>_. bindS (audit_event h now (rq i)) (\<lambda>_. returnS (x i)))))) s))"
      if "\<And>i. st_object (x i) = obj \<and> st_to (x i) = to_id \<and> st_by (x i) = actor \<and> st_from (x i) = from_id" for q x rq
    proof (rule keeps_under [where J = "\<lambda>t. flow_db t = flow_db s" and I = I, OF inv_check flow_fixed.inv_check s refl])
      fix t assume t: "I t" "flow_db t = flow_db s"
      show "I (snd (bindS (check_current obj from_id) (\<lambda>_. bindS (fresh_id h) (\<lambda>i. bindS (insert_transition h (x i))
          (\<lambda>_. bindS (audit_event h now (rq i)) (\<lambda>_. returnS (x i))))) t))"
        by (rule keeps_placement [OF t(1) new [OF t(2)]]) (use that in auto)
    qed
    with read show ?thesis by (simp add: stage_transition_op_def reading Let_def)
  qed
qed

end

section \<open>The service keeps its machine, that of environments and the trail\<close>

interpretation flow_refines: flow_invariant h "flow_from x" for h x
proof -
  have "environment_invariant h (flow_from x)"
    unfolding flow_from_def by (rule environment_of_column [of flow_db]) (rule flow_db_more, simp_all)
  moreover have "flow_invariant_axioms h (flow_from x)"
  proof
    show "keeps (flow_from x) (insert_pipeline h p)" for p
      by (auto simp: keeps_def insert_pipeline_def flow_db_def owners_def list_ex_iff intro!: pipeline_added elim!: flow_from_step)
    show "flow_from x (s\<lparr>fw_pipelines := sql_update_where (\<lambda>p. pp_id p = i) (\<lambda>p. p\<lparr>pp_lifecycle := Archived\<rparr>) (fw_pipelines s)\<rparr>)"
      if "flow_from x s" for s i
      using that by (rule flow_from_step) (simp add: flow_db_def owners_def pipeline_archived)
    show "keeps (flow_from x) (insert_stage h g)" for g
      by (auto simp: keeps_def insert_stage_def flow_db_def owners_def list_ex_iff intro!: stage_added elim!: flow_from_step)
    show "flow_from x (snd (insert_transition h t s))" if "flow_from x s" "new_transition (flow_db s) t" for s t
      using that by (auto simp: insert_transition_def flow_db_def owners_def intro!: transition_added elim!: flow_from_step)
    show "keeps (flow_from x) (insert_channel h c)" for c
      by (auto simp: keeps_def insert_channel_def flow_from_def)
    show "keeps (flow_from x) (insert_promotion h q)" for q
      by (auto simp: keeps_def insert_promotion_def flow_from_def)
  qed (simp add: flow_from_def)
  ultimately show "flow_invariant h (flow_from x)" by (rule flow_invariant.intro)
qed

lemma env_db_flowing [simp]:
  fixes s :: "'x flowing_scheme"
  shows "env_db (fw_pipelines_update f1 s) = env_db s" "env_db (fw_stages_update f2 s) = env_db s"
    "env_db (fw_transitions_update f3 s) = env_db s" "env_db (fw_channels_update f4 s) = env_db s"
    "env_db (fw_promotions_update f5 s) = env_db s"
  by (simp_all add: env_db_def)

lemmas flow_inserts = insert_pipeline_def insert_stage_def insert_transition_def insert_channel_def insert_promotion_def

interpretation flow_env: flow_invariant h "env_from x" for h x
  by unfold_locales (auto simp: keeps_def flow_inserts env_from_def)

lemma audit_ok_flowing [simp]:
  fixes s :: "'x flowing_scheme"
  shows "audit_ok h (fw_pipelines_update f1 s) = audit_ok h s" "audit_ok h (fw_stages_update f2 s) = audit_ok h s"
    "audit_ok h (fw_transitions_update f3 s) = audit_ok h s" "audit_ok h (fw_channels_update f4 s) = audit_ok h s"
    "audit_ok h (fw_promotions_update f5 s) = audit_ok h s"
  by (simp_all add: audit_ok_def head_ok_def)

interpretation flow_audit: flow_invariant h "audit_ok h" for h
  by unfold_locales (auto simp: keeps_def flow_inserts)

end
