(* ===== verification/V1_Flow_Properties.thy ===== *)
theory V1_Flow_Properties
  imports V1_Flow_Facts V1_Tenancy_Properties V1_Rules_Properties
begin

text \<open>
  Environments and flow as one step system, which includes tenancy, and its properties: the life
  of an environment and its contents, the way of an object through the stages of a pipeline, and
  what discarding, promoting and permitting flows achieve.
\<close>

section \<open>Invariants of the machine of environments\<close>

definition finished :: "environment \<Rightarrow> bool" where
  "finished e \<longleftrightarrow> en_state e \<in> {Completed, Promoted, Discarded}"

definition env_ok :: "env_db \<Rightarrow> bool" where
  "env_ok x \<longleftrightarrow> (case x of (es, os) \<Rightarrow>
     distinct (map en_id es) \<and> (\<forall>e \<in> set es. en_completed e \<noteq> None \<longrightarrow> finished e) \<and>
     (\<forall>ob \<in> set os. \<exists>e \<in> set es. en_id e = eo_env ob \<and> en_state e \<noteq> Spawning) \<and>
     distinct (map (\<lambda>ob. (eo_env ob, eo_object ob)) os))"







lemma set_env_one:
  assumes "distinct (map en_id es)" "find_env i es = Some e"
  shows "set_env i f es = map (\<lambda>x. if x = e then f e else x) es" "e \<in> set es" "en_id e = i"
proof -
  from assms(2) show e: "e \<in> set es" "en_id e = i" by (auto dest: find_SomeD)
  have "en_id x = i \<longleftrightarrow> x = e" if "x \<in> set es" for x
    using e that assms(1) by (auto simp: distinct_map dest: inj_onD)
  then show "set_env i f es = map (\<lambda>x. if x = e then f e else x) es" by (auto simp: sql_update_where_def)
qed






section \<open>Invariants of the machine of stages\<close>

text \<open>A history as a path: each move starts where the one before it ended.\<close>

fun moves_from :: "string option \<Rightarrow> stage_transition list \<Rightarrow> bool" where
  "moves_from c [] = True"
| "moves_from c (t # ts) = (st_from t = c \<and> moves_from (Some (st_to t)) ts)"

definition pipeline_of :: "stage list \<Rightarrow> string \<Rightarrow> string option" where
  "pipeline_of gs i = map_option sg_pipeline (find_stage i gs)"

definition timely :: "stage_transition list \<Rightarrow> bool" where
  "timely ts \<longleftrightarrow> sorted_wrt (<) (map st_at ts)"

definition one_pipeline :: "stage list \<Rightarrow> stage_transition list \<Rightarrow> bool" where
  "one_pipeline gs ts \<longleftrightarrow>
     (\<forall>t \<in> set ts. \<forall>u \<in> set ts. st_object t = st_object u \<longrightarrow> pipeline_of gs (st_to t) = pipeline_of gs (st_to u))"

definition path_ok :: "flow_db \<Rightarrow> bool" where
  "path_ok x \<longleftrightarrow> (case x of (ws, ps, gs, ts) \<Rightarrow>
     (\<forall>t \<in> set ts. map_of ws (st_object t) = Some (st_by t) \<and> pipeline_of gs (st_to t) \<noteq> None) \<and>
     one_pipeline gs ts \<and>
     (\<forall>i. timely (history_of i ts) \<longrightarrow> moves_from None (history_of i ts)))"

lemma moves_snoc: "moves_from c (ts @ [t]) \<longleftrightarrow>
    moves_from c ts \<and> st_from t = (if ts = [] then c else Some (st_to (last ts)))"
  by (induction ts arbitrary: c) auto

lemma timely_snoc: "timely (ts @ [t]) \<Longrightarrow> timely ts"
  by (simp add: timely_def sorted_wrt_append)

lemma current_of_timely: "timely (history_of i ts) \<Longrightarrow>
    current_of i ts = (if history_of i ts = [] then None else Some (last (history_of i ts)))"
proof -
  assume "timely (history_of i ts)"
  then have "sorted (map st_at (history_of i ts)) \<and> distinct (map st_at (history_of i ts))"
    unfolding timely_def strict_sorted_iff by simp
  then have "sql_order True st_at (history_of i ts) = rev (history_of i ts)" by (simp add: sql_order_desc_sorted)
  then show ?thesis by (cases "history_of i ts" rule: rev_cases) (simp_all add: current_of_def)
qed

lemma current_of_member: "current_of i ts = Some t \<Longrightarrow> t \<in> set ts \<and> st_object t = i"
proof -
  assume "current_of i ts = Some t"
  then obtain us where "sql_order True st_at (history_of i ts) = t # us" by (auto simp: current_of_def split: list.splits)
  from arg_cong [OF this, of set] show ?thesis by auto
qed

lemma current_of_None: "current_of i ts = None \<longleftrightarrow> history_of i ts = []"
proof -
  have "current_of i ts = None \<longleftrightarrow> sql_order True st_at (history_of i ts) = []"
    by (simp add: current_of_def split: list.splits)
  also have "\<dots> \<longleftrightarrow> history_of i ts = []" by (metis set_empty sql_order_set)
  finally show ?thesis .
qed

lemma pipeline_of_snoc: "pipeline_of gs i = Some p \<Longrightarrow> pipeline_of (gs @ [g]) i = Some p"
  by (induction gs) (auto simp: pipeline_of_def)

lemma transition_pipeline:
  assumes "path_ok (ws, ps, gs, ts)" "new_transition (ws, ps, gs, ts) t" "u \<in> set ts" "st_object u = st_object t"
  shows "pipeline_of gs (st_to u) = pipeline_of gs (st_to t)"
proof -
  from assms(3,4) have "history_of (st_object t) ts \<noteq> []" by (auto simp: filter_empty_conv)
  then obtain v where v: "current_of (st_object t) ts = Some v" using current_of_None by (cases "current_of (st_object t) ts") auto
  then have m: "v \<in> set ts" "st_object v = st_object t" by (simp_all add: current_of_member)
  from assms(2) v have "st_from t = Some (st_to v)" by (simp add: new_transition_def)
  with assms(2) have "pipeline_of gs (st_to v) = pipeline_of gs (st_to t)"
    by (auto simp: new_transition_def pipeline_of_def)
  moreover have "pipeline_of gs (st_to u) = pipeline_of gs (st_to v)"
    using assms(1,3,4) m unfolding path_ok_def one_pipeline_def prod.case by metis
  ultimately show ?thesis by simp
qed

lemma transition_moves:
  assumes ok: "path_ok (ws, ps, gs, ts)" and new: "new_transition (ws, ps, gs, ts) t"
    and time: "timely (history_of i (ts @ [t]))"
  shows "moves_from None (history_of i (ts @ [t]))"
proof (cases "st_object t = i")
  case True
  with time have "timely (history_of i ts @ [t])" by simp
  then have before: "timely (history_of i ts)" by (rule timely_snoc)
  with new True have "st_from t = (if history_of i ts = [] then None else Some (st_to (last (history_of i ts))))"
    by (auto simp: new_transition_def current_of_timely split: if_splits)
  with ok before True show ?thesis by (simp add: path_ok_def moves_snoc)
next
  case False
  with ok time show ?thesis by (simp add: path_ok_def)
qed

lemma flow_change_ok: "flow_change x y \<Longrightarrow> path_ok x \<Longrightarrow> path_ok y"
proof (induction rule: flow_change.induct)
  case (stage_added gs g ws ps ts)
  have same: "pipeline_of (gs @ [g]) (st_to t) = pipeline_of gs (st_to t)" if "t \<in> set ts" for t
  proof -
    from that stage_added(2) obtain p where "pipeline_of gs (st_to t) = Some p" by (auto simp: path_ok_def)
    then show ?thesis by (simp add: pipeline_of_snoc)
  qed
  from same have "one_pipeline (gs @ [g]) ts = one_pipeline gs ts" unfolding one_pipeline_def by simp
  with stage_added(2) same show ?case by (simp add: path_ok_def)
next
  case (transition_added ws ps gs ts t)
  note same = transition_pipeline [OF transition_added(2,1)]
  have "pipeline_of gs (st_to t) \<noteq> None" "map_of ws (st_object t) = Some (st_by t)"
    using transition_added(1) by (auto simp: new_transition_def pipeline_of_def)
  moreover have "\<forall>i. timely (history_of i (ts @ [t])) \<longrightarrow> moves_from None (history_of i (ts @ [t]))"
    using transition_moves [OF transition_added(2,1)] by blast
  moreover have "one_pipeline gs ts" using transition_added(2) by (simp add: path_ok_def)
  then have "pipeline_of gs (st_to u) = pipeline_of gs (st_to v)"
    if "u \<in> set ts \<or> u = t" "v \<in> set ts \<or> v = t" "st_object u = st_object v" for u v
    using that same unfolding one_pipeline_def by metis
  then have "one_pipeline gs (ts @ [t])"
    unfolding one_pipeline_def set_append list.set by blast
  ultimately show ?case using transition_added(2) unfolding path_ok_def prod.case by simp
qed (simp_all add: path_ok_def)

lemma flow_run_ok: "flow_run x y \<Longrightarrow> path_ok x \<Longrightarrow> path_ok y"
  by (induction rule: rtranclp_induct) (auto intro: flow_change_ok)

section \<open>The services as a step system\<close>

text \<open>One call of tenancy, environments or flow, with any arguments, returned or raised.\<close>

inductive services_step :: "v1_host \<Rightarrow> 'x flowing_scheme \<Rightarrow> 'x flowing_scheme \<Rightarrow> bool" for h where
  step_tenancy: "tenant_step h s s' \<Longrightarrow> services_step h s s'"
| step_spawn: "services_step h s (snd (spawn h now name actor desc template eph meta s))"
| step_from_template: "services_step h s (snd (spawn_from_template h now tid actor name_opt s))"
| step_template: "services_step h s (snd (create_template h now name actor desc config s))"
| step_activate: "services_step h s (snd (env_activate h now i actor s))"
| step_suspend: "services_step h s (snd (env_suspend h now i actor s))"
| step_resume: "services_step h s (snd (env_resume h now i actor s))"
| step_complete: "services_step h s (snd (env_complete h now i actor s))"
| step_discard: "services_step h s (snd (env_discard h now i actor s))"
| step_add_object: "services_step h s (snd (add_object h now ticks i obj actor_opt origin s))"
| step_remove_object: "services_step h s (snd (remove_object h now i obj actor_opt s))"
| step_create_pipeline: "services_step h s (snd (create_pipeline h now name actor desc s))"
| step_archive_pipeline: "services_step h s (snd (archive_pipeline h now i actor s))"
| step_add_stage: "services_step h s (snd (add_stage h now i name ordinal meta s))"
| step_transition: "services_step h s (snd (stage_transition_op h now ticks obj to_id actor from_id reason s))"
| step_create_channel: "services_step h s (snd (create_channel h now name a b c d actor allowed s))"
| step_archive_channel: "services_step h s (snd (archive_channel h now i actor s))"
| step_promote_object: "services_step h s (snd (promote_object h now ticks enforced projects obj i sid actor stg ty access s))"
| step_env_promote: "services_step h s (snd (env_promote h now ticks wired enforced projects i actor sid_opt stg access_opt s))"

abbreviation services_run :: "v1_host \<Rightarrow> 'x flowing_scheme \<Rightarrow> 'x flowing_scheme \<Rightarrow> bool" where
  "services_run h \<equiv> (services_step h)\<^sup>*\<^sup>*"

context flow_invariant
begin

lemma keeps_env_states:
  "keeps I (env_activate h now i actor)" "keeps I (env_suspend h now i actor)" "keeps I (env_resume h now i actor)"
  by (simp_all add: env_activate_def env_suspend_def env_resume_def keeps_env_transition)

lemma keeps_services_step: "services_step h s s' \<Longrightarrow> I s \<Longrightarrow> I s'"
proof (induction rule: services_step.induct)
  case (step_tenancy s s')
  then show ?case by (rule keeps_step)
qed (rule keeps_snd, rule keeps_spawn keeps_spawn_from_template keeps_create_template keeps_env_states keeps_env_complete
    keeps_env_discard keeps_add_object keeps_remove_object keeps_create_pipeline keeps_archive_pipeline keeps_add_stage
    keeps_stage_transition keeps_create_channel keeps_archive_channel keeps_promote_object keeps_env_promote, assumption)+

lemma keeps_services: "services_run h s s' \<Longrightarrow> I s \<Longrightarrow> I s'"
  by (induction rule: rtranclp_induct) (auto intro: keeps_services_step)

end

section \<open>A sample workspace\<close>

text \<open>
  Ann spawns an environment and activates it; the document she owns is added to it and moves
  through the first two stages of a pipeline.
\<close>

definition flowing0 :: flowing where
  "flowing0 = \<lparr>w_next = 0, w_trail = [], w_seq = 0, w_last = '''', tn_audited = False,
     tn_principals = [''ann'', ''bob''],
     tn_objects = [\<lparr>ob_id = ''doc1'', ob_owner = ''ann'', ob_type = ''Document'', ob_lifecycle = Active,
       ob_version = 1, ob_created = ''2024-01-01'', ob_entry = None\<rparr>],
     tn_scopes = [], tn_members = [], tn_projections = [], gd_engine = None,
     ev_rows = [], ev_objects = [], ev_templates = [],
     fw_pipelines = [], fw_stages = [], fw_transitions = [], fw_channels = [], fw_promotions = []\<rparr>"

definition spawned1 :: "(v1_error + environment) \<times> flowing" where
  "spawned1 = spawn v1_host0 ''2024-01-01'' ''lab'' ''ann'' '''' None True [] flowing0"

definition active1 :: "(v1_error + environment) \<times> flowing" where
  "active1 = env_activate v1_host0 ''2024-01-02'' ''t0'' ''ann'' (snd spawned1)"

definition added1 :: "(v1_error + env_object) \<times> flowing" where
  "added1 = add_object v1_host0 ''2024-01-03'' clock0 ''t0'' ''doc1'' (Some ''ann'') CreatedHere (snd active1)"

definition pipeline1 :: "(v1_error + pipeline) \<times> flowing" where
  "pipeline1 = create_pipeline v1_host0 ''2024-01-04'' ''release'' ''ann'' '''' (snd added1)"

definition draft1 :: "(v1_error + stage) \<times> flowing" where
  "draft1 = add_stage v1_host0 ''2024-01-05'' ''t4'' ''draft'' 1 [] (snd pipeline1)"

definition review1 :: "(v1_error + stage) \<times> flowing" where
  "review1 = add_stage v1_host0 ''2024-01-06'' ''t4'' ''review'' 2 [] (snd draft1)"

definition placed1 :: "(v1_error + stage_transition) \<times> flowing" where
  "placed1 = stage_transition_op v1_host0 ''2024-01-07'' clock0 ''doc1'' ''t5'' ''ann'' None '''' (snd review1)"

definition moved1 :: "(v1_error + stage_transition) \<times> flowing" where
  "moved1 = stage_transition_op v1_host0 ''2024-01-08'' clock0 ''doc1'' ''t6'' ''ann'' (Some ''t5'') '''' (snd placed1)"

definition completed1 :: "(v1_error + environment) \<times> flowing" where
  "completed1 = env_complete v1_host0 ''2024-01-09'' ''t0'' ''ann'' (snd moved1)"

definition discarded1 :: "(v1_error + environment) \<times> flowing" where
  "discarded1 = env_discard v1_host0 ''2024-01-10'' ''t0'' ''ann'' (snd completed1)"

lemma moved1_history:
  "map (\<lambda>t. (st_from t, st_to t, st_at t)) (history_of ''doc1'' (fw_transitions (snd moved1)))
    = [(None, ''t5'', ''2024-01-07''), (Some ''t5'', ''t6'', ''2024-01-08'')]"
  by code_simp


lemma discarded1_objects: "map ob_lifecycle (tn_objects (snd discarded1)) = [Archived]"
  by code_simp

lemma sample_steps:
  "services_step v1_host0 flowing0 (snd spawned1)" "services_step v1_host0 (snd spawned1) (snd active1)"
  "services_step v1_host0 (snd active1) (snd added1)" "services_step v1_host0 (snd added1) (snd pipeline1)"
  "services_step v1_host0 (snd pipeline1) (snd draft1)" "services_step v1_host0 (snd draft1) (snd review1)"
  "services_step v1_host0 (snd review1) (snd placed1)" "services_step v1_host0 (snd placed1) (snd moved1)"
  "services_step v1_host0 (snd moved1) (snd completed1)" "services_step v1_host0 (snd completed1) (snd discarded1)"
  unfolding spawned1_def active1_def added1_def pipeline1_def draft1_def review1_def placed1_def moved1_def
    completed1_def discarded1_def
  by (rule services_step.intros)+

lemma sample_runs: "services_run v1_host0 flowing0 (snd moved1)" "services_run v1_host0 (snd moved1) (snd discarded1)"
proof -
  note run = converse_rtranclp_into_rtranclp [where r = "services_step v1_host0 :: flowing \<Rightarrow> flowing \<Rightarrow> bool"]
  show "services_run v1_host0 flowing0 (snd moved1)"
    by (rule run [OF sample_steps(1)], rule run [OF sample_steps(2)], rule run [OF sample_steps(3)],
        rule run [OF sample_steps(4)], rule run [OF sample_steps(5)], rule run [OF sample_steps(6)],
        rule run [OF sample_steps(7)], rule run [OF sample_steps(8)], rule rtranclp.rtrancl_refl)
  show "services_run v1_host0 (snd moved1) (snd discarded1)"
    by (rule run [OF sample_steps(9)], rule run [OF sample_steps(10)], rule rtranclp.rtrancl_refl)
qed

section \<open>The properties\<close>

definition nothing_spawned :: "'x flowing_scheme \<Rightarrow> bool" where
  "nothing_spawned s \<longleftrightarrow> ev_rows s = [] \<and> ev_objects s = [] \<and> fw_transitions s = []"

lemma nothing_spawned_ok: "nothing_spawned s \<Longrightarrow> env_ok (env_db s) \<and> path_ok (flow_db s)"
  by (simp add: nothing_spawned_def env_db_def env_ok_def flow_db_def path_ok_def one_pipeline_def timely_def)



text \<open>
  C22. The way of an object through its stages is a path: in every state reached, each of its
  transitions was made by the owner of the object, all of them lead to existing stages of one and the
  same pipeline, and, the times of its transitions increasing, the first is a placement without a
  source and each later one starts at the stage where the one before it ended, which is what
  \<open>get_current_stage\<close> returns.
\<close>

theorem object_history_is_path:
  assumes "services_run h s0 s" "nothing_spawned s0" "ts = history_of i (fw_transitions s)"
  shows "(\<forall>t \<in> set ts. map_of (owners s) i = Some (st_by t)) \<and>
    (\<exists>p. \<forall>t \<in> set ts. pipeline_of (fw_stages s) (st_to t) = Some p) \<and>
    (timely ts \<longrightarrow> moves_from None ts \<and>
      get_current_stage i s = (Inr (if ts = [] then None else Some (last ts)), s))"
proof -
  have "path_ok (flow_db s)"
    using flow_refines.keeps_services [OF assms(1)] flow_run_ok nothing_spawned_ok [OF assms(2)]
    unfolding flow_from_def by blast
  then have owner: "\<forall>t \<in> set (fw_transitions s). map_of (owners s) (st_object t) = Some (st_by t)
      \<and> pipeline_of (fw_stages s) (st_to t) \<noteq> None" and one: "one_pipeline (fw_stages s) (fw_transitions s)"
    and path: "timely ts \<longrightarrow> moves_from None ts"
    unfolding path_ok_def flow_db_def prod.case assms(3) by blast+
  have "\<exists>p. \<forall>t \<in> set ts. pipeline_of (fw_stages s) (st_to t) = Some p"
  proof (cases ts)
    case (Cons u us)
    then have u: "u \<in> set (fw_transitions s)" "st_object u = i" using assms(3) Cons by (auto simp: filter_eq_Cons_iff)
    with owner obtain p where "pipeline_of (fw_stages s) (st_to u) = Some p" by auto
    moreover have "pipeline_of (fw_stages s) (st_to t) = pipeline_of (fw_stages s) (st_to u)" if "t \<in> set ts" for t
    proof -
      from that have "t \<in> set (fw_transitions s)" "st_object t = st_object u" using assms(3) u by auto
      with one u(1) show ?thesis unfolding one_pipeline_def by blast
    qed
    ultimately show ?thesis by auto
  qed simp
  moreover have "get_current_stage i s = (Inr (if ts = [] then None else Some (last ts)), s)" if "timely ts"
    using current_of_timely [of i "fw_transitions s"] that unfolding assms(3) current_of_def get_current_stage_def by simp
  moreover have "\<forall>t \<in> set ts. map_of (owners s) i = Some (st_by t)" using owner assms(3) by auto
  ultimately show ?thesis using path by blast
qed

theorem object_history_is_path_witness:
  "map_of (owners (snd moved1)) ''doc1'' = Some ''ann'' \<and>
    moves_from None (history_of ''doc1'' (fw_transitions (snd moved1)))"
proof -
  let ?ts = "history_of ''doc1'' (fw_transitions (snd moved1))"
  have "nothing_spawned flowing0" by (simp add: nothing_spawned_def flowing0_def)
  note p = object_history_is_path [OF sample_runs(1) this refl, of "''doc1''"]
  have "map st_at ?ts = [''2024-01-07'', ''2024-01-08'']"
    using arg_cong [OF moved1_history, of "map (snd \<circ> snd)"] by (simp add: o_def)
  moreover have "''2024-01-07'' < (''2024-01-08'' :: string)" by code_simp
  ultimately have "timely ?ts" by (simp add: timely_def)
  with p have "moves_from None ?ts" by blast
  moreover have "map_of (owners (snd moved1)) ''doc1'' = Some ''ann''" by code_simp
  ultimately show ?thesis by blast
qed

section \<open>Discarding\<close>

lemma tombstone_objects: "tn_objects (tombstone_created i s) =
    map (\<lambda>b. if ob_id b \<in> set (created_object_ids i (ev_objects s)) then b\<lparr>ob_lifecycle := Archived\<rparr> else b) (tn_objects s)"
proof -
  have "fold (\<lambda>i. sql_update_where (\<lambda>b. ob_id b = i \<and> ob_lifecycle b \<noteq> Archived) (\<lambda>b. b\<lparr>ob_lifecycle := Archived\<rparr>)) is bs
      = map (\<lambda>b. if ob_id b \<in> set is then b\<lparr>ob_lifecycle := Archived\<rparr> else b) bs" for "is" and bs :: "object_row list"
  proof (induction "is" arbitrary: bs)
    case (Cons i "is")
    have "sql_update_where (\<lambda>b. ob_id b = i \<and> ob_lifecycle b \<noteq> Archived) (\<lambda>b. b\<lparr>ob_lifecycle := Archived\<rparr>) bs
        = map (\<lambda>b. if ob_id b = i then b\<lparr>ob_lifecycle := Archived\<rparr> else b) bs"
      by (auto simp: sql_update_where_def)
    with Cons show ?case by (auto simp: o_def)
  qed simp
  then show ?thesis by (simp add: tombstone_created_def)
qed

interpretation objects_fixed: tenancy_invariant h "\<lambda>s. tn_objects s = c" for h c
proof (rule tenancy_of_tables)
  show "(tn_objects s = c) = (tn_objects t = c)" if "v1_state.more s = v1_state.more t" for s t :: "'a tenant_scheme"
    using tables_more [OF that] by (simp add: tables_def)
qed simp_all

lemma env_transition_tables: "tables (snd (env_transition h now i new actor s)) = tables s"
proof -
  have "keeps (\<lambda>t. tables t = tables s) (env_transition h now i new actor)"
  proof -
    have rec: "keeps (\<lambda>t. tables t = tables s) (audit_event h now rq)" for rq
      by (simp add: keeps_def audit_event_tables)
    show ?thesis
      unfolding env_transition_def update_env_def by (intro keeps_intros rec) (simp add: tables_def)
  qed
  then show ?thesis by (rule keeps_snd) simp
qed

text \<open>What discarding does after the transition.\<close>

definition discard_rest :: "v1_host \<Rightarrow> string \<Rightarrow> string \<Rightarrow> string \<Rightarrow> string option \<Rightarrow> ('x environ_scheme, unit) sop" where
  "discard_rest h now i actor scope_id =
     bindS (modifyS (tombstone_created i)) (\<lambda>_.
       case scope_id of None \<Rightarrow> returnS ()
       | Some x \<Rightarrow> if x = [] then returnS () else bindS (archive_scope h now x actor) (\<lambda>_. returnS ()))"

lemma env_discard_cases:
  assumes "env_transition h now i Discarded actor s = (Inr e, t)" "find_env i (ev_rows s) = Some prev"
  shows "env_discard h now i actor s = (case discard_rest h now i actor (en_scope e) t of
      (Inl err, u) \<Rightarrow> (Inl err, u\<lparr>ev_rows := set_env i (\<lambda>x. x\<lparr>en_state := en_state prev\<rparr>) (ev_rows u)\<rparr>)
    | (Inr _, u) \<Rightarrow> (Inr e, u))"
  using assms unfolding discard_rest_def [symmetric]
  by (simp add: env_discard_def bindS_reads reads_env get_env_or_raise_cases bindS_Inr flip: discard_rest_def)
    (auto simp: bindS_def [of "on_error m f" for m f] on_error_def update_env_def split: prod.splits sum.splits)

lemma discard_rest_env_db: "discard_rest h now i actor x t = (r, u) \<Longrightarrow> env_db u = env_db t"
proof -
  assume run: "discard_rest h now i actor x t = (r, u)"
  have "keeps (\<lambda>s. env_db s = env_db t) (discard_rest h now i actor x)"
    unfolding discard_rest_def by (intro keeps_intros env_fixed.keeps_archive_scope) simp_all
  from keepsD [OF this refl run] show ?thesis .
qed

text \<open>
  Discarding takes everything down: when it returns, the environment was completed or promoted
  and its owner the caller, it is discarded and no other environment changed, exactly the objects
  created in it are archived, and its scope, with every membership and projection in it, is archived.
\<close>

theorem discard_takes_down:
  assumes "env_discard h now i actor s = (Inr e, s')"
  shows "\<exists>prev. find_env i (ev_rows s) = Some prev \<and> en_owner prev = actor \<and> en_state prev \<in> {Completed, Promoted} \<and>
    e = prev\<lparr>en_state := Discarded\<rparr> \<and> ev_rows s' = set_env i (\<lambda>x. x\<lparr>en_state := Discarded\<rparr>) (ev_rows s) \<and>
    tn_objects s' = map (\<lambda>b. if ob_id b \<in> set (created_object_ids i (ev_objects s)) then b\<lparr>ob_lifecycle := Archived\<rparr> else b)
      (tn_objects s) \<and>
    (\<forall>x. en_scope prev = Some x \<and> x \<noteq> [] \<longrightarrow>
      (\<forall>m \<in> set (tn_members s'). mb_scope m = x \<longrightarrow> mb_lifecycle m \<noteq> Active) \<and>
      (\<forall>p \<in> set (tn_projections s'). pj_scope p = x \<longrightarrow> pj_lifecycle p \<noteq> Active) \<and>
      (\<forall>r \<in> set (tn_scopes s'). sr_id r = x \<longrightarrow> sr_lifecycle r = ''ARCHIVED''))"
proof -
  from assms obtain prev0 e0 t where find: "find_env i (ev_rows s) = Some prev0"
    and tr: "env_transition h now i Discarded actor s = (Inr e0, t)"
    by (auto simp: env_discard_def bindS_reads reads_env get_env_or_raise_cases bindS_Inr_iff split: option.splits)
  from env_transition_Inr [OF tr] find have prev: "en_owner prev0 = actor" "Discarded \<in> set (valid_transitions (en_state prev0))"
    "e0 = prev0\<lparr>en_state := Discarded\<rparr>" "env_db t = (set_env i (\<lambda>x. x\<lparr>en_state := Discarded\<rparr>) (ev_rows s), ev_objects s)"
    by auto
  from assms env_discard_cases [OF tr find] obtain u where rest: "discard_rest h now i actor (en_scope e0) t = (Inr u, s')"
    and e: "e = e0" by (auto split: prod.splits sum.splits)
  have objs: "tn_objects t = tn_objects s" using env_transition_tables [of h now i Discarded actor s] tr by (simp add: tables_def)
  have "env_db s' = env_db t" using discard_rest_env_db [OF rest] .
  then have rows: "ev_rows s' = set_env i (\<lambda>x. x\<lparr>en_state := Discarded\<rparr>) (ev_rows s)" using prev(4) by (simp add: env_db_def)
  have kept: "keeps (\<lambda>w. tn_objects w = tn_objects (tombstone_created i t))
      (bindS (archive_scope h now x actor) (\<lambda>_. returnS ()))" for x
    by (intro keeps_intros objects_fixed.keeps_archive_scope)
  have "tn_objects s' = tn_objects (tombstone_created i t)"
  proof (cases "\<exists>x. en_scope e0 = Some x \<and> x \<noteq> []")
    case True
    then obtain x where "en_scope e0 = Some x" "x \<noteq> []" by blast
    with rest have "bindS (archive_scope h now x actor) (\<lambda>_. returnS ()) (tombstone_created i t) = (Inr u, s')"
      by (simp add: discard_rest_def)
    from keepsD [OF kept refl this] show ?thesis .
  next
    case False
    with rest show ?thesis by (auto simp: discard_rest_def split: option.splits)
  qed
  moreover have "ev_objects t = ev_objects s" using prev(4) by (simp add: env_db_def)
  moreover have "(\<forall>m \<in> set (tn_members s'). mb_scope m = x \<longrightarrow> mb_lifecycle m \<noteq> Active) \<and>
      (\<forall>p \<in> set (tn_projections s'). pj_scope p = x \<longrightarrow> pj_lifecycle p \<noteq> Active) \<and>
      (\<forall>r \<in> set (tn_scopes s'). sr_id r = x \<longrightarrow> sr_lifecycle r = ''ARCHIVED'')"
    if "en_scope prev0 = Some x" "x \<noteq> []" for x
  proof -
    from that prev(3) rest obtain sc where "archive_scope h now x actor (tombstone_created i t) = (Inr sc, s')"
      by (auto simp: discard_rest_def bindS_Inr_iff)
    then show ?thesis by (rule archived_scope_rows)
  qed
  moreover have "en_state prev0 \<in> {Completed, Promoted}" using prev(2) by (cases "en_state prev0") auto
  ultimately show ?thesis using find prev(1,3) e rows objs tombstone_objects [of i t] by auto
qed

theorem discard_takes_down_witness:
  "\<exists>e. fst discarded1 = Inr e \<and> en_owner e = ''ann'' \<and> map ob_lifecycle (tn_objects (snd discarded1)) = [Archived]"
proof -
  have "is_ok (fst discarded1)" by code_simp
  then obtain e where fst: "fst discarded1 = Inr e" by (auto simp: is_ok_iff)
  then have e: "env_discard v1_host0 ''2024-01-10'' ''t0'' ''ann'' (snd completed1) = (Inr e, snd discarded1)"
    by (simp add: prod_eq_iff flip: discarded1_def)
  from discard_takes_down [OF e] obtain prev where "en_owner prev = ''ann''" "e = prev\<lparr>en_state := Discarded\<rparr>" by blast
  then have "en_owner e = ''ann''" by simp
  then show ?thesis by (intro exI [of _ e] conjI fst discarded1_objects)
qed

lemma set_env_undo:
  assumes "distinct (map en_id es)" "find_env i es = Some e"
  shows "set_env i (\<lambda>x. x\<lparr>en_state := en_state e\<rparr>) (set_env i (\<lambda>x. x\<lparr>en_state := new\<rparr>) es) = es"
proof -
  have "set_env i (\<lambda>x. x\<lparr>en_state := en_state e\<rparr>) (set_env i (\<lambda>x. x\<lparr>en_state := new\<rparr>) es)
      = set_env i (\<lambda>x. x\<lparr>en_state := en_state e\<rparr>) es"
    by (auto simp: sql_update_where_def)
  also have "\<dots> = es" by (simp add: set_env_one(1) [OF assms] map_idI)
  finally show ?thesis .
qed

lemma archived_scope_frozen:
  "get_scope x s = (Inr (Some sc), s) \<Longrightarrow> sc_lifecycle sc = Archived \<Longrightarrow> archive_scope h now x actor s = (Inl ScopeFrozen, s)"
  by (simp add: archive_scope_def get_scope_or_raise_def bindS_Inr is_archived_def)

text \<open>
  A discard that fails leaves its traces: when the scope of a completed environment was archived
  before, discarding raises \<open>ScopeFrozenError\<close>; the states of all environments are as they were, so
  that the same happens at every further attempt, but the objects created in the environment are
  archived, and the trail keeps the discard event.
\<close>

theorem failed_discard_archives:
  assumes "env_transition h now i Discarded actor s = (Inr e, t)" "find_env i (ev_rows s) = Some prev"
    and "distinct (map en_id (ev_rows s))"
    and "en_scope prev = Some x" "x \<noteq> []" "get_scope x s = (Inr (Some sc), s)" "sc_lifecycle sc = Archived"
  shows "\<exists>u. env_discard h now i actor s = (Inl ScopeFrozen, u) \<and> ev_rows u = ev_rows s \<and> w_trail u = w_trail t \<and>
    (\<forall>b \<in> set (tn_objects u). ob_id b \<in> set (created_object_ids i (ev_objects s)) \<longrightarrow> ob_lifecycle b = Archived)"
proof -
  let ?t = "tombstone_created i t"
  from env_transition_Inr [OF assms(1)] assms(2) have e: "en_scope e = Some x"
    and db: "env_db t = (set_env i (\<lambda>x. x\<lparr>en_state := Discarded\<rparr>) (ev_rows s), ev_objects s)"
    using assms(4) by auto
  have "tn_scopes t = tn_scopes s" using env_transition_tables [of h now i Discarded actor s] assms(1) by (simp add: tables_def)
  with assms(6) have "get_scope x ?t = (Inr (Some sc), ?t)"
    by (auto simp: get_scope_def tombstone_created_def split: option.splits)
  from archived_scope_frozen [OF this assms(7)] have "discard_rest h now i actor (en_scope e) t = (Inl ScopeFrozen, ?t)"
    using e assms(5) by (simp add: discard_rest_def bindS_Inl)
  with env_discard_cases [OF assms(1,2)] have "env_discard h now i actor s =
      (Inl ScopeFrozen, ?t\<lparr>ev_rows := set_env i (\<lambda>x. x\<lparr>en_state := en_state prev\<rparr>) (ev_rows ?t)\<rparr>)" by simp
  moreover have "ev_rows ?t = set_env i (\<lambda>x. x\<lparr>en_state := Discarded\<rparr>) (ev_rows s)"
    using db tombstone_env_db [of i t] by (simp add: env_db_def)
  moreover have "ev_objects t = ev_objects s" using db by (simp add: env_db_def)
  then have "\<forall>b \<in> set (tn_objects ?t). ob_id b \<in> set (created_object_ids i (ev_objects s)) \<longrightarrow> ob_lifecycle b = Archived"
    by (auto simp: tombstone_objects)
  moreover have "w_trail ?t = w_trail t" by (simp add: tombstone_created_def)
  ultimately show ?thesis by (simp add: set_env_undo [OF assms(3,2)])
qed

definition cleared1 :: flowing where
  "cleared1 = snd (archive_scope v1_host0 ''2024-01-09'' ''t1'' ''ann''
     (snd (env_complete v1_host0 ''2024-01-09'' ''t0'' ''ann'' (snd added1))))"

theorem failed_discard_archives_witness:
  "\<exists>u. env_discard v1_host0 ''2024-01-10'' ''t0'' ''ann'' cleared1 = (Inl ScopeFrozen, u) \<and> ev_rows u = ev_rows cleared1"
proof -
  let ?move = "env_transition v1_host0 ''2024-01-10'' ''t0'' Discarded ''ann'' cleared1"
  have "is_ok (fst ?move)" by code_simp
  then obtain e where e: "?move = (Inr e, snd ?move)" by (metis is_ok_iff prod.collapse)
  have "(case find_env ''t0'' (ev_rows cleared1) of Some e \<Rightarrow> en_scope e = Some ''t1'' | None \<Rightarrow> False)" by code_simp
  then obtain prev where prev: "find_env ''t0'' (ev_rows cleared1) = Some prev" "en_scope prev = Some ''t1''"
    by (auto split: option.splits)
  have "(case fst (get_scope ''t1'' cleared1) of Inr (Some sc) \<Rightarrow> sc_lifecycle sc = Archived | _ \<Rightarrow> False)" by code_simp
  then obtain sc where sc: "fst (get_scope ''t1'' cleared1) = Inr (Some sc)" "sc_lifecycle sc = Archived"
    by (auto split: sum.splits option.splits)
  moreover have "snd (get_scope ''t1'' cleared1) = cleared1" using reads_get_scope unfolding reads_def by blast
  ultimately have scope: "get_scope ''t1'' cleared1 = (Inr (Some sc), cleared1)" by (simp add: prod_eq_iff)
  have "distinct (map en_id (ev_rows cleared1))" by code_simp
  from failed_discard_archives [OF e prev(1) this prev(2) _ scope sc(2)] show ?thesis by auto
qed

section \<open>Flows and promotions\<close>

text \<open>The active channels from one point to another.\<close>

definition routes :: "flow_point \<Rightarrow> string \<Rightarrow> flow_point \<Rightarrow> string \<Rightarrow> 'x flowing_scheme \<Rightarrow> flow_channel list" where
  "routes a b c d s = filter (channel_matches (Some a) (Some b) (Some c) (Some d) True) (fw_channels s)"

lemma can_flow_returns: "can_flow a b c d ty s =
    (Inr (find (type_permitted ty) (sql_limit (Some 100) 0 (sql_order True ch_created (routes a b c d s)))), s)"
  by (simp add: can_flow_def list_channels_def routes_def)

text \<open>
  A flow is permitted only by a channel: \<open>can_flow\<close> always answers, changes nothing, and
  answers with an active channel between exactly these two points that admits the object's type,
  when the type was given; and if there are at most 100 active channels between the points, it
  refuses only when none of them admits it.
\<close>

theorem flows_need_channels:
  "\<exists>r. can_flow a b c d ty s = (Inr r, s) \<and>
    (\<forall>ch. r = Some ch \<longrightarrow> ch \<in> set (fw_channels s) \<and> ch_lifecycle ch = Active \<and> ch_source_type ch = a \<and> ch_source ch = b
      \<and> ch_target_type ch = c \<and> ch_target ch = d \<and> (\<forall>t. ty = Some t \<longrightarrow> allows_type ch t)) \<and>
    (length (routes a b c d s) \<le> 100 \<longrightarrow> (r = None \<longleftrightarrow> \<not> (\<exists>ch \<in> set (routes a b c d s). type_permitted ty ch)))"
proof -
  let ?cs = "sql_limit (Some 100) 0 (sql_order True ch_created (routes a b c d s))"
  let ?r = "find (type_permitted ty) ?cs"
  have sound: "\<forall>ch. ?r = Some ch \<longrightarrow> ch \<in> set (fw_channels s) \<and> ch_lifecycle ch = Active \<and> ch_source_type ch = a
      \<and> ch_source ch = b \<and> ch_target_type ch = c \<and> ch_target ch = d \<and> (\<forall>t. ty = Some t \<longrightarrow> allows_type ch t)"
  proof (intro allI impI)
    fix ch
    assume "?r = Some ch"
    then have "ch \<in> set ?cs" "type_permitted ty ch" by (auto dest: find_SomeD)
    moreover have "set ?cs \<subseteq> set (routes a b c d s)"
      using sql_limit_subset [of "Some 100" 0 "sql_order True ch_created (routes a b c d s)"] by simp
    ultimately show "ch \<in> set (fw_channels s) \<and> ch_lifecycle ch = Active \<and> ch_source_type ch = a \<and> ch_source ch = b
        \<and> ch_target_type ch = c \<and> ch_target ch = d \<and> (\<forall>t. ty = Some t \<longrightarrow> allows_type ch t)"
      by (auto simp: routes_def channel_matches_def given_def type_permitted_def)
  qed
  have exact: "length (routes a b c d s) \<le> 100 \<longrightarrow> (?r = None \<longleftrightarrow> \<not> (\<exists>ch \<in> set (routes a b c d s). type_permitted ty ch))"
  proof
    assume few: "length (routes a b c d s) \<le> 100"
    have "length (sql_order True ch_created (routes a b c d s)) = length (routes a b c d s)" by (simp add: sql_order_def)
    with few have "?cs = sql_order True ch_created (routes a b c d s)" by (simp add: sql_limit_def)
    then show "?r = None \<longleftrightarrow> \<not> (\<exists>ch \<in> set (routes a b c d s). type_permitted ty ch)"
      by (simp only: find_None_iff) auto
  qed
  show ?thesis by (intro exI [of _ ?r] conjI can_flow_returns sound exact)
qed

definition channel1 :: "(v1_error + flow_channel) \<times> flowing" where
  "channel1 = create_channel v1_host0 ''2024-01-09'' ''out'' EnvironmentPoint ''t0'' ScopePoint ''t1'' ''ann'' [''Report''] (snd added1)"

theorem flows_need_channels_witness:
  "(\<exists>ch. fst (can_flow EnvironmentPoint ''t0'' ScopePoint ''t1'' (Some ''Report'') (snd channel1)) = Inr (Some ch)
    \<and> ch_source ch = ''t0'') \<and>
   fst (can_flow EnvironmentPoint ''t0'' ScopePoint ''t1'' (Some ''Document'') (snd channel1)) = Inr None"
proof
  let ?f = "can_flow EnvironmentPoint ''t0'' ScopePoint ''t1'' (Some ''Report'') (snd channel1)"
  have "(case fst ?f of Inr (Some ch) \<Rightarrow> True | _ \<Rightarrow> False)" by code_simp
  then obtain ch where ch: "fst ?f = Inr (Some ch)" by (auto split: sum.splits option.splits)
  from flows_need_channels [of EnvironmentPoint "''t0''" ScopePoint "''t1''" "Some ''Report''" "snd channel1"] ch
  have "ch_source ch = ''t0''" by auto
  with ch show "\<exists>ch. fst ?f = Inr (Some ch) \<and> ch_source ch = ''t0''" by blast
  have "(case fst (can_flow EnvironmentPoint ''t0'' ScopePoint ''t1'' (Some ''Document'') (snd channel1)) of Inr None \<Rightarrow> True | _ \<Rightarrow> False)"
    by code_simp
  then show "fst (can_flow EnvironmentPoint ''t0'' ScopePoint ''t1'' (Some ''Document'') (snd channel1)) = Inr None"
    by (auto split: sum.splits option.splits)
qed

lemma audit_event_projections: "audit_event h now rq s = (r, s') \<Longrightarrow> tn_projections s' = tn_projections s \<and> tn_objects s' = tn_objects s"
  using audit_event_tables [of h now rq s] by (simp add: tables_def)

lemma project_Inr:
  assumes "project h now x obj actor access s = (Inr p, s')"
  shows "map_of (owners s) obj = Some actor \<and> list_ex (active_projection x obj) (tn_projections s')"
proof -
  let ?old = "find (same_projection x obj) (tn_projections s)"
  have guard: "project_guard x obj actor s = Inr ()"
    using assms by (cases "project_guard x obj actor s") (auto simp: project_def bindS_def)
  then have owner: "map_of (owners s) obj = Some actor"
    by (auto simp: project_guard_def bindE_Inr_iff map_of_owners split: option.splits if_splits)
  show ?thesis
  proof (cases "\<exists>q. ?old = Some q \<and> pj_lifecycle q = Active")
    case True
    with assms guard have "s' = s" by (auto simp: project_def bindS_def [of "\<lambda>s. (project_guard x obj actor s, s)"])
    with True owner show ?thesis by (auto simp: list_ex_iff active_projection_def same_projection_def dest!: find_SomeD)
  next
    case False
    with assms guard obtain q t where w: "write_projection h now x obj actor access ?old s = (Inr q, t)"
      and proj: "tn_projections s' = tn_projections t"
      by (auto simp: project_def bindS_def [of "\<lambda>s. (project_guard x obj actor s, s)"] bindS_Inr_iff
          split: option.splits if_splits dest: audit_event_projections)
    have "list_ex (active_projection x obj) (tn_projections t)"
    proof (cases ?old)
      case None
      with w show ?thesis
        by (auto simp: write_projection_def bindS_Inr_iff insert_projection_def new_projection_def active_projection_def
            split: if_splits)
    next
      case (Some r)
      then have "r \<in> set (tn_projections s)" "same_projection x obj r" by (auto dest: find_SomeD)
      with w Some show ?thesis
        by (auto simp: write_projection_def update_projections_def sql_update_where_def list_ex_iff active_projection_def
            same_projection_def intro!: rev_bexI)
    qed
    with owner proj show ?thesis by simp
  qed
qed

lemma require_that_bind: "bindS (require_that e P) f s = (if P s then f () s else (Inl e, s))"
  by (simp add: require_that_def bindS_def)

text \<open>What a promotion that returned has checked and done.\<close>

lemma promote_object_Inr:
  assumes "promote_object h now ticks enforced projects obj env sid actor stg ty access s = (Inr p, s')"
  shows "pm_object p = obj \<and> pm_env p = env \<and> pm_scope p = sid \<and> pm_by p = actor \<and> fw_promotions s' = fw_promotions s @ [p] \<and>
    env \<in> en_id ` set (ev_rows s) \<and> sid \<in> sr_id ` set (tn_scopes s) \<and> obj \<in> ob_id ` set (tn_objects s) \<and>
    (enforced \<longrightarrow> (\<exists>ch \<in> set (routes EnvironmentPoint env ScopePoint sid s). type_permitted ty ch)) \<and>
    (projects \<longrightarrow> map_of (owners s) obj = Some actor \<and> list_ex (active_projection sid obj) (tn_projections s'))"
proof -
  let ?q = "\<lambda>otype. \<lparr>aq_action = ''promotion'', aq_principal = Some actor, aq_kind = None, aq_type = otype,
    aq_object = Some obj, aq_scope = Some sid, aq_env = Some env\<rparr>"
  have chk: "fst (check_promotion obj env sid stg s) = Inr u \<Longrightarrow>
      env \<in> en_id ` set (ev_rows s) \<and> sid \<in> sr_id ` set (tn_scopes s) \<and> obj \<in> ob_id ` set (tn_objects s)" for u
    by (auto simp: check_promotion_def require_that_bind list_ex_iff split: if_splits)
  have chan: "fst (check_channel enforced env sid ty s) = Inr u \<Longrightarrow>
      enforced \<longrightarrow> (\<exists>ch \<in> set (routes EnvironmentPoint env ScopePoint sid s). type_permitted ty ch)" for u
    using sql_limit_subset [of "Some 100" 0 "sql_order True ch_created (routes EnvironmentPoint env ScopePoint sid s)"]
    by (auto simp: check_channel_def bindS_reads [OF reads_flow_checks(5)] can_flow_returns find_None_iff split: if_splits)
  from assms obtain u1 u2 otype u3 t where checks: "fst (check_promotion obj env sid stg s) = Inr u1"
    "fst (check_channel enforced env sid ty s) = Inr u2" "fst (promotion_type obj ty s) = Inr otype"
    and rules: "check_rules h now ticks (?q otype) PromotionDenied s = (Inr u3, t)"
    and rest: "bindS (if projects then bindS (project h now sid obj actor access) (\<lambda>_. returnS ()) else returnS ()) (\<lambda>_.
      bindS (fresh_id h) (\<lambda>pid.
      let p = \<lparr>pm_id = pid, pm_object = obj, pm_env = env, pm_scope = sid, pm_at = now, pm_by = actor, pm_stage = stg\<rparr>
      in bindS (insert_promotion h p) (\<lambda>_. bindS (audit_event h now (flow_request actor ''promotion'' ''promotion'' pid (Some sid) None
          (Some (promotion_snapshot p)))) (\<lambda>_. returnS p)))) t = (Inr p, s')"
    by (auto simp: promote_object_def bindS_reads [OF reads_flow_checks(6)] bindS_reads [OF reads_flow_checks(7)]
        bindS_reads [OF reads_flow_checks(8)] bindS_Inr_iff [of "check_rules a b c d e" for a b c d e] split: sum.splits)
  have t: "flow_db t = flow_db s" "fw_promotions t = fw_promotions s"
    using keepsD [OF flow_fixed.inv_check refl rules] keepsD [OF promotions_fixed.inv_check refl rules] by simp_all
  from rest obtain v where shared: "(if projects then bindS (project h now sid obj actor access) (\<lambda>_. returnS ()) else returnS ()) t = (Inr (), v)"
    and rest: "bindS (fresh_id h) (\<lambda>pid.
      let p = \<lparr>pm_id = pid, pm_object = obj, pm_env = env, pm_scope = sid, pm_at = now, pm_by = actor, pm_stage = stg\<rparr>
      in bindS (insert_promotion h p) (\<lambda>_. bindS (audit_event h now (flow_request actor ''promotion'' ''promotion'' pid (Some sid) None
          (Some (promotion_snapshot p)))) (\<lambda>_. returnS p))) v = (Inr p, s')"
    by (auto simp: bindS_Inr_iff [of "if projects then a else b" for a b])
  have "keeps (\<lambda>s. fw_promotions s = fw_promotions t) (if projects then bindS (project h now sid obj actor access) (\<lambda>_. returnS ()) else returnS ())"
    by (intro keeps_intros promotions_fixed.keeps_project)
  from keepsD [OF this refl shared] have v: "fw_promotions v = fw_promotions s" using t(2) by simp
  have same: "fw_promotions w = fw_promotions w' \<and> tn_projections w = tn_projections w'"
    if "audit_event h now rq w' = (r, w)" for rq r w w'
    using audit_event_more [of h now rq w'] that promotions_more audit_event_projections by (metis snd_conv)
  from rest obtain pid where p: "p = \<lparr>pm_id = pid, pm_object = obj, pm_env = env, pm_scope = sid, pm_at = now, pm_by = actor, pm_stage = stg\<rparr>"
    and s': "fw_promotions s' = fw_promotions v @ [p] \<and> tn_projections s' = tn_projections v"
    by (auto simp: bindS_Inr_iff fresh_id_def insert_promotion_def Let_def split: if_splits dest!: same)
  have "map_of (owners s) obj = Some actor \<and> list_ex (active_projection sid obj) (tn_projections s')" if projects
    using shared that t(1) s' by (auto simp: bindS_Inr_iff flow_db_def dest!: project_Inr)
  with chk [OF checks(1)] chan [OF checks(2)] p s' v show ?thesis by auto
qed
text \<open>
  A promotion that returns was permitted and took effect: environment, scope and object exist; with
  a flow engine there is an active channel from the environment to the scope that admits the type
  the caller named; with projections the caller owns the object and it is actively projected into
  the scope; and one promotion is recorded. Without a named type every active channel suffices,
  whatever types it admits.
\<close>

theorem promotion_permitted:
  assumes "promote_object h now ticks enforced projects obj env sid actor stg ty access s = (Inr p, s')"
  shows "pm_object p = obj \<and> pm_env p = env \<and> pm_scope p = sid \<and> pm_by p = actor \<and> fw_promotions s' = fw_promotions s @ [p] \<and>
    env \<in> en_id ` set (ev_rows s) \<and> sid \<in> sr_id ` set (tn_scopes s) \<and> obj \<in> ob_id ` set (tn_objects s) \<and>
    (enforced \<longrightarrow> (\<exists>ch \<in> set (routes EnvironmentPoint env ScopePoint sid s). \<forall>t. ty = Some t \<longrightarrow> allows_type ch t)) \<and>
    (projects \<longrightarrow> map_of (owners s) obj = Some actor \<and> list_ex (active_projection sid obj) (tn_projections s'))"
proof -
  have "type_permitted ty = (\<lambda>ch. \<forall>t. ty = Some t \<longrightarrow> allows_type ch t)"
    by (auto simp: type_permitted_def split: option.splits)
  with promote_object_Inr [OF assms] show ?thesis by simp
qed

text \<open>The channel admits reports only, yet the document passes when its type is not named.\<close>

definition promoted1 :: "(v1_error + promotion) \<times> flowing" where
  "promoted1 = promote_object v1_host0 ''2024-01-10'' clock0 True True ''doc1'' ''t0'' ''t1'' ''ann'' None None ReadAccess (snd channel1)"

theorem promotion_permitted_witness:
  "list_ex (active_projection ''t1'' ''doc1'') (tn_projections (snd promoted1)) \<and>
   (case find (\<lambda>c. ch_target c = ''t1'') (fw_channels (snd channel1)) of None \<Rightarrow> False | Some ch \<Rightarrow> \<not> allows_type ch ''Document'')"
proof
  have "is_ok (fst promoted1)" by code_simp
  then obtain p where "fst promoted1 = Inr p" by (auto simp: is_ok_iff)
  then have "promote_object v1_host0 ''2024-01-10'' clock0 True True ''doc1'' ''t0'' ''t1'' ''ann'' None None ReadAccess (snd channel1)
      = (Inr p, snd promoted1)"
    by (simp add: prod_eq_iff flip: promoted1_def)
  from promotion_permitted [OF this] show "list_ex (active_projection ''t1'' ''doc1'') (tn_projections (snd promoted1))" by simp
  show "case find (\<lambda>c. ch_target c = ''t1'') (fw_channels (snd channel1)) of None \<Rightarrow> False | Some ch \<Rightarrow> \<not> allows_type ch ''Document''"
    by code_simp
qed

text \<open>Promotions keep what is already shared.\<close>

lemma keeps_shared: "keeps (\<lambda>s. list_ex (active_projection x obj) (tn_projections s))
    (promote_object h now ticks enforced projects obj' env sid actor stg ty access)"
proof -
  let ?I = "\<lambda>s. list_ex (active_projection x obj) (tn_projections s)"
  have rec: "keeps ?I (audit_event h now rq)" "keeps ?I (fresh_id h)" for rq
    by (auto simp: keeps_def fresh_id_def intro: audit_event_projections [THEN conjunct1, THEN arg_cong, THEN iffD2, rotated])
      (metis audit_event_projections prod.collapse)
  have "list_ex (active_projection x obj) (sql_update_where (same_projection sid obj')
      (\<lambda>p. p\<lparr>pj_lifecycle := Active, pj_access := access, pj_at := now, pj_by := actor\<rparr>) ps)"
    if "list_ex (active_projection x obj) ps" for ps
    using that by (induction ps) (auto simp: sql_update_where_def active_projection_def)
  moreover have "keeps ?I (insert_projection h q)" for q by (auto simp: keeps_def insert_projection_def)
  ultimately have "keeps ?I (project h now sid obj' actor access)"
    unfolding project_def write_projection_def update_projections_def
    by (intro keeps_bind keeps_option keeps_if keeps_modify keeps_basic rec) (auto simp: keeps_def)
  moreover have "keeps ?I (insert_promotion h p)" for p by (auto simp: keeps_def insert_promotion_def)
  moreover have "keeps ?I (check_rules h now ticks q denial)" for q denial
    by (rule keeps_engine) (simp add: engine_put_def)
  ultimately show ?thesis
    unfolding promote_object_def
    by (intro keeps_intros rec)
qed

lemma promote_all_Inr:
  assumes "mapS (\<lambda>j. promote_object h now ticks enforced True j i sid actor stg None access) js s = (Inr ps, t)"
  shows "map pm_object ps = js \<and> fw_promotions t = fw_promotions s @ ps \<and>
    (\<forall>j \<in> set js. list_ex (active_projection sid j) (tn_projections t))"
  using assms
proof (induction js arbitrary: s ps)
  case (Cons j js)
  let ?op = "\<lambda>j. promote_object h now ticks enforced True j i sid actor stg None access"
  from Cons.prems obtain p u qs where first: "?op j s = (Inr p, u)" and rest: "mapS ?op js u = (Inr qs, t)" and ps: "ps = p # qs"
    by (auto simp: bindS_Inr_iff)
  have "keeps (\<lambda>s. list_ex (active_projection sid j) (tn_projections s)) (mapS ?op js)"
    by (intro keeps_map keeps_shared)
  from keepsD [OF this _ rest] promote_object_Inr [OF first] Cons.IH [OF rest] ps show ?case by simp
qed simp

text \<open>
  Promoting an environment that is not completed shares its objects all the same: with projections
  the objects created in it are projected into the target scope and their promotions recorded
  before \<open>promote\<close> finds the transition refused and raises \<open>EnvironmentStateError\<close>; nothing is taken
  back.
\<close>

theorem early_promotion_shares:
  assumes "find_env i (ev_rows s) = Some e" "en_owner e = actor" "en_state e \<noteq> Completed"
    and "mapS (\<lambda>j. promote_object h now ticks enforced True j i sid actor stg None
      (case access of None \<Rightarrow> ReadAccess | Some a \<Rightarrow> a)) (created_object_ids i (ev_objects s)) s = (Inr ps, t)"
  shows "env_promote h now ticks True enforced True i actor (Some sid) stg access s = (Inl EnvironmentStateInvalid, t) \<and>
    fw_promotions t = fw_promotions s @ ps \<and> map pm_object ps = created_object_ids i (ev_objects s) \<and>
    (\<forall>j \<in> set (created_object_ids i (ev_objects s)). list_ex (active_projection sid j) (tn_projections t))"
proof -
  let ?op = "\<lambda>j. promote_object h now ticks enforced True j i sid actor stg None (case access of None \<Rightarrow> ReadAccess | Some a \<Rightarrow> a)"
  have "keeps (\<lambda>u. env_db u = env_db s) (mapS ?op (created_object_ids i (ev_objects s)))"
  proof (intro keeps_map)
    fix j
    have "keeps (\<lambda>u. env_db u = env_db s) (insert_promotion h p)" for p
      by (auto simp: keeps_def insert_promotion_def)
    then show "keeps (\<lambda>u. env_db u = env_db s) (?op j)"
      unfolding promote_object_def by (intro keeps_intros env_fixed.keeps_project)
  qed
  from keepsD [OF this refl assms(4)] have rows: "ev_rows t = ev_rows s" by (simp add: env_db_def)
  have "Promoted \<notin> set (valid_transitions (en_state e))" using assms(3) by (cases "en_state e") auto
  with assms(1,2) rows have "env_transition h now i Promoted actor t = (Inl EnvironmentStateInvalid, t)"
    by (simp add: env_transition_def bindS_reads reads_env get_env_or_raise_cases require_env_owner_def can_transition_to_def)
  with assms have "env_promote h now ticks True enforced True i actor (Some sid) stg access s = (Inl EnvironmentStateInvalid, t)"
    by (simp add: env_promote_def bindS_reads reads_env get_env_or_raise_cases require_env_owner_def get_created_object_ids_def
        bindS_def [of "bindS f g" for f g] bindS_Inr)
  with promote_all_Inr [OF assms(4)] show ?thesis by simp
qed

definition early1 :: "(v1_error + promotion list) \<times> flowing" where
  "early1 = mapS (\<lambda>j. promote_object v1_host0 ''2024-01-10'' clock0 False True j ''t0'' ''t1'' ''ann'' None None
     (case None of None \<Rightarrow> ReadAccess | Some a \<Rightarrow> a)) (created_object_ids ''t0'' (ev_objects (snd added1))) (snd added1)"

theorem early_promotion_shares_witness:
  "fst (env_promote v1_host0 ''2024-01-10'' clock0 True False True ''t0'' ''ann'' (Some ''t1'') None None (snd added1))
      = Inl EnvironmentStateInvalid \<and>
   list_ex (active_projection ''t1'' ''doc1'') (tn_projections (snd early1))"
proof -
  have "(case find_env ''t0'' (ev_rows (snd added1)) of None \<Rightarrow> False | Some e \<Rightarrow> en_owner e = ''ann'' \<and> en_state e \<noteq> Completed)"
    by code_simp
  then obtain e where e: "find_env ''t0'' (ev_rows (snd added1)) = Some e" "en_owner e = ''ann''" "en_state e \<noteq> Completed"
    by (auto split: option.splits)
  have "is_ok (fst early1)" by code_simp
  then obtain ps where "fst early1 = Inr ps" by (auto simp: is_ok_iff)
  then have "early1 = (Inr ps, snd early1)" by (simp add: prod_eq_iff)
  note shares = early_promotion_shares [OF e this [unfolded early1_def]]
  have "''doc1'' \<in> set (created_object_ids ''t0'' (ev_objects (snd added1)))" by code_simp
  with shares show ?thesis by (simp add: early1_def)
qed

end
