(* ===== verification/V1_Objects.thy ===== *)
theory V1_Objects
  imports V1_Guard V1_Rule_Checks
begin

text \<open>
  \<open>legacy/v1/scoped/objects\<close>: objects with their versions and tombstones (\<open>models.py\<close>), the
  difference of versions (\<open>versioning.py\<close>) and the manager that isolates principals from each
  other (\<open>isolation.py\<close>, \<open>manager.py\<close>); and \<open>_type_registry.py\<close>, which turns typed
  values into the dicts a version holds.

  A version row holds the text \<open>json.dumps(data, sort_keys=True)\<close>; the model holds the dict
  that \<open>json.loads\<close> reads from it. Classes, their adapters and \<open>detect_adapter\<close> are parameters,
  as are the checkers of quotas and rate limits, which read the state.
\<close>

section \<open>Text of data\<close>

text \<open>\<open>json.dumps\<close> with its default separators.\<close>

fun json_text :: "json \<Rightarrow> string"
  and json_text_items :: "json list \<Rightarrow> string"
  and json_text_members :: "(string \<times> json) list \<Rightarrow> string" where
  "json_text JNull = ''null''"
| "json_text (JBool b) = (if b then ''true'' else ''false'')"
| "json_text (JInt i) = show_int i"
| "json_text (JStr s) = quote_string s"
| "json_text (JArr xs) = CHR ''['' # json_text_items xs @ '']''"
| "json_text (JObj kvs) = CHR ''{'' # json_text_members kvs @ ''}''"
| "json_text_items [] = []"
| "json_text_items (x # xs) = json_text x @ (if xs = [] then [] else '', '' @ json_text_items xs)"
| "json_text_members [] = []"
| "json_text_members (kv # kvs) =
     quote_string (fst kv) @ '': '' @ json_text (snd kv) @
     (if kvs = [] then [] else '', '' @ json_text_members kvs)"

definition compute_checksum :: "v1_host \<Rightarrow> metadata \<Rightarrow> string" where
  "compute_checksum h data = v_hash h (json_text (json_canon (JObj data)))"

text \<open>The dict read back from its text with sorted keys.\<close>

definition canon_dict :: "metadata \<Rightarrow> metadata" where
  "canon_dict data = sort_key fst (json_canon_members data)"

section \<open>Typed data\<close>

record ('c, 'v) type_adapter =
  ad_serialize :: "'v \<Rightarrow> v1_error + metadata"
  ad_deserialize :: "'c \<Rightarrow> metadata \<Rightarrow> v1_error + 'v"

record ('c, 'v) type_registry =
  tg_types :: "string \<Rightarrow> 'c option"
  tg_adapters :: "string \<Rightarrow> ('c, 'v) type_adapter option"

definition empty_types :: "('c, 'v) type_registry" where
  "empty_types = \<lparr>tg_types = (\<lambda>_. None), tg_adapters = (\<lambda>_. None)\<rparr>"

definition register_type ::
  "('c \<Rightarrow> v1_error + ('c, 'v) type_adapter) \<Rightarrow> string \<Rightarrow> 'c \<Rightarrow> ('c, 'v) type_adapter option \<Rightarrow>
   ('c, 'v) type_registry \<Rightarrow> v1_error + ('c, 'v) type_registry" where
  "register_type detect_adapter object_type cls adapter g =
     bindE (case adapter of Some a \<Rightarrow> Inr a | None \<Rightarrow> detect_adapter cls) (\<lambda>a.
       Inr (g\<lparr>tg_types := (tg_types g)(object_type := Some cls),
              tg_adapters := (tg_adapters g)(object_type := Some a)\<rparr>))"

definition has_type :: "('c, 'v) type_registry \<Rightarrow> string \<Rightarrow> bool" where
  "has_type g object_type \<longleftrightarrow> tg_types g object_type \<noteq> None"

definition serialize :: "('c, 'v) type_registry \<Rightarrow> string \<Rightarrow> 'v \<Rightarrow> v1_error + metadata" where
  "serialize g object_type v =
     (case tg_adapters g object_type of None \<Rightarrow> Inl V1KeyError | Some a \<Rightarrow> ad_serialize a v)"

text \<open>A dict that is not deserialized is returned as it is (\<open>Inl\<close>).\<close>

definition deserialize :: "('c, 'v) type_registry \<Rightarrow> string \<Rightarrow> metadata \<Rightarrow> v1_error + (metadata + 'v)" where
  "deserialize g object_type data =
     (case (tg_types g object_type, tg_adapters g object_type) of
        (Some cls, Some a) \<Rightarrow> bindE (ad_deserialize a cls data) (\<lambda>v. Inr (Inr v))
      | _ \<Rightarrow> Inr (Inl data))"

section \<open>Models\<close>

text \<open>An object is its row, \<open>object_row\<close>.\<close>

definition object_active :: "object_row \<Rightarrow> bool" where
  "object_active b \<longleftrightarrow> ob_lifecycle b = Active"

definition is_tombstoned :: "object_row \<Rightarrow> bool" where
  "is_tombstoned b \<longleftrightarrow> ob_lifecycle b = Archived"

definition object_snapshot :: "object_row \<Rightarrow> json" where
  "object_snapshot b = JObj
     [(''id'', JStr (ob_id b)), (''object_type'', JStr (ob_type b)), (''owner_id'', JStr (ob_owner b)),
      (''current_version'', JInt (int (ob_version b))), (''created_at'', JStr (ob_created b)),
      (''lifecycle'', JStr (lifecycle_name (ob_lifecycle b))), (''registry_entry_id'', opt_str (ob_entry b))]"

record object_version =
  ov_id :: string
  ov_object :: string
  ov_number :: nat
  ov_data :: metadata
  ov_at :: string
  ov_by :: string
  ov_reason :: string
  ov_checksum :: string
  ov_type :: string

definition version_snapshot :: "object_version \<Rightarrow> json" where
  "version_snapshot v = JObj
     [(''id'', JStr (ov_id v)), (''object_id'', JStr (ov_object v)), (''version'', JInt (int (ov_number v))),
      (''data'', JObj (ov_data v)), (''created_at'', JStr (ov_at v)), (''created_by'', JStr (ov_by v)),
      (''change_reason'', JStr (ov_reason v)), (''checksum'', JStr (ov_checksum v))]"

definition typed_data :: "('c, 'v) type_registry \<Rightarrow> object_version \<Rightarrow> v1_error + (metadata + 'v)" where
  "typed_data g v =
     (if ov_type v = [] then Inr (Inl (ov_data v))
      else if \<not> has_type g (ov_type v) then Inr (Inl (ov_data v))
      else deserialize g (ov_type v) (ov_data v))"

record tombstone =
  tb_id :: string
  tb_object :: string
  tb_at :: string
  tb_by :: string
  tb_reason :: string

definition can_access :: "string \<Rightarrow> string \<Rightarrow> bool" where
  "can_access owner pid \<longleftrightarrow> owner = pid"

section \<open>Differences\<close>

text \<open>
  Python's equality: truth values are the integers 0 and 1, dicts do not care about the order of
  their keys.
\<close>

fun bool_as_int :: "json \<Rightarrow> json" where
  "bool_as_int (JBool b) = JInt (if b then 1 else 0)"
| "bool_as_int (JArr xs) = JArr (map bool_as_int xs)"
| "bool_as_int (JObj kvs) = JObj (map (\<lambda>(k, v). (k, bool_as_int v)) kvs)"
| "bool_as_int v = v"

definition py_eq :: "json \<Rightarrow> json \<Rightarrow> bool" where
  "py_eq a b \<longleftrightarrow> json_canon (bool_as_int a) = json_canon (bool_as_int b)"

record version_diff =
  df_added :: metadata
  df_removed :: metadata
  df_changed :: "(string \<times> json \<times> json) list"

text \<open>The set of all keys has no order; here the old ones come first.\<close>

fun diff_keys :: "metadata \<Rightarrow> metadata \<Rightarrow> string list \<Rightarrow> version_diff \<Rightarrow> version_diff" where
  "diff_keys old new [] d = d"
| "diff_keys old new (k # ks) d =
     diff_keys old new ks
       (case (map_of old k, map_of new k) of
          (None, Some w) \<Rightarrow> d\<lparr>df_added := df_added d @ [(k, w)]\<rparr>
        | (Some v, None) \<Rightarrow> d\<lparr>df_removed := df_removed d @ [(k, v)]\<rparr>
        | (Some v, Some w) \<Rightarrow> if \<not> py_eq v w then d\<lparr>df_changed := df_changed d @ [(k, v, w)]\<rparr> else d
        | (None, None) \<Rightarrow> d)"

definition diff_versions :: "object_version \<Rightarrow> object_version \<Rightarrow> version_diff" where
  "diff_versions old new =
     diff_keys (ov_data old) (ov_data new) (remdups (map fst (ov_data old) @ map fst (ov_data new)))
       \<lparr>df_added = [], df_removed = [], df_changed = []\<rparr>"

section \<open>The state\<close>

record object_store = guarded +
  os_versions :: "object_version list"
  os_tombstones :: "tombstone list"

text \<open>What the manager was constructed with; a checker answers \<open>None\<close> when nothing is exceeded.\<close>

record ('c, 'v, 's) object_services =
  sv_types :: "('c, 'v) type_registry"
  sv_quota :: "(string \<Rightarrow> string option \<Rightarrow> 's \<Rightarrow> v1_error + quota_result option) option"
  sv_limiter :: "(string \<Rightarrow> string \<Rightarrow> string option \<Rightarrow> 's \<Rightarrow> v1_error + rate_limit_result option) option"
  sv_visibility :: bool

text \<open>The limiter of \<open>V1_Rule_Checks\<close> on the shared trail, with the rules of the engine.\<close>

definition trail_limiter ::
  "(int \<Rightarrow> string) \<Rightarrow> rule list \<Rightarrow> string \<Rightarrow> string \<Rightarrow> string option \<Rightarrow> 'x object_store_scheme \<Rightarrow>
   v1_error + rate_limit_result option" where
  "trail_limiter cutoff rules action who scope_id s =
     rate_limit_check cutoff rules action (Some who) scope_id (w_trail s)"

text \<open>
  \<open>with backend.transaction()\<close>: an exception discards the writes. The identifiers that were drawn
  stay drawn.
\<close>

definition txnS :: "('x v1_state_scheme, 'a) sop \<Rightarrow> ('x v1_state_scheme, 'a) sop" where
  "txnS m s =
     (case m s of
        (Inr x, t) \<Rightarrow> (Inr x, t)
      | (Inl e, t) \<Rightarrow> (Inl e, s\<lparr>w_next := w_next t\<rparr>))"

section \<open>Rows\<close>

definition insert_object :: "v1_host \<Rightarrow> object_row \<Rightarrow> ('x tenant_scheme, unit) sop" where
  "insert_object h b s =
     (if list_ex (\<lambda>x. ob_id x = ob_id b) (tn_objects s) then (Inl (v_violation h IdTaken), s)
      else if ob_owner b \<notin> set (tn_principals s) then (Inl (v_violation h ForeignKeyMissing), s)
      else (Inr (), s\<lparr>tn_objects := tn_objects s @ [b]\<rparr>))"

definition version_values :: "object_version \<Rightarrow> object_version" where
  "version_values v = v\<lparr>ov_data := canon_dict (ov_data v), ov_type := ''''\<rparr>"

definition insert_object_version :: "v1_host \<Rightarrow> object_version \<Rightarrow> ('x object_store_scheme, unit) sop" where
  "insert_object_version h v s =
     (if list_ex (\<lambda>x. ov_id x = ov_id v) (os_versions s) then (Inl (v_violation h IdTaken), s)
      else if list_ex (\<lambda>x. ov_object x = ov_object v \<and> ov_number x = ov_number v) (os_versions s)
      then (Inl (v_violation h KeyTaken), s)
      else if \<not> list_ex (\<lambda>b. ob_id b = ov_object v) (tn_objects s)
      then (Inl (v_violation h ForeignKeyMissing), s)
      else (Inr (), s\<lparr>os_versions := os_versions s @ [v]\<rparr>))"

definition insert_tombstone :: "v1_host \<Rightarrow> tombstone \<Rightarrow> ('x object_store_scheme, unit) sop" where
  "insert_tombstone h t s =
     (if list_ex (\<lambda>x. tb_id x = tb_id t) (os_tombstones s) then (Inl (v_violation h IdTaken), s)
      else if list_ex (\<lambda>x. tb_object x = tb_object t) (os_tombstones s) then (Inl (v_violation h KeyTaken), s)
      else if \<not> list_ex (\<lambda>b. ob_id b = tb_object t) (tn_objects s)
      then (Inl (v_violation h ForeignKeyMissing), s)
      else (Inr (), s\<lparr>os_tombstones := os_tombstones s @ [t]\<rparr>))"

definition update_object :: "string \<Rightarrow> (object_row \<Rightarrow> object_row) \<Rightarrow> ('x tenant_scheme, unit) sop" where
  "update_object object_id f =
     modifyS (\<lambda>s. s\<lparr>tn_objects := sql_update_where (\<lambda>b. ob_id b = object_id) f (tn_objects s)\<rparr>)"

definition load_object :: "string \<Rightarrow> ('x tenant_scheme, object_row option) sop" where
  "load_object object_id = getS (\<lambda>s. find (\<lambda>b. ob_id b = object_id) (tn_objects s))"

section \<open>Checks\<close>

definition check_object_rules ::
  "v1_host \<Rightarrow> string \<Rightarrow> (binding_target \<Rightarrow> int \<times> int) \<Rightarrow> string \<Rightarrow> string \<Rightarrow> string \<Rightarrow> string option \<Rightarrow>
   ('x guarded_scheme, unit) sop" where
  "check_object_rules h now ticks action pid object_type object_id =
     check_rules h now ticks
       \<lparr>aq_action = action, aq_principal = Some pid, aq_kind = None, aq_type = Some object_type,
        aq_object = object_id, aq_scope = None, aq_env = None\<rparr> AccessDenied"

datatype required_level = NeedsRead | NeedsWrite | NeedsAdmin

fun required_levels :: "required_level \<Rightarrow> access_level list" where
  "required_levels NeedsRead = [ReadAccess, WriteAccess, AdminAccess]"
| "required_levels NeedsWrite = [WriteAccess, AdminAccess]"
| "required_levels NeedsAdmin = [AdminAccess]"

definition check_access_level ::
  "bool \<Rightarrow> string \<Rightarrow> string \<Rightarrow> string \<Rightarrow> required_level \<Rightarrow> ('x tenant_scheme, unit) sop" where
  "check_access_level visibility now object_id pid required =
     (if \<not> visibility then returnS ()
      else bindS (load_object object_id) (\<lambda>row.
        case row of
          None \<Rightarrow> returnS ()
        | Some b \<Rightarrow>
            if can_access (ob_owner b) pid then returnS ()
            else bindS (getS (get_access_level now pid object_id)) (\<lambda>level.
              case level of
                None \<Rightarrow> raiseS AccessDenied
              | Some l \<Rightarrow> if l \<in> set (required_levels required) then returnS () else raiseS AccessDenied)))"

definition dict_of :: "('c, 'v) type_registry \<Rightarrow> string \<Rightarrow> metadata + 'v \<Rightarrow> v1_error + metadata" where
  "dict_of g object_type data =
     (case data of
        Inl d \<Rightarrow> Inr d
      | Inr v \<Rightarrow> if has_type g object_type then serialize g object_type v else Inl V1TypeError)"

definition check_rate ::
  "('c, 'v, 's) object_services \<Rightarrow> string \<Rightarrow> string \<Rightarrow> string option \<Rightarrow> ('s, unit) sop" where
  "check_rate sv action pid scope_id =
     (case sv_limiter sv of
        None \<Rightarrow> returnS ()
      | Some limiter \<Rightarrow>
          bindS (\<lambda>s. (limiter action pid scope_id s, s)) (\<lambda>res.
            if res \<noteq> None then raiseS RateLimitExceeded else returnS ()))"

definition check_quota :: "('c, 'v, 's) object_services \<Rightarrow> string \<Rightarrow> string option \<Rightarrow> ('s, unit) sop" where
  "check_quota sv object_type scope_id =
     (case sv_quota sv of
        None \<Rightarrow> returnS ()
      | Some checker \<Rightarrow>
          bindS (\<lambda>s. (checker object_type scope_id s, s)) (\<lambda>res.
            if res \<noteq> None then raiseS QuotaExceeded else returnS ()))"

section \<open>Creation\<close>

definition object_request ::
  "string \<Rightarrow> string \<Rightarrow> string \<Rightarrow> string \<Rightarrow> json option \<Rightarrow> json option \<Rightarrow> metadata \<Rightarrow> trace_request" where
  "object_request actor action object_type object_id before after meta =
     \<lparr>rq_actor = actor, rq_action = action, rq_ttype = object_type, rq_tid = object_id, rq_scope = None,
      rq_before = before, rq_after = after, rq_meta = meta, rq_parent = None\<rparr>"

definition create_request :: "string \<Rightarrow> object_row \<times> object_version \<Rightarrow> trace_request" where
  "create_request owner r = (case r of (b, v) \<Rightarrow>
     object_request owner ''create'' (ob_type b) (ob_id b) None (Some (JObj (ov_data v))) [(''after_version'', JInt 1)])"

definition new_object :: "string \<Rightarrow> string \<Rightarrow> string \<Rightarrow> string \<Rightarrow> string option \<Rightarrow> object_row" where
  "new_object now oid owner object_type entry =
     \<lparr>ob_id = oid, ob_owner = owner, ob_type = object_type, ob_lifecycle = Active, ob_version = 1,
      ob_created = now, ob_entry = entry\<rparr>"

definition new_version ::
  "v1_host \<Rightarrow> string \<Rightarrow> string \<Rightarrow> string \<Rightarrow> nat \<Rightarrow> metadata \<Rightarrow> string \<Rightarrow> string \<Rightarrow> string \<Rightarrow> object_version" where
  "new_version h now vid oid number data author reason object_type =
     \<lparr>ov_id = vid, ov_object = oid, ov_number = number, ov_data = data, ov_at = now, ov_by = author,
      ov_reason = reason, ov_checksum = compute_checksum h data, ov_type = object_type\<rparr>"

definition write_object ::
  "v1_host \<Rightarrow> object_row \<Rightarrow> object_version \<Rightarrow> ('x object_store_scheme, unit) sop" where
  "write_object h b v = bindS (insert_object h b) (\<lambda>_. insert_object_version h (version_values v))"

definition create ::
  "v1_host \<Rightarrow> ('c, 'v, 'x object_store_scheme) object_services \<Rightarrow> string \<Rightarrow> (binding_target \<Rightarrow> int \<times> int) \<Rightarrow>
   string \<Rightarrow> string \<Rightarrow> metadata + 'v \<Rightarrow> string option \<Rightarrow> string \<Rightarrow> string option \<Rightarrow>
   ('x object_store_scheme, object_row \<times> object_version) sop" where
  "create h sv now ticks object_type owner data entry reason scope_id =
     bindS (liftS (dict_of (sv_types sv) object_type data)) (\<lambda>dict.
     bindS (check_object_rules h now ticks ''create'' owner object_type None) (\<lambda>_.
     bindS (check_rate sv ''create'' owner scope_id) (\<lambda>_.
     bindS (fresh_id h) (\<lambda>oid.
     bindS (fresh_id h) (\<lambda>vid.
     let b = new_object now oid owner object_type entry;
         v = new_version h now vid oid 1 dict owner reason object_type
     in bindS (txnS (bindS (check_quota sv object_type scope_id) (\<lambda>_. write_object h b v))) (\<lambda>_.
        bindS (audit_event h now (create_request owner (b, v))) (\<lambda>_.
          returnS (b, v))))))))"

text \<open>An item of \<open>create_many\<close>: the two keys it must have are looked up.\<close>

record create_item =
  it_type :: "string option"
  it_data :: "metadata option"
  it_reason :: "string option"

definition required_key :: "'a option \<Rightarrow> ('s, 'a) sop" where
  "required_key x = (case x of None \<Rightarrow> raiseS V1KeyError | Some y \<Rightarrow> returnS y)"

definition create_one ::
  "v1_host \<Rightarrow> string \<Rightarrow> string \<Rightarrow> create_item \<Rightarrow> ('x object_store_scheme, object_row \<times> object_version) sop" where
  "create_one h now owner item =
     bindS (fresh_id h) (\<lambda>oid.
     bindS (fresh_id h) (\<lambda>vid.
     bindS (required_key (it_type item)) (\<lambda>object_type.
     bindS (required_key (it_data item)) (\<lambda>data.
     let b = new_object now oid owner object_type None;
         v = new_version h now vid oid 1 data owner (case it_reason item of None \<Rightarrow> ''created'' | Some r \<Rightarrow> r) ''''
     in bindS (write_object h b v) (\<lambda>_. returnS (b, v))))))"

definition create_many ::
  "v1_host \<Rightarrow> string \<Rightarrow> create_item list \<Rightarrow> string \<Rightarrow>
   ('x object_store_scheme, (object_row \<times> object_version) list) sop" where
  "create_many h now items owner =
     bindS (txnS (mapS (create_one h now owner) items)) (\<lambda>results.
     bindS (getS tn_audited) (\<lambda>audited.
     bindS (whenS audited (bindS (record_batch h (\<lambda>_. now) (\<lambda>_ rows. rows) (map (create_request owner) results))
       (\<lambda>_. returnS ()))) (\<lambda>_.
       returnS results)))"

section \<open>Reading\<close>

definition get ::
  "('c, 'v, 's) object_services \<Rightarrow> string \<Rightarrow> string \<Rightarrow> string \<Rightarrow> ('x tenant_scheme, object_row option) sop" where
  "get sv now object_id pid =
     bindS (load_object object_id) (\<lambda>row.
       case row of
         None \<Rightarrow> returnS None
       | Some b \<Rightarrow>
           if can_access (ob_owner b) pid then returnS (Some b)
           else bindS (getS (can_see now pid object_id)) (\<lambda>seen.
             returnS (if sv_visibility sv \<and> seen then Some b else None)))"

definition get_or_raise ::
  "('c, 'v, 's) object_services \<Rightarrow> string \<Rightarrow> string \<Rightarrow> string \<Rightarrow> ('x tenant_scheme, object_row) sop" where
  "get_or_raise sv now object_id pid =
     bindS (load_object object_id) (\<lambda>row.
       case row of
         None \<Rightarrow> raiseS AccessDenied
       | Some b \<Rightarrow>
           if can_access (ob_owner b) pid then returnS b
           else bindS (getS (can_see now pid object_id)) (\<lambda>seen.
             if sv_visibility sv \<and> seen then returnS b else raiseS AccessDenied))"

definition visibility_filter ::
  "('c, 'v, 's) object_services \<Rightarrow> string \<Rightarrow> string \<Rightarrow> string option \<Rightarrow> 'x tenant_scheme \<Rightarrow> object_row \<Rightarrow> bool" where
  "visibility_filter sv now pid object_type s b \<longleftrightarrow>
     given object_type (ob_type b) \<and>
     (if \<not> sv_visibility sv then ob_owner b = pid
      else ob_id b \<in> set (visible_object_ids now pid object_type 10000 s))"

definition listed ::
  "('c, 'v, 's) object_services \<Rightarrow> string \<Rightarrow> string \<Rightarrow> string option \<Rightarrow> bool \<Rightarrow> 'x tenant_scheme \<Rightarrow> object_row list" where
  "listed sv now pid object_type tombstoned s =
     filter (\<lambda>b. visibility_filter sv now pid object_type s b \<and> (tombstoned \<or> ob_lifecycle b \<noteq> Archived)) (tn_objects s)"

definition list_objects ::
  "('c, 'v, 's) object_services \<Rightarrow> string \<Rightarrow> string \<Rightarrow> string option \<Rightarrow> bool \<Rightarrow> string \<Rightarrow> nat \<Rightarrow> nat \<Rightarrow>
   ('x tenant_scheme, object_row list) sop" where
  "list_objects sv now pid object_type tombstoned order_by limit offset =
     getS (\<lambda>s.
       let sel = listed sv now pid object_type tombstoned s;
           col = order_column {''created_at'', ''object_type''} ''created_at'' order_by
       in sql_limit (Some limit) offset
            (if col = ''object_type'' then sql_order (order_desc order_by) ob_type sel
             else sql_order (order_desc order_by) ob_created sel))"

definition count_visible ::
  "('c, 'v, 's) object_services \<Rightarrow> string \<Rightarrow> string \<Rightarrow> string option \<Rightarrow> bool \<Rightarrow> ('x tenant_scheme, nat) sop" where
  "count_visible sv now pid object_type tombstoned = getS (\<lambda>s. length (listed sv now pid object_type tombstoned s))"

section \<open>Versions\<close>

definition get_version :: "string \<Rightarrow> nat \<Rightarrow> ('x object_store_scheme, object_version option) sop" where
  "get_version object_id n =
     getS (\<lambda>s.
       case find (\<lambda>v. ov_object v = object_id \<and> ov_number v = n) (os_versions s) of
         None \<Rightarrow> None
       | Some v \<Rightarrow>
           Some (v\<lparr>ov_type := (case find (\<lambda>b. ob_id b = object_id) (tn_objects s) of
                                 None \<Rightarrow> '''' | Some b \<Rightarrow> ob_type b)\<rparr>))"

definition get_current_version ::
  "('c, 'v, 's) object_services \<Rightarrow> string \<Rightarrow> string \<Rightarrow> string \<Rightarrow> ('x object_store_scheme, object_version option) sop" where
  "get_current_version sv now object_id pid =
     bindS (get sv now object_id pid) (\<lambda>row.
       case row of None \<Rightarrow> returnS None | Some b \<Rightarrow> get_version object_id (ob_version b))"

definition list_versions ::
  "('c, 'v, 's) object_services \<Rightarrow> string \<Rightarrow> string \<Rightarrow> string \<Rightarrow> nat option \<Rightarrow> nat \<Rightarrow>
   ('x object_store_scheme, object_version list) sop" where
  "list_versions sv now object_id pid limit offset =
     bindS (get sv now object_id pid) (\<lambda>row.
       case row of
         None \<Rightarrow> returnS []
       | Some b \<Rightarrow>
           getS (\<lambda>s. map (\<lambda>v. v\<lparr>ov_type := ob_type b\<rparr>) (sql_limit limit offset (sql_order False ov_number
             (filter (\<lambda>v. ov_object v = object_id) (os_versions s))))))"

definition diff ::
  "('c, 'v, 's) object_services \<Rightarrow> string \<Rightarrow> string \<Rightarrow> nat \<Rightarrow> nat \<Rightarrow> string \<Rightarrow>
   ('x object_store_scheme, version_diff option) sop" where
  "diff sv now object_id version_a version_b pid =
     bindS (get sv now object_id pid) (\<lambda>row.
       case row of
         None \<Rightarrow> returnS None
       | Some _ \<Rightarrow>
           bindS (get_version object_id version_a) (\<lambda>va.
           bindS (get_version object_id version_b) (\<lambda>vb.
             case (va, vb) of
               (Some a, Some b) \<Rightarrow> returnS (Some (diff_versions a b))
             | _ \<Rightarrow> returnS None)))"

section \<open>Update and soft deletion\<close>

definition write_update ::
  "v1_host \<Rightarrow> object_version \<Rightarrow> ('x object_store_scheme, unit) sop" where
  "write_update h v =
     bindS (insert_object_version h (version_values v)) (\<lambda>_. update_object (ov_object v) (\<lambda>b. b\<lparr>ob_version := ov_number v\<rparr>))"

definition update ::
  "v1_host \<Rightarrow> ('c, 'v, 'x object_store_scheme) object_services \<Rightarrow> string \<Rightarrow> (binding_target \<Rightarrow> int \<times> int) \<Rightarrow>
   string \<Rightarrow> string \<Rightarrow> metadata + 'v \<Rightarrow> string \<Rightarrow> ('x object_store_scheme, object_row \<times> object_version) sop" where
  "update h sv now ticks object_id pid data reason =
     bindS (get_or_raise sv now object_id pid) (\<lambda>b.
     bindS (check_access_level (sv_visibility sv) now object_id pid NeedsWrite) (\<lambda>_.
     bindS (liftS (dict_of (sv_types sv) (ob_type b) data)) (\<lambda>dict.
     bindS (check_object_rules h now ticks ''update'' pid (ob_type b) (Some object_id)) (\<lambda>_.
       if is_tombstoned b then raiseS IsolationViolation
       else
         bindS (get_version object_id (ob_version b)) (\<lambda>prev.
         bindS (fresh_id h) (\<lambda>vid.
         let n = ob_version b + 1;
             v = new_version h now vid object_id n dict pid reason (ob_type b)
         in bindS (txnS (write_update h v)) (\<lambda>_.
            bindS (audit_event h now (object_request pid ''update'' (ob_type b) object_id
              (map_option (JObj \<circ> ov_data) prev) (Some (JObj dict))
              [(''before_version'', JInt (int (ob_version b))), (''after_version'', JInt (int n))])) (\<lambda>_.
              returnS (b\<lparr>ob_version := n\<rparr>, v)))))))))"

definition write_tombstone :: "v1_host \<Rightarrow> tombstone \<Rightarrow> ('x object_store_scheme, unit) sop" where
  "write_tombstone h t =
     bindS (update_object (tb_object t) (\<lambda>b. b\<lparr>ob_lifecycle := Archived\<rparr>)) (\<lambda>_. insert_tombstone h t)"

definition tombstone_op ::
  "v1_host \<Rightarrow> ('c, 'v, 's) object_services \<Rightarrow> string \<Rightarrow> (binding_target \<Rightarrow> int \<times> int) \<Rightarrow>
   string \<Rightarrow> string \<Rightarrow> string \<Rightarrow> ('x object_store_scheme, tombstone) sop" where
  "tombstone_op h sv now ticks object_id pid reason =
     bindS (get_or_raise sv now object_id pid) (\<lambda>b.
     bindS (check_access_level (sv_visibility sv) now object_id pid NeedsAdmin) (\<lambda>_.
     bindS (check_object_rules h now ticks ''delete'' pid (ob_type b) (Some object_id)) (\<lambda>_.
       if is_tombstoned b then raiseS IsolationViolation
       else
         bindS (fresh_id h) (\<lambda>tid.
         bindS (get_version object_id (ob_version b)) (\<lambda>cur.
         let t = \<lparr>tb_id = tid, tb_object = object_id, tb_at = now, tb_by = pid, tb_reason = reason\<rparr>
         in bindS (txnS (write_tombstone h t)) (\<lambda>_.
            bindS (audit_event h now (object_request pid ''delete'' (ob_type b) object_id
              (map_option (JObj \<circ> ov_data) cur) None [(''before_version'', JInt (int (ob_version b)))])) (\<lambda>_.
              returnS t)))))))"

definition get_tombstone :: "string \<Rightarrow> ('x object_store_scheme, tombstone option) sop" where
  "get_tombstone object_id = getS (\<lambda>s. find (\<lambda>t. tb_object t = object_id) (os_tombstones s))"

end
