(* ===== verification/V1_Object_Transfer.thy ===== *)
theory V1_Object_Transfer
  imports V1_Objects
begin

text \<open>
  \<open>legacy/v1/scoped/objects/export.py\<close> and \<open>import_.py\<close>: packages of objects with their versions,
  their form as dicts, and the import that gives them new identifiers and a new owner.

  The values of a dict are read with their annotated types; a value of another type, which the code
  would pass on, is outside the model and read as \<open>V1TypeError\<close>. Streams are lists of lines;
  \<open>json.loads\<close> of a line is a parameter, \<open>None\<close> for a line that is no JSON. An import writes row by row,
  without a transaction.
\<close>

section \<open>Packages\<close>

definition format_version :: string where
  "format_version = ''1.0''"

record exported_version =
  xv_number :: nat
  xv_data :: metadata
  xv_at :: string
  xv_by :: string
  xv_reason :: string
  xv_checksum :: string

record exported_object =
  xo_id :: string
  xo_type :: string
  xo_owner :: string
  xo_created :: string
  xo_lifecycle :: string
  xo_versions :: "exported_version list"

record export_manifest =
  xm_format :: string
  xm_at :: string
  xm_by :: string
  xm_objects :: nat
  xm_versions :: nat

record export_package =
  xp_manifest :: export_manifest
  xp_objects :: "exported_object list"

definition version_to_dict :: "exported_version \<Rightarrow> json" where
  "version_to_dict v = JObj
     [(''version'', JInt (int (xv_number v))), (''data'', JObj (xv_data v)), (''created_at'', JStr (xv_at v)),
      (''created_by'', JStr (xv_by v)), (''change_reason'', JStr (xv_reason v)), (''checksum'', JStr (xv_checksum v))]"

definition object_to_dict :: "exported_object \<Rightarrow> json" where
  "object_to_dict b = JObj
     [(''id'', JStr (xo_id b)), (''object_type'', JStr (xo_type b)), (''owner_id'', JStr (xo_owner b)),
      (''created_at'', JStr (xo_created b)), (''lifecycle'', JStr (xo_lifecycle b)),
      (''versions'', JArr (map version_to_dict (xo_versions b)))]"

definition to_dict :: "export_package \<Rightarrow> json" where
  "to_dict p = JObj
     [(''manifest'', JObj
        [(''format_version'', JStr (xm_format (xp_manifest p))), (''exported_at'', JStr (xm_at (xp_manifest p))),
         (''exported_by'', JStr (xm_by (xp_manifest p))), (''object_count'', JInt (int (xm_objects (xp_manifest p)))),
         (''version_count'', JInt (int (xm_versions (xp_manifest p))))]),
      (''objects'', JArr (map object_to_dict (xp_objects p)))]"

definition to_json :: "export_package \<Rightarrow> string" where
  "to_json p = json_text (to_dict p)"

text \<open>Values of the annotated types.\<close>

fun as_text :: "json \<Rightarrow> v1_error + string" where
  "as_text (JStr s) = Inr s"
| "as_text _ = Inl V1TypeError"

fun as_count :: "json \<Rightarrow> v1_error + nat" where
  "as_count (JInt i) = (if i < 0 then Inl V1TypeError else Inr (nat i))"
| "as_count _ = Inl V1TypeError"

fun as_dict :: "json \<Rightarrow> v1_error + metadata" where
  "as_dict (JObj m) = Inr m"
| "as_dict _ = Inl V1TypeError"

fun as_list :: "json \<Rightarrow> v1_error + json list" where
  "as_list (JArr xs) = Inr xs"
| "as_list _ = Inl V1TypeError"

definition text_at :: "json \<Rightarrow> string \<Rightarrow> v1_error + string" where
  "text_at d key = bindE (json_item d key) as_text"

definition count_at :: "json \<Rightarrow> string \<Rightarrow> v1_error + nat" where
  "count_at d key = bindE (json_item d key) as_count"

definition version_from_dict :: "json \<Rightarrow> v1_error + exported_version" where
  "version_from_dict v =
     bindE (count_at v ''version'') (\<lambda>n.
     bindE (bindE (json_item v ''data'') as_dict) (\<lambda>d.
     bindE (text_at v ''created_at'') (\<lambda>at.
     bindE (text_at v ''created_by'') (\<lambda>by.
     bindE (text_at v ''change_reason'') (\<lambda>reason.
     bindE (text_at v ''checksum'') (\<lambda>checksum.
       Inr \<lparr>xv_number = n, xv_data = d, xv_at = at, xv_by = by, xv_reason = reason, xv_checksum = checksum\<rparr>))))))"

definition object_from_dict :: "json \<Rightarrow> v1_error + exported_object" where
  "object_from_dict b =
     bindE (text_at b ''id'') (\<lambda>i.
     bindE (text_at b ''object_type'') (\<lambda>ty.
     bindE (text_at b ''owner_id'') (\<lambda>owner.
     bindE (text_at b ''created_at'') (\<lambda>at.
     bindE (text_at b ''lifecycle'') (\<lambda>l.
     bindE (bindE (json_item b ''versions'') as_list) (\<lambda>vs.
     bindE (mapE version_from_dict vs) (\<lambda>versions.
       Inr \<lparr>xo_id = i, xo_type = ty, xo_owner = owner, xo_created = at, xo_lifecycle = l, xo_versions = versions\<rparr>)))))))"

definition from_dict :: "json \<Rightarrow> v1_error + export_package" where
  "from_dict data =
     bindE (json_item data ''manifest'') (\<lambda>m.
     bindE (text_at m ''format_version'') (\<lambda>f.
     bindE (text_at m ''exported_at'') (\<lambda>at.
     bindE (text_at m ''exported_by'') (\<lambda>by.
     bindE (count_at m ''object_count'') (\<lambda>oc.
     bindE (count_at m ''version_count'') (\<lambda>vc.
     bindE (bindE (json_item data ''objects'') as_list) (\<lambda>bs.
     bindE (mapE object_from_dict bs) (\<lambda>objects.
       Inr \<lparr>xp_manifest = \<lparr>xm_format = f, xm_at = at, xm_by = by, xm_objects = oc, xm_versions = vc\<rparr>,
            xp_objects = objects\<rparr>))))))))"

section \<open>The exporter\<close>

definition export_version :: "object_version \<Rightarrow> exported_version" where
  "export_version v =
     \<lparr>xv_number = ov_number v, xv_data = ov_data v, xv_at = ov_at v, xv_by = ov_by v, xv_reason = ov_reason v,
      xv_checksum = ov_checksum v\<rparr>"

text \<open>An object of the principal with its versions in order; others are skipped.\<close>

definition export_one :: "string \<Rightarrow> 'x object_store_scheme \<Rightarrow> string \<Rightarrow> exported_object option" where
  "export_one pid s oid =
     (case find (\<lambda>b. ob_id b = oid \<and> ob_owner b = pid) (tn_objects s) of
        None \<Rightarrow> None
      | Some b \<Rightarrow> Some
          \<lparr>xo_id = ob_id b, xo_type = ob_type b, xo_owner = ob_owner b, xo_created = ob_created b,
           xo_lifecycle = lifecycle_name (ob_lifecycle b),
           xo_versions = map export_version (sql_order False ov_number (filter (\<lambda>v. ov_object v = oid) (os_versions s)))\<rparr>)"

definition export_objects :: "string \<Rightarrow> string list \<Rightarrow> string \<Rightarrow> ('x object_store_scheme, export_package) sop" where
  "export_objects now oids pid =
     getS (\<lambda>s.
       let objects = List.map_filter (export_one pid s) oids
       in \<lparr>xp_manifest = \<lparr>xm_format = format_version, xm_at = now, xm_by = pid, xm_objects = length objects,
                           xm_versions = sum_list (map (length \<circ> xo_versions) objects)\<rparr>,
           xp_objects = objects\<rparr>)"

definition export_object :: "string \<Rightarrow> string \<Rightarrow> string \<Rightarrow> ('x object_store_scheme, export_package) sop" where
  "export_object now oid pid = export_objects now [oid] pid"

definition ids_of_type :: "string \<Rightarrow> string \<Rightarrow> 'x tenant_scheme \<Rightarrow> string list" where
  "ids_of_type object_type pid s = map ob_id (filter (\<lambda>b. ob_type b = object_type \<and> ob_owner b = pid) (tn_objects s))"

definition export_by_type :: "string \<Rightarrow> string \<Rightarrow> string \<Rightarrow> nat \<Rightarrow> ('x object_store_scheme, export_package) sop" where
  "export_by_type now object_type pid limit =
     bindS (getS (\<lambda>s. sql_limit (Some limit) 0 (ids_of_type object_type pid s))) (\<lambda>oids. export_objects now oids pid)"

text \<open>The stream: a manifest line, then one line per object.\<close>

definition manifest_line :: "string \<Rightarrow> string \<Rightarrow> string" where
  "manifest_line now pid = json_text (JObj
     [(''_type'', JStr ''manifest''), (''format_version'', JStr format_version), (''exported_at'', JStr now),
      (''exported_by'', JStr pid)])"

definition export_line :: "string \<Rightarrow> 'x object_store_scheme \<Rightarrow> string \<Rightarrow> string option" where
  "export_line pid s oid = map_option (json_text \<circ> object_to_dict) (export_one pid s oid)"

definition stream_export :: "string \<Rightarrow> string list \<Rightarrow> string \<Rightarrow> ('x object_store_scheme, string list) sop" where
  "stream_export now oids pid = getS (\<lambda>s. manifest_line now pid # List.map_filter (export_line pid s) oids)"

text \<open>The pages of identifiers, until one is empty.\<close>

function page_lines :: "string \<Rightarrow> nat \<Rightarrow> string list \<Rightarrow> 'x object_store_scheme \<Rightarrow> nat \<Rightarrow> string list" where
  "page_lines pid batch_size ids s offset =
     (let page = take batch_size (drop offset ids)
      in if page = [] \<or> batch_size = 0 then []
         else List.map_filter (export_line pid s) page @ page_lines pid batch_size ids s (offset + batch_size))"
  by pat_completeness auto
termination
  by (relation "measure (\<lambda>(_, _, ids, _, ofs). length ids - ofs)") (auto simp: Let_def)

definition stream_export_by_type ::
  "string \<Rightarrow> string \<Rightarrow> string \<Rightarrow> nat \<Rightarrow> ('x object_store_scheme, string list) sop" where
  "stream_export_by_type now object_type pid batch_size =
     getS (\<lambda>s. manifest_line now pid # page_lines pid batch_size (ids_of_type object_type pid s) s 0)"

section \<open>The importer\<close>

record import_result =
  ir_imported :: nat
  ir_skipped :: nat
  ir_versions :: nat
  ir_mapping :: "(string \<times> string) list"
  ir_errors :: "(string \<times> v1_error) list"

definition no_import :: import_result where
  "no_import = \<lparr>ir_imported = 0, ir_skipped = 0, ir_versions = 0, ir_mapping = [], ir_errors = []\<rparr>"

definition or_imported :: "string \<Rightarrow> string" where
  "or_imported reason = (if reason = [] then ''imported'' else reason)"

definition import_version ::
  "v1_host \<Rightarrow> string \<Rightarrow> string \<Rightarrow> string \<Rightarrow> bool \<Rightarrow> exported_version \<Rightarrow> ('x object_store_scheme, unit) sop" where
  "import_version h now pid new_id recompute v =
     bindS (fresh_id h) (\<lambda>vid.
       insert_object_version h
         \<lparr>ov_id = vid, ov_object = new_id, ov_number = xv_number v, ov_data = xv_data v, ov_at = now, ov_by = pid,
          ov_reason = or_imported (xv_reason v),
          ov_checksum = (if recompute then compute_checksum h (xv_data v) else xv_checksum v), ov_type = ''''\<rparr>)"

definition import_object ::
  "v1_host \<Rightarrow> string \<Rightarrow> string \<Rightarrow> bool \<Rightarrow> exported_object \<Rightarrow> ('x object_store_scheme, string) sop" where
  "import_object h now pid recompute b =
     bindS (fresh_id h) (\<lambda>new_id.
     bindS (insert_object h
       \<lparr>ob_id = new_id, ob_owner = pid, ob_type = xo_type b, ob_lifecycle = Active,
        ob_version = length (xo_versions b), ob_created = now, ob_entry = None\<rparr>) (\<lambda>_.
     bindS (mapS (import_version h now pid new_id recompute) (xo_versions b)) (\<lambda>_.
       returnS new_id)))"

text \<open>\<open>try: ... except Exception\<close>: the failure is an answer, in the state the operation left.\<close>

definition tryS :: "('s, 'a) sop \<Rightarrow> ('s, v1_error + 'a) sop" where
  "tryS m s = (case m s of (r, t) \<Rightarrow> (Inr r, t))"

definition set_key :: "string \<Rightarrow> 'b \<Rightarrow> (string \<times> 'b) list \<Rightarrow> (string \<times> 'b) list" where
  "set_key k v m = (if map_of m k = None then m @ [(k, v)] else map (\<lambda>(k', w). if k' = k then (k', v) else (k', w)) m)"

definition imported :: "exported_object \<Rightarrow> v1_error + string \<Rightarrow> import_result \<Rightarrow> import_result" where
  "imported b r res =
     (case r of
        Inr new_id \<Rightarrow> res\<lparr>ir_mapping := set_key (xo_id b) new_id (ir_mapping res), ir_imported := ir_imported res + 1,
                          ir_versions := ir_versions res + length (xo_versions b)\<rparr>
      | Inl e \<Rightarrow> res\<lparr>ir_errors := ir_errors res @ [(xo_id b, e)], ir_skipped := ir_skipped res + 1\<rparr>)"

definition filtered_out :: "string option \<Rightarrow> string \<Rightarrow> bool" where
  "filtered_out type_filter object_type \<longleftrightarrow>
     (case type_filter of None \<Rightarrow> False | Some ty \<Rightarrow> ty \<noteq> [] \<and> object_type \<noteq> ty)"

fun import_loop ::
  "v1_host \<Rightarrow> string \<Rightarrow> string \<Rightarrow> string option \<Rightarrow> bool \<Rightarrow> exported_object list \<Rightarrow> import_result \<Rightarrow>
   ('x object_store_scheme, import_result) sop" where
  "import_loop h now pid type_filter recompute [] res = returnS res"
| "import_loop h now pid type_filter recompute (b # bs) res =
     (if filtered_out type_filter (xo_type b)
      then import_loop h now pid type_filter recompute bs (res\<lparr>ir_skipped := ir_skipped res + 1\<rparr>)
      else bindS (tryS (import_object h now pid recompute b)) (\<lambda>r.
             import_loop h now pid type_filter recompute bs (imported b r res)))"

definition import_package ::
  "v1_host \<Rightarrow> string \<Rightarrow> export_package \<Rightarrow> string \<Rightarrow> string option \<Rightarrow> bool \<Rightarrow> ('x object_store_scheme, import_result) sop" where
  "import_package h now package pid type_filter recompute =
     import_loop h now pid type_filter recompute (xp_objects package) no_import"

definition import_from_dict ::
  "v1_host \<Rightarrow> string \<Rightarrow> json \<Rightarrow> string \<Rightarrow> string option \<Rightarrow> bool \<Rightarrow> ('x object_store_scheme, import_result) sop" where
  "import_from_dict h now data pid type_filter recompute =
     bindS (liftS (from_dict data)) (\<lambda>package. import_package h now package pid type_filter recompute)"

text \<open>A line of a stream: versions and their reasons may be missing.\<close>

definition parse_exported_version :: "json \<Rightarrow> v1_error + exported_version" where
  "parse_exported_version v =
     bindE (count_at v ''version'') (\<lambda>n.
     bindE (bindE (json_item v ''data'') as_dict) (\<lambda>d.
     bindE (text_at v ''created_at'') (\<lambda>at.
     bindE (text_at v ''created_by'') (\<lambda>by.
     bindE (bindE (json_get v ''change_reason'' (JStr '''')) as_text) (\<lambda>reason.
     bindE (text_at v ''checksum'') (\<lambda>checksum.
       Inr \<lparr>xv_number = n, xv_data = d, xv_at = at, xv_by = by, xv_reason = reason, xv_checksum = checksum\<rparr>))))))"

definition parse_exported_object :: "json \<Rightarrow> v1_error + exported_object" where
  "parse_exported_object b =
     bindE (text_at b ''id'') (\<lambda>i.
     bindE (text_at b ''object_type'') (\<lambda>ty.
     bindE (text_at b ''owner_id'') (\<lambda>owner.
     bindE (text_at b ''created_at'') (\<lambda>at.
     bindE (text_at b ''lifecycle'') (\<lambda>l.
     bindE (bindE (json_get b ''versions'' (JArr [])) as_list) (\<lambda>vs.
     bindE (mapE parse_exported_version vs) (\<lambda>versions.
       Inr \<lparr>xo_id = i, xo_type = ty, xo_owner = owner, xo_created = at, xo_lifecycle = l, xo_versions = versions\<rparr>)))))))"

definition unreadable :: "v1_error \<Rightarrow> string \<Rightarrow> import_result \<Rightarrow> import_result" where
  "unreadable e i res = res\<lparr>ir_errors := ir_errors res @ [(i, e)], ir_skipped := ir_skipped res + 1\<rparr>"

text \<open>\<open>data.get\<close> on a line that is no object raises.\<close>

fun stream_loop ::
  "v1_host \<Rightarrow> (string \<Rightarrow> json option) \<Rightarrow> string \<Rightarrow> string \<Rightarrow> string option \<Rightarrow> bool \<Rightarrow> string list \<Rightarrow> import_result \<Rightarrow>
   ('x object_store_scheme, import_result) sop" where
  "stream_loop h loads now pid type_filter recompute [] res = returnS res"
| "stream_loop h loads now pid type_filter recompute (raw # lines) res =
     (let rest = stream_loop h loads now pid type_filter recompute lines
      in if strip raw = [] then rest res
         else case loads (strip raw) of
                None \<Rightarrow> rest (unreadable V1ValueError '''' res)
              | Some data \<Rightarrow>
                  bindS (liftS (json_get data ''_type'' JNull)) (\<lambda>kind.
                    if kind = JStr ''manifest'' then rest res
                    else bindS (liftS (json_get data ''object_type'' JNull)) (\<lambda>ty.
                      if (case type_filter of None \<Rightarrow> False | Some f \<Rightarrow> f \<noteq> [] \<and> ty \<noteq> JStr f)
                      then rest (res\<lparr>ir_skipped := ir_skipped res + 1\<rparr>)
                      else case parse_exported_object data of
                             Inl e \<Rightarrow> rest (unreadable e
                               (case json_get data ''id'' (JStr ''?'') of Inr (JStr i) \<Rightarrow> i | _ \<Rightarrow> '''') res)
                           | Inr b \<Rightarrow>
                               bindS (tryS (import_object h now pid recompute b)) (\<lambda>r. rest (imported b r res)))))"

definition stream_import ::
  "v1_host \<Rightarrow> (string \<Rightarrow> json option) \<Rightarrow> string \<Rightarrow> string list \<Rightarrow> string \<Rightarrow> string option \<Rightarrow> bool \<Rightarrow>
   ('x object_store_scheme, import_result) sop" where
  "stream_import h loads now lines pid type_filter recompute = stream_loop h loads now pid type_filter recompute lines no_import"

end
