(* ===== verification/V1_Objects_Facts.thy ===== *)
theory V1_Objects_Facts
  imports V1_Objects V1_Guard_Facts
begin

text \<open>
  The manager of objects refines an abstract machine on objects, versions and tombstones with three
  moves: an object appears together with its first version, a live object gets the next version, a
  live object is tombstoned. What keeps an invariant across transactions, checks of rules, quotas
  and limits is proved once, in the locale of the invariants of the manager.
\<close>

section \<open>Transactions\<close>

text \<open>
  Inside a transaction only the writes that are committed matter: \<open>commits I m\<close> demands \<open>I\<close> after
  \<open>m\<close> returned.
\<close>

definition commits :: "('s \<Rightarrow> bool) \<Rightarrow> ('s, 'a) sop \<Rightarrow> bool" where
  "commits I m \<longleftrightarrow> (\<forall>s x t. I s \<longrightarrow> m s = (Inr x, t) \<longrightarrow> I t)"

named_theorems commits_intros \<open>what keeps an invariant when it returns\<close>

lemma commitsD: "commits I m \<Longrightarrow> I s \<Longrightarrow> m s = (Inr x, t) \<Longrightarrow> I t"
  unfolding commits_def by blast

lemma commits_keeps: "keeps I m \<Longrightarrow> commits I m"
  unfolding keeps_def commits_def by (metis snd_conv)

lemma commits_bind [commits_intros]: "commits I m \<Longrightarrow> (\<And>x. commits I (f x)) \<Longrightarrow> commits I (bindS m f)"
  unfolding commits_def by (blast dest: bindS_InrD)

lemma commits_map [commits_intros]:
  assumes "\<And>x. commits I (f x)"
  shows "commits I (mapS f xs)"
proof (induction xs)
  case Nil
  show ?case unfolding mapS.simps by (rule commits_keeps [OF keeps_basic(1)])
next
  case (Cons x xs)
  show ?case unfolding mapS.simps
    by (rule commits_bind [OF assms], rule commits_bind [OF Cons.IH]) (rule commits_keeps [OF keeps_basic(1)])
qed

lemma keeps_txn:
  assumes "commits I m" and "\<And>s n. I s \<Longrightarrow> I (s\<lparr>w_next := n\<rparr>)"
  shows "keeps I (txnS m)"
  unfolding keeps_def
  using assms by (auto simp: txnS_def commits_def split: prod.splits sum.splits)

lemma txn_state:
  assumes "I s" "\<And>x t. m s = (Inr x, t) \<Longrightarrow> I t" "\<And>s n. I s \<Longrightarrow> I (s\<lparr>w_next := n\<rparr>)"
  shows "I (snd (txnS m s))"
  using assms by (auto simp: txnS_def split: prod.splits sum.splits)

lemma txn_Inr: "txnS m s = (Inr x, t) \<longleftrightarrow> m s = (Inr x, t)"
  by (auto simp: txnS_def split: prod.splits sum.splits)

text \<open>Either the writes of a transaction are there or nothing but identifiers was used.\<close>

lemma txn_atomic: "snd (txnS m s) = s\<lparr>w_next := w_next (snd (txnS m s))\<rparr> \<or> (\<exists>x. m s = (Inr x, snd (txnS m s)))"
  by (auto simp: txnS_def split: prod.splits sum.splits)

section \<open>The abstract machine\<close>

type_synonym object_db = "object_row list \<times> object_version list \<times> tombstone list"

definition object_db :: "'x object_store_scheme \<Rightarrow> object_db" where
  "object_db s = (tn_objects s, os_versions s, os_tombstones s)"

abbreviation find_object :: "string \<Rightarrow> object_row list \<Rightarrow> object_row option" where
  "find_object i \<equiv> find (\<lambda>b. ob_id b = i)"

abbreviation set_object :: "string \<Rightarrow> (object_row \<Rightarrow> object_row) \<Rightarrow> object_row list \<Rightarrow> object_row list" where
  "set_object i f \<equiv> sql_update_where (\<lambda>b. ob_id b = i) f"

definition sealed :: "v1_host \<Rightarrow> object_version \<Rightarrow> bool" where
  "sealed h v \<longleftrightarrow> ov_checksum v = compute_checksum h (ov_data v)"

definition fits :: "object_version \<Rightarrow> object_version list \<Rightarrow> bool" where
  "fits v vs \<longleftrightarrow> (\<forall>x \<in> set vs. ov_id x \<noteq> ov_id v \<and> (ov_object x, ov_number x) \<noteq> (ov_object v, ov_number v))"

definition first_version :: "v1_host \<Rightarrow> object_row \<Rightarrow> object_version \<Rightarrow> bool" where
  "first_version h b v \<longleftrightarrow>
     ob_version b = 1 \<and> ob_lifecycle b = Active \<and> ov_object v = ob_id b \<and> ov_number v = 1 \<and> sealed h v"

definition follows_version :: "v1_host \<Rightarrow> object_row \<Rightarrow> object_version \<Rightarrow> bool" where
  "follows_version h b v \<longleftrightarrow>
     ob_lifecycle b \<noteq> Archived \<and> ov_object v = ob_id b \<and> ov_number v = Suc (ob_version b) \<and> sealed h v"

inductive object_change :: "v1_host \<Rightarrow> object_db \<Rightarrow> object_db \<Rightarrow> bool" for h where
  object_created: "\<forall>x \<in> set os. ob_id x \<noteq> ob_id b \<Longrightarrow> first_version h b v \<Longrightarrow> fits v vs \<Longrightarrow>
    object_change h (os, vs, ts) (os @ [b], vs @ [v], ts)"
| object_updated: "find_object i os = Some b \<Longrightarrow> follows_version h b v \<Longrightarrow> fits v vs \<Longrightarrow>
    object_change h (os, vs, ts) (set_object i (\<lambda>x. x\<lparr>ob_version := ov_number v\<rparr>) os, vs @ [v], ts)"
| object_tombstoned: "find_object (tb_object t) os = Some b \<Longrightarrow> ob_lifecycle b \<noteq> Archived \<Longrightarrow>
    \<forall>x \<in> set ts. tb_object x \<noteq> tb_object t \<Longrightarrow>
    object_change h (os, vs, ts) (set_object (tb_object t) (\<lambda>x. x\<lparr>ob_lifecycle := Archived\<rparr>) os, vs, ts @ [t])"

abbreviation object_run :: "v1_host \<Rightarrow> object_db \<Rightarrow> object_db \<Rightarrow> bool" where
  "object_run h \<equiv> (object_change h)\<^sup>*\<^sup>*"

definition objects_from :: "v1_host \<Rightarrow> object_db \<Rightarrow> 'x object_store_scheme \<Rightarrow> bool" where
  "objects_from h x s \<longleftrightarrow> object_run h x (object_db s)"

lemma object_db_more: "v1_state.more s = v1_state.more t \<Longrightarrow> object_db s = object_db t"
  by (cases s, cases t) (simp add: object_db_def)

lemma objects_from_step: "objects_from h x s \<Longrightarrow> object_change h (object_db s) (object_db t) \<Longrightarrow> objects_from h x t"
  unfolding objects_from_def by (rule rtranclp.rtrancl_into_rtrancl)

section \<open>What leaves the tables of the service alone\<close>

lemma object_db_guarded [simp]:
  fixes s :: "'x object_store_scheme"
  shows "object_db (tn_members_update f1 s) = object_db s" "object_db (tn_scopes_update f2 s) = object_db s"
    "object_db (tn_projections_update f3 s) = object_db s" "object_db (engine_put e s) = object_db s"
    "object_db (w_next_update f4 s) = object_db s"
  by (simp_all add: object_db_def engine_put_def)

interpretation objects_fixed: guarded_invariant h "\<lambda>s. object_db s = c" for h c
  by (rule guarded_of_column [of object_db]) (rule object_db_more, simp_all)

lemma record_batch_more: "v1_state.more (snd (record_batch h clock env rqs s)) = v1_state.more s"
proof -
  have "v1_state.more (snd (batch_loop h clock env rqs ks s)) = v1_state.more s" for ks
  proof (induction ks arbitrary: s)
    case (Cons k ks)
    then show ?case by (simp add: Let_def reseed_more split: sum.splits)
  qed simp
  then show ?thesis by (simp add: record_batch_def)
qed

section \<open>Reading and checking\<close>

lemma reads_objects [reads_intros]:
  "reads (load_object i1)" "reads (get sv now i2 p2)" "reads (get_or_raise sv now i3 p3)"
  "reads (check_access_level vis now i4 p4 lvl)" "reads (get_version i5 n)" "reads (get_tombstone i6)"
  "reads (required_key x)"
  unfolding load_object_def get_def get_or_raise_def check_access_level_def get_version_def get_tombstone_def
    required_key_def
  by (intro reads_intros; fail)+

lemma reads_checkers [reads_intros]:
  "reads (check_rate sv act p sid)" "reads (check_quota sv ty sid2)"
proof -
  have rate: "reads (\<lambda>s. (f s, s))" for f :: "_ \<Rightarrow> v1_error + rate_limit_result option" by (simp add: reads_def)
  show "reads (check_rate sv act p sid)"
    unfolding check_rate_def by (intro reads_intros rate)
  have quota: "reads (\<lambda>s. (f s, s))" for f :: "_ \<Rightarrow> v1_error + quota_result option" by (simp add: reads_def)
  show "reads (check_quota sv ty sid2)"
    unfolding check_quota_def by (intro reads_intros quota)
qed

lemmas keeps_object_reads [keeps_intros] = reads_objects [THEN keeps_reads] reads_checkers [THEN keeps_reads]

lemma get_or_raise_Inr: "fst (get_or_raise sv now i p s) = Inr b \<longleftrightarrow>
    find_object i (tn_objects s) = Some b \<and> (ob_owner b = p \<or> sv_visibility sv \<and> can_see now p i s)"
  by (auto simp: get_or_raise_def load_object_def can_access_def split: option.splits)

lemma check_access_Inr: "fst (check_access_level vis now i p lvl s) = Inr u \<longleftrightarrow>
    (vis \<longrightarrow> (\<forall>b. find_object i (tn_objects s) = Some b \<longrightarrow>
      ob_owner b = p \<or> (\<exists>l \<in> set (required_levels lvl). get_access_level now p i s = Some l)))"
  by (auto simp: check_access_level_def load_object_def can_access_def split: option.splits)

section \<open>Writes\<close>

lemma stored_version [simp]:
  "ov_id (version_values v) = ov_id v" "ov_object (version_values v) = ov_object v"
  "ov_number (version_values v) = ov_number v"
  by (simp_all add: version_values_def)

lemma write_object_Inr: "write_object h b v s = (Inr u, t) \<longleftrightarrow>
    (\<forall>x \<in> set (tn_objects s). ob_id x \<noteq> ob_id b) \<and> ob_owner b \<in> set (tn_principals s) \<and> fits v (os_versions s) \<and>
    (ov_object v = ob_id b \<or> (\<exists>x \<in> set (tn_objects s). ob_id x = ov_object v)) \<and>
    t = s\<lparr>tn_objects := tn_objects s @ [b], os_versions := os_versions s @ [version_values v]\<rparr>"
  by (auto simp: write_object_def bindS_Inr_iff insert_object_def insert_object_version_def list_ex_iff fits_def
      split: if_splits)

lemma write_update_Inr: "write_update h v s = (Inr u, t) \<longleftrightarrow>
    fits v (os_versions s) \<and> (\<exists>x \<in> set (tn_objects s). ob_id x = ov_object v) \<and>
    t = s\<lparr>tn_objects := set_object (ov_object v) (\<lambda>b. b\<lparr>ob_version := ov_number v\<rparr>) (tn_objects s),
          os_versions := os_versions s @ [version_values v]\<rparr>"
  by (auto simp: write_update_def bindS_Inr_iff insert_object_version_def update_object_def list_ex_iff fits_def
      split: if_splits)

lemma write_tombstone_Inr: "write_tombstone h d s = (Inr u, t) \<longleftrightarrow>
    (\<forall>x \<in> set (os_tombstones s). tb_id x \<noteq> tb_id d \<and> tb_object x \<noteq> tb_object d) \<and>
    (\<exists>x \<in> set (tn_objects s). ob_id x = tb_object d) \<and>
    t = s\<lparr>tn_objects := set_object (tb_object d) (\<lambda>b. b\<lparr>ob_lifecycle := Archived\<rparr>) (tn_objects s),
          os_tombstones := os_tombstones s @ [d]\<rparr>"
proof -
  have ids: "list_ex (\<lambda>b. ob_id b = j) (set_object i (\<lambda>b. b\<lparr>ob_lifecycle := Archived\<rparr>) os) \<longleftrightarrow>
      (\<exists>b \<in> set os. ob_id b = j)" for i j os
    by (induction os) (auto simp: sql_update_where_def)
  show ?thesis
    by (simp add: write_tombstone_def update_object_def insert_tombstone_def ids) (auto simp: list_ex_iff)
qed

text \<open>The data a version row holds is in canonical order, which the checksum does not see.\<close>

lemma json_canon_idem:
  "json_canon (json_canon j) = json_canon j"
  "json_canon_items (json_canon_items xs) = json_canon_items xs"
  "json_canon_members (json_canon_members kvs) = json_canon_members kvs"
proof (induction j and xs and kvs rule: json_canon_json_canon_items_json_canon_members.induct)
  case (6 kvs)
  let ?g = "\<lambda>kv :: string \<times> json. (fst kv, json_canon (snd kv))"
  have "sort_key fst (map ?g (sort_key fst (map ?g kvs))) = map ?g (sort_key fst (map ?g kvs))"
    using sort_key_map_same [of fst ?g "sort_key fst (map ?g kvs)"] by (simp add: sort_key_sorted)
  also have "\<dots> = sort_key fst (map ?g (map ?g kvs))"
    using sort_key_map_same [of fst ?g "map ?g kvs"] by simp
  also have "map ?g (map ?g kvs) = map ?g kvs" using 6 by (simp add: json_canon_members_map)
  finally show ?case by (simp add: json_canon_members_map)
qed auto

lemma canon_dict_canon: "JObj (canon_dict d) = json_canon (JObj d)"
  by (simp add: canon_dict_def)

lemma sealed_values [simp]: "sealed h (version_values v) = sealed h v"
  by (simp add: sealed_def version_values_def compute_checksum_def canon_dict_canon json_canon_idem del: json_canon.simps)

section \<open>Invariants of the service\<close>

locale object_invariant = guarded_invariant h I
  for h :: v1_host and I :: "'x object_store_scheme \<Rightarrow> bool" +
  assumes inv_next: "I s \<Longrightarrow> I (s\<lparr>w_next := n\<rparr>)"
    and inv_batch: "keeps I (record_batch h (\<lambda>_. now) (\<lambda>_ rows. rows) rqs)"
    and inv_created: "I s \<Longrightarrow> first_version h b v \<Longrightarrow> write_object h b v s = (Inr u, t) \<Longrightarrow> I t"
    and inv_updated: "I s \<Longrightarrow> find_object (ov_object v) (tn_objects s) = Some b \<Longrightarrow> follows_version h b v \<Longrightarrow>
        write_update h v s = (Inr u, t) \<Longrightarrow> I t"
    and inv_tombstoned: "I s \<Longrightarrow> find_object (tb_object d) (tn_objects s) = Some b \<Longrightarrow> ob_lifecycle b \<noteq> Archived \<Longrightarrow>
        write_tombstone h d s = (Inr u, t) \<Longrightarrow> I t"
begin

lemma first_new: "first_version h (new_object now oid owner ty entry) (new_version h now vid oid 1 data by reason ty2)"
  by (simp add: first_version_def new_object_def new_version_def sealed_def)

lemma commits_created: "commits I (write_object h (new_object now oid owner ty entry) (new_version h now vid oid 1 data by reason ty2))"
  unfolding commits_def using inv_created [OF _ first_new] by blast

lemma keeps_object_rules: "keeps I (check_object_rules h now ticks act p ty oid)"
  unfolding check_object_rules_def by (rule inv_check)

lemma keeps_create: "keeps I (create h sv now ticks ty owner data entry reason sid)"
  unfolding create_def Let_def
  by (intro keeps_intros keeps_object_rules inv_fresh inv_record keeps_txn inv_next commits_bind commits_created
      commits_keeps)

lemma keeps_create_many: "keeps I (create_many h now items owner)"
proof -
  have "commits I (create_one h now owner item)" for item
    unfolding create_one_def Let_def
    by (intro commits_bind commits_keeps [OF inv_fresh] commits_created commits_keeps [OF keeps_basic(1)]
        commits_keeps [OF keeps_reads [OF reads_objects(7)]])
  then show ?thesis
    unfolding create_many_def by (intro keeps_intros inv_batch keeps_txn inv_next commits_map)
qed

text \<open>A write after a check of rules and a fresh identifier happens in a state whose tables are still the same.\<close>

lemma rules_then:
  assumes "I s" and k: "\<And>t. I t \<Longrightarrow> object_db t = object_db s \<Longrightarrow> \<not> refused \<Longrightarrow> I (snd (k t))"
  shows "I (snd (bindS (check_object_rules h now ticks act p ty oid) (\<lambda>_. if refused then raiseS err else k) s))"
proof (rule keeps_under [where J = "\<lambda>t. object_db t = object_db s" and I = I, OF keeps_object_rules _ assms(1) refl])
  show "keeps (\<lambda>t. object_db t = object_db s) (check_object_rules h now ticks act p ty oid)"
    unfolding check_object_rules_def by (rule objects_fixed.inv_check)
qed (use k in simp)

lemma fresh_then:
  assumes "I t" and k: "\<And>i v. I v \<Longrightarrow> object_db v = object_db t \<Longrightarrow> I (snd (k i v))"
  shows "I (snd (bindS (fresh_id h) k t))"
  by (rule keeps_under [where J = "\<lambda>v. object_db v = object_db t" and I = I,
        OF inv_fresh objects_fixed.inv_fresh assms(1) refl]) (rule k)

lemma write_then:
  assumes "I v" "\<And>u w. m v = (Inr u, w) \<Longrightarrow> I w" "\<And>x. keeps I (n x)"
  shows "I (snd (bindS (txnS m) n v))"
  by (rule keeps_after [where I = I], rule txn_state) (use assms inv_next in auto)

lemma find_object_db: "object_db t = object_db s \<Longrightarrow> find_object i (tn_objects t) = find_object i (tn_objects s)"
  by (simp add: object_db_def)

lemma keeps_update: "keeps I (update h sv now ticks i p data reason)"
  unfolding keeps_def
proof (intro allI impI)
  fix s :: "'x object_store_scheme"
  assume s: "I s"
  note reading = bindS_reads [OF reads_objects(3)] bindS_reads [OF reads_objects(4)]
  show "I (snd (update h sv now ticks i p data reason s))"
  proof (cases "fst (get_or_raise sv now i p s)")
    case (Inr b)
    then have b: "find_object i (tn_objects s) = Some b" "ob_id b = i" by (auto simp: get_or_raise_Inr dest: find_SomeD)
    have next_v: "ob_lifecycle b \<noteq> Archived \<Longrightarrow> follows_version h b (new_version h now vid i (ob_version b + 1) d p reason ty)"
      for vid d ty using b by (simp add: follows_version_def new_version_def sealed_def)
    have "I (snd (bindS (check_object_rules h now ticks ''update'' p (ob_type b) (Some i)) (\<lambda>_.
        if is_tombstoned b then raiseS IsolationViolation
        else bindS (get_version i (ob_version b)) (\<lambda>prev. bindS (fresh_id h) (\<lambda>vid.
          bindS (txnS (write_update h (new_version h now vid i (ob_version b + 1) d p reason (ob_type b)))) (\<lambda>_.
          bindS (audit_event h now (rq prev)) (\<lambda>_. returnS (r vid)))))) s))" for d rq r
    proof (rule rules_then [OF s])
      fix t assume t: "I t" "object_db t = object_db s" and "\<not> is_tombstoned b"
      then have live: "ob_lifecycle b \<noteq> Archived" by (simp add: is_tombstoned_def)
      show "I (snd (bindS (get_version i (ob_version b)) (\<lambda>prev. bindS (fresh_id h) (\<lambda>vid.
          bindS (txnS (write_update h (new_version h now vid i (ob_version b + 1) d p reason (ob_type b)))) (\<lambda>_.
          bindS (audit_event h now (rq prev)) (\<lambda>_. returnS (r vid))))) t))"
      proof (rule keeps_under [where J = "\<lambda>v. object_db v = object_db t" and I = I,
            OF keeps_reads [OF reads_objects(5)] keeps_reads [OF reads_objects(5)] t(1) refl])
        fix prev v assume v: "I v" "object_db v = object_db t"
        show "I (snd (bindS (fresh_id h) (\<lambda>vid.
            bindS (txnS (write_update h (new_version h now vid i (ob_version b + 1) d p reason (ob_type b)))) (\<lambda>_.
            bindS (audit_event h now (rq prev)) (\<lambda>_. returnS (r vid)))) v))"
        proof (rule fresh_then [OF v(1)], rule write_then)
          fix vid w u w' assume w: "I w" "object_db w = object_db v"
            "write_update h (new_version h now vid i (ob_version b + 1) d p reason (ob_type b)) w = (Inr u, w')"
          then have "find_object i (tn_objects w) = Some b" using v t b find_object_db by metis
          with w next_v [OF live] show "I w'" by (intro inv_updated [OF w(1) _ _ w(3)]) (simp_all add: new_version_def)
        qed (assumption, intro keeps_intros inv_record)
      qed
    qed
    note tail = this
    show ?thesis
      by (cases "fst (check_access_level (sv_visibility sv) now i p NeedsWrite s)"; cases "dict_of (sv_types sv) (ob_type b) data")
        (simp_all add: s Inr tail update_def [unfolded Let_def] reading split del: if_split)
  qed (use s in \<open>simp add: update_def reading\<close>)
qed

lemma keeps_tombstone: "keeps I (tombstone_op h sv now ticks i p reason)"
  unfolding keeps_def
proof (intro allI impI)
  fix s :: "'x object_store_scheme"
  assume s: "I s"
  note reading = bindS_reads [OF reads_objects(3)] bindS_reads [OF reads_objects(4)]
  show "I (snd (tombstone_op h sv now ticks i p reason s))"
  proof (cases "fst (get_or_raise sv now i p s)")
    case (Inr b)
    then have b: "find_object i (tn_objects s) = Some b" by (simp add: get_or_raise_Inr)
    let ?t = "\<lambda>tid. \<lparr>tb_id = tid, tb_object = i, tb_at = now, tb_by = p, tb_reason = reason\<rparr>"
    have "I (snd (bindS (check_object_rules h now ticks ''delete'' p (ob_type b) (Some i)) (\<lambda>_.
        if is_tombstoned b then raiseS IsolationViolation
        else bindS (fresh_id h) (\<lambda>tid. bindS (get_version i (ob_version b)) (\<lambda>cur.
          bindS (txnS (write_tombstone h (?t tid))) (\<lambda>_.
          bindS (audit_event h now (rq cur)) (\<lambda>_. returnS (?t tid)))))) s))" for rq
    proof (rule rules_then [OF s], rule fresh_then)
      fix t tid v assume t: "object_db t = object_db s" and v: "I v" "object_db v = object_db t" and "\<not> is_tombstoned b"
      then have live: "ob_lifecycle b \<noteq> Archived" by (simp add: is_tombstoned_def)
      show "I (snd (bindS (get_version i (ob_version b)) (\<lambda>cur. bindS (txnS (write_tombstone h (?t tid))) (\<lambda>_.
          bindS (audit_event h now (rq cur)) (\<lambda>_. returnS (?t tid)))) v))"
      proof (rule keeps_under [where J = "\<lambda>w. object_db w = object_db v" and I = I,
            OF keeps_reads [OF reads_objects(5)] keeps_reads [OF reads_objects(5)] v(1) refl], rule write_then)
        fix cur w u w' assume w: "I w" "object_db w = object_db v" "write_tombstone h (?t tid) w = (Inr u, w')"
        then have "find_object i (tn_objects w) = Some b" using v t b find_object_db by metis
        with w live show "I w'" by (intro inv_tombstoned [OF w(1) _ _ w(3)]) simp_all
      qed (assumption, intro keeps_intros inv_record)
    qed
    note tail = this
    show ?thesis
      by (cases "fst (check_access_level (sv_visibility sv) now i p NeedsAdmin s)")
        (simp_all add: s Inr tail tombstone_op_def [unfolded Let_def] reading split del: if_split)
  qed (use s in \<open>simp add: tombstone_op_def reading\<close>)
qed

end

section \<open>The service keeps its machine and the trail\<close>

lemma stored_fits [simp]:
  "fits (version_values v) vs = fits v vs"
  "first_version h b (version_values v) = first_version h b v" "follows_version h b (version_values v) = follows_version h b v"
  by (simp_all add: fits_def first_version_def follows_version_def)

lemma objects_from_created:
  assumes "objects_from h x s" "first_version h b v" "write_object h b v s = (Inr u, t)"
  shows "objects_from h x t"
proof -
  from assms(3) have t: "object_db t = (tn_objects s @ [b], os_versions s @ [version_values v], os_tombstones s)"
    and new: "\<forall>x \<in> set (tn_objects s). ob_id x \<noteq> ob_id b" "fits v (os_versions s)"
    by (auto simp: write_object_Inr object_db_def)
  have "object_change h (object_db s) (object_db t)"
    unfolding t using object_created [OF new(1), of h "version_values v"] new(2) assms(2)
    by (simp add: object_db_def)
  with assms(1) show ?thesis by (rule objects_from_step)
qed

lemma objects_from_updated:
  assumes "objects_from h x s" "find_object (ov_object v) (tn_objects s) = Some b" "follows_version h b v"
    "write_update h v s = (Inr u, t)"
  shows "objects_from h x t"
proof -
  from assms(4) have t: "object_db t = (set_object (ov_object v) (\<lambda>b. b\<lparr>ob_version := ov_number v\<rparr>) (tn_objects s),
      os_versions s @ [version_values v], os_tombstones s)" and new: "fits v (os_versions s)"
    by (auto simp: write_update_Inr object_db_def)
  have "object_change h (object_db s) (object_db t)"
    unfolding t using object_updated [OF assms(2), of h "version_values v"] new assms(3)
    by (simp add: object_db_def)
  with assms(1) show ?thesis by (rule objects_from_step)
qed

lemma objects_from_tombstoned:
  assumes "objects_from h x s" "find_object (tb_object d) (tn_objects s) = Some b" "ob_lifecycle b \<noteq> Archived"
    "write_tombstone h d s = (Inr u, t)"
  shows "objects_from h x t"
proof -
  from assms(4) have t: "object_db t = (set_object (tb_object d) (\<lambda>b. b\<lparr>ob_lifecycle := Archived\<rparr>) (tn_objects s),
      os_versions s, os_tombstones s @ [d])" and new: "\<forall>x \<in> set (os_tombstones s). tb_object x \<noteq> tb_object d"
    by (auto simp: write_tombstone_Inr object_db_def)
  have "object_change h (object_db s) (object_db t)"
    unfolding t using object_tombstoned [OF assms(2,3) new] by (simp add: object_db_def)
  with assms(1) show ?thesis by (rule objects_from_step)
qed

interpretation object_refines: object_invariant h "objects_from h x" for h x
proof -
  have "guarded_invariant h (objects_from h x)"
    unfolding objects_from_def by (rule guarded_of_column [of object_db]) (rule object_db_more, simp_all)
  moreover have "object_invariant_axioms h (objects_from h x)"
  proof
    show "keeps (objects_from h x) (record_batch h (\<lambda>_. now) (\<lambda>_ rows. rows) rqs)" for now rqs
      unfolding keeps_def objects_from_def using object_db_more [OF record_batch_more] by metis
  qed (simp add: objects_from_def, (erule objects_from_created objects_from_updated objects_from_tombstoned; assumption)+)
  ultimately show "object_invariant h (objects_from h x)" by (rule object_invariant.intro)
qed

lemma audit_ok_objects [simp]:
  fixes s :: "'x object_store_scheme"
  shows "audit_ok h (os_versions_update f1 s) = audit_ok h s" "audit_ok h (os_tombstones_update f2 s) = audit_ok h s"
    "audit_ok h (tn_objects_update f3 s) = audit_ok h s" "audit_ok h (w_next_update f4 s) = audit_ok h s"
  by (simp_all add: audit_ok_def head_ok_def)

lemma keeps_batch_audit: "peers_ok h env \<Longrightarrow> keeps (audit_ok h) (record_batch h clock env rqs)"
  unfolding keeps_def record_batch_def using batch_loop_spec by (metis prod.collapse)

interpretation object_audit: object_invariant h "audit_ok h" for h
  by unfold_locales
    (simp, rule keeps_batch_audit [OF quiet_peers], auto simp: write_object_Inr write_update_Inr write_tombstone_Inr)

text \<open>A predicate on a column that the manager does not write is an invariant of it.\<close>

lemma object_of_column:
  fixes col :: "'x object_store_scheme \<Rightarrow> 'c"
  assumes more: "\<And>s t. v1_state.more s = v1_state.more t \<Longrightarrow> col s = col t"
    and upd: "\<And>f s. col (tn_members_update f s) = col s" "\<And>f s. col (tn_scopes_update f s) = col s"
      "\<And>f s. col (tn_projections_update f s) = col s" "\<And>e s. col (engine_put e s) = col s"
      "\<And>f s. col (tn_objects_update f s) = col s" "\<And>f s. col (os_versions_update f s) = col s"
      "\<And>f s. col (os_tombstones_update f s) = col s" "\<And>f s. col (w_next_update f s) = col s"
  shows "object_invariant h (\<lambda>s. J (col s))"
proof -
  have "guarded_invariant h (\<lambda>s. J (col s))"
    by (rule guarded_of_column, erule more) (simp_all add: upd)
  moreover have "object_invariant_axioms h (\<lambda>s. J (col s))"
  proof
    show "keeps (\<lambda>s. J (col s)) (record_batch h (\<lambda>_. now) (\<lambda>_ rows. rows) rqs)" for now rqs
      unfolding keeps_def using more [OF record_batch_more] by metis
  qed (auto simp: upd write_object_Inr write_update_Inr write_tombstone_Inr)
  ultimately show ?thesis by (rule object_invariant.intro)
qed

end
