(* ===== verification/V1_Objects_Properties.thy ===== *)
theory V1_Objects_Properties
  imports V1_Objects_Facts V1_Tenancy_Properties
begin

text \<open>
  The manager of objects and tenancy as one step system, and its properties: the history of an
  object is numbered without gaps and only grows, a principal reaches what it owns or what was
  shared with it, and writes need the level of access they require.
\<close>

section \<open>The invariant of the machine\<close>

definition versions_of :: "string \<Rightarrow> object_version list \<Rightarrow> object_version list" where
  "versions_of i vs = filter (\<lambda>v. ov_object v = i) vs"

definition numbered :: "object_version list \<Rightarrow> object_row \<Rightarrow> bool" where
  "numbered vs b \<longleftrightarrow> map ov_number (versions_of (ob_id b) vs) = [1..<Suc (ob_version b)]"

definition objects_ok :: "v1_host \<Rightarrow> object_db \<Rightarrow> bool" where
  "objects_ok h x \<longleftrightarrow> (case x of (os, vs, ts) \<Rightarrow>
     distinct (map ob_id os) \<and> distinct (map ov_id vs) \<and> distinct (map tb_object ts) \<and>
     (\<forall>b \<in> set os. numbered vs b \<and>
       (ob_lifecycle b = Archived \<longleftrightarrow> ob_id b \<in> tb_object ` set ts)) \<and>
     (\<forall>v \<in> set vs. ov_object v \<in> ob_id ` set os \<and> sealed h v) \<and> tb_object ` set ts \<subseteq> ob_id ` set os)"

text \<open>What stays of an object, and how two states of the tables are related over time.\<close>

definition object_identity :: "object_row \<Rightarrow> _" where
  "object_identity b = (ob_id b, ob_owner b, ob_type b, ob_created b, ob_entry b)"

definition object_later :: "object_version list \<Rightarrow> object_row \<Rightarrow> object_row \<Rightarrow> bool" where
  "object_later ws b b' \<longleftrightarrow>
     object_identity b' = object_identity b \<and> ob_version b \<le> ob_version b' \<and>
     (ob_lifecycle b = Archived \<longrightarrow> b' = b \<and> versions_of (ob_id b) ws = [])"

definition grown :: "object_db \<Rightarrow> object_db \<Rightarrow> bool" where
  "grown x y \<longleftrightarrow> (case (x, y) of ((os, vs, ts), (os', vs', ts')) \<Rightarrow>
     \<exists>ws us. vs' = vs @ ws \<and> ts' = ts @ us \<and> (\<forall>b \<in> set os. \<exists>b' \<in> set os'. object_later ws b b'))"

lemma versions_of_append [simp]: "versions_of i (vs @ ws) = versions_of i vs @ versions_of i ws"
  by (simp add: versions_of_def)

lemma versions_of_one [simp]: "versions_of i [v] = (if ov_object v = i then [v] else [])"
  by (simp add: versions_of_def)

lemma numbered_other: "ov_object v \<noteq> ob_id b \<Longrightarrow> numbered (vs @ [v]) b = numbered vs b"
  by (simp add: numbered_def)

lemma numbered_archived [simp]: "numbered vs (b\<lparr>ob_lifecycle := l\<rparr>) = numbered vs b"
  by (simp add: numbered_def)

lemma numbered_next: "numbered vs b \<Longrightarrow> follows_version h b v \<Longrightarrow> numbered (vs @ [v]) (b\<lparr>ob_version := ov_number v\<rparr>)"
  by (simp add: numbered_def follows_version_def)

lemma numbered_first: "versions_of (ob_id b) vs = [] \<Longrightarrow> first_version h b v \<Longrightarrow> numbered (vs @ [v]) b"
  by (simp add: numbered_def first_version_def)

lemma grown_refl: "grown x x"
  by (auto simp: grown_def object_later_def versions_of_def split: prod.splits)

lemma grown_trans:
  assumes "grown x y" "grown y z"
  shows "grown x z"
proof -
  obtain os vs ts where x: "x = (os, vs, ts)" by (cases x) auto
  from assms(1) obtain os1 ws us where y: "y = (os1, vs @ ws, ts @ us)"
    and first: "\<forall>b \<in> set os. \<exists>b' \<in> set os1. object_later ws b b'" by (cases y) (auto simp: x grown_def)
  from assms(2) obtain os2 ws2 us2 where z: "z = (os2, vs @ ws @ ws2, ts @ us @ us2)"
    and second: "\<forall>b \<in> set os1. \<exists>b' \<in> set os2. object_later ws2 b b'" by (cases z) (auto simp: y grown_def)
  have "\<exists>b' \<in> set os2. object_later (ws @ ws2) b b'" if "b \<in> set os" for b
  proof -
    from first that obtain b1 where b1: "b1 \<in> set os1" "object_later ws b b1" by blast
    with second obtain b2 where "b2 \<in> set os2" "object_later ws2 b1 b2" by blast
    with b1 show ?thesis by (intro bexI [of _ b2]) (auto simp: object_later_def)
  qed
  then show ?thesis by (auto simp: x z grown_def)
qed

lemma set_object_one:
  assumes "distinct (map ob_id os)" "find_object i os = Some b"
  shows "set_object i f os = map (\<lambda>x. if x = b then f b else x) os" "b \<in> set os" "ob_id b = i"
proof -
  from assms(2) show b: "b \<in> set os" "ob_id b = i" by (auto dest: find_SomeD)
  have "ob_id x = i \<longleftrightarrow> x = b" if "x \<in> set os" for x
    using b that assms(1) by (auto simp: distinct_map dest: inj_onD)
  then show "set_object i f os = map (\<lambda>x. if x = b then f b else x) os" by (auto simp: sql_update_where_def)
qed

lemma no_versions: "objects_ok h (os, vs, ts) \<Longrightarrow> i \<notin> ob_id ` set os \<Longrightarrow> versions_of i vs = []"
  by (fastforce simp: objects_ok_def versions_of_def filter_empty_conv)

text \<open>Rewriting one row: the others are as they were.\<close>

lemma replaced_rows:
  assumes "distinct (map ob_id os)" "find_object i os = Some b" "object_identity (f b) = object_identity b"
    and others: "\<And>x. x \<in> set os \<Longrightarrow> ob_id x \<noteq> i \<Longrightarrow> Q x" and changed: "Q (f b)"
  shows "map ob_id (set_object i f os) = map ob_id os" "\<forall>x \<in> set (set_object i f os). Q x"
proof -
  note one = set_object_one [OF assms(1,2)]
  have id: "ob_id (f b) = ob_id b" using assms(3) by (simp add: object_identity_def)
  show "map ob_id (set_object i f os) = map ob_id os" unfolding one(1) using id by auto
  have "Q x" if "x \<in> set os" "x \<noteq> b" for x
    using others [OF that(1)] that one(2,3) assms(1) by (auto simp: distinct_map dest: inj_onD)
  with changed show "\<forall>x \<in> set (set_object i f os). Q x" unfolding one(1) by auto
qed

lemma replaced_later:
  assumes "distinct (map ob_id os)" "find_object i os = Some b" "object_later ws b (f b)"
    and "\<And>x. x \<in> set os \<Longrightarrow> ob_id x \<noteq> i \<Longrightarrow> versions_of (ob_id x) ws = []"
  shows "\<forall>x \<in> set os. \<exists>x' \<in> set (set_object i f os). object_later ws x x'"
proof
  note one = set_object_one [OF assms(1,2)]
  fix x assume x: "x \<in> set os"
  show "\<exists>x' \<in> set (set_object i f os). object_later ws x x'"
  proof (cases "x = b")
    case True
    with assms(3) one(2) show ?thesis unfolding one(1) by (intro bexI [of _ "f b"]) auto
  next
    case False
    then have "ob_id x \<noteq> i" using x one(2,3) assms(1) by (auto simp: distinct_map dest: inj_onD)
    then have "object_later ws x x" using assms(4) x by (simp add: object_later_def)
    with False x show ?thesis unfolding one(1) by (intro bexI [of _ x]) auto
  qed
qed

lemma created_ok:
  assumes ok: "objects_ok h (os, vs, ts)" and new: "\<forall>x \<in> set os. ob_id x \<noteq> ob_id b"
    and v: "first_version h b v" "fits v vs"
  shows "objects_ok h (os @ [b], vs @ [v], ts) \<and> grown (os, vs, ts) (os @ [b], vs @ [v], ts)"
proof -
  have "numbered (vs @ [v]) b" by (rule numbered_first [OF no_versions [OF ok] v(1)]) (use new in auto)
  moreover have "ob_id b \<notin> tb_object ` set ts" using ok new by (auto simp: objects_ok_def)
  moreover have "ov_object v \<noteq> ob_id x" if "x \<in> set os" for x
    using new that v(1) by (auto simp: first_version_def)
  ultimately show ?thesis
    using ok new v by (auto simp: objects_ok_def grown_def first_version_def fits_def object_later_def numbered_other)
qed

lemma updated_ok:
  assumes ok: "objects_ok h (os, vs, ts)" and b: "find_object i os = Some b"
    and v: "follows_version h b v" "fits v vs"
  shows "objects_ok h (set_object i (\<lambda>x. x\<lparr>ob_version := ov_number v\<rparr>) os, vs @ [v], ts) \<and>
    grown (os, vs, ts) (set_object i (\<lambda>x. x\<lparr>ob_version := ov_number v\<rparr>) os, vs @ [v], ts)"
proof -
  let ?f = "\<lambda>x. x\<lparr>ob_version := ov_number v\<rparr>"
  have ids: "distinct (map ob_id os)" using ok by (simp add: objects_ok_def)
  note one = set_object_one [OF ids b]
  have vi: "ov_object v = i" using v(1) one(3) by (simp add: follows_version_def)
  let ?Q = "\<lambda>x. numbered (vs @ [v]) x \<and> (ob_lifecycle x = Archived \<longleftrightarrow> ob_id x \<in> tb_object ` set ts)"
  have "object_identity (?f b) = object_identity b" by (simp add: object_identity_def)
  moreover have "?Q (?f b)"
    using ok one(2) v(1) numbered_next by (auto simp: objects_ok_def)
  moreover have "?Q x" if "x \<in> set os" "ob_id x \<noteq> i" for x
    using ok that vi by (simp add: objects_ok_def numbered_other)
  ultimately have rows: "map ob_id (set_object i ?f os) = map ob_id os" "\<forall>x \<in> set (set_object i ?f os). ?Q x"
    using replaced_rows [OF ids b, where f = ?f and Q = ?Q] by blast+
  have "object_later [v] b (?f b)" using v(1) by (simp add: object_later_def follows_version_def object_identity_def)
  then have later: "\<forall>x \<in> set os. \<exists>x' \<in> set (set_object i ?f os). object_later [v] x x'"
    by (rule replaced_later [OF ids b]) (use vi in simp)
  have "ob_id ` set (set_object i ?f os) = ob_id ` set os" using rows(1) by (metis set_map)
  moreover have "ov_object v \<in> ob_id ` set os" using vi one(2,3) by (auto intro: rev_image_eqI)
  ultimately show ?thesis
    using ok rows later v by (auto simp: objects_ok_def grown_def follows_version_def fits_def)
qed

lemma tombstoned_ok:
  assumes ok: "objects_ok h (os, vs, ts)" and b: "find_object (tb_object t) os = Some b" "ob_lifecycle b \<noteq> Archived"
    and new: "\<forall>x \<in> set ts. tb_object x \<noteq> tb_object t"
  shows "objects_ok h (set_object (tb_object t) (\<lambda>x. x\<lparr>ob_lifecycle := Archived\<rparr>) os, vs, ts @ [t]) \<and>
    grown (os, vs, ts) (set_object (tb_object t) (\<lambda>x. x\<lparr>ob_lifecycle := Archived\<rparr>) os, vs, ts @ [t])"
proof -
  let ?f = "\<lambda>x. x\<lparr>ob_lifecycle := Archived\<rparr>" and ?i = "tb_object t"
  have ids: "distinct (map ob_id os)" using ok by (simp add: objects_ok_def)
  note one = set_object_one [OF ids b(1)]
  let ?Q = "\<lambda>x. numbered vs x \<and> (ob_lifecycle x = Archived \<longleftrightarrow> ob_id x \<in> tb_object ` set (ts @ [t]))"
  have "object_identity (?f b) = object_identity b" by (simp add: object_identity_def)
  moreover have "?Q (?f b)" using ok one(2,3) by (simp add: objects_ok_def)
  moreover have "?Q x" if "x \<in> set os" "ob_id x \<noteq> ?i" for x using ok that by (auto simp: objects_ok_def)
  ultimately have rows: "map ob_id (set_object ?i ?f os) = map ob_id os" "\<forall>x \<in> set (set_object ?i ?f os). ?Q x"
    using replaced_rows [OF ids b(1), where f = ?f and Q = ?Q] by blast+
  have "object_later [] b (?f b)" using b(2) by (simp add: object_later_def object_identity_def)
  then have later: "\<forall>x \<in> set os. \<exists>x' \<in> set (set_object ?i ?f os). object_later [] x x'"
    by (rule replaced_later [OF ids b(1)]) (simp add: versions_of_def)
  have "ob_id ` set (set_object ?i ?f os) = ob_id ` set os" using rows(1) by (metis set_map)
  moreover have "?i \<in> ob_id ` set os" using one(2,3) by (auto intro: rev_image_eqI)
  moreover have "?i \<notin> tb_object ` set ts" using new by auto
  ultimately show ?thesis
    using ok rows later by (auto simp: objects_ok_def grown_def)
qed

lemma object_change_ok: "object_change h x y \<Longrightarrow> objects_ok h x \<Longrightarrow> objects_ok h y \<and> grown x y"
  by (induction rule: object_change.induct) (rule created_ok updated_ok tombstoned_ok; assumption)+

lemma object_run_ok: "object_run h x y \<Longrightarrow> objects_ok h x \<Longrightarrow> objects_ok h y \<and> grown x y"
  by (induction rule: rtranclp_induct) (auto intro: grown_refl dest: object_change_ok elim: grown_trans)

section \<open>The service as a step system\<close>

text \<open>One call that writes, of the manager or of tenancy, returned or raised.\<close>

inductive object_step ::
  "v1_host \<Rightarrow> ('c, 'v, 'x object_store_scheme) object_services \<Rightarrow> 'x object_store_scheme \<Rightarrow> 'x object_store_scheme \<Rightarrow> bool"
  for h sv where
  via_tenant: "tenant_step h s t \<Longrightarrow> object_step h sv s t"
| do_object: "object_step h sv s (snd (create h sv now ticks ty owner data entry reason sid s))"
| do_objects: "object_step h sv s (snd (create_many h now items owner s))"
| do_update_object: "object_step h sv s (snd (update h sv now ticks i p data reason s))"
| do_tombstone: "object_step h sv s (snd (tombstone_op h sv now ticks i p reason s))"

abbreviation object_steps where "object_steps h sv \<equiv> (object_step h sv)\<^sup>*\<^sup>*"

context object_invariant
begin

lemma keeps_object_step: "object_step h sv s t \<Longrightarrow> I s \<Longrightarrow> I t"
  by (induction rule: object_step.induct)
    (erule keeps_step, assumption,
      (rule keeps_snd, rule keeps_create keeps_create_many keeps_update keeps_tombstone, assumption)+)

lemma keeps_object_steps: "object_steps h sv s t \<Longrightarrow> I s \<Longrightarrow> I t"
  by (induction rule: rtranclp_induct) (auto dest: keeps_object_step)

end

lemma object_steps_run: "object_steps h sv s t \<Longrightarrow> object_run h (object_db s) (object_db t)"
  using object_refines.keeps_object_steps [of h sv s t "object_db s"] by (simp add: objects_from_def)

section \<open>Histories\<close>

text \<open>
  C23. What objects go through: in every run of the manager and of tenancy, with calls that return or
  raise, the versions of every object are numbered from one to its current version without a gap,
  each with the checksum of its data, and an object is archived exactly when it has its one tombstone;
  objects keep identity, owner and type, versions are only added and never rewritten, and an archived
  object stays archived.
\<close>

theorem objects_follow_machine:
  assumes "object_steps h sv s t" "objects_ok h (object_db s)"
  shows "objects_ok h (object_db t) \<and> grown (object_db s) (object_db t)"
  using object_run_ok [OF object_steps_run [OF assms(1)] assms(2)] by blast

section \<open>Who reaches an object\<close>

text \<open>
  C24. \<open>get\<close> answers, without changing anything, exactly the object of that identifier that the
  principal owns or, with a visibility engine, that an active projection shares with a scope it
  belongs to, directly or through at most \<open>cte_depth\<close> parents; \<open>get_or_raise\<close> decides alike.
\<close>

theorem get_isolates:
  assumes "distinct (map ob_id (tn_objects s))"
  shows "(get sv now i p s = (Inr (Some b), s) \<longleftrightarrow> find_object i (tn_objects s) = Some b \<and>
      (ob_owner b = p \<or> sv_visibility sv \<and> reaches now p i s)) \<and>
    (get_or_raise sv now i p s = (Inr b, s) \<longleftrightarrow> get sv now i p s = (Inr (Some b), s)) \<and>
    snd (get sv now i p s) = s"
proof (cases "find_object i (tn_objects s)")
  case None
  then show ?thesis by (simp add: get_def get_or_raise_def load_object_def)
next
  case (Some c)
  have "ob_owner c = p" if "owns p i s"
  proof -
    from that obtain x where x: "x \<in> set (tn_objects s)" "ob_id x = i" "ob_owner x = p" by (auto simp: owns_def)
    moreover have "x = c" using set_object_one(2,3) [OF assms Some] x assms by (auto simp: distinct_map dest: inj_onD)
    ultimately show ?thesis by simp
  qed
  then have "can_see now p i s \<longleftrightarrow> reaches now p i s" if "ob_owner c \<noteq> p" using that by (auto simp: can_see_iff)
  with Some show ?thesis by (auto simp: get_def get_or_raise_def load_object_def can_access_def)
qed

text \<open>Without a visibility engine the listing is the objects owned; with one, at most ten thousand visible ones.\<close>

lemma listed_visible:
  "b \<in> set (listed sv now p ty tombstoned s) \<Longrightarrow> b \<in> set (tn_objects s) \<and>
     (if sv_visibility sv then ob_id b \<in> set (visible_object_ids now p ty 10000 s) else ob_owner b = p)"
  by (auto simp: listed_def visibility_filter_def)

section \<open>Writes\<close>

lemma audit_object_db: "audit_event h now rq s = (r, t) \<Longrightarrow> object_db t = object_db s"
  using keepsD [OF objects_fixed.inv_record refl] .

lemma fresh_object_db: "fresh_id h s = (r, t) \<Longrightarrow> object_db t = object_db s"
  using keepsD [OF objects_fixed.inv_fresh refl] .

lemma rules_object_db: "check_object_rules h now ticks act p ty oid s = (r, t) \<Longrightarrow> object_db t = object_db s"
  unfolding check_object_rules_def using keepsD [OF objects_fixed.inv_check refl] .

definition may :: "required_level \<Rightarrow> bool \<Rightarrow> string \<Rightarrow> string \<Rightarrow> object_row \<Rightarrow> 'x tenant_scheme \<Rightarrow> bool" where
  "may lvl vis now p b s \<longleftrightarrow> ob_owner b = p \<or> vis \<and> can_see now p (ob_id b) s \<and>
     (\<exists>l \<in> set (required_levels lvl). get_access_level now p (ob_id b) s = Some l)"

lemma get_and_level:
  assumes "get_or_raise sv now i p s = (Inr b, s1)" "check_access_level (sv_visibility sv) now i p lvl s1 = (Inr u, s2)"
  shows "s1 = s \<and> s2 = s \<and> find_object i (tn_objects s) = Some b \<and> may lvl (sv_visibility sv) now p b s"
proof -
  have s: "s1 = s" "s2 = s1" using assms reads_objects(3,4) by (metis reads_def snd_conv)+
  with assms have "fst (get_or_raise sv now i p s) = Inr b" "fst (check_access_level (sv_visibility sv) now i p lvl s) = Inr u"
    by auto
  then have "find_object i (tn_objects s) = Some b" "may lvl (sv_visibility sv) now p b s"
    unfolding get_or_raise_Inr check_access_Inr by (auto simp: may_def dest: find_SomeD)
  with s show ?thesis by simp
qed

text \<open>
  C25. An update that returns was made by the owner or by a principal who sees the object with level
  write or admin, on an object that is not tombstoned; it appends one version with the next number,
  the given data and the checksum of it, and moves the object to that version.
\<close>

theorem update_permitted:
  assumes "update h sv now ticks i p (Inl data) reason s = (Inr (b', v), t)"
  shows "\<exists>b. find_object i (tn_objects s) = Some b \<and> may NeedsWrite (sv_visibility sv) now p b s \<and>
    ob_lifecycle b \<noteq> Archived \<and> b' = b\<lparr>ob_version := Suc (ob_version b)\<rparr> \<and>
    ov_number v = Suc (ob_version b) \<and> ov_data v = data \<and> ov_by v = p \<and> ov_checksum v = compute_checksum h data \<and>
    object_db t = (set_object i (\<lambda>x. x\<lparr>ob_version := Suc (ob_version b)\<rparr>) (tn_objects s),
      os_versions s @ [version_values v], os_tombstones s)"
proof -
  from assms obtain b s1 s2 s3 s4 s5 s6 vid prev where
    get: "get_or_raise sv now i p s = (Inr b, s1)" "check_access_level (sv_visibility sv) now i p NeedsWrite s1 = (Inr (), s2)"
    and rules: "check_object_rules h now ticks ''update'' p (ob_type b) (Some i) s2 = (Inr (), s3)"
    and live: "\<not> is_tombstoned b" and prev: "get_version i (ob_version b) s3 = (Inr prev, s4)"
    and vid: "fresh_id h s4 = (Inr vid, s5)"
    and v: "v = new_version h now vid i (Suc (ob_version b)) data p reason (ob_type b)" "b' = b\<lparr>ob_version := Suc (ob_version b)\<rparr>"
    and w: "write_update h v s5 = (Inr (), s6)" and ev: "\<exists>rq. audit_event h now rq s6 = (Inr (), t)"
    unfolding update_def dict_of_def Let_def by (simp add: txn_Inr bindS_Inr_iff split: if_splits) blast
  from get_and_level [OF get] have b: "s2 = s" "find_object i (tn_objects s) = Some b" "may NeedsWrite (sv_visibility sv) now p b s"
    by auto
  have "s4 = s3" using prev reads_objects(5) by (metis reads_def snd_conv)
  then have db: "object_db s5 = object_db s" using rules_object_db [OF rules] fresh_object_db [OF vid] b(1) by simp
  from ev have "object_db t = object_db s6" using audit_object_db by blast
  also have "\<dots> = (set_object i (\<lambda>x. x\<lparr>ob_version := Suc (ob_version b)\<rparr>) (tn_objects s),
      os_versions s @ [version_values v], os_tombstones s)"
    using w db by (auto simp: write_update_Inr object_db_def v(1) new_version_def)
  finally show ?thesis using b live v by (auto simp: is_tombstoned_def new_version_def)
qed

text \<open>Soft deletion: the owner, or a principal with level admin; the versions stay.\<close>

lemma tombstone_permitted:
  assumes "tombstone_op h sv now ticks i p reason s = (Inr d, t)"
  shows "\<exists>b. find_object i (tn_objects s) = Some b \<and> may NeedsAdmin (sv_visibility sv) now p b s \<and>
    ob_lifecycle b \<noteq> Archived \<and> tb_object d = i \<and> tb_by d = p \<and>
    object_db t = (set_object i (\<lambda>x. x\<lparr>ob_lifecycle := Archived\<rparr>) (tn_objects s), os_versions s, os_tombstones s @ [d])"
proof -
  from assms obtain b s1 s2 s3 s4 s5 s6 tid cur where
    get: "get_or_raise sv now i p s = (Inr b, s1)" "check_access_level (sv_visibility sv) now i p NeedsAdmin s1 = (Inr (), s2)"
    and rules: "check_object_rules h now ticks ''delete'' p (ob_type b) (Some i) s2 = (Inr (), s3)"
    and live: "\<not> is_tombstoned b" and tid: "fresh_id h s3 = (Inr tid, s4)"
    and cur: "get_version i (ob_version b) s4 = (Inr cur, s5)"
    and d: "d = \<lparr>tb_id = tid, tb_object = i, tb_at = now, tb_by = p, tb_reason = reason\<rparr>"
    and w: "write_tombstone h d s5 = (Inr (), s6)" and ev: "\<exists>rq. audit_event h now rq s6 = (Inr (), t)"
    unfolding tombstone_op_def Let_def by (simp add: txn_Inr bindS_Inr_iff split: if_splits) blast
  from get_and_level [OF get] have b: "s2 = s" "find_object i (tn_objects s) = Some b" "may NeedsAdmin (sv_visibility sv) now p b s"
    by auto
  have "s5 = s4" using cur reads_objects(5) by (metis reads_def snd_conv)
  then have db: "object_db s5 = object_db s" using rules_object_db [OF rules] fresh_object_db [OF tid] b(1) by simp
  from ev have "object_db t = object_db s6" using audit_object_db by blast
  also have "\<dots> = (set_object i (\<lambda>x. x\<lparr>ob_lifecycle := Archived\<rparr>) (tn_objects s), os_versions s, os_tombstones s @ [d])"
    using w db by (auto simp: write_tombstone_Inr object_db_def d)
  finally show ?thesis using b live d by (auto simp: is_tombstoned_def)
qed

definition objects_added :: "(object_row \<times> object_version) list \<Rightarrow> 'x object_store_scheme \<Rightarrow> 'y object_store_scheme \<Rightarrow> bool" where
  "objects_added rs s t \<longleftrightarrow> object_db t = (tn_objects s @ map fst rs, os_versions s @ map (version_values \<circ> snd) rs, os_tombstones s)"

lemma objects_added_Nil: "object_db t = object_db s \<Longrightarrow> objects_added [] s t"
  by (simp add: objects_added_def object_db_def)

lemma objects_added_Cons: "objects_added [r] s s1 \<Longrightarrow> objects_added rs s1 t \<Longrightarrow> objects_added (r # rs) s t"
  by (simp add: objects_added_def object_db_def)

lemma bindS_fresh: "bindS (fresh_id h) f s = f (v_id h (w_next s)) (s\<lparr>w_next := Suc (w_next s)\<rparr>)"
  by (simp add: bindS_def fresh_id_def)

lemma create_one_added:
  assumes "create_one h now owner item s = (Inr r, t)"
  shows "objects_added [r] s t \<and> first_version h (fst r) (snd r) \<and> ob_owner (fst r) = owner"
proof -
  obtain ty data where keys: "it_type item = Some ty" "it_data item = Some data"
    using assms by (cases "it_type item"; cases "it_data item") (simp_all add: create_one_def required_key_def bindS_fresh)
  define b where "b = new_object now (v_id h (w_next s)) owner ty None"
  define v where "v = new_version h now (v_id h (Suc (w_next s))) (v_id h (w_next s)) 1 data owner
    (case it_reason item of None \<Rightarrow> ''created'' | Some r \<Rightarrow> r) ''''"
  have "create_one h now owner item s = bindS (write_object h b v) (\<lambda>_. returnS (b, v)) (s\<lparr>w_next := Suc (Suc (w_next s))\<rparr>)"
    by (simp add: create_one_def keys required_key_def Let_def bindS_fresh b_def v_def)
  with assms have "write_object h b v (s\<lparr>w_next := Suc (Suc (w_next s))\<rparr>) = (Inr (), t)" and r: "r = (b, v)"
    by (auto simp: bindS_Inr_iff)
  moreover have "first_version h b v" "ob_owner b = owner"
    by (simp_all add: b_def v_def first_version_def sealed_def new_object_def new_version_def)
  ultimately show ?thesis by (auto simp: write_object_Inr objects_added_def object_db_def)
qed

lemma create_each_added:
  "mapS (create_one h now owner) items s = (Inr rs, t) \<Longrightarrow>
   length rs = length items \<and> objects_added rs s t \<and> (\<forall>(b, v) \<in> set rs. first_version h b v \<and> ob_owner b = owner)"
proof (induction items arbitrary: s rs)
  case Nil
  then show ?case by (simp add: objects_added_Nil)
next
  case (Cons item items)
  then obtain r s1 rs' where one: "create_one h now owner item s = (Inr r, s1)"
    and rest: "mapS (create_one h now owner) items s1 = (Inr rs', t)" and rs: "rs = r # rs'"
    by (auto simp: bindS_Inr_iff)
  show ?case
    using create_one_added [OF one] Cons.IH [OF rest] objects_added_Cons [of r s s1 rs' t] by (simp add: rs split_beta)
qed

lemma create_each_audited: "commits (\<lambda>u. tn_audited u = tn_audited s) (mapS (create_one h now owner) items)"
proof -
  have "commits (\<lambda>u. tn_audited u = tn_audited s) (write_object h b v)" for b v
    by (auto simp: commits_def write_object_Inr)
  moreover have "commits (\<lambda>u. tn_audited u = tn_audited s) (fresh_id h)"
    by (auto simp: commits_def fresh_id_def)
  ultimately show ?thesis
    unfolding create_one_def Let_def
    by (intro commits_map commits_bind commits_keeps [OF keeps_basic(1)] commits_keeps [OF keeps_reads [OF reads_objects(7)]])
qed

text \<open>
  \<open>create_many\<close> is atomic: it returns with one object and first version per item, all owned by
  the caller and written in the order of the items, or it raises and has written none of them. Only
  a failure of the audit, which follows the commit, raises after the objects are there.
\<close>

theorem create_many_atomic:
  fixes s :: "'x object_store_scheme"
  shows "case create_many h now items owner s of
      (Inr rs, t) \<Rightarrow> length rs = length items \<and> objects_added rs s t \<and>
        (\<forall>r \<in> set rs. first_version h (fst r) (snd r) \<and> ob_owner (fst r) = owner)
    | (Inl e, t) \<Rightarrow> object_db t = object_db s \<or> tn_audited s \<and> (\<exists>rs. length rs = length items \<and> objects_added rs s t)"
proof -
  let ?m = "mapS (create_one h now owner) items"
  show ?thesis
  proof (cases "?m s")
    case (Pair r t)
    have batch: "object_db (snd (record_batch h (\<lambda>_. now) (\<lambda>_ rows. rows) rqs u)) = object_db u" for u :: "'x object_store_scheme" and rqs
      by (rule object_db_more) (rule record_batch_more)
    show ?thesis
    proof (cases r)
      case (Inl e)
      with Pair show ?thesis by (simp add: create_many_def txnS_def bindS_def [of "txnS _"])
    next
      case (Inr rs)
      with Pair have run: "?m s = (Inr rs, t)" by simp
      note added = create_each_added [OF run]
      have "txnS ?m s = (Inr rs, t)" using run by (simp add: txn_Inr)
      then have many: "create_many h now items owner s =
          bindS (whenS (tn_audited t) (bindS (record_batch h (\<lambda>_. now) (\<lambda>_ rows. rows) (map (create_request owner) rs))
            (\<lambda>_. returnS ()))) (\<lambda>_. returnS rs) t"
        by (simp add: create_many_def bindS_Inr)
      have "tn_audited t = tn_audited s" using commitsD [OF create_each_audited [of s] refl run] .
      moreover have "objects_added rs s (snd (create_many h now items owner s))"
        using many added batch [of "map (create_request owner) rs" t]
        by (cases "tn_audited t") (auto simp: bindS_def objects_added_def split: prod.splits sum.splits)
      moreover have "create_many h now items owner s = (Inr rs, u) \<or> tn_audited t"
        if "u = snd (create_many h now items owner s)" for u
        using many that by (cases "tn_audited t") auto
      moreover have "fst (create_many h now items owner s) \<in> {Inr rs} \<union> range Inl"
        using many by (cases "tn_audited t") (auto simp: bindS_def split: prod.splits sum.splits)
      ultimately show ?thesis using added by (auto split: prod.splits sum.splits)
    qed
  qed
qed

section \<open>Differences\<close>

lemma diff_keys_spec:
  "diff_keys old new ks d = d\<lparr>
     df_added := df_added d @ map (\<lambda>k. (k, the (map_of new k))) (filter (\<lambda>k. map_of old k = None \<and> map_of new k \<noteq> None) ks),
     df_removed := df_removed d @ map (\<lambda>k. (k, the (map_of old k))) (filter (\<lambda>k. map_of old k \<noteq> None \<and> map_of new k = None) ks),
     df_changed := df_changed d @ map (\<lambda>k. (k, the (map_of old k), the (map_of new k)))
       (filter (\<lambda>k. map_of old k \<noteq> None \<and> map_of new k \<noteq> None \<and> \<not> py_eq (the (map_of old k)) (the (map_of new k))) ks)\<rparr>"
  by (induction ks arbitrary: d) (auto split: option.splits)

lemma map_of_keys: "map_of (map (\<lambda>k. (k, f k)) ks) k = (if k \<in> set ks then Some (f k) else None)"
  by (induction ks) auto

text \<open>The dict that the old one becomes under a difference, by its keys.\<close>

definition patched :: "version_diff \<Rightarrow> metadata \<Rightarrow> string \<Rightarrow> json option" where
  "patched d old k =
     (if k \<in> fst ` set (df_removed d) then None
      else case map_of (df_added d) k of
             Some w \<Rightarrow> Some w
           | None \<Rightarrow> (case map_of (df_changed d) k of Some (v, w) \<Rightarrow> Some w | None \<Rightarrow> map_of old k))"

text \<open>
  The difference of two versions is complete and minimal: applied to the data of the old version
  it yields a dict with the keys of the new one and values Python finds equal, and it mentions a key
  only when the two versions disagree on it.
\<close>

theorem diff_patches:
  fixes a b :: object_version
  defines "d \<equiv> diff_versions a b"
  shows "rel_option py_eq (patched d (ov_data a) k) (map_of (ov_data b) k) \<and>
    (k \<in> fst ` set (df_added d) \<union> fst ` set (df_removed d) \<union> fst ` set (df_changed d) \<longleftrightarrow>
      \<not> rel_option py_eq (map_of (ov_data a) k) (map_of (ov_data b) k))"
proof -
  let ?old = "ov_data a" and ?new = "ov_data b"
  have eq: "py_eq v v" for v by (simp add: py_eq_def)
  have known: "k \<in> set (remdups (map fst ?old @ map fst ?new)) \<longleftrightarrow> map_of ?old k \<noteq> None \<or> map_of ?new k \<noteq> None"
    by (simp add: map_of_eq_None_iff)
  show ?thesis
    unfolding d_def diff_versions_def diff_keys_spec patched_def
    using known
    by (cases "map_of ?old k"; cases "map_of ?new k")
      (auto simp: map_of_keys eq image_iff simp del: set_remdups)
qed

section \<open>A sample run\<close>

definition store0 :: object_store where
  "store0 = \<lparr>w_next = 0, w_trail = [], w_seq = 0, w_last = '''', tn_audited = False,
     tn_principals = [''ann'', ''bob''], tn_objects = [], tn_scopes = [], tn_members = [], tn_projections = [],
     gd_engine = None, os_versions = [], os_tombstones = []\<rparr>"

definition manager0 :: "(unit, unit, object_store) object_services" where
  "manager0 = \<lparr>sv_types = empty_types, sv_quota = None, sv_limiter = None, sv_visibility = True\<rparr>"

definition made1 :: "(v1_error + object_row \<times> object_version) \<times> object_store" where
  "made1 = create v1_host0 manager0 ''2024-01-01'' (\<lambda>_. (0, 0)) ''Doc'' ''ann''
     (Inl [(''b'', JInt 1), (''a'', JStr ''x'')]) None ''created'' None store0"

definition edited1 :: "(v1_error + object_row \<times> object_version) \<times> object_store" where
  "edited1 = update v1_host0 manager0 ''2024-01-02'' (\<lambda>_. (0, 0)) ''t0'' ''ann''
     (Inl [(''a'', JStr ''y''), (''c'', JNull)]) ''edit'' (snd made1)"

definition dropped1 :: "(v1_error + tombstone) \<times> object_store" where
  "dropped1 = tombstone_op v1_host0 manager0 ''2024-01-03'' (\<lambda>_. (0, 0)) ''t0'' ''ann'' ''done'' (snd edited1)"

lemma object_run1:
  "map (\<lambda>b. (ob_id b, ob_version b)) (tn_objects (snd made1)) = [(''t0'', 1)]"
  "isl (fst edited1) = False" "isl (fst dropped1) = False"
  "map (\<lambda>v. (ov_id v, ov_number v, ov_data v)) (os_versions (snd dropped1)) =
     [(''t1'', 1, [(''a'', JStr ''x''), (''b'', JInt 1)]), (''t2'', 2, [(''a'', JStr ''y''), (''c'', JNull)])]"
  "map tb_object (os_tombstones (snd dropped1)) = [''t0'']"
  by code_simp+

lemma object_sample_steps:
  "object_steps v1_host0 manager0 store0 (snd made1)" "object_steps v1_host0 manager0 (snd made1) (snd dropped1)"
proof -
  have "object_step v1_host0 manager0 store0 (snd made1)" "object_step v1_host0 manager0 (snd made1) (snd edited1)"
    "object_step v1_host0 manager0 (snd edited1) (snd dropped1)"
    unfolding made1_def edited1_def dropped1_def by (rule object_step.intros)+
  then show "object_steps v1_host0 manager0 store0 (snd made1)" "object_steps v1_host0 manager0 (snd made1) (snd dropped1)"
    by (meson converse_rtranclp_into_rtranclp rtranclp.rtrancl_refl)+
qed

lemma store0_ok: "objects_ok h (object_db store0)"
  by (simp add: objects_ok_def object_db_def store0_def)

section \<open>Witnesses\<close>

theorem objects_follow_machine_witness:
  "objects_ok v1_host0 (object_db (snd dropped1)) \<and> grown (object_db (snd made1)) (object_db (snd dropped1))"
  using object_run_ok [OF object_steps_run [OF object_sample_steps(1)] store0_ok]
  by (intro objects_follow_machine [OF object_sample_steps(2)]) blast

theorem get_isolates_witness:
  "(\<exists>b. get manager0 ''2024'' ''t0'' ''ann'' (snd made1) = (Inr (Some b), snd made1)) \<and>
   (\<forall>b. get manager0 ''2024'' ''t0'' ''bob'' (snd made1) \<noteq> (Inr (Some b), snd made1))"
proof -
  have "distinct (map ob_id (tn_objects (snd made1)))" "tn_members (snd made1) = []"
    "map (\<lambda>b. (ob_id b, ob_owner b)) (tn_objects (snd made1)) = [(''t0'', ''ann'')]" by code_simp+
  then show ?thesis by (auto simp: get_isolates reaches_def split: if_splits)
qed

theorem update_permitted_witness:
  "\<exists>b' v t. edited1 = (Inr (b', v), t) \<and> ov_number v = 2 \<and> ov_data v = [(''a'', JStr ''y''), (''c'', JNull)]"
proof -
  have "map ob_version (tn_objects (snd made1)) = [1]" by code_simp
  from object_run1(2) obtain x where "fst edited1 = Inr x" by (cases "fst edited1") auto
  then obtain b' v t where run: "edited1 = (Inr (b', v), t)" by (metis prod.collapse)
  from update_permitted [OF run [unfolded edited1_def]] obtain b where
    "find_object ''t0'' (tn_objects (snd made1)) = Some b" "ov_number v = Suc (ob_version b)"
    "ov_data v = [(''a'', JStr ''y''), (''c'', JNull)]" by blast
  moreover have "ob_version b = 1"
    using \<open>map ob_version (tn_objects (snd made1)) = [1]\<close> calculation(1) by (auto dest!: find_SomeD)
  ultimately have "ov_number v = 2" "ov_data v = [(''a'', JStr ''y''), (''c'', JNull)]" by simp_all
  with run show ?thesis by (intro exI conjI)
qed

end
