(* ===== verification/V1_Object_Transfer_Properties.thy ===== *)
theory V1_Object_Transfer_Properties
  imports V1_Object_Transfer V1_Objects_Properties
begin

text \<open>
  Packages of objects: their dicts are read back, an export holds only what its principal owns, and an
  import reproduces the contents under new identifiers, but neither checks checksums nor takes a
  failed object back.
\<close>

section \<open>Dicts\<close>

lemma item_fields: "json_item (JObj m) key = (case map_of m key of None \<Rightarrow> Inl V1KeyError | Some v \<Rightarrow> Inr v)"
  by simp

lemma version_dict: "version_from_dict (version_to_dict v) = Inr v"
  by (simp add: version_from_dict_def version_to_dict_def count_at_def text_at_def)

lemma mapE_inverse: "(\<And>x. f (g x) = Inr x) \<Longrightarrow> mapE f (map g xs) = Inr xs"
  by (induction xs) simp_all

lemma object_dict: "object_from_dict (object_to_dict b) = Inr b"
  by (simp add: object_from_dict_def object_to_dict_def text_at_def mapE_inverse version_dict)

text \<open>C26. A package is read back from its dict: \<open>from_dict\<close> inverts \<open>to_dict\<close>.\<close>

theorem package_round_trip: "from_dict (to_dict p) = Inr p"
  by (simp add: from_dict_def to_dict_def text_at_def count_at_def mapE_inverse object_dict)

section \<open>Exports\<close>

text \<open>What is exported belongs to the principal and comes with all its versions.\<close>

lemma export_one_Some:
  assumes "export_one pid s oid = Some x"
  shows "\<exists>b \<in> set (tn_objects s). ob_id b = oid \<and> ob_owner b = pid \<and> xo_id x = oid \<and> xo_owner x = pid \<and>
    xo_type x = ob_type b \<and>
    xo_versions x = map export_version (sql_order False ov_number (versions_of oid (os_versions s)))"
  using assms by (auto simp: export_one_def versions_of_def split: option.splits dest!: find_SomeD)

lemma exports_own: "export_objects now oids pid s = (Inr p, t) \<Longrightarrow> x \<in> set (xp_objects p) \<Longrightarrow> xo_owner x = pid"
  by (auto simp: export_objects_def Let_def map_filter_def) (use export_one_Some in blast)

section \<open>Imports\<close>

definition imported_row :: "v1_host \<Rightarrow> string \<Rightarrow> string \<Rightarrow> string \<Rightarrow> bool \<Rightarrow> exported_version \<Rightarrow> object_version \<Rightarrow> bool" where
  "imported_row h now pid i recompute v r \<longleftrightarrow>
     ov_object r = i \<and> ov_number r = xv_number v \<and> ov_data r = xv_data v \<and> ov_at r = now \<and> ov_by r = pid \<and>
     ov_reason r = or_imported (xv_reason v) \<and>
     ov_checksum r = (if recompute then compute_checksum h (xv_data v) else xv_checksum v)"

lemma import_version_cases:
  "\<exists>s'. object_db s' = object_db s \<and> (\<exists>e. import_version h now pid i recompute v s = (Inl e, s')) \<or>
     (\<exists>r t. import_version h now pid i recompute v s = (Inr (), t) \<and> imported_row h now pid i recompute v r \<and>
        fits r (os_versions s) \<and> object_db t = (tn_objects s, os_versions s @ [r], os_tombstones s))"
proof (cases "import_version h now pid i recompute v s")
  case (Pair x t)
  then show ?thesis
    by (cases x)
      (auto simp: import_version_def bindS_fresh insert_object_version_def imported_row_def object_db_def fits_def list_ex_iff
        split: if_splits)
qed

lemma import_versions_spec:
  assumes "mapS (import_version h now pid i recompute) vs s = (x, t)"
  shows "\<exists>rs us. object_db t = (tn_objects s, os_versions s @ rs, os_tombstones s) \<and>
    list_all2 (imported_row h now pid i recompute) us rs \<and> (\<exists>ws. vs = us @ ws \<and> (ws = [] \<longleftrightarrow> \<not> isl x)) \<and>
    (distinct (map ov_id (os_versions s)) \<longrightarrow> distinct (map ov_id (os_versions s @ rs)))"
  using assms
proof (induction vs arbitrary: s x)
  case Nil
  then show ?case by (intro exI [of _ "[]"]) (auto simp: object_db_def)
next
  case (Cons v vs)
  consider s' e where "object_db s' = object_db s" "import_version h now pid i recompute v s = (Inl e, s')"
    | r t1 where "import_version h now pid i recompute v s = (Inr (), t1)" "imported_row h now pid i recompute v r"
      "fits r (os_versions s)" "object_db t1 = (tn_objects s, os_versions s @ [r], os_tombstones s)"
    using import_version_cases [of s h now pid i recompute v] by blast
  then show ?case
  proof cases
    case 1
    with Cons.prems have "x = Inl e" "t = s'" by (simp_all add: bindS_Inl)
    with 1(1) show ?thesis by (intro exI [of _ "[]"]) (auto simp: object_db_def)
  next
    case 2
    obtain x' where x': "mapS (import_version h now pid i recompute) vs t1 = (x', t)" "isl x' = isl x"
      using Cons.prems 2(1) by (cases "mapS (import_version h now pid i recompute) vs t1")
        (auto simp: bindS_Inr bindS_def split: sum.splits)
    from Cons.IH [OF x'(1)] obtain rs us ws where
      "object_db t = (tn_objects t1, os_versions t1 @ rs, os_tombstones t1)" "list_all2 (imported_row h now pid i recompute) us rs"
      "vs = us @ ws" "ws = [] \<longleftrightarrow> \<not> isl x'"
      "distinct (map ov_id (os_versions t1)) \<longrightarrow> distinct (map ov_id (os_versions t1 @ rs))" by blast
    moreover have "distinct (map ov_id (os_versions s)) \<Longrightarrow> distinct (map ov_id (os_versions t1))"
      using 2(3,4) by (auto simp: object_db_def fits_def)
    ultimately show ?thesis
      using 2(2,4) x'(2)
      by (intro exI [of _ "r # rs"] exI [of _ "v # us"] conjI exI [of _ ws]) (auto simp: object_db_def)
  qed
qed

definition imported_object :: "string \<Rightarrow> string \<Rightarrow> exported_object \<Rightarrow> string \<Rightarrow> object_row" where
  "imported_object now pid b i =
     \<lparr>ob_id = i, ob_owner = pid, ob_type = xo_type b, ob_lifecycle = Active,
      ob_version = length (xo_versions b), ob_created = now, ob_entry = None\<rparr>"

lemma import_object_spec:
  assumes "import_object h now pid recompute b s = (x, t)" "distinct (map ov_id (os_versions s))"
  shows "isl x \<and> object_db t = object_db s \<or>
    (\<exists>i rs us ws. i \<notin> ob_id ` set (tn_objects s) \<and> xo_versions b = us @ ws \<and> (ws = [] \<longleftrightarrow> x = Inr i) \<and> (x = Inr i \<or> isl x) \<and>
      object_db t = (tn_objects s @ [imported_object now pid b i], os_versions s @ rs, os_tombstones s) \<and>
      list_all2 (imported_row h now pid i recompute) us rs \<and> distinct (map ov_id (os_versions s @ rs)))"
proof -
  let ?i = "v_id h (w_next s)" and ?s1 = "s\<lparr>w_next := Suc (w_next s)\<rparr>"
  let ?c = "imported_object now pid b ?i"
  have run: "import_object h now pid recompute b s = bindS (insert_object h ?c) (\<lambda>_.
      bindS (mapS (import_version h now pid ?i recompute) (xo_versions b)) (\<lambda>_. returnS ?i)) ?s1"
    by (simp add: import_object_def bindS_fresh imported_object_def)
  show ?thesis
  proof (cases "fst (insert_object h ?c ?s1)")
    case (Inl e)
    then have "insert_object h ?c ?s1 = (Inl e, ?s1)" by (auto simp: insert_object_def split: if_splits)
    with assms(1) run have "x = Inl e" "t = ?s1" by (simp_all add: bindS_Inl)
    then show ?thesis by simp
  next
    case (Inr u)
    let ?s2 = "?s1\<lparr>tn_objects := tn_objects s @ [?c]\<rparr>"
    from Inr have ins: "insert_object h ?c ?s1 = (Inr (), ?s2)" and new: "?i \<notin> ob_id ` set (tn_objects s)"
      by (auto simp: insert_object_def list_ex_iff imported_object_def split: if_splits)
    obtain y t' where m: "mapS (import_version h now pid ?i recompute) (xo_versions b) ?s2 = (y, t')" by fastforce
    with assms(1) run ins have t: "t = t'" "x = (case y of Inl e \<Rightarrow> Inl e | Inr _ \<Rightarrow> Inr ?i)"
      by (auto simp: bindS_Inr bindS_def split: sum.splits)
    from import_versions_spec [OF m] assms(2) obtain rs us ws where
      "object_db t' = (tn_objects s @ [?c], os_versions s @ rs, os_tombstones s)"
      "list_all2 (imported_row h now pid ?i recompute) us rs" "xo_versions b = us @ ws" "ws = [] \<longleftrightarrow> \<not> isl y"
      "distinct (map ov_id (os_versions s @ rs))" by auto
    with new t show ?thesis
      by (intro disjI2 exI [of _ ?i] exI [of _ rs] exI [of _ us] exI [of _ ws]) (auto split: sum.splits)
  qed
qed

text \<open>The versions of an object in a well-formed store are in order.\<close>

lemma ordered_versions:
  assumes "objects_ok h (object_db s)" "b \<in> set (tn_objects s)"
  shows "sql_order False ov_number (versions_of (ob_id b) (os_versions s)) = versions_of (ob_id b) (os_versions s)"
proof -
  have "map ov_number (versions_of (ob_id b) (os_versions s)) = [1..<Suc (ob_version b)]"
    using assms by (simp add: objects_ok_def object_db_def numbered_def del: upt_Suc)
  then have "sorted (map ov_number (versions_of (ob_id b) (os_versions s)))" by (simp del: upt_Suc)
  then show ?thesis by (simp add: sql_order_def sort_key_sorted)
qed

lemma imported_numbers:
  "list_all2 (imported_row h now pid i recompute) vs rs \<Longrightarrow>
   map (\<lambda>r. (ov_number r, ov_data r)) rs = map (\<lambda>v. (xv_number v, xv_data v)) vs"
  by (induction rule: list_all2_induct) (auto simp: imported_row_def)

lemma imported_versions_of:
  "list_all2 (imported_row h now pid i recompute) vs rs \<Longrightarrow> versions_of i rs = rs \<and> (\<forall>j. j \<noteq> i \<longrightarrow> versions_of j rs = [])"
  by (induction rule: list_all2_induct) (auto simp: imported_row_def versions_of_def)

lemma imported_sealed: "list_all2 (imported_row h now pid i True) vs rs \<Longrightarrow> \<forall>r \<in> set rs. sealed h r \<and> ov_object r = i"
  by (induction rule: list_all2_induct) (auto simp: imported_row_def sealed_def)

text \<open>
  C27. An object exported from one well-formed store and imported into another, with checksums
  recomputed, has there, under an identifier that was free, the same version numbers with the same
  data, and the store it was imported into stays well-formed.
\<close>

theorem transfer_keeps_contents:
  assumes "objects_ok h (object_db s)" "export_one owner s oid = Some x"
    and "objects_ok h (object_db u)" "import_object h now pid True x u = (Inr i, t)"
  shows "objects_ok h (object_db t) \<and> i \<notin> ob_id ` set (tn_objects u) \<and>
    map (\<lambda>v. (ov_number v, ov_data v)) (versions_of i (os_versions t)) =
    map (\<lambda>v. (ov_number v, ov_data v)) (versions_of oid (os_versions s))"
proof -
  from export_one_Some [OF assms(2)] obtain b where b: "b \<in> set (tn_objects s)" "ob_id b = oid"
    and "xo_versions x = map export_version (sql_order False ov_number (versions_of oid (os_versions s)))" by blast
  with ordered_versions [OF assms(1) b(1)] have xs: "xo_versions x = map export_version (versions_of oid (os_versions s))"
    by simp
  have "numbered (os_versions s) b" using assms(1) b(1) by (simp add: objects_ok_def object_db_def)
  then have old: "map ov_number (versions_of oid (os_versions s)) = [1..<Suc (ob_version b)]"
    unfolding numbered_def b(2) .
  then have "length (versions_of oid (os_versions s)) = ob_version b" by (metis diff_Suc_1 length_map length_upt)
  with old have nums: "map xv_number (xo_versions x) = [1..<Suc (length (xo_versions x))]"
    unfolding xs by (simp add: export_version_def comp_def del: upt_Suc)
  have "distinct (map ov_id (os_versions u))" using assms(3) by (simp add: objects_ok_def object_db_def)
  from import_object_spec [OF assms(4) this] obtain rs where new: "i \<notin> ob_id ` set (tn_objects u)"
    and db: "object_db t = (tn_objects u @ [imported_object now pid x i], os_versions u @ rs, os_tombstones u)"
    and rows: "list_all2 (imported_row h now pid i True) (xo_versions x) rs"
    and ids: "distinct (map ov_id (os_versions u @ rs))" by auto
  have none: "versions_of i (os_versions u) = []" using no_versions [OF _ new] assms(3) by (simp add: object_db_def)
  note of_i = imported_versions_of [OF rows]
  have contents: "map (\<lambda>v. (ov_number v, ov_data v)) rs = map (\<lambda>v. (ov_number v, ov_data v)) (versions_of oid (os_versions s))"
    unfolding imported_numbers [OF rows] xs by (simp add: export_version_def)
  have "map ov_number rs = map xv_number (xo_versions x)"
    using arg_cong [OF imported_numbers [OF rows], of "map fst"] by (simp add: comp_def)
  with nums of_i none have "numbered (os_versions u @ rs) (imported_object now pid x i)"
    by (simp add: numbered_def imported_object_def del: upt_Suc)
  moreover have "numbered (os_versions u @ rs) c" if "c \<in> set (tn_objects u)" for c
    using assms(3) that of_i new by (auto simp: objects_ok_def object_db_def numbered_def simp del: upt_Suc)
  ultimately have "objects_ok h (object_db t)"
    using assms(3) new ids imported_sealed [OF rows] unfolding db
    by (auto simp: objects_ok_def object_db_def imported_object_def)
  moreover have "versions_of i (os_versions t) = rs" using db none of_i by (simp add: object_db_def)
  ultimately show ?thesis using new contents by simp
qed

text \<open>
  A failed import is not taken back: either nothing was written, or the object is there, active
  and owned by the importer, with fewer versions than the current version it claims.
\<close>

theorem failed_import_leaves_object:
  assumes "objects_ok h (object_db s)" "import_object h now pid recompute x s = (Inl e, t)"
  shows "object_db t = object_db s \<or>
    (\<exists>c. tn_objects t = tn_objects s @ [c] \<and> ob_owner c = pid \<and> ob_lifecycle c = Active \<and>
      length (versions_of (ob_id c) (os_versions t)) < ob_version c)"
proof (cases "object_db t = object_db s")
  case False
  have "distinct (map ov_id (os_versions s))" using assms(1) by (simp add: objects_ok_def object_db_def)
  from import_object_spec [OF assms(2) this] False obtain i rs us ws where
    new: "i \<notin> ob_id ` set (tn_objects s)" and split: "xo_versions x = us @ ws" "ws \<noteq> []"
    and db: "object_db t = (tn_objects s @ [imported_object now pid x i], os_versions s @ rs, os_tombstones s)"
    and rows: "list_all2 (imported_row h now pid i recompute) us rs" by auto
  have "versions_of i (os_versions s) = []" using no_versions [OF _ new] assms(1) by (simp add: object_db_def)
  with db imported_versions_of [OF rows] have "versions_of i (os_versions t) = rs" by (simp add: object_db_def)
  moreover have "length rs = length us" using rows by (simp add: list_all2_lengthD)
  ultimately have "length (versions_of i (os_versions t)) < length (xo_versions x)" using split by simp
  with db show ?thesis by (intro disjI2 exI [of _ "imported_object now pid x i"]) (simp add: imported_object_def object_db_def)
qed simp

lemma import_any_checksums:
  "mapS (import_version h now pid i True) (map (\<lambda>v. v\<lparr>xv_checksum := f v\<rparr>) vs) = mapS (import_version h now pid i True) vs"
  by (induction vs) (simp_all add: import_version_def)

text \<open>
  Recomputing does not verify: an import that recomputes checksums does the same whatever
  checksums the package carries, so altered data is stored with a fresh checksum that fits it.
\<close>

theorem import_ignores_checksums:
  "import_object h now pid True (x\<lparr>xo_versions := map (\<lambda>v. v\<lparr>xv_checksum := f v\<rparr>) (xo_versions x)\<rparr>) s =
   import_object h now pid True x s"
  by (simp add: import_object_def import_any_checksums)

section \<open>Witnesses\<close>

definition twice0 :: exported_object where
  "twice0 = \<lparr>xo_id = ''old'', xo_type = ''Doc'', xo_owner = ''bob'', xo_created = ''2023'', xo_lifecycle = ''ACTIVE'',
     xo_versions = [\<lparr>xv_number = 1, xv_data = [], xv_at = ''2023'', xv_by = ''bob'', xv_reason = '''', xv_checksum = ''''\<rparr>,
       \<lparr>xv_number = 1, xv_data = [], xv_at = ''2023'', xv_by = ''bob'', xv_reason = '''', xv_checksum = ''''\<rparr>]\<rparr>"

theorem failed_import_leaves_object_witness:
  "map (\<lambda>b. (ob_id b, ob_version b)) (tn_objects (snd (import_object v1_host0 ''2024'' ''ann'' True twice0 store0))) = [(''t0'', 2)] \<and>
   (\<exists>c. tn_objects (snd (import_object v1_host0 ''2024'' ''ann'' True twice0 store0)) = [c] \<and>
      length (versions_of (ob_id c) (os_versions (snd (import_object v1_host0 ''2024'' ''ann'' True twice0 store0)))) < ob_version c)"
proof
  let ?r = "import_object v1_host0 ''2024'' ''ann'' True twice0 store0"
  show run: "map (\<lambda>b. (ob_id b, ob_version b)) (tn_objects (snd ?r)) = [(''t0'', 2)]" by code_simp
  have "isl (fst ?r)" by code_simp
  then obtain e where e: "?r = (Inl e, snd ?r)" by (metis isl_def prod.collapse)
  have "object_db (snd ?r) \<noteq> object_db store0" using run by (auto simp: object_db_def store0_def)
  with failed_import_leaves_object [OF store0_ok e] show "\<exists>c. tn_objects (snd ?r) = [c] \<and>
      length (versions_of (ob_id c) (os_versions (snd ?r))) < ob_version c"
    by (auto simp: store0_def)
qed

definition shipped1 :: "(v1_error + string) \<times> object_store" where
  "shipped1 = import_object v1_host0 ''2025'' ''bob'' True (the (export_one ''ann'' (snd edited1) ''t0'')) (snd made1)"

theorem transfer_keeps_contents_witness:
  "map (\<lambda>v. (ov_number v, ov_data v)) (versions_of ''t2'' (os_versions (snd shipped1))) =
   [(1, [(''a'', JStr ''x''), (''b'', JInt 1)]), (2, [(''a'', JStr ''y''), (''c'', JNull)])]"
proof -
  have "fst shipped1 = Inr ''t2''" by code_simp
  then have run: "shipped1 = (Inr ''t2'', snd shipped1)" by (metis prod.collapse)
  have "export_one ''ann'' (snd edited1) ''t0'' \<noteq> None" by code_simp
  then have x: "export_one ''ann'' (snd edited1) ''t0'' = Some (the (export_one ''ann'' (snd edited1) ''t0''))" by simp
  have "object_steps v1_host0 manager0 store0 (snd edited1)"
    using rtranclp.rtrancl_into_rtrancl [OF object_sample_steps(1) do_update_object [of v1_host0 manager0 "snd made1"]]
    unfolding edited1_def .
  then have ok: "objects_ok v1_host0 (object_db (snd edited1))" "objects_ok v1_host0 (object_db (snd made1))"
    using object_run_ok [OF object_steps_run store0_ok] object_sample_steps(1) by blast+
  have "map (\<lambda>v. (ov_number v, ov_data v)) (versions_of ''t0'' (os_versions (snd edited1))) =
      [(1, [(''a'', JStr ''x''), (''b'', JInt 1)]), (2, [(''a'', JStr ''y''), (''c'', JNull)])]" by code_simp
  with transfer_keeps_contents [OF ok(1) x ok(2) run [unfolded shipped1_def]] show ?thesis
    by (simp add: shipped1_def)
qed

end
