(* ===== verification/V1_Secrets.thy ===== *)
theory V1_Secrets
  imports V1_Objects
begin

text \<open>
  \<open>legacy/v1/scoped/secrets\<close>: secrets with encrypted versions, references to them and policies
  (\<open>models.py\<close>, \<open>policy.py\<close>), the vault (\<open>vault.py\<close>), the encryption backends (\<open>backend.py\<close>) and
  the detection of leaked values (\<open>leak_detection.py\<close>).

  The vault works on the tables of the object manager, extended by its own. A row of a reference
  holds the lifecycle that \<open>ref_from_row\<close> reads: \<open>REVOKED\<close> is \<open>Archived\<close>. Encryption may be
  randomised, so it is given the number of identifiers drawn so far; encryption and decryption may
  raise. Whether a time is longer ago than a number of seconds is the parameter \<open>aged\<close>.
\<close>

section \<open>Encryption backends\<close>

record crypto =
  cy_algorithm :: string
  cy_encrypt :: "nat \<Rightarrow> string \<Rightarrow> string \<Rightarrow> v1_error + string"
  cy_decrypt :: "string \<Rightarrow> string \<Rightarrow> v1_error + string"

text \<open>\<open>InMemoryBackend\<close>: its keys and its counter.\<close>

record memory_backend =
  mk_keys :: "(string \<times> string) list"
  mk_counter :: nat

definition memory_empty :: memory_backend where
  "memory_empty = \<lparr>mk_keys = [], mk_counter = 0\<rparr>"

definition memory_generate_key :: "memory_backend \<Rightarrow> (string \<times> string) \<times> memory_backend" where
  "memory_generate_key m =
     (let n = mk_counter m + 1; key_id = ''test-key-'' @ show_nat n; material = ''material-'' @ show_nat n
      in ((key_id, material), m\<lparr>mk_counter := n, mk_keys := (key_id, material) # mk_keys m\<rparr>))"

definition memory_load_key :: "string \<Rightarrow> string \<Rightarrow> memory_backend \<Rightarrow> memory_backend" where
  "memory_load_key key_id material m = m\<lparr>mk_keys := (key_id, material) # mk_keys m\<rparr>"

definition memory_encrypt :: "memory_backend \<Rightarrow> string \<Rightarrow> string \<Rightarrow> v1_error + string" where
  "memory_encrypt m key_id plaintext =
     (if map_of (mk_keys m) key_id = None then Inl V1ValueError
      else Inr (''ENC:'' @ key_id @ '':'' @ plaintext))"

definition memory_decrypt :: "memory_backend \<Rightarrow> string \<Rightarrow> string \<Rightarrow> v1_error + string" where
  "memory_decrypt m key_id ciphertext =
     (let prefix = ''ENC:'' @ key_id @ '':''
      in if map_of (mk_keys m) key_id = None then Inl V1ValueError
         else if \<not> has_prefix prefix ciphertext then Inl V1ValueError
         else Inr (drop (length prefix) ciphertext))"

definition memory_crypto :: "memory_backend \<Rightarrow> crypto" where
  "memory_crypto m = \<lparr>cy_algorithm = ''plaintext-test'', cy_encrypt = (\<lambda>_. memory_encrypt m), cy_decrypt = memory_decrypt m\<rparr>"

text \<open>\<open>FernetBackend\<close>: the cipher itself is third-party code, given by two functions of the key.\<close>

definition fernet_crypto ::
  "(nat \<Rightarrow> string \<Rightarrow> string \<Rightarrow> string) \<Rightarrow> (string \<Rightarrow> string \<Rightarrow> v1_error + string) \<Rightarrow> (string \<times> string) list \<Rightarrow> crypto" where
  "fernet_crypto encrypt decrypt keys =
     \<lparr>cy_algorithm = ''fernet'',
      cy_encrypt = (\<lambda>n key_id p. case map_of keys key_id of None \<Rightarrow> Inl V1ValueError | Some k \<Rightarrow> Inr (encrypt n k p)),
      cy_decrypt = (\<lambda>key_id c. case map_of keys key_id of None \<Rightarrow> Inl V1ValueError | Some k \<Rightarrow> decrypt k c)\<rparr>"

section \<open>Models\<close>

datatype classification = Standard | Sensitive | Critical

fun classification_value :: "classification \<Rightarrow> string" where
  "classification_value Standard = ''standard''"
| "classification_value Sensitive = ''sensitive''"
| "classification_value Critical = ''critical''"

definition coerce_classification :: "string \<Rightarrow> v1_error + classification" where
  "coerce_classification s =
     (case find (\<lambda>c. classification_value c = s) [Standard, Sensitive, Critical] of
        None \<Rightarrow> Inl V1ValueError | Some c \<Rightarrow> Inr c)"

datatype access_result = Success | Denied | Expired

fun result_value :: "access_result \<Rightarrow> string" where
  "result_value Success = ''success''"
| "result_value Denied = ''denied''"
| "result_value Expired = ''expired''"

record secret =
  se_id :: string
  se_name :: string
  se_owner :: string
  se_object :: string
  se_created :: string
  se_version :: nat
  se_class :: classification
  se_description :: string
  se_expires :: "string option"
  se_rotated :: "string option"
  se_lifecycle :: lifecycle

definition secret_active :: "secret \<Rightarrow> bool" where
  "secret_active x \<longleftrightarrow> se_lifecycle x = Active"

definition secret_snapshot :: "secret \<Rightarrow> json" where
  "secret_snapshot x = JObj
     [(''id'', JStr (se_id x)), (''name'', JStr (se_name x)), (''owner_id'', JStr (se_owner x)),
      (''object_id'', JStr (se_object x)), (''current_version'', JInt (int (se_version x))),
      (''classification'', JStr (classification_value (se_class x))), (''description'', JStr (se_description x)),
      (''expires_at'', opt_str (se_expires x)), (''last_rotated_at'', opt_str (se_rotated x)),
      (''lifecycle'', JStr (lifecycle_name (se_lifecycle x))), (''created_at'', JStr (se_created x))]"

record secret_version =
  sn_id :: string
  sn_secret :: string
  sn_number :: nat
  sn_value :: string
  sn_algorithm :: string
  sn_key :: string
  sn_created :: string
  sn_by :: string
  sn_reason :: string

definition secret_version_snapshot :: "secret_version \<Rightarrow> json" where
  "secret_version_snapshot v = JObj
     [(''id'', JStr (sn_id v)), (''secret_id'', JStr (sn_secret v)), (''version'', JInt (int (sn_number v))),
      (''encryption_algo'', JStr (sn_algorithm v)), (''key_id'', JStr (sn_key v)),
      (''created_at'', JStr (sn_created v)), (''created_by'', JStr (sn_by v)), (''reason'', JStr (sn_reason v))]"

record secret_ref =
  rf_id :: string
  rf_secret :: string
  rf_token :: string
  rf_to :: string
  rf_at :: string
  rf_by :: string
  rf_scope :: "string option"
  rf_env :: "string option"
  rf_expires :: "string option"
  rf_lifecycle :: lifecycle

definition ref_active :: "secret_ref \<Rightarrow> bool" where
  "ref_active r \<longleftrightarrow> rf_lifecycle r = Active"

definition ref_expired :: "string \<Rightarrow> secret_ref \<Rightarrow> bool" where
  "ref_expired now r \<longleftrightarrow> (case rf_expires r of None \<Rightarrow> False | Some t \<Rightarrow> now \<ge> t)"

definition ref_snapshot :: "secret_ref \<Rightarrow> json" where
  "ref_snapshot r = JObj
     [(''id'', JStr (rf_id r)), (''secret_id'', JStr (rf_secret r)), (''ref_token'', JStr (rf_token r)),
      (''granted_to'', JStr (rf_to r)), (''scope_id'', opt_str (rf_scope r)), (''environment_id'', opt_str (rf_env r)),
      (''granted_at'', JStr (rf_at r)), (''granted_by'', JStr (rf_by r)), (''expires_at'', opt_str (rf_expires r)),
      (''lifecycle'', JStr (lifecycle_name (rf_lifecycle r)))]"

record secret_access =
  sx_id :: string
  sx_secret :: string
  sx_ref :: "string option"
  sx_accessor :: string
  sx_type :: string
  sx_at :: string
  sx_env :: "string option"
  sx_scope :: "string option"
  sx_result :: access_result

record secret_policy =
  sp_id :: string
  sp_created :: string
  sp_by :: string
  sp_secret :: "string option"
  sp_class :: "classification option"
  sp_max_age :: "int option"
  sp_auto :: bool
  sp_scopes :: "string list"
  sp_envs :: "string list"

section \<open>The state\<close>

record vault = object_store +
  vt_secrets :: "secret list"
  vt_versions :: "secret_version list"
  vt_refs :: "secret_ref list"
  vt_log :: "secret_access list"
  vt_policies :: "secret_policy list"

text \<open>What the vault was constructed with.\<close>

record ('c, 'v, 's) vault_services =
  vs_crypto :: crypto
  vs_default_key :: string
  vs_objects :: "('c, 'v, 's) object_services option"
  vs_policies :: bool

section \<open>Policies\<close>

definition validate_id_list :: "string list option \<Rightarrow> v1_error + string list" where
  "validate_id_list xs =
     (case xs of None \<Rightarrow> Inr []
      | Some ys \<Rightarrow> if [] \<in> set ys then Inl V1ValueError else Inr ys)"

definition insert_policy :: "v1_host \<Rightarrow> secret_policy \<Rightarrow> ('x vault_scheme, unit) sop" where
  "insert_policy h p s =
     (if list_ex (\<lambda>x. sp_id x = sp_id p) (vt_policies s) then (Inl (v_violation h IdTaken), s)
      else if (case sp_secret p of None \<Rightarrow> False | Some i \<Rightarrow> \<not> list_ex (\<lambda>x. se_id x = i) (vt_secrets s))
      then (Inl (v_violation h ForeignKeyMissing), s)
      else (Inr (), s\<lparr>vt_policies := vt_policies s @ [p]\<rparr>))"

definition create_policy ::
  "v1_host \<Rightarrow> string \<Rightarrow> string \<Rightarrow> string option \<Rightarrow> string option \<Rightarrow> int option \<Rightarrow> bool \<Rightarrow>
   string list option \<Rightarrow> string list option \<Rightarrow> ('x vault_scheme, secret_policy) sop" where
  "create_policy h now by secret_id cls max_age auto scopes envs =
     (if secret_id = None \<and> cls = None then raiseS V1ValueError
      else if (case max_age of None \<Rightarrow> False | Some n \<Rightarrow> n < 0) then raiseS V1ValueError
      else
        bindS (case cls of
                 None \<Rightarrow> returnS None
               | Some c \<Rightarrow> bindS (liftS (coerce_classification c)) (\<lambda>x. returnS (Some x))) (\<lambda>class.
        bindS (liftS (validate_id_list scopes)) (\<lambda>allowed_scopes.
        bindS (liftS (validate_id_list envs)) (\<lambda>allowed_envs.
        bindS (getS (\<lambda>s. case secret_id of None \<Rightarrow> True | Some i \<Rightarrow> list_ex (\<lambda>x. se_id x = i) (vt_secrets s))) (\<lambda>exists.
          if \<not> exists then raiseS V1ValueError
          else
            bindS (fresh_id h) (\<lambda>pid.
            let p = \<lparr>sp_id = pid, sp_created = now, sp_by = by, sp_secret = secret_id, sp_class = class,
                     sp_max_age = max_age, sp_auto = auto, sp_scopes = allowed_scopes, sp_envs = allowed_envs\<rparr>
            in bindS (insert_policy h p) (\<lambda>_. returnS p)))))))"

definition get_policy :: "string \<Rightarrow> ('x vault_scheme, secret_policy option) sop" where
  "get_policy pid = getS (\<lambda>s. find (\<lambda>p. sp_id p = pid) (vt_policies s))"

definition applies_to :: "secret \<Rightarrow> secret_policy \<Rightarrow> bool" where
  "applies_to x p \<longleftrightarrow> sp_secret p = Some (se_id x) \<or> sp_class p = Some (se_class x)"

definition policies_for :: "string \<Rightarrow> 'x vault_scheme \<Rightarrow> secret_policy list" where
  "policies_for secret_id s =
     (case find (\<lambda>x. se_id x = secret_id) (vt_secrets s) of
        None \<Rightarrow> []
      | Some x \<Rightarrow> sql_order False sp_created (filter (applies_to x) (vt_policies s)))"

definition check_scope_allowed :: "string \<Rightarrow> string \<Rightarrow> 'x vault_scheme \<Rightarrow> bool" where
  "check_scope_allowed secret_id scope_id s =
     list_all (\<lambda>p. sp_scopes p = [] \<or> scope_id \<in> set (sp_scopes p)) (policies_for secret_id s)"

definition check_env_allowed :: "string \<Rightarrow> string \<Rightarrow> 'x vault_scheme \<Rightarrow> bool" where
  "check_env_allowed secret_id env_id s =
     list_all (\<lambda>p. sp_envs p = [] \<or> env_id \<in> set (sp_envs p)) (policies_for secret_id s)"

definition needs_rotation :: "(string \<Rightarrow> int \<Rightarrow> bool) \<Rightarrow> string \<Rightarrow> 'x vault_scheme \<Rightarrow> bool" where
  "needs_rotation aged secret_id s =
     (case find (\<lambda>x. se_id x = secret_id) (vt_secrets s) of
        None \<Rightarrow> False
      | Some x \<Rightarrow>
          list_ex (\<lambda>p. case sp_max_age p of
                         None \<Rightarrow> False
                       | Some n \<Rightarrow> aged (case se_rotated x of None \<Rightarrow> se_created x | Some t \<Rightarrow> t) n)
            (policies_for secret_id s))"

definition list_policies :: "string option \<Rightarrow> nat \<Rightarrow> ('x vault_scheme, secret_policy list) sop" where
  "list_policies cls limit =
     getS (\<lambda>s. sql_limit (Some limit) 0 (sql_order False sp_created
       (filter (\<lambda>p. case cls of None \<Rightarrow> True | Some c \<Rightarrow> map_option classification_value (sp_class p) = Some c) (vt_policies s))))"

section \<open>Secrets: reading\<close>

definition get_secret :: "string \<Rightarrow> ('x vault_scheme, secret option) sop" where
  "get_secret secret_id = getS (\<lambda>s. find (\<lambda>x. se_id x = secret_id) (vt_secrets s))"

definition get_secret_or_raise :: "string \<Rightarrow> ('x vault_scheme, secret) sop" where
  "get_secret_or_raise secret_id =
     bindS (get_secret secret_id) (\<lambda>x. case x of None \<Rightarrow> raiseS SecretNotFound | Some y \<Rightarrow> returnS y)"

definition list_secrets ::
  "string option \<Rightarrow> string option \<Rightarrow> bool \<Rightarrow> nat \<Rightarrow> ('x vault_scheme, secret list) sop" where
  "list_secrets owner cls active_only limit =
     getS (\<lambda>s. sql_limit (Some limit) 0 (sql_order True se_created
       (filter (\<lambda>x. given owner (se_owner x) \<and> given cls (classification_value (se_class x)) \<and>
          (active_only \<longrightarrow> se_lifecycle x = Active)) (vt_secrets s))))"

definition get_secret_versions :: "string \<Rightarrow> ('x vault_scheme, secret_version list) sop" where
  "get_secret_versions secret_id =
     getS (\<lambda>s. sql_order True sn_number (filter (\<lambda>v. sn_secret v = secret_id) (vt_versions s)))"

definition get_secret_version :: "string \<Rightarrow> nat \<Rightarrow> ('x vault_scheme, secret_version option) sop" where
  "get_secret_version secret_id n =
     getS (\<lambda>s. find (\<lambda>v. sn_secret v = secret_id \<and> sn_number v = n) (vt_versions s))"

definition require_active_secret :: "string \<Rightarrow> string \<Rightarrow> bool \<Rightarrow> ('x vault_scheme, secret) sop" where
  "require_active_secret now secret_id allow_expired =
     bindS (get_secret_or_raise secret_id) (\<lambda>x.
       if \<not> secret_active x then raiseS SecretAccessDenied
       else if \<not> allow_expired \<and> (case se_expires x of None \<Rightarrow> False | Some t \<Rightarrow> now \<ge> t)
       then raiseS SecretAccessDenied
       else returnS x)"

section \<open>Secrets: writing\<close>

definition insert_secret :: "v1_host \<Rightarrow> secret \<Rightarrow> ('x vault_scheme, unit) sop" where
  "insert_secret h x s =
     (if list_ex (\<lambda>y. se_id y = se_id x) (vt_secrets s) then (Inl (v_violation h IdTaken), s)
      else if se_owner x \<notin> set (tn_principals s) \<or> \<not> list_ex (\<lambda>b. ob_id b = se_object x) (tn_objects s)
      then (Inl (v_violation h ForeignKeyMissing), s)
      else (Inr (), s\<lparr>vt_secrets := vt_secrets s @ [x]\<rparr>))"

definition insert_secret_version :: "v1_host \<Rightarrow> secret_version \<Rightarrow> ('x vault_scheme, unit) sop" where
  "insert_secret_version h v s =
     (if list_ex (\<lambda>y. sn_id y = sn_id v) (vt_versions s) then (Inl (v_violation h IdTaken), s)
      else if list_ex (\<lambda>y. sn_secret y = sn_secret v \<and> sn_number y = sn_number v) (vt_versions s)
      then (Inl (v_violation h KeyTaken), s)
      else if \<not> list_ex (\<lambda>y. se_id y = sn_secret v) (vt_secrets s) then (Inl (v_violation h ForeignKeyMissing), s)
      else (Inr (), s\<lparr>vt_versions := vt_versions s @ [v]\<rparr>))"

definition update_secret :: "string \<Rightarrow> (secret \<Rightarrow> secret) \<Rightarrow> ('x vault_scheme, unit) sop" where
  "update_secret secret_id f =
     modifyS (\<lambda>s. s\<lparr>vt_secrets := sql_update_where (\<lambda>x. se_id x = secret_id) f (vt_secrets s)\<rparr>)"

definition update_refs :: "(secret_ref \<Rightarrow> bool) \<Rightarrow> (secret_ref \<Rightarrow> secret_ref) \<Rightarrow> ('x vault_scheme, unit) sop" where
  "update_refs P f = modifyS (\<lambda>s. s\<lparr>vt_refs := sql_update_where P f (vt_refs s)\<rparr>)"

definition secret_request ::
  "string \<Rightarrow> string \<Rightarrow> string \<Rightarrow> string \<Rightarrow> json option \<Rightarrow> json option \<Rightarrow> trace_request" where
  "secret_request actor action ttype tid before after =
     \<lparr>rq_actor = actor, rq_action = action, rq_ttype = ttype, rq_tid = tid, rq_scope = None,
      rq_before = before, rq_after = after, rq_meta = [], rq_parent = None\<rparr>"

definition use_key :: "('c, 'v, 's) vault_services \<Rightarrow> string option \<Rightarrow> string" where
  "use_key vs key_id = or_default key_id (vs_default_key vs)"

definition encrypt ::
  "('c, 'v, 's) vault_services \<Rightarrow> string \<Rightarrow> string \<Rightarrow> ('x v1_state_scheme, string) sop" where
  "encrypt vs plaintext key = (\<lambda>s. (cy_encrypt (vs_crypto vs) (w_next s) key plaintext, s))"

text \<open>The rows of a new secret, after its backing object was created.\<close>

definition store_secret ::
  "v1_host \<Rightarrow> ('c, 'v, 's) vault_services \<Rightarrow> string \<Rightarrow> secret \<Rightarrow> string \<Rightarrow> string \<Rightarrow>
   ('x vault_scheme, secret \<times> secret_version) sop" where
  "store_secret h vs now x encrypted key =
     bindS (insert_secret h x) (\<lambda>_.
     bindS (fresh_id h) (\<lambda>vid.
     let v = \<lparr>sn_id = vid, sn_secret = se_id x, sn_number = 1, sn_value = encrypted,
              sn_algorithm = cy_algorithm (vs_crypto vs), sn_key = key, sn_created = now, sn_by = se_owner x,
              sn_reason = ''initial''\<rparr>
     in bindS (insert_secret_version h v) (\<lambda>_.
        bindS (audit_event h now
          (secret_request (se_owner x) ''secret_create'' ''secret'' (se_id x) None (Some (secret_snapshot x)))) (\<lambda>_.
          returnS (x, v)))))"

definition create_secret ::
  "v1_host \<Rightarrow> ('c, 'v, 'x vault_scheme) vault_services \<Rightarrow> string \<Rightarrow> (binding_target \<Rightarrow> int \<times> int) \<Rightarrow>
   string \<Rightarrow> string \<Rightarrow> string \<Rightarrow> string \<Rightarrow> string \<Rightarrow> string option \<Rightarrow> string option \<Rightarrow>
   ('x vault_scheme, secret \<times> secret_version) sop" where
  "create_secret h vs now ticks name plaintext owner description cls expires key_id =
     (case vs_objects vs of
        None \<Rightarrow> raiseS V1ValueError
      | Some sv \<Rightarrow>
          bindS (fresh_id h) (\<lambda>sid.
          bindS (liftS (coerce_classification cls)) (\<lambda>class.
          bindS (create h sv now ticks ''secret'' owner
                  (Inl [(''name'', JStr name), (''classification'', JStr cls)]) None ''created'' None) (\<lambda>(obj, _).
          bindS (encrypt vs plaintext (use_key vs key_id)) (\<lambda>encrypted.
            store_secret h vs now
              \<lparr>se_id = sid, se_name = name, se_owner = owner, se_object = ob_id obj, se_created = now, se_version = 1,
               se_class = class, se_description = description, se_expires = expires, se_rotated = None,
               se_lifecycle = Active\<rparr> encrypted (use_key vs key_id))))))"

definition archive_secret :: "v1_host \<Rightarrow> string \<Rightarrow> string \<Rightarrow> string \<Rightarrow> ('x vault_scheme, unit) sop" where
  "archive_secret h now secret_id actor =
     bindS (get_secret_or_raise secret_id) (\<lambda>x.
     bindS (update_secret secret_id (\<lambda>y. y\<lparr>se_lifecycle := Archived\<rparr>)) (\<lambda>_.
     bindS (update_refs (\<lambda>r. rf_secret r = secret_id) (\<lambda>r. r\<lparr>rf_lifecycle := Archived\<rparr>)) (\<lambda>_.
       audit_event h now (secret_request actor ''secret_revoke'' ''secret'' secret_id (Some (secret_snapshot x)) None))))"

definition rotate ::
  "v1_host \<Rightarrow> ('c, 'v, 's) vault_services \<Rightarrow> string \<Rightarrow> string \<Rightarrow> string \<Rightarrow> string \<Rightarrow> string \<Rightarrow> string option \<Rightarrow>
   ('x vault_scheme, secret_version) sop" where
  "rotate h vs now secret_id new_value by reason key_id =
     bindS (require_active_secret now secret_id False) (\<lambda>x.
     bindS (encrypt vs new_value (use_key vs key_id)) (\<lambda>encrypted.
     bindS (fresh_id h) (\<lambda>vid.
     let v = \<lparr>sn_id = vid, sn_secret = secret_id, sn_number = se_version x + 1, sn_value = encrypted,
              sn_algorithm = cy_algorithm (vs_crypto vs), sn_key = use_key vs key_id, sn_created = now, sn_by = by,
              sn_reason = reason\<rparr>
     in bindS (insert_secret_version h v) (\<lambda>_.
        bindS (update_secret secret_id (\<lambda>y. y\<lparr>se_version := sn_number v, se_rotated := Some now\<rparr>)) (\<lambda>_.
        bindS (audit_event h now
          (secret_request by ''secret_rotate'' ''secret'' secret_id None (Some (secret_version_snapshot v)))) (\<lambda>_.
          returnS v))))))"

section \<open>References\<close>

definition insert_ref :: "v1_host \<Rightarrow> secret_ref \<Rightarrow> ('x vault_scheme, unit) sop" where
  "insert_ref h r s =
     (if list_ex (\<lambda>y. rf_id y = rf_id r) (vt_refs s) then (Inl (v_violation h IdTaken), s)
      else if list_ex (\<lambda>y. rf_token y = rf_token r) (vt_refs s) then (Inl (v_violation h KeyTaken), s)
      else if \<not> list_ex (\<lambda>y. se_id y = rf_secret r) (vt_secrets s) \<or> rf_to r \<notin> set (tn_principals s)
      then (Inl (v_violation h ForeignKeyMissing), s)
      else (Inr (), s\<lparr>vt_refs := vt_refs s @ [r]\<rparr>))"

text \<open>What policies demand of the scope and the environment of a grant.\<close>

definition grant_policies ::
  "('c, 'v, 's) vault_services \<Rightarrow> string \<Rightarrow> string option \<Rightarrow> string option \<Rightarrow> 'x vault_scheme \<Rightarrow> v1_error + unit" where
  "grant_policies vs secret_id scope_id env_id s =
     (if \<not> vs_policies vs then Inr ()
      else if policies_for secret_id s = [] then Inr ()
      else
        bindE (if filter (\<lambda>xs. xs \<noteq> []) (map sp_scopes (policies_for secret_id s)) = [] then Inr ()
               else (case scope_id of
                       None \<Rightarrow> Inl SecretAccessDenied
                     | Some x \<Rightarrow> if check_scope_allowed secret_id x s then Inr () else Inl SecretAccessDenied)) (\<lambda>_.
        if filter (\<lambda>xs. xs \<noteq> []) (map sp_envs (policies_for secret_id s)) = [] then Inr ()
        else (case env_id of
                None \<Rightarrow> Inl SecretAccessDenied
              | Some x \<Rightarrow> if check_env_allowed secret_id x s then Inr () else Inl SecretAccessDenied)))"

definition grant_ref ::
  "v1_host \<Rightarrow> ('c, 'v, 's) vault_services \<Rightarrow> string \<Rightarrow> string \<Rightarrow> string \<Rightarrow> string \<Rightarrow>
   string option \<Rightarrow> string option \<Rightarrow> string option \<Rightarrow> ('x vault_scheme, secret_ref) sop" where
  "grant_ref h vs now secret_id granted_to granted_by scope_id env_id expires =
     bindS (require_active_secret now secret_id False) (\<lambda>_.
     bindS (\<lambda>s. (grant_policies vs secret_id scope_id env_id s, s)) (\<lambda>_.
     bindS (fresh_id h) (\<lambda>rid.
     bindS (fresh_id h) (\<lambda>token.
     let r = \<lparr>rf_id = rid, rf_secret = secret_id, rf_token = token, rf_to = granted_to, rf_at = now, rf_by = granted_by,
              rf_scope = scope_id, rf_env = env_id, rf_expires = expires, rf_lifecycle = Active\<rparr>
     in bindS (insert_ref h r) (\<lambda>_.
        bindS (audit_event h now
          (secret_request granted_by ''secret_ref_grant'' ''secret_ref'' rid None (Some (ref_snapshot r)))) (\<lambda>_.
          returnS r))))))"

definition revoke_ref :: "v1_host \<Rightarrow> string \<Rightarrow> string \<Rightarrow> string \<Rightarrow> ('x vault_scheme, unit) sop" where
  "revoke_ref h now ref_id by =
     bindS (update_refs (\<lambda>r. rf_id r = ref_id) (\<lambda>r. r\<lparr>rf_lifecycle := Archived\<rparr>)) (\<lambda>_.
       audit_event h now (secret_request by ''secret_revoke'' ''secret_ref'' ref_id None None))"

definition get_ref :: "string \<Rightarrow> ('x vault_scheme, secret_ref option) sop" where
  "get_ref ref_id = getS (\<lambda>s. find (\<lambda>r. rf_id r = ref_id) (vt_refs s))"

definition get_ref_by_token :: "string \<Rightarrow> ('x vault_scheme, secret_ref option) sop" where
  "get_ref_by_token token = getS (\<lambda>s. find (\<lambda>r. rf_token r = token) (vt_refs s))"

definition list_refs :: "string \<Rightarrow> bool \<Rightarrow> ('x vault_scheme, secret_ref list) sop" where
  "list_refs secret_id active_only =
     getS (\<lambda>s. filter (\<lambda>r. rf_secret r = secret_id \<and> (active_only \<longrightarrow> rf_lifecycle r = Active)) (vt_refs s))"

section \<open>Resolution\<close>

definition log_access ::
  "v1_host \<Rightarrow> string \<Rightarrow> secret_ref \<Rightarrow> string \<Rightarrow> string option \<Rightarrow> string option \<Rightarrow> access_result \<Rightarrow> ('x vault_scheme, unit) sop" where
  "log_access h now r accessor scope_id env_id result =
     bindS (fresh_id h) (\<lambda>aid s.
       if list_ex (\<lambda>x. sx_id x = aid) (vt_log s) then (Inl (v_violation h IdTaken), s)
       else if \<not> list_ex (\<lambda>y. se_id y = rf_secret r) (vt_secrets s) \<or> accessor \<notin> set (tn_principals s)
       then (Inl (v_violation h ForeignKeyMissing), s)
       else (Inr (), s\<lparr>vt_log := vt_log s @
              [\<lparr>sx_id = aid, sx_secret = rf_secret r, sx_ref = Some (rf_id r), sx_accessor = accessor, sx_type = ''resolve'',
                sx_at = now, sx_env = env_id, sx_scope = scope_id, sx_result = result\<rparr>]\<rparr>))"

text \<open>The checks of the reference, in their order: the outcome that is logged and what is raised.\<close>

definition ref_refusal ::
  "string \<Rightarrow> secret_ref \<Rightarrow> string \<Rightarrow> string option \<Rightarrow> string option \<Rightarrow> (access_result \<times> v1_error) option" where
  "ref_refusal now r accessor scope_id env_id =
     (if \<not> ref_active r then Some (Denied, SecretAccessDenied)
      else if ref_expired now r then Some (Expired, SecretRefExpired)
      else if rf_to r \<noteq> accessor then Some (Denied, SecretAccessDenied)
      else if rf_scope r \<noteq> None \<and> scope_id \<noteq> rf_scope r then Some (Denied, SecretAccessDenied)
      else if rf_env r \<noteq> None \<and> env_id \<noteq> rf_env r then Some (Denied, SecretAccessDenied)
      else None)"

definition resolve_policies ::
  "('c, 'v, 's) vault_services \<Rightarrow> string \<Rightarrow> string option \<Rightarrow> string option \<Rightarrow> 'x vault_scheme \<Rightarrow> v1_error + unit" where
  "resolve_policies vs secret_id scope_id env_id s =
     (if \<not> vs_policies vs then Inr ()
      else if policies_for secret_id s = [] then Inr ()
      else if list_ex (\<lambda>p. sp_scopes p \<noteq> []) (policies_for secret_id s)
        \<and> (case scope_id of None \<Rightarrow> True | Some x \<Rightarrow> \<not> check_scope_allowed secret_id x s)
      then Inl SecretAccessDenied
      else if list_ex (\<lambda>p. sp_envs p \<noteq> []) (policies_for secret_id s)
        \<and> (case env_id of None \<Rightarrow> True | Some x \<Rightarrow> \<not> check_env_allowed secret_id x s)
      then Inl SecretAccessDenied
      else Inr ())"

definition resolve ::
  "v1_host \<Rightarrow> ('c, 'v, 's) vault_services \<Rightarrow> string \<Rightarrow> string \<Rightarrow> string \<Rightarrow> string option \<Rightarrow> string option \<Rightarrow>
   ('x vault_scheme, string) sop" where
  "resolve h vs now token accessor scope_id env_id =
     bindS (get_ref_by_token token) (\<lambda>row.
       case row of
         None \<Rightarrow> raiseS SecretAccessDenied
       | Some r \<Rightarrow>
           (case ref_refusal now r accessor scope_id env_id of
              Some (result, e) \<Rightarrow> bindS (log_access h now r accessor scope_id env_id result) (\<lambda>_. raiseS e)
            | None \<Rightarrow>
                bindS (require_active_secret now (rf_secret r) False) (\<lambda>x.
                bindS (\<lambda>s. (resolve_policies vs (rf_secret r) scope_id env_id s, s)) (\<lambda>_.
                bindS (get_secret_version (rf_secret r) (se_version x)) (\<lambda>ver.
                  case ver of
                    None \<Rightarrow> raiseS SecretNotFound
                  | Some v \<Rightarrow>
                      bindS (liftS (cy_decrypt (vs_crypto vs) (sn_key v) (sn_value v))) (\<lambda>plaintext.
                      bindS (log_access h now r accessor scope_id env_id Success) (\<lambda>_.
                      bindS (audit_event h now
                        (secret_request accessor ''secret_ref_resolve'' ''secret'' (rf_secret r) None None)) (\<lambda>_.
                        returnS plaintext))))))))"

definition get_access_log :: "string \<Rightarrow> nat \<Rightarrow> ('x vault_scheme, secret_access list) sop" where
  "get_access_log secret_id limit =
     getS (\<lambda>s. sql_limit (Some limit) 0 (sql_order True sx_at (filter (\<lambda>x. sx_secret x = secret_id) (vt_log s))))"

section \<open>Leaked values\<close>

definition known_values :: "crypto \<Rightarrow> 'x vault_scheme \<Rightarrow> string list" where
  "known_values c s =
     remdups (concat (map (\<lambda>v. case cy_decrypt c (sn_key v) (sn_value v) of Inl _ \<Rightarrow> [] | Inr p \<Rightarrow> [p])
       (filter (\<lambda>v. list_ex (\<lambda>x. se_id x = sn_secret v \<and> se_version x = sn_number v \<and> se_lifecycle x = Active)
          (vt_secrets s)) (vt_versions s))))"

text \<open>The paths of the values that contain a known one.\<close>

fun scan_value :: "string list \<Rightarrow> string \<Rightarrow> json \<Rightarrow> string list"
  and scan_items :: "string list \<Rightarrow> string \<Rightarrow> nat \<Rightarrow> json list \<Rightarrow> string list"
  and scan_members :: "string list \<Rightarrow> string \<Rightarrow> (string \<times> json) list \<Rightarrow> string list" where
  "scan_value known prefix (JStr s) =
     (if list_ex (\<lambda>v. v \<noteq> [] \<and> has_infix v s) known then [if prefix = [] then ''<root>'' else prefix] else [])"
| "scan_value known prefix (JObj m) = scan_members known prefix m"
| "scan_value known prefix (JArr xs) = scan_items known prefix 0 xs"
| "scan_value known prefix JNull = []"
| "scan_value known prefix (JBool b) = []"
| "scan_value known prefix (JInt i) = []"
| "scan_items known prefix n [] = []"
| "scan_items known prefix n (x # xs) =
     scan_value known (prefix @ ''['' @ show_nat n @ '']'') x @ scan_items known prefix (Suc n) xs"
| "scan_members known prefix [] = []"
| "scan_members known prefix (kv # m) =
     scan_value known (if prefix = [] then fst kv else prefix @ ''.'' @ fst kv) (snd kv) @ scan_members known prefix m"

definition scan_data :: "crypto \<Rightarrow> metadata \<Rightarrow> string list option \<Rightarrow> 'x vault_scheme \<Rightarrow> string list" where
  "scan_data c data known s =
     (let values = (case known of None \<Rightarrow> known_values c s | Some vs \<Rightarrow> vs)
      in if values = [] then [] else scan_value values '''' (JObj data))"

definition scan_or_raise :: "crypto \<Rightarrow> metadata \<Rightarrow> string list option \<Rightarrow> ('x vault_scheme, unit) sop" where
  "scan_or_raise c data known =
     bindS (getS (scan_data c data known)) (\<lambda>leaks. if leaks \<noteq> [] then raiseS SecretLeakDetected else returnS ())"

end
