(* ===== verification/V1_Secrets_Facts.thy ===== *)
theory V1_Secrets_Facts
  imports V1_Secrets V1_Objects_Facts
begin

text \<open>
  The law of encryption backends and its instances; the abstract machine of secrets, their versions
  and references; and what the vault keeps. Between a check and the write it permits the vault only
  reads, encrypts and draws identifiers, so the write happens in a state with the same tables.
\<close>

section \<open>Encryption\<close>

locale secret_backend =
  fixes c :: crypto
  assumes decrypt_encrypt: "cy_encrypt c n key plaintext = Inr e \<Longrightarrow> cy_decrypt c key e = Inr plaintext"

lemma prefix_append [simp]: "has_prefix (p @ q) (p @ s) = has_prefix q s"
  by (induction p) auto

interpretation memory: secret_backend "memory_crypto m" for m
  by unfold_locales
    (auto simp: memory_crypto_def memory_encrypt_def memory_decrypt_def Let_def
      split: if_splits)

lemma fernet_backend:
  assumes "\<And>n k p. dec k (enc n k p) = Inr p"
  shows "secret_backend (fernet_crypto enc dec keys)"
  by unfold_locales (auto simp: fernet_crypto_def assms split: option.splits)

section \<open>The abstract machine\<close>

type_synonym vault_db = "secret list \<times> secret_version list \<times> secret_ref list"

definition vault_db :: "'x vault_scheme \<Rightarrow> vault_db" where
  "vault_db s = (vt_secrets s, vt_versions s, vt_refs s)"

abbreviation find_secret :: "string \<Rightarrow> secret list \<Rightarrow> secret option" where
  "find_secret i \<equiv> find (\<lambda>x. se_id x = i)"

abbreviation set_secret :: "string \<Rightarrow> (secret \<Rightarrow> secret) \<Rightarrow> secret list \<Rightarrow> secret list" where
  "set_secret i f \<equiv> sql_update_where (\<lambda>x. se_id x = i) f"

abbreviation close_refs :: "(secret_ref \<Rightarrow> bool) \<Rightarrow> secret_ref list \<Rightarrow> secret_ref list" where
  "close_refs P \<equiv> sql_update_where P (\<lambda>r. r\<lparr>rf_lifecycle := Archived\<rparr>)"

definition secret_fits :: "secret_version \<Rightarrow> secret_version list \<Rightarrow> bool" where
  "secret_fits v vs \<longleftrightarrow> (\<forall>x \<in> set vs. (sn_secret x, sn_number x) \<noteq> (sn_secret v, sn_number v))"

text \<open>
  \<open>first_stored\<close> is the second write of a creation: between the two the secret has no version.
\<close>

inductive vault_change :: "vault_db \<Rightarrow> vault_db \<Rightarrow> bool" where
  secret_stored: "\<forall>y \<in> set xs. se_id y \<noteq> se_id x \<Longrightarrow> se_version x = 1 \<Longrightarrow> se_lifecycle x = Active \<Longrightarrow>
    vault_change (xs, vs, rs) (xs @ [x], vs, rs)"
| first_stored: "sn_number v = 1 \<Longrightarrow> \<exists>x \<in> set xs. se_id x = sn_secret v \<Longrightarrow> secret_fits v vs \<Longrightarrow>
    vault_change (xs, vs, rs) (xs, vs @ [v], rs)"
| secret_rotated: "find_secret (sn_secret v) xs = Some x \<Longrightarrow> se_lifecycle x = Active \<Longrightarrow> sn_number v = Suc (se_version x) \<Longrightarrow>
    secret_fits v vs \<Longrightarrow>
    vault_change (xs, vs, rs)
      (set_secret (sn_secret v) (\<lambda>y. y\<lparr>se_version := sn_number v, se_rotated := Some now\<rparr>) xs, vs @ [v], rs)"
| secret_archived: "vault_change (xs, vs, rs)
    (set_secret i (\<lambda>y. y\<lparr>se_lifecycle := Archived\<rparr>) xs, vs, close_refs (\<lambda>r. rf_secret r = i) rs)"
| ref_granted: "find_secret (rf_secret r) xs = Some x \<Longrightarrow> se_lifecycle x = Active \<Longrightarrow> rf_lifecycle r = Active \<Longrightarrow>
    \<forall>y \<in> set rs. rf_token y \<noteq> rf_token r \<and> rf_id y \<noteq> rf_id r \<Longrightarrow> vault_change (xs, vs, rs) (xs, vs, rs @ [r])"
| ref_revoked: "vault_change (xs, vs, rs) (xs, vs, close_refs (\<lambda>r. rf_id r = i) rs)"

abbreviation vault_run :: "vault_db \<Rightarrow> vault_db \<Rightarrow> bool" where
  "vault_run \<equiv> vault_change\<^sup>*\<^sup>*"

definition vault_from :: "vault_db \<Rightarrow> 'x vault_scheme \<Rightarrow> bool" where
  "vault_from x s \<longleftrightarrow> vault_run x (vault_db s)"

lemma vault_db_more: "v1_state.more s = v1_state.more t \<Longrightarrow> vault_db s = vault_db t"
  by (cases s, cases t) (simp add: vault_db_def)

lemma vault_from_step: "vault_from x s \<Longrightarrow> vault_change (vault_db s) (vault_db t) \<Longrightarrow> vault_from x t"
  unfolding vault_from_def by (rule rtranclp.rtrancl_into_rtrancl)

lemma vault_db_store [simp]:
  fixes s :: "'x vault_scheme"
  shows "vault_db (tn_members_update f1 s) = vault_db s" "vault_db (tn_scopes_update f2 s) = vault_db s"
    "vault_db (tn_projections_update f3 s) = vault_db s" "vault_db (engine_put e s) = vault_db s"
    "vault_db (tn_objects_update f4 s) = vault_db s" "vault_db (os_versions_update f5 s) = vault_db s"
    "vault_db (os_tombstones_update f6 s) = vault_db s" "vault_db (w_next_update f7 s) = vault_db s"
    "vault_db (vt_log_update f8 s) = vault_db s" "vault_db (vt_policies_update f9 s) = vault_db s"
  by (simp_all add: vault_db_def engine_put_def)

interpretation vault_fixed: object_invariant h "\<lambda>s. vault_db s = c" for h c
  by (rule object_of_column [of vault_db]) (erule vault_db_more, simp_all)

section \<open>Reading\<close>

lemma reads_vault [reads_intros]:
  "reads (get_secret i1)" "reads (get_secret_or_raise i2)" "reads (require_active_secret now i3 ex)"
  "reads (get_secret_version i4 n)" "reads (get_ref_by_token tok)" "reads (encrypt vs p k)"
  unfolding get_secret_def get_secret_or_raise_def require_active_secret_def get_secret_version_def
    get_ref_by_token_def encrypt_def
  by (intro reads_intros; fail | simp add: reads_def)+

lemma reads_state [reads_intros]: "reads (\<lambda>s. (f s, s))"
  by (simp add: reads_def)

lemma bindS_state: "bindS (\<lambda>s. (f s, s)) k s = (case f s of Inl e \<Rightarrow> (Inl e, s) | Inr x \<Rightarrow> k x s)"
  by (simp add: bindS_def split: sum.splits)

lemmas keeps_vault_reads [keeps_intros] = reads_vault [THEN keeps_reads] reads_state [THEN keeps_reads]

lemma get_secret_or_raise_cases: "get_secret_or_raise i s =
    (case find_secret i (vt_secrets s) of None \<Rightarrow> Inl SecretNotFound | Some x \<Rightarrow> Inr x, s)"
  by (simp add: get_secret_or_raise_def get_secret_def split: option.splits)

lemma require_active_Inr: "require_active_secret now i ex s = (Inr x, t) \<longleftrightarrow> t = s \<and>
    find_secret i (vt_secrets s) = Some x \<and> se_lifecycle x = Active \<and>
    (\<not> ex \<longrightarrow> (\<forall>e. se_expires x = Some e \<longrightarrow> now < e))"
  by (auto simp: require_active_secret_def bindS_reads [OF reads_vault(2)] get_secret_or_raise_cases secret_active_def
      split: option.splits if_splits)

lemma insert_version_Inr: "insert_secret_version h v s = (Inr u, t) \<longleftrightarrow>
    (\<forall>x \<in> set (vt_versions s). sn_id x \<noteq> sn_id v) \<and> secret_fits v (vt_versions s) \<and>
    sn_secret v \<in> se_id ` set (vt_secrets s) \<and> t = s\<lparr>vt_versions := vt_versions s @ [v]\<rparr>"
  by (auto simp: insert_secret_version_def secret_fits_def list_ex_iff intro: rev_image_eqI split: if_splits)

lemma insert_ref_Inr: "insert_ref h r s = (Inr u, t) \<longleftrightarrow>
    (\<forall>y \<in> set (vt_refs s). rf_token y \<noteq> rf_token r \<and> rf_id y \<noteq> rf_id r) \<and>
    rf_secret r \<in> se_id ` set (vt_secrets s) \<and> rf_to r \<in> set (tn_principals s) \<and>
    t = s\<lparr>vt_refs := vt_refs s @ [r]\<rparr>"
  by (auto simp: insert_ref_def list_ex_iff intro: rev_image_eqI split: if_splits)

lemma bindS_draw: "bindS (fresh_id h) f s = f (v_id h (w_next s)) (s\<lparr>w_next := Suc (w_next s)\<rparr>)"
  by (simp add: bindS_def fresh_id_def)

lemma insert_Inl:
  "insert_secret_version h v s = (Inl e, t) \<Longrightarrow> t = s" "insert_ref h r s = (Inl e, t) \<Longrightarrow> t = s"
  by (auto simp: insert_secret_version_def insert_ref_def split: if_splits)

section \<open>Invariants of the vault\<close>

locale vault_invariant = object_invariant h I
  for h :: v1_host and I :: "'x vault_scheme \<Rightarrow> bool" +
  assumes inv_secret: "se_version x = 1 \<Longrightarrow> se_lifecycle x = Active \<Longrightarrow> keeps I (insert_secret h x)"
    and inv_first: "sn_number v = 1 \<Longrightarrow> keeps I (insert_secret_version h v)"
    and inv_rotated: "I s \<Longrightarrow> find_secret (sn_secret v) (vt_secrets s) = Some x \<Longrightarrow> se_lifecycle x = Active \<Longrightarrow>
        sn_number v = Suc (se_version x) \<Longrightarrow> insert_secret_version h v s = (Inr u, t) \<Longrightarrow>
        I (t\<lparr>vt_secrets := set_secret (sn_secret v) (\<lambda>y. y\<lparr>se_version := sn_number v, se_rotated := Some now\<rparr>) (vt_secrets t)\<rparr>)"
    and inv_archived: "I s \<Longrightarrow>
        I (s\<lparr>vt_secrets := set_secret i (\<lambda>y. y\<lparr>se_lifecycle := Archived\<rparr>) (vt_secrets s),
             vt_refs := close_refs (\<lambda>r. rf_secret r = i) (vt_refs s)\<rparr>)"
    and inv_granted: "I s \<Longrightarrow> find_secret (rf_secret r) (vt_secrets s) = Some x \<Longrightarrow> se_lifecycle x = Active \<Longrightarrow>
        rf_lifecycle r = Active \<Longrightarrow> insert_ref h r s = (Inr u, t) \<Longrightarrow> I t"
    and inv_revoked: "I s \<Longrightarrow> I (s\<lparr>vt_refs := close_refs (\<lambda>r. rf_id r = i) (vt_refs s)\<rparr>)"
    and inv_log: "keeps I (log_access h now r accessor scope_id env_id result)"
    and inv_policy: "keeps I (insert_policy h p)"
begin

lemma keeps_create_policy: "keeps I (create_policy h now by i cls age auto scopes envs)"
  unfolding create_policy_def Let_def by (intro keeps_intros inv_fresh inv_policy)

lemma keeps_store_secret: "se_version x = 1 \<Longrightarrow> se_lifecycle x = Active \<Longrightarrow> keeps I (store_secret h vs now x e k)"
  unfolding store_secret_def Let_def by (intro keeps_intros inv_secret inv_fresh inv_first inv_record) simp_all

lemma keeps_create_secret: "keeps I (create_secret h vs now ticks name p owner desc cls exp key)"
  unfolding create_secret_def by (intro keeps_intros inv_fresh keeps_create keeps_store_secret) simp_all

lemma keeps_archive_secret: "keeps I (archive_secret h now i actor)"
proof -
  have "keeps I (bindS (update_secret i (\<lambda>y. y\<lparr>se_lifecycle := Archived\<rparr>)) (\<lambda>_.
      bindS (update_refs (\<lambda>r. rf_secret r = i) (\<lambda>r. r\<lparr>rf_lifecycle := Archived\<rparr>)) (\<lambda>_. audit_event h now rq)))" for rq
    unfolding keeps_def update_secret_def update_refs_def
    using keeps_snd [OF inv_record inv_archived] by simp
  then show ?thesis unfolding archive_secret_def by (rule keeps_bind [OF keeps_reads [OF reads_vault(2)]])
qed

lemma keeps_revoke_ref: "keeps I (revoke_ref h now i by)"
  unfolding revoke_ref_def update_refs_def by (intro keeps_intros inv_record inv_revoked)

text \<open>What follows a check of the secret: identifiers are drawn, the tables are the same.\<close>

lemma fresh_vault:
  assumes "I t" and k: "\<And>i v. I v \<Longrightarrow> vault_db v = vault_db t \<Longrightarrow> I (snd (k i v))"
  shows "I (snd (bindS (fresh_id h) k t))"
  by (rule keeps_under [where J = "\<lambda>v. vault_db v = vault_db t" and I = I,
        OF inv_fresh vault_fixed.inv_fresh assms(1) refl]) (rule k)

lemma keeps_rotate: "keeps I (rotate h vs now i value by reason key)"
  unfolding keeps_def
proof (intro allI impI)
  fix s :: "'x vault_scheme"
  assume s: "I s"
  show "I (snd (rotate h vs now i value by reason key s))"
  proof (cases "require_active_secret now i False s")
    case (Pair r s')
    show ?thesis
    proof (cases r)
      case (Inl e)
      moreover have "s' = s" using Pair reads_vault(3) by (metis reads_def snd_conv)
      ultimately show ?thesis using Pair s by (simp add: rotate_def bindS_Inl)
    next
      case (Inr x)
      with Pair have x: "s' = s" "find_secret i (vt_secrets s) = Some x" "se_lifecycle x = Active"
        by (simp_all add: require_active_Inr)
      have "I (snd (bindS (fresh_id h) (\<lambda>vid. bindS (insert_secret_version h (v vid))
          (\<lambda>_. bindS (update_secret i (\<lambda>y. y\<lparr>se_version := sn_number (v vid), se_rotated := Some now\<rparr>))
          (\<lambda>_. bindS (audit_event h now (rq vid)) (\<lambda>_. returnS (v vid))))) s))"
        if v: "\<And>vid. sn_secret (v vid) = i \<and> sn_number (v vid) = Suc (se_version x)" for v rq
      proof (rule fresh_vault [OF s])
        fix vid w assume w: "I w" "vault_db w = vault_db s"
        then have "find_secret i (vt_secrets w) = Some x" using x by (simp add: vault_db_def)
        with inv_rotated [OF w(1), of "v vid" x] x(3) v
        have "insert_secret_version h (v vid) w = (Inr u, t) \<Longrightarrow>
            I (t\<lparr>vt_secrets := set_secret i (\<lambda>y. y\<lparr>se_version := sn_number (v vid), se_rotated := Some now\<rparr>) (vt_secrets t)\<rparr>)"
          for u t by metis
        then show "I (snd (bindS (insert_secret_version h (v vid))
            (\<lambda>_. bindS (update_secret i (\<lambda>y. y\<lparr>se_version := sn_number (v vid), se_rotated := Some now\<rparr>))
            (\<lambda>_. bindS (audit_event h now (rq vid)) (\<lambda>_. returnS (v vid)))) w))"
          using w(1) by (cases "insert_secret_version h (v vid) w"; cases "fst (insert_secret_version h (v vid) w)")
            (auto simp: bindS_Inl bindS_Inr update_secret_def dest: insert_Inl
              intro!: keeps_snd [OF keeps_bind [OF inv_record keeps_basic(1)]])
      qed
      then show ?thesis
        using Pair Inr x s by (cases "cy_encrypt (vs_crypto vs) (w_next s) (use_key vs key) value")
          (simp_all add: rotate_def bindS_Inr encrypt_def bindS_state Let_def)
    qed
  qed
qed

lemma keeps_grant_ref: "keeps I (grant_ref h vs now i to by scope_id env_id exp)"
  unfolding keeps_def
proof (intro allI impI)
  fix s :: "'x vault_scheme"
  assume s: "I s"
  show "I (snd (grant_ref h vs now i to by scope_id env_id exp s))"
  proof (cases "require_active_secret now i False s")
    case (Pair r s')
    show ?thesis
    proof (cases r)
      case (Inl e)
      moreover have "s' = s" using Pair reads_vault(3) by (metis reads_def snd_conv)
      ultimately show ?thesis using Pair s by (simp add: grant_ref_def bindS_Inl)
    next
      case (Inr x)
      with Pair have x: "s' = s" "find_secret i (vt_secrets s) = Some x" "se_lifecycle x = Active"
        by (simp_all add: require_active_Inr)
      have "I (snd (bindS (fresh_id h) (\<lambda>rid. bindS (fresh_id h) (\<lambda>token. bindS (insert_ref h (r rid token))
          (\<lambda>_. bindS (audit_event h now (rq rid token)) (\<lambda>_. returnS (r rid token))))) s))"
        if r: "\<And>rid token. rf_secret (r rid token) = i \<and> rf_lifecycle (r rid token) = Active" for r rq
      proof (rule fresh_vault [OF s], rule fresh_vault)
        fix rid v token w assume w: "vault_db v = vault_db s" "I w" "vault_db w = vault_db v"
        then have "find_secret i (vt_secrets w) = Some x" using x by (simp add: vault_db_def)
        with inv_granted [OF w(2), of "r rid token" x] x(3) r
        have "insert_ref h (r rid token) w = (Inr u, t) \<Longrightarrow> I t" for u t by metis
        then show "I (snd (bindS (insert_ref h (r rid token))
            (\<lambda>_. bindS (audit_event h now (rq rid token)) (\<lambda>_. returnS (r rid token))) w))"
          using w(2) by (cases "insert_ref h (r rid token) w"; cases "fst (insert_ref h (r rid token) w)")
            (auto simp: bindS_Inl bindS_Inr dest: insert_Inl intro!: keeps_snd [OF keeps_bind [OF inv_record keeps_basic(1)]])
      qed
      then show ?thesis
        using Pair Inr x s by (cases "grant_policies vs i scope_id env_id s")
          (simp_all add: grant_ref_def bindS_Inr bindS_state Let_def)
    qed
  qed
qed

lemma keeps_resolve: "keeps I (resolve h vs now tok accessor scope_id env_id)"
  unfolding resolve_def by (intro keeps_intros inv_log inv_record)

end

section \<open>The vault keeps its machine, that of objects and the trail\<close>

lemma vault_from_rotated:
  assumes "vault_from y s" "find_secret (sn_secret v) (vt_secrets s) = Some x" "se_lifecycle x = Active"
    "sn_number v = Suc (se_version x)" "insert_secret_version h v s = (Inr u, t)"
  shows "vault_from y (t\<lparr>vt_secrets := set_secret (sn_secret v) (\<lambda>y. y\<lparr>se_version := sn_number v, se_rotated := Some now\<rparr>) (vt_secrets t)\<rparr>)"
proof (rule vault_from_step [OF assms(1)])
  show "vault_change (vault_db s)
      (vault_db (t\<lparr>vt_secrets := set_secret (sn_secret v) (\<lambda>y. y\<lparr>se_version := sn_number v, se_rotated := Some now\<rparr>) (vt_secrets t)\<rparr>))"
    using secret_rotated [OF assms(2,3,4)] assms(5) by (auto simp: insert_version_Inr vault_db_def)
qed

interpretation vault_refines: vault_invariant h "vault_from y" for h y
proof -
  have "object_invariant h (vault_from y)"
    unfolding vault_from_def by (rule object_of_column [of vault_db]) (erule vault_db_more, simp_all)
  moreover have "vault_invariant_axioms h (vault_from y)"
  proof
    show "keeps (vault_from y) (insert_secret h x)" if "se_version x = 1" "se_lifecycle x = Active" for x
      using that by (auto simp: keeps_def insert_secret_def vault_db_def list_ex_iff intro!: secret_stored elim!: vault_from_step)
    show "keeps (vault_from y) (insert_secret_version h v)" if "sn_number v = 1" for v
      using that by (auto simp: keeps_def insert_secret_version_def vault_db_def list_ex_iff secret_fits_def
          intro!: first_stored elim!: vault_from_step)
    show "vault_from y (s\<lparr>vt_secrets := set_secret i (\<lambda>y. y\<lparr>se_lifecycle := Archived\<rparr>) (vt_secrets s),
        vt_refs := close_refs (\<lambda>r. rf_secret r = i) (vt_refs s)\<rparr>)" if "vault_from y s" for s i
      using that by (rule vault_from_step) (simp add: vault_db_def secret_archived)
    show "vault_from y t" if "vault_from y s" "find_secret (rf_secret r) (vt_secrets s) = Some x" "se_lifecycle x = Active"
        "rf_lifecycle r = Active" "insert_ref h r s = (Inr u, t)" for s r x u t
      using that(1)
    proof (rule vault_from_step)
      show "vault_change (vault_db s) (vault_db t)"
        using ref_granted [OF that(2,3,4)] that(5) by (auto simp: insert_ref_Inr vault_db_def)
    qed
    show "vault_from y (s\<lparr>vt_refs := close_refs (\<lambda>r. rf_id r = i) (vt_refs s)\<rparr>)" if "vault_from y s" for s i
      using that by (rule vault_from_step) (simp add: vault_db_def ref_revoked)
    show "keeps (vault_from y) (log_access h now r accessor scope_id env_id result)" for now r accessor scope_id env_id result
      by (simp add: keeps_def log_access_def bindS_def fresh_id_def vault_from_def)
    show "keeps (vault_from y) (insert_policy h p)" for p
      by (simp add: keeps_def insert_policy_def vault_from_def)
  qed (rule vault_from_rotated)
  ultimately show "vault_invariant h (vault_from y)" by (rule vault_invariant.intro)
qed

lemma object_db_vault [simp]:
  fixes s :: "'x vault_scheme"
  shows "object_db (vt_secrets_update f1 s) = object_db s" "object_db (vt_versions_update f2 s) = object_db s"
    "object_db (vt_refs_update f3 s) = object_db s" "object_db (vt_log_update f4 s) = object_db s"
    "object_db (vt_policies_update f5 s) = object_db s"
  by (simp_all add: object_db_def)

lemma audit_ok_vault [simp]:
  fixes s :: "'x vault_scheme"
  shows "audit_ok h (vt_secrets_update f1 s) = audit_ok h s" "audit_ok h (vt_versions_update f2 s) = audit_ok h s"
    "audit_ok h (vt_refs_update f3 s) = audit_ok h s" "audit_ok h (vt_log_update f4 s) = audit_ok h s"
    "audit_ok h (vt_policies_update f5 s) = audit_ok h s"
  by (simp_all add: audit_ok_def head_ok_def)

lemmas vault_inserts = insert_secret_def insert_version_Inr insert_secret_version_def insert_ref_Inr insert_policy_def
  log_access_def bindS_draw

interpretation vault_objects: vault_invariant h "objects_from h x" for h x
  by unfold_locales (auto simp: keeps_def vault_inserts objects_from_def split: if_splits)

interpretation vault_audit: vault_invariant h "audit_ok h" for h
  by unfold_locales (auto simp: keeps_def vault_inserts split: if_splits)

end
