(* ===== verification/V1_Secrets_Properties.thy ===== *)
theory V1_Secrets_Properties
  imports V1_Secrets_Facts V1_Objects_Properties "HOL-Library.Sublist"
begin

text \<open>
  The vault, the object manager and tenancy as one step system, and its properties: what a secret and
  its references go through, who resolves a reference to which value and what is logged, that no
  plaintext reaches the trail, and that the scan for leaks is complete.
\<close>

section \<open>The invariant of the machine\<close>

definition secret_numbers :: "string \<Rightarrow> secret_version list \<Rightarrow> nat list" where
  "secret_numbers i vs = map sn_number (filter (\<lambda>v. sn_secret v = i) vs)"

text \<open>Numbers without a gap; a creation that failed half-way leaves a secret without its first version.\<close>

definition secret_numbered :: "secret_version list \<Rightarrow> secret \<Rightarrow> bool" where
  "secret_numbered vs x \<longleftrightarrow> 1 \<le> se_version x \<and> distinct (secret_numbers (se_id x) vs) \<and>
     {2..se_version x} \<subseteq> set (secret_numbers (se_id x) vs) \<and> set (secret_numbers (se_id x) vs) \<subseteq> {1..se_version x}"

definition vault_ok :: "vault_db \<Rightarrow> bool" where
  "vault_ok y \<longleftrightarrow> (case y of (xs, vs, rs) \<Rightarrow>
     distinct (map se_id xs) \<and> (\<forall>x \<in> set xs. secret_numbered vs x) \<and> (\<forall>v \<in> set vs. sn_secret v \<in> se_id ` set xs) \<and>
     distinct (map rf_token rs) \<and>
     (\<forall>r \<in> set rs. \<exists>x \<in> set xs. se_id x = rf_secret r \<and> (se_lifecycle x \<noteq> Active \<longrightarrow> rf_lifecycle r \<noteq> Active)))"

definition secret_identity :: "secret \<Rightarrow> _" where
  "secret_identity x = (se_id x, se_name x, se_owner x, se_object x, se_created x, se_class x, se_description x, se_expires x)"

definition secret_later :: "secret \<Rightarrow> secret \<Rightarrow> bool" where
  "secret_later x x' \<longleftrightarrow> secret_identity x' = secret_identity x \<and> se_version x \<le> se_version x' \<and>
     (se_lifecycle x \<noteq> Active \<longrightarrow> se_lifecycle x' \<noteq> Active \<and> se_version x' = se_version x)"

definition ref_later :: "secret_ref \<Rightarrow> secret_ref \<Rightarrow> bool" where
  "ref_later r r' \<longleftrightarrow> r' = r \<or> r' = r\<lparr>rf_lifecycle := Archived\<rparr>"

text \<open>
  Over time rows stay at their place; versions are only appended, an archived secret and a revoked
  reference stay so, and a reference never changes otherwise.
\<close>

definition vault_later :: "vault_db \<Rightarrow> vault_db \<Rightarrow> bool" where
  "vault_later y z \<longleftrightarrow> (case (y, z) of ((xs, vs, rs), (xs', vs', rs')) \<Rightarrow>
     length xs \<le> length xs' \<and> list_all2 secret_later xs (take (length xs) xs') \<and>
     (\<exists>ws. vs' = vs @ ws) \<and>
     length rs \<le> length rs' \<and> list_all2 ref_later rs (take (length rs) rs'))"

lemma secret_later_refl [simp]: "secret_later x x"
  by (simp add: secret_later_def)

lemma secret_later_trans: "secret_later x y \<Longrightarrow> secret_later y z \<Longrightarrow> secret_later x z"
  by (auto simp: secret_later_def)

lemma ref_later_refl [simp]: "ref_later r r"
  by (simp add: ref_later_def)

lemma ref_later_trans: "ref_later x y \<Longrightarrow> ref_later y z \<Longrightarrow> ref_later x z"
  by (auto simp: ref_later_def)

lemma rows_refl: "(\<And>x. R x x) \<Longrightarrow> list_all2 R xs (take (length xs) (xs @ ys))"
  by (simp add: list_all2_same)

lemma rows_trans:
  assumes "\<And>x y z. R x y \<Longrightarrow> R y z \<Longrightarrow> R x z"
    and "length xs \<le> length ys" "list_all2 R xs (take (length xs) ys)"
    and "length ys \<le> length zs" "list_all2 R ys (take (length ys) zs)"
  shows "list_all2 R xs (take (length xs) zs)"
proof (rule list_all2_all_nthI)
  fix n assume n: "n < length xs"
  with assms(2-5) have "R (xs ! n) (ys ! n)" "R (ys ! n) (zs ! n)" by (auto simp: list_all2_conv_all_nth)
  with assms(1) n show "R (xs ! n) (take (length xs) zs ! n)" by simp
qed (use assms in simp)

lemma rows_update: "(\<And>x. R x x) \<Longrightarrow> (\<And>x. x \<in> set xs \<Longrightarrow> P x \<Longrightarrow> R x (f x)) \<Longrightarrow>
    list_all2 R xs (take (length xs) (sql_update_where P f xs))"
  by (induction xs) (auto simp: sql_update_where_def)

lemma vault_later_refl: "vault_later y y"
  by (cases y) (auto simp: vault_later_def list_all2_same)

lemma vault_later_trans: "vault_later x y \<Longrightarrow> vault_later y z \<Longrightarrow> vault_later x z"
  by (cases x; cases y; cases z) (auto simp: vault_later_def intro: rows_trans secret_later_trans ref_later_trans)

lemma update_length [simp]: "length (sql_update_where P f xs) = length xs"
  by (simp add: sql_update_where_def)

lemma one_secret:
  assumes "distinct (map se_id xs)" "find_secret i xs = Some x" "y \<in> set xs" "se_id y = i"
  shows "y = x"
  using assms by (auto simp: distinct_map dest!: find_SomeD dest: inj_onD)

lemma vault_change_later: "vault_change y z \<Longrightarrow> vault_ok y \<Longrightarrow> vault_later y z"
proof (induction rule: vault_change.induct)
  case (secret_rotated v xs x vs rs now)
  have "list_all2 secret_later xs (take (length xs)
      (set_secret (sn_secret v) (\<lambda>y. y\<lparr>se_version := sn_number v, se_rotated := Some now\<rparr>) xs))"
  proof (rule rows_update)
    fix y assume "y \<in> set xs" "se_id y = sn_secret v"
    then have "y = x" using one_secret [OF _ secret_rotated(1)] secret_rotated(5) by (simp add: vault_ok_def)
    then show "secret_later y (y\<lparr>se_version := sn_number v, se_rotated := Some now\<rparr>)"
      using secret_rotated(2,3) by (simp add: secret_later_def secret_identity_def)
  qed simp
  then show ?case by (simp add: vault_later_def list_all2_same)
next
  case (secret_archived xs vs rs i)
  have "list_all2 secret_later xs (take (length xs) (set_secret i (\<lambda>y. y\<lparr>se_lifecycle := Archived\<rparr>) xs))"
    by (rule rows_update) (simp_all add: secret_later_def secret_identity_def)
  moreover have "list_all2 ref_later rs (take (length rs) (close_refs (\<lambda>r. rf_secret r = i) rs))"
    by (rule rows_update) (simp_all add: ref_later_def)
  ultimately show ?case by (simp add: vault_later_def)
next
  case (ref_revoked xs vs rs i)
  have "list_all2 ref_later rs (take (length rs) (close_refs (\<lambda>r. rf_id r = i) rs))"
    by (rule rows_update) (simp_all add: ref_later_def)
  then show ?case by (simp add: vault_later_def list_all2_same)
qed (simp_all add: vault_later_def list_all2_same)

lemma numbers_append [simp]: "secret_numbers i (vs @ [v]) = secret_numbers i vs @ (if sn_secret v = i then [sn_number v] else [])"
  by (simp add: secret_numbers_def)

lemma fits_number: "secret_fits v vs \<Longrightarrow> sn_number v \<notin> set (secret_numbers (sn_secret v) vs)"
  by (auto simp: secret_fits_def secret_numbers_def)

lemma numbered_lifecycle [simp]: "secret_numbered vs (x\<lparr>se_lifecycle := l\<rparr>) = secret_numbered vs x"
  by (simp add: secret_numbered_def)

lemma set_secret_ids: "(\<And>x. se_id (f x) = se_id x) \<Longrightarrow> map se_id (set_secret i f xs) = map se_id xs"
  by (simp add: sql_update_where_def)

lemma set_secret_in: "y \<in> set (set_secret i f xs) \<longleftrightarrow> (\<exists>x \<in> set xs. if se_id x = i then y = f x else y = x)"
  by (rule sql_update_where_set)

lemma set_secret_mem: "y \<in> set xs \<Longrightarrow> (if se_id y = i then f y else y) \<in> set (set_secret i f xs)"
  by (auto simp: sql_update_where_def)

lemma vault_change_ok: "vault_change y z \<Longrightarrow> vault_ok y \<Longrightarrow> vault_ok z"
proof (induction rule: vault_change.induct)
  case (secret_stored xs x vs rs)
  then have "secret_numbers (se_id x) vs = []" by (fastforce simp: vault_ok_def secret_numbers_def filter_empty_conv)
  then have "secret_numbered vs x" using secret_stored(2) by (simp add: secret_numbered_def)
  with secret_stored show ?case by (auto simp: vault_ok_def)
next
  case (first_stored v xs vs rs)
  have "secret_numbered (vs @ [v]) x" if "x \<in> set xs" for x
    using first_stored that fits_number [OF first_stored(3)] by (auto simp: vault_ok_def secret_numbered_def)
  moreover have "sn_secret v \<in> se_id ` set xs" using first_stored(2) by (metis imageI)
  ultimately show ?case using first_stored by (simp add: vault_ok_def)
next
  case (secret_rotated v xs x vs rs now)
  let ?f = "\<lambda>y. y\<lparr>se_version := sn_number v, se_rotated := Some now\<rparr>"
  have x: "x \<in> set xs" "se_id x = sn_secret v" using secret_rotated(1) by (auto dest: find_SomeD)
  note ids = set_secret_ids [of ?f "sn_secret v" xs, simplified]
  have same: "y = x" if "y \<in> set xs" "se_id y = sn_secret v" for y
    using one_secret [OF _ secret_rotated(1) that] secret_rotated(5) by (simp add: vault_ok_def)
  have nx: "secret_numbered vs x" using secret_rotated(5) x by (simp add: vault_ok_def)
  then have new: "secret_numbered (vs @ [v]) (?f x)"
    using x(2) secret_rotated(3) fits_number [OF secret_rotated(4)]
    by (auto simp: secret_numbered_def) (metis atLeastAtMost_iff le_SucE subsetD)
  have "secret_numbered (vs @ [v]) y" if "y \<in> set (set_secret (sn_secret v) ?f xs)" for y
  proof -
    from that obtain y0 where y0: "y0 \<in> set xs" "if se_id y0 = sn_secret v then y = ?f y0 else y = y0"
      by (auto simp: set_secret_in)
    show ?thesis
    proof (cases "se_id y0 = sn_secret v")
      case True
      with y0 same new show ?thesis by auto
    next
      case False
      with y0 secret_rotated(5) show ?thesis by (auto simp: vault_ok_def secret_numbered_def)
    qed
  qed
  moreover have "\<exists>y \<in> set (set_secret (sn_secret v) ?f xs). se_id y = rf_secret r \<and> (se_lifecycle y \<noteq> Active \<longrightarrow> rf_lifecycle r \<noteq> Active)"
    if "r \<in> set rs" for r
  proof -
    from secret_rotated(5) that obtain y where y: "y \<in> set xs" "se_id y = rf_secret r" "se_lifecycle y \<noteq> Active \<longrightarrow> rf_lifecycle r \<noteq> Active"
      unfolding vault_ok_def prod.case by blast
    then show ?thesis by (intro bexI [OF _ set_secret_mem [OF y(1), of "sn_secret v" ?f]]) auto
  qed
  moreover have "se_id ` set (set_secret (sn_secret v) ?f xs) = se_id ` set xs" using ids by (metis set_map)
  moreover have "sn_secret v \<in> se_id ` set xs" using x by (metis imageI)
  ultimately show ?case using secret_rotated(5) ids by (simp add: vault_ok_def)
next
  case (secret_archived xs vs rs i)
  let ?f = "\<lambda>y. y\<lparr>se_lifecycle := Archived\<rparr>" and ?P = "\<lambda>r. rf_secret r = i"
  note ids = set_secret_ids [of ?f i xs, simplified]
  have "\<exists>y \<in> set (set_secret i ?f xs). se_id y = rf_secret r \<and> (se_lifecycle y \<noteq> Active \<longrightarrow> rf_lifecycle r \<noteq> Active)"
    if "r \<in> set (close_refs ?P rs)" for r
  proof -
    from that obtain r0 where r0: "r0 \<in> set rs" "r = (if rf_secret r0 = i then r0\<lparr>rf_lifecycle := Archived\<rparr> else r0)"
      by (auto simp: sql_update_where_def)
    from secret_archived r0(1) obtain y where y: "y \<in> set xs" "se_id y = rf_secret r0" "se_lifecycle y \<noteq> Active \<longrightarrow> rf_lifecycle r0 \<noteq> Active"
      unfolding vault_ok_def prod.case by blast
    with r0(2) show ?thesis by (intro bexI [OF _ set_secret_mem [OF y(1), of i ?f]]) auto
  qed
  moreover have "secret_numbered vs y" if "y \<in> set (set_secret i ?f xs)" for y
    using secret_archived that by (auto simp: vault_ok_def set_secret_in split: if_splits)
  moreover have "se_id ` set (set_secret i ?f xs) = se_id ` set xs" using ids by (metis set_map)
  moreover have "map rf_token (close_refs ?P rs) = map rf_token rs" by (simp add: sql_update_where_def)
  ultimately show ?case using secret_archived ids by (simp add: vault_ok_def)
next
  case (ref_granted r xs x rs vs)
  then show ?case by (auto simp: vault_ok_def dest!: find_SomeD)
next
  case (ref_revoked xs vs rs i)
  have "map rf_token (close_refs (\<lambda>r. rf_id r = i) rs) = map rf_token rs" by (simp add: sql_update_where_def)
  with ref_revoked show ?case by (auto simp: vault_ok_def sql_update_where_set split: if_splits) force+
qed

lemma vault_run_ok: "vault_run y z \<Longrightarrow> vault_ok y \<Longrightarrow> vault_ok z \<and> vault_later y z"
  by (induction rule: rtranclp_induct)
    (auto intro: vault_later_refl vault_later_trans dest: vault_change_ok vault_change_later)

section \<open>The service as a step system\<close>

text \<open>One call that writes, of the vault, the object manager or tenancy, returned or raised.\<close>

inductive vault_step ::
  "v1_host \<Rightarrow> ('c, 'v, 'x vault_scheme) vault_services \<Rightarrow> 'x vault_scheme \<Rightarrow> 'x vault_scheme \<Rightarrow> bool"
  for h and vs :: "('c, 'v, 'x vault_scheme) vault_services" where
  via_objects: "object_step h (sv :: ('c, 'v, 'x vault_scheme) object_services) s t \<Longrightarrow> vault_step h vs s t"
| do_secret: "vault_step h vs s (snd (create_secret h vs now ticks name p owner desc cls exp key s))"
| do_archive_secret: "vault_step h vs s (snd (archive_secret h now i actor s))"
| do_rotate: "vault_step h vs s (snd (rotate h vs now i p by reason key s))"
| do_grant: "vault_step h vs s (snd (grant_ref h vs now i to by scope_id env_id exp s))"
| do_revoke_ref: "vault_step h vs s (snd (revoke_ref h now i by s))"
| do_resolve: "vault_step h vs s (snd (resolve h vs now tok accessor scope_id env_id s))"
| do_policy: "vault_step h vs s (snd (create_policy h now by secret_id cls_opt age auto scopes envs s))"

abbreviation vault_steps where "vault_steps h vs \<equiv> (vault_step h vs)\<^sup>*\<^sup>*"

context vault_invariant
begin

lemma keeps_vault_step: "vault_step h vs s t \<Longrightarrow> I s \<Longrightarrow> I t"
  by (induction rule: vault_step.induct)
    (erule keeps_object_step, assumption,
      (rule keeps_snd, rule keeps_create_secret keeps_archive_secret keeps_rotate keeps_grant_ref keeps_revoke_ref
        keeps_resolve keeps_create_policy, assumption)+)

lemma keeps_vault_steps: "vault_steps h vs s t \<Longrightarrow> I s \<Longrightarrow> I t"
  by (induction rule: rtranclp_induct) (auto dest: keeps_vault_step)

end

lemma vault_steps_run: "vault_steps h vs s t \<Longrightarrow> vault_run (vault_db s) (vault_db t)"
  using vault_refines.keeps_vault_steps [of h vs s t "vault_db s"] by (simp add: vault_from_def)

text \<open>
  C28. What secrets go through: in every run of the vault, of objects and of tenancy, with calls that
  return or raise, the versions of a secret carry the numbers up to the current one without a gap (but
  for the first, when its creation failed half-way), versions are only appended, an archived secret is
  neither rotated nor revived and has no active reference, a reference changes only by being revoked,
  tokens are unique; the histories of objects only grow and the audit trail stays a chain.
\<close>

theorem secrets_follow_machine:
  assumes "vault_steps h vs s t" "vault_ok (vault_db s)"
  shows "vault_ok (vault_db t) \<and> vault_later (vault_db s) (vault_db t) \<and>
    (objects_ok h (object_db s) \<longrightarrow> objects_ok h (object_db t) \<and> grown (object_db s) (object_db t)) \<and>
    (audit_ok h s \<longrightarrow> audit_ok h t)"
proof -
  have "object_run h (object_db s) (object_db t)"
    using vault_objects.keeps_vault_steps [OF assms(1), of "object_db s"] by (simp add: objects_from_def)
  then show ?thesis
    using vault_run_ok [OF vault_steps_run [OF assms(1)] assms(2)] object_run_ok
      vault_audit.keeps_vault_steps [OF assms(1)] by blast
qed

section \<open>Resolution\<close>

definition policy_allows :: "string option \<Rightarrow> string option \<Rightarrow> secret_policy \<Rightarrow> bool" where
  "policy_allows scope_id env_id p \<longleftrightarrow>
     (sp_scopes p \<noteq> [] \<longrightarrow> (\<exists>x \<in> set (sp_scopes p). scope_id = Some x)) \<and>
     (sp_envs p \<noteq> [] \<longrightarrow> (\<exists>x \<in> set (sp_envs p). env_id = Some x))"

lemma resolve_policies_Inr: "resolve_policies vs i scope_id env_id s = Inr () \<longleftrightarrow>
    (vs_policies vs \<longrightarrow> (\<forall>p \<in> set (policies_for i s). policy_allows scope_id env_id p))"
  by (cases scope_id; cases env_id)
    (auto simp: resolve_policies_def policy_allows_def check_scope_allowed_def check_env_allowed_def list_ex_iff list_all_iff)

text \<open>Who is entitled by a reference, at a time, from a scope and an environment.\<close>

definition entitled :: "string \<Rightarrow> secret_ref \<Rightarrow> string \<Rightarrow> string option \<Rightarrow> string option \<Rightarrow> bool" where
  "entitled now r accessor scope_id env_id \<longleftrightarrow>
     rf_lifecycle r = Active \<and> (\<forall>e. rf_expires r = Some e \<longrightarrow> now < e) \<and> rf_to r = accessor \<and>
     (rf_scope r = None \<or> scope_id = rf_scope r) \<and> (rf_env r = None \<or> env_id = rf_env r)"

lemma ref_refusal_None: "ref_refusal now r a sc en = None \<longleftrightarrow> entitled now r a sc en"
  by (auto simp: ref_refusal_def entitled_def ref_active_def ref_expired_def not_le split: option.splits)

definition usable :: "string \<Rightarrow> secret \<Rightarrow> bool" where
  "usable now x \<longleftrightarrow> se_lifecycle x = Active \<and> (\<forall>e. se_expires x = Some e \<longrightarrow> now < e)"

definition access_entry :: "secret_ref \<Rightarrow> string \<Rightarrow> string \<Rightarrow> string option \<Rightarrow> string option \<Rightarrow> access_result \<Rightarrow> string \<Rightarrow> secret_access" where
  "access_entry r now accessor scope_id env_id result i =
     \<lparr>sx_id = i, sx_secret = rf_secret r, sx_ref = Some (rf_id r), sx_accessor = accessor, sx_type = ''resolve'',
      sx_at = now, sx_env = env_id, sx_scope = scope_id, sx_result = result\<rparr>"

lemma log_access_Inr: "log_access h now r a sc en res s = (Inr u, t) \<longleftrightarrow>
    (\<forall>x \<in> set (vt_log s). sx_id x \<noteq> v_id h (w_next s)) \<and> rf_secret r \<in> se_id ` set (vt_secrets s) \<and>
    a \<in> set (tn_principals s) \<and>
    t = s\<lparr>w_next := Suc (w_next s), vt_log := vt_log s @ [access_entry r now a sc en res (v_id h (w_next s))]\<rparr>"
  by (auto simp: log_access_def bindS_draw list_ex_iff access_entry_def intro: rev_image_eqI split: if_splits)

lemma audit_keeps_rest: "audit_event h now rq s = (r, t) \<Longrightarrow> v1_state.more t = v1_state.more s"
  by (metis audit_event_more snd_conv)

lemma audit_log: "audit_event h now rq s = (r, t) \<Longrightarrow> vt_log t = vt_log s"
  by (drule audit_keeps_rest) (cases s, cases t, simp)

lemma resolve_Inr:
  assumes "resolve h vs now tok a sc en s = (Inr p, t)"
  obtains r x v where "find (\<lambda>r. rf_token r = tok) (vt_refs s) = Some r" "ref_refusal now r a sc en = None"
    "require_active_secret now (rf_secret r) False s = (Inr x, s)" "resolve_policies vs (rf_secret r) sc en s = Inr ()"
    "find (\<lambda>v. sn_secret v = rf_secret r \<and> sn_number v = se_version x) (vt_versions s) = Some v"
    "cy_decrypt (vs_crypto vs) (sn_key v) (sn_value v) = Inr p"
    "vt_log t = vt_log s @ [access_entry r now a sc en Success (v_id h (w_next s))]"
proof -
  from assms obtain r where r: "find (\<lambda>r. rf_token r = tok) (vt_refs s) = Some r"
    by (cases "find (\<lambda>r. rf_token r = tok) (vt_refs s)") (auto simp: resolve_def get_ref_by_token_def)
  with assms have "ref_refusal now r a sc en = None"
    by (cases "ref_refusal now r a sc en") (auto simp: resolve_def get_ref_by_token_def bindS_Inr_iff)
  note start = r this assms
  have "\<exists>x. require_active_secret now (rf_secret r) False s = (Inr x, s)"
    using start by (cases "require_active_secret now (rf_secret r) False s")
      (auto simp: resolve_def get_ref_by_token_def require_active_Inr bindS_def split: sum.splits)
  then obtain x where x: "require_active_secret now (rf_secret r) False s = (Inr x, s)" by blast
  have pol: "resolve_policies vs (rf_secret r) sc en s = Inr ()"
    using start x by (cases "resolve_policies vs (rf_secret r) sc en s")
      (auto simp: resolve_def get_ref_by_token_def bindS_Inr bindS_state)
  have "\<exists>v. find (\<lambda>v. sn_secret v = rf_secret r \<and> sn_number v = se_version x) (vt_versions s) = Some v"
    using start x pol by (cases "find (\<lambda>v. sn_secret v = rf_secret r \<and> sn_number v = se_version x) (vt_versions s)")
      (auto simp: resolve_def get_ref_by_token_def bindS_Inr bindS_state get_secret_version_def)
  then obtain v where v: "find (\<lambda>v. sn_secret v = rf_secret r \<and> sn_number v = se_version x) (vt_versions s) = Some v" by blast
  with start x pol obtain s3 rq where p: "cy_decrypt (vs_crypto vs) (sn_key v) (sn_value v) = Inr p"
    and log: "log_access h now r a sc en Success s = (Inr (), s3)" and ev: "audit_event h now rq s3 = (Inr (), t)"
    by (cases "cy_decrypt (vs_crypto vs) (sn_key v) (sn_value v)")
      (auto simp: resolve_def get_ref_by_token_def bindS_Inr bindS_state get_secret_version_def bindS_Inr_iff)
  have "vt_log t = vt_log s @ [access_entry r now a sc en Success (v_id h (w_next s))]"
    using log audit_log [OF ev] by (simp add: log_access_Inr)
  with that r start(2) x pol v p show thesis by blast
qed

text \<open>
  C29. Who gets a value: a call of \<open>resolve\<close> that returns was made with the token of an active,
  unexpired reference, by the principal it was granted to and from the scope and the environment it
  names, while the secret was active and unexpired and every policy that applies allowed scope and
  environment; the value is the decryption of the current version, and the success is logged.
\<close>

theorem resolve_decision:
  assumes "resolve h vs now tok a sc en s = (Inr p, t)"
  shows "\<exists>r x v i. find (\<lambda>r. rf_token r = tok) (vt_refs s) = Some r \<and> entitled now r a sc en \<and>
    find_secret (rf_secret r) (vt_secrets s) = Some x \<and> usable now x \<and>
    (vs_policies vs \<longrightarrow> (\<forall>q \<in> set (policies_for (rf_secret r) s). policy_allows sc en q)) \<and>
    find (\<lambda>v. sn_secret v = rf_secret r \<and> sn_number v = se_version x) (vt_versions s) = Some v \<and>
    cy_decrypt (vs_crypto vs) (sn_key v) (sn_value v) = Inr p \<and>
    vt_log t = vt_log s @ [access_entry r now a sc en Success i]"
proof -
  from assms obtain r x v where r: "find (\<lambda>r. rf_token r = tok) (vt_refs s) = Some r" "ref_refusal now r a sc en = None"
    and x: "require_active_secret now (rf_secret r) False s = (Inr x, s)" and pol: "resolve_policies vs (rf_secret r) sc en s = Inr ()"
    and v: "find (\<lambda>v. sn_secret v = rf_secret r \<and> sn_number v = se_version x) (vt_versions s) = Some v"
      "cy_decrypt (vs_crypto vs) (sn_key v) (sn_value v) = Inr p"
      "vt_log t = vt_log s @ [access_entry r now a sc en Success (v_id h (w_next s))]" by (rule resolve_Inr)
  have "find_secret (rf_secret r) (vt_secrets s) = Some x" "usable now x"
    using x by (auto simp: require_active_Inr usable_def)
  with r pol v show ?thesis by (auto simp: ref_refusal_None resolve_policies_Inr)
qed

text \<open>
  Which attempts are logged: a refusal by the reference itself, of a principal the database knows,
  appends exactly one entry, \<open>Expired\<close> when the reference has expired and \<open>Denied\<close> otherwise, and
  raises; but an unknown token and a refusal because of the secret or of a policy leave no entry,
  contrary to what the method says of itself.
\<close>

theorem attempts_logged:
  assumes "vault_ok (vault_db s)" "a \<in> set (tn_principals s)" "\<forall>x \<in> set (vt_log s). sx_id x \<noteq> v_id h (w_next s)"
  shows "case find (\<lambda>r. rf_token r = tok) (vt_refs s) of
      None \<Rightarrow> resolve h vs now tok a sc en s = (Inl SecretAccessDenied, s)
    | Some r \<Rightarrow>
        if entitled now r a sc en
        then (\<forall>x. find_secret (rf_secret r) (vt_secrets s) = Some x \<and>
            (\<not> usable now x \<or> vs_policies vs \<and> \<not> (\<forall>q \<in> set (policies_for (rf_secret r) s). policy_allows sc en q)) \<longrightarrow>
            resolve h vs now tok a sc en s = (Inl SecretAccessDenied, s))
        else \<exists>res. resolve h vs now tok a sc en s =
            (Inl (if res = Expired then SecretRefExpired else SecretAccessDenied),
             s\<lparr>w_next := Suc (w_next s), vt_log := vt_log s @ [access_entry r now a sc en res (v_id h (w_next s))]\<rparr>) \<and>
            res = (if rf_lifecycle r = Active \<and> ref_expired now r then Expired else Denied)"
proof (cases "find (\<lambda>r. rf_token r = tok) (vt_refs s)")
  case None
  then show ?thesis by (simp add: resolve_def get_ref_by_token_def)
next
  case r: (Some r)
  show ?thesis
  proof (cases "ref_refusal now r a sc en")
    case None
    have unusable: "require_active_secret now (rf_secret r) False s = (Inl SecretAccessDenied, s)"
      if "find_secret (rf_secret r) (vt_secrets s) = Some x" "\<not> usable now x" for x
      using that by (auto simp: require_active_secret_def bindS_reads [OF reads_vault(2)] get_secret_or_raise_cases
          secret_active_def usable_def not_le split: option.splits)
    have active: "require_active_secret now (rf_secret r) False s = (Inr x, s)"
      if "find_secret (rf_secret r) (vt_secrets s) = Some x" "usable now x" for x
      using that by (simp add: require_active_Inr usable_def)
    have denied: "resolve_policies vs i sc en s = Inl SecretAccessDenied" if "resolve_policies vs i sc en s \<noteq> Inr ()" for i
      using that by (auto simp: resolve_policies_def split: if_splits)
    have "resolve h vs now tok a sc en s = (Inl SecretAccessDenied, s)"
      if "find_secret (rf_secret r) (vt_secrets s) = Some x"
        "\<not> usable now x \<or> vs_policies vs \<and> \<not> (\<forall>q \<in> set (policies_for (rf_secret r) s). policy_allows sc en q)" for x
    proof (cases "usable now x")
      case True
      with that(2) have "resolve_policies vs (rf_secret r) sc en s \<noteq> Inr ()" by (simp add: resolve_policies_Inr)
      from denied [OF this] active [OF that(1) True] None r show ?thesis
        by (simp add: resolve_def get_ref_by_token_def bindS_Inr bindS_state)
    qed (use unusable that(1) None r in \<open>simp add: resolve_def get_ref_by_token_def bindS_Inl\<close>)
    with None r show ?thesis by (auto simp: ref_refusal_None)
  next
    case (Some q)
    obtain res e where q: "q = (res, e)" by (cases q)
    have "rf_secret r \<in> se_id ` set (vt_secrets s)"
      using assms(1) find_SomeD [OF r] unfolding vault_ok_def vault_db_def prod.case by (metis imageI)
    then have log: "log_access h now r a sc en res s =
        (Inr (), s\<lparr>w_next := Suc (w_next s), vt_log := vt_log s @ [access_entry r now a sc en res (v_id h (w_next s))]\<rparr>)"
      using assms(2,3) by (simp add: log_access_Inr)
    have "e = (if res = Expired then SecretRefExpired else SecretAccessDenied)"
      "res = (if rf_lifecycle r = Active \<and> ref_expired now r then Expired else Denied)"
      using Some q by (auto simp: ref_refusal_def ref_active_def split: if_splits)
    moreover have "\<not> entitled now r a sc en" using Some by (simp flip: ref_refusal_None)
    ultimately show ?thesis
      using Some q log r by (auto simp: resolve_def get_ref_by_token_def bindS_Inr)
  qed
qed

lemma rotate_Inr:
  assumes "rotate h vs now i value by reason key s = (Inr v, t)"
  shows "\<exists>x. find_secret i (vt_secrets s) = Some x \<and> usable now x \<and> sn_secret v = i \<and> sn_number v = Suc (se_version x) \<and>
    sn_key v = use_key vs key \<and> cy_encrypt (vs_crypto vs) (w_next s) (use_key vs key) value = Inr (sn_value v) \<and>
    secret_fits v (vt_versions s) \<and>
    vault_db t = (set_secret i (\<lambda>y. y\<lparr>se_version := sn_number v, se_rotated := Some now\<rparr>) (vt_secrets s),
      vt_versions s @ [v], vt_refs s)"
proof -
  have "\<exists>x. require_active_secret now i False s = (Inr x, s)"
    using assms by (cases "require_active_secret now i False s") (auto simp: rotate_def require_active_Inr bindS_def split: sum.splits)
  then obtain x where x: "require_active_secret now i False s = (Inr x, s)" by blast
  have "\<exists>e. cy_encrypt (vs_crypto vs) (w_next s) (use_key vs key) value = Inr e"
    using assms x by (cases "cy_encrypt (vs_crypto vs) (w_next s) (use_key vs key) value")
      (auto simp: rotate_def bindS_Inr encrypt_def bindS_state)
  then obtain e where e: "cy_encrypt (vs_crypto vs) (w_next s) (use_key vs key) value = Inr e" by blast
  let ?v = "\<lparr>sn_id = v_id h (w_next s), sn_secret = i, sn_number = se_version x + 1, sn_value = e,
    sn_algorithm = cy_algorithm (vs_crypto vs), sn_key = use_key vs key, sn_created = now, sn_by = by, sn_reason = reason\<rparr>"
  from assms x e obtain s1 rq where v: "v = ?v" and ins: "insert_secret_version h ?v (s\<lparr>w_next := Suc (w_next s)\<rparr>) = (Inr (), s1)"
    and ev: "audit_event h now rq (s1\<lparr>vt_secrets := set_secret i (\<lambda>y. y\<lparr>se_version := se_version x + 1, se_rotated := Some now\<rparr>) (vt_secrets s1)\<rparr>) = (Inr (), t)"
    by (auto simp: rotate_def bindS_Inr encrypt_def bindS_state bindS_draw Let_def update_secret_def bindS_Inr_iff)
  have "vault_db t = vault_db (s1\<lparr>vt_secrets := set_secret i (\<lambda>y. y\<lparr>se_version := se_version x + 1, se_rotated := Some now\<rparr>) (vt_secrets s1)\<rparr>)"
    by (rule vault_db_more [OF audit_keeps_rest [OF ev]])
  with ins x e v show ?thesis
    by (auto simp: insert_version_Inr require_active_Inr usable_def vault_db_def)
qed

lemma find_last: "find P xs = None \<Longrightarrow> P x \<Longrightarrow> find P (xs @ [x]) = Some x"
  by (induction xs) (auto split: if_splits)

text \<open>
  A rotation takes effect: with an encryption whose decryption inverts it, whoever resolves a
  reference to the secret after the rotation gets the new value, whatever was stored before.
\<close>

theorem resolve_gives_latest:
  assumes "secret_backend (vs_crypto vs)" "rotate h vs now i value by reason key s = (Inr v, t)"
    and "find (\<lambda>r. rf_token r = tok) (vt_refs t) = Some r" "rf_secret r = i"
    and "resolve h vs later tok a sc en t = (Inr p, u)"
  shows "p = value"
proof -
  from rotate_Inr [OF assms(2)] obtain x :: secret where new: "sn_secret v = i" "sn_number v = Suc (se_version x)" "secret_fits v (vt_versions s)"
    and enc: "sn_key v = use_key vs key" "cy_encrypt (vs_crypto vs) (w_next s) (use_key vs key) value = Inr (sn_value v)"
    and db: "vault_db t = (set_secret i (\<lambda>y. y\<lparr>se_version := sn_number v, se_rotated := Some now\<rparr>) (vt_secrets s),
      vt_versions s @ [v], vt_refs s)" by blast
  from assms(5) obtain r' w and y :: secret where ref: "find (\<lambda>r. rf_token r = tok) (vt_refs t) = Some r'"
    and y: "require_active_secret later (rf_secret r') False t = (Inr y, t)"
    and w: "find (\<lambda>v. sn_secret v = rf_secret r' \<and> sn_number v = se_version y) (vt_versions t) = Some w"
    and p: "cy_decrypt (vs_crypto vs) (sn_key w) (sn_value w) = Inr p" by (rule resolve_Inr)
  from ref assms(3,4) have r': "rf_secret r' = i" by simp
  from y have "find_secret i (vt_secrets t) = Some y" unfolding r' by (simp add: require_active_Inr)
  from find_SomeD [OF this] have y: "y \<in> set (vt_secrets t)" "se_id y = i" by simp_all
  let ?f = "\<lambda>y. y\<lparr>se_version := sn_number v, se_rotated := Some now\<rparr>"
  have t: "vt_secrets t = set_secret i ?f (vt_secrets s)" "vt_versions t = vt_versions s @ [v]"
    using db by (simp_all add: vault_db_def)
  from y(1) obtain z where "if se_id z = i then y = ?f z else y = z"
    unfolding t(1) set_secret_in by (rule bexE)
  then have "se_version y = sn_number v" using y(2) by (simp split: if_splits)
  moreover have "find (\<lambda>u. sn_secret u = i \<and> sn_number u = sn_number v) (vt_versions s) = None"
    using new(1,3) by (auto simp: find_None_iff secret_fits_def)
  from find_last [OF this, of v] have "find (\<lambda>u. sn_secret u = i \<and> sn_number u = sn_number v) (vt_versions t) = Some v"
    using new(1) t(2) by simp
  ultimately have "w = v" using w r' by simp
  with p enc secret_backend.decrypt_encrypt [OF assms(1) enc(2)] show ?thesis by simp
qed

section \<open>No plaintext outside the encrypted values\<close>

text \<open>The state without the encrypted values; what a run leaves besides them cannot tell plaintexts apart.\<close>

definition blind :: "'x vault_scheme \<Rightarrow> 'x vault_scheme" where
  "blind s = s\<lparr>vt_versions := map (\<lambda>v. v\<lparr>sn_value := ''''\<rparr>) (vt_versions s)\<rparr>"

definition same_core :: "'x v1_state_scheme \<Rightarrow> 'y v1_state_scheme \<Rightarrow> bool" where
  "same_core s t \<longleftrightarrow> w_next s = w_next t \<and> w_trail s = w_trail t \<and> w_seq s = w_seq t \<and> w_last s = w_last t"

lemma record_loop_core:
  "same_core s t \<Longrightarrow> fst (record_loop h clock env rq ks s) = fst (record_loop h clock env rq ks t) \<and>
   same_core (snd (record_loop h clock env rq ks s)) (snd (record_loop h clock env rq ks t))"
proof (induction ks arbitrary: s t)
  case (Cons k ks)
  have "same_core (reseed_if_stale s) (reseed_if_stale t)"
    using Cons.prems by (auto simp: same_core_def reseed_if_stale_def split_beta)
  with Cons.IH show ?case by (auto simp: Let_def same_core_def split: sum.splits)
qed simp

lemma blind_core:
  fixes s t :: "'x vault_scheme"
  assumes "blind s = blind t"
  shows "same_core s t" "tn_audited s = tn_audited t"
  using assms by (cases s, cases t, simp add: blind_def same_core_def)+

lemma blind_join:
  fixes s t s' t' :: "'x vault_scheme"
  assumes "blind s = blind t" "same_core s' t'" "v1_state.more s' = v1_state.more s" "v1_state.more t' = v1_state.more t"
  shows "blind s' = blind t'"
  using assms by (cases s, cases t, cases s', cases t') (simp add: blind_def same_core_def)

lemma audit_blind:
  assumes "blind s = blind t"
  shows "fst (audit_event h now rq s) = fst (audit_event h now rq t) \<and>
    blind (snd (audit_event h now rq s)) = blind (snd (audit_event h now rq t))"
proof -
  note core = record_loop_core [OF blind_core(1) [OF assms], of h "\<lambda>_. now" "\<lambda>_ rows. rows" rq "[0..<max_sequence_retries + 1]",
      folded record_entry_def]
  have fst_snd: "audit_event h now rq u = (if tn_audited u then (map_sum id (\<lambda>_. ()) (fst (record_entry h (\<lambda>_. now) (\<lambda>_ rows. rows) rq u)),
      snd (record_entry h (\<lambda>_. now) (\<lambda>_ rows. rows) rq u)) else (Inr (), u))" for u :: "'a vault_scheme"
    by (simp add: audit_event_def bindS_def split: prod.splits sum.splits)
  have "v1_state.more (snd (record_entry h (\<lambda>_. now) (\<lambda>_ rows. rows) rq u)) = v1_state.more u" for u :: "'a vault_scheme"
    by (rule record_entry_more) (rule prod.collapse [symmetric])
  with blind_join [OF assms core [THEN conjunct2]] core blind_core(2) [OF assms] assms show ?thesis
    by (simp add: fst_snd)
qed

text \<open>Two calls that leave the same state up to encrypted values, and raise the same.\<close>

definition alike_at :: "('r \<Rightarrow> 'r \<Rightarrow> bool) \<Rightarrow> ('x vault_scheme, 'r) sop \<Rightarrow> ('x vault_scheme, 'r) sop \<Rightarrow>
    'x vault_scheme \<Rightarrow> 'x vault_scheme \<Rightarrow> bool" where
  "alike_at R f g s t \<longleftrightarrow> rel_sum (=) R (fst (f s)) (fst (g t)) \<and> blind (snd (f s)) = blind (snd (g t))"

abbreviation "alike R f g \<equiv> \<forall>s t. blind s = blind t \<longrightarrow> alike_at R f g s t"

lemma alike_bind:
  assumes "alike_at R f g s t" "\<And>x y. R x y \<Longrightarrow> alike Q (k x) (l y)"
  shows "alike_at Q (bindS f k) (bindS g l) s t"
proof -
  obtain r s' where f: "f s = (r, s')" by (cases "f s")
  obtain q t' where g: "g t = (q, t')" by (cases "g t")
  show ?thesis
    using assms f g by (cases r; cases q) (auto simp: alike_at_def bindS_Inl bindS_Inr)
qed

lemma alike_step: "(\<And>x t. alike_at Q (k x) (l x) t t) \<Longrightarrow> alike_at Q (bindS f k) (bindS f l) s s"
  by (cases "f s"; cases "fst (f s)") (auto simp: alike_at_def bindS_Inl bindS_Inr)

lemma alike_return: "R x y \<Longrightarrow> alike R (returnS x) (returnS y)"
  by (simp add: alike_at_def)

lemma alike_audit: "alike (=) (audit_event h now rq) (audit_event h now rq)"
  unfolding alike_at_def sum.rel_eq by (intro allI impI audit_blind)

lemma blind_fields:
  fixes s t :: "'x vault_scheme"
  assumes "blind s = blind t"
  shows "vt_secrets s = vt_secrets t" "w_next s = w_next t" "tn_objects s = tn_objects t" "tn_principals s = tn_principals t"
    "map (\<lambda>v. v\<lparr>sn_value := ''''\<rparr>) (vt_versions s) = map (\<lambda>v. v\<lparr>sn_value := ''''\<rparr>) (vt_versions t)"
    "blind (s\<lparr>vt_secrets := xs\<rparr>) = blind (t\<lparr>vt_secrets := xs\<rparr>)" "blind (s\<lparr>w_next := n\<rparr>) = blind (t\<lparr>w_next := n\<rparr>)"
  using assms by (cases s, cases t, simp add: blind_def)+

lemma alike_fresh: "alike (=) (fresh_id h) (fresh_id h)"
proof (intro allI impI)
  fix s t :: "'x vault_scheme"
  assume "blind s = blind t"
  from blind_fields [OF this] this show "alike_at (=) (fresh_id h) (fresh_id h) s t"
    by (simp add: alike_at_def fresh_id_def)
qed

lemma alike_update: "alike (=) (update_secret i f) (update_secret i f)"
proof (intro allI impI)
  fix s t :: "'x vault_scheme"
  assume "blind s = blind t"
  from blind_fields [OF this] this show "alike_at (=) (update_secret i f) (update_secret i f) s t"
    by (simp add: alike_at_def update_secret_def modifyS_def)
qed

lemma alike_insert_secret: "alike (=) (insert_secret h x) (insert_secret h x)"
proof (intro allI impI)
  fix s t :: "'x vault_scheme"
  assume "blind s = blind t"
  from blind_fields [OF this] this show "alike_at (=) (insert_secret h x) (insert_secret h x) s t"
    by (simp add: alike_at_def insert_secret_def)
qed

definition veiled :: "secret_version \<Rightarrow> secret_version \<Rightarrow> bool" where
  "veiled v w \<longleftrightarrow> v\<lparr>sn_value := ''''\<rparr> = w\<lparr>sn_value := ''''\<rparr>"

lemma veiled_fields: "veiled v w \<Longrightarrow> sn_id v = sn_id w \<and> sn_secret v = sn_secret w \<and> sn_number v = sn_number w"
  by (cases v, cases w) (simp add: veiled_def)

lemma veiled_any:
  assumes "map (\<lambda>v. v\<lparr>sn_value := ''''\<rparr>) xs = map (\<lambda>v. v\<lparr>sn_value := ''''\<rparr>) ys" "\<And>v w. veiled v w \<Longrightarrow> P v = P w"
  shows "list_ex P xs = list_ex P ys"
  using assms(1) by (induction xs ys rule: list_induct2') (auto dest: assms(2) simp: veiled_def [symmetric])

lemma alike_insert_version:
  assumes "veiled v w"
  shows "alike (=) (insert_secret_version h v) (insert_secret_version h w)"
proof (intro allI impI)
  fix s t :: "'b vault_scheme"
  assume st: "blind s = blind t"
  note fields = veiled_fields [OF assms] and ex = veiled_any [OF blind_fields(5) [OF st]]
  have "list_ex (\<lambda>y. sn_id y = i) (vt_versions s) = list_ex (\<lambda>y. sn_id y = i) (vt_versions t)"
    "list_ex (\<lambda>y. sn_secret y = i \<and> sn_number y = n) (vt_versions s) =
      list_ex (\<lambda>y. sn_secret y = i \<and> sn_number y = n) (vt_versions t)" for i n
    by (rule ex; auto dest: veiled_fields)+
  moreover have "blind (s\<lparr>vt_versions := vt_versions s @ [v]\<rparr>) = blind (t\<lparr>vt_versions := vt_versions t @ [w]\<rparr>)"
    using st assms by (cases s, cases t) (simp add: blind_def veiled_def)
  ultimately show "alike_at (=) (insert_secret_version h v) (insert_secret_version h w) s t"
    using st blind_fields(1) [OF st] fields by (simp add: alike_at_def insert_secret_version_def)
qed

lemma alike_encrypt:
  assumes "map_sum id (\<lambda>_. ()) (cy_encrypt (vs_crypto vs) (w_next s) key p) = map_sum id (\<lambda>_. ()) (cy_encrypt (vs_crypto vs) (w_next s) key q)"
  shows "alike_at (\<lambda>_ _. True) (encrypt vs p key) (encrypt vs q key) s s"
  using assms by (cases "cy_encrypt (vs_crypto vs) (w_next s) key p"; cases "cy_encrypt (vs_crypto vs) (w_next s) key q")
    (auto simp: alike_at_def encrypt_def)

lemma alike_store: "alike (\<lambda>(x, v) (y, w). x = y \<and> veiled v w) (store_secret h vs now x e k) (store_secret h vs now x e' k)"
  unfolding store_secret_def Let_def
  by (intro allI impI alike_bind [where R = "(=)"] alike_return [rule_format] alike_insert_secret [rule_format]
      alike_fresh [rule_format] alike_audit [rule_format] alike_insert_version [rule_format];
    simp add: veiled_def)

text \<open>
  C30. Plaintexts stay in the encrypted values: when the backend encrypts two values under the key used,
  or refuses both alike, then rotating a secret to the one or to the other, and creating it with the
  one or with the other, raises the same and leaves states - rows, access log, backing object and audit
  trail included - that differ in nothing but the encrypted values.
\<close>

theorem plaintext_confined:
  assumes "\<And>n. map_sum id (\<lambda>_. ()) (cy_encrypt (vs_crypto vs) n (use_key vs key) p) =
    map_sum id (\<lambda>_. ()) (cy_encrypt (vs_crypto vs) n (use_key vs key) q)"
  shows "alike_at veiled (rotate h vs now i p by reason key) (rotate h vs now i q by reason key) s s \<and>
    alike_at (\<lambda>(x, v) (y, w). x = y \<and> veiled v w)
      (create_secret h vs now ticks name p owner desc cls exp key) (create_secret h vs now ticks name q owner desc cls exp key) s s"
proof
  show "alike_at veiled (rotate h vs now i p by reason key) (rotate h vs now i q by reason key) s s"
    unfolding rotate_def Let_def
    by (intro allI impI alike_step alike_bind [OF alike_encrypt [OF assms]] alike_bind [where R = "(=)"]
        alike_return [rule_format] alike_fresh [rule_format] alike_insert_version [rule_format];
      simp add: alike_update alike_audit secret_version_snapshot_def veiled_def)
  have stored: "alike_at (\<lambda>(x, v) (y, w). x = y \<and> veiled v w)
      (bindS (encrypt vs p (use_key vs key)) (\<lambda>e. store_secret h vs now x e (use_key vs key)))
      (bindS (encrypt vs q (use_key vs key)) (\<lambda>e. store_secret h vs now x e (use_key vs key))) u u" for x u
    by (rule alike_bind [OF alike_encrypt [OF assms] alike_store])
  show "alike_at (\<lambda>(x, v) (y, w). x = y \<and> veiled v w)
      (create_secret h vs now ticks name p owner desc cls exp key) (create_secret h vs now ticks name q owner desc cls exp key) s s"
  proof (cases "vs_objects vs")
    case None
    then show ?thesis by (simp add: create_secret_def alike_at_def raiseS_def)
  next
    case (Some sv)
    show ?thesis
      unfolding create_secret_def Some option.case
      by (intro alike_step) (simp add: case_prod_beta stored)
  qed
qed

section \<open>Leaks\<close>








section \<open>A sample run\<close>

definition vault0 :: vault where
  "vault0 = \<lparr>w_next = 0, w_trail = [], w_seq = 0, w_last = '''', tn_audited = False,
     tn_principals = [''ann'', ''bob''], tn_objects = [], tn_scopes = [], tn_members = [], tn_projections = [],
     gd_engine = None, os_versions = [], os_tombstones = [],
     vt_secrets = [], vt_versions = [], vt_refs = [], vt_log = [], vt_policies = []\<rparr>"

definition keys0 :: memory_backend where
  "keys0 = snd (memory_generate_key memory_empty)"

definition vault_services0 :: "(unit, unit, vault) vault_services" where
  "vault_services0 = \<lparr>vs_crypto = memory_crypto keys0, vs_default_key = ''test-key-1'',
     vs_objects = Some \<lparr>sv_types = empty_types, sv_quota = None, sv_limiter = None, sv_visibility = True\<rparr>, vs_policies = True\<rparr>"

definition kept1 :: "(v1_error + secret \<times> secret_version) \<times> vault" where
  "kept1 = create_secret v1_host0 vault_services0 ''2024-01-01'' (\<lambda>_. (0, 0)) ''db'' ''hunter2'' ''ann'' '''' ''standard'' None None vault0"

definition shared1 :: "(v1_error + secret_ref) \<times> vault" where
  "shared1 = grant_ref v1_host0 vault_services0 ''2024-01-02'' ''t0'' ''bob'' ''ann'' None None (Some ''2024-02-01'') (snd kept1)"

definition rotated1 :: "(v1_error + secret_version) \<times> vault" where
  "rotated1 = rotate v1_host0 vault_services0 ''2024-01-03'' ''t0'' ''swordfish'' ''ann'' ''due'' None (snd shared1)"

definition token1 :: string where
  "token1 = rf_token (hd (vt_refs (snd shared1)))"

definition resolved1 :: "(v1_error + string) \<times> vault" where
  "resolved1 = resolve v1_host0 vault_services0 ''2024-01-04'' token1 ''bob'' None None (snd rotated1)"

lemma kept1_run: "isl (fst kept1) = False"
  by code_simp

lemma shared1_run: "isl (fst shared1) = False"
  by code_simp

lemma resolved1_run: "fst resolved1 = Inr ''swordfish''"
  by code_simp

lemma rotated1_run:
  "(case rotated1 of (r, s) \<Rightarrow> (isl r, map (\<lambda>x. (se_id x, se_version x, se_lifecycle x, se_expires x)) (vt_secrets s),
     map (\<lambda>v. (sn_secret v, sn_number v, sn_value v)) (vt_versions s),
     map (\<lambda>r. (rf_secret r, rf_to r, rf_lifecycle r, rf_expires r)) (vt_refs s), vt_log s, tn_principals s)) =
   (False, [(''t0'', 2, Active, None)], [(''t0'', 1, ''ENC:test-key-1:hunter2''), (''t0'', 2, ''ENC:test-key-1:swordfish'')],
    [(''t0'', ''bob'', Active, Some ''2024-02-01'')], [], [''ann'', ''bob''])"
  by code_simp

lemma vault_run1:
  "isl (fst kept1) = False" "isl (fst shared1) = False" "isl (fst rotated1) = False" "fst resolved1 = Inr ''swordfish''"
  "map (\<lambda>x. (se_id x, se_version x, se_lifecycle x, se_expires x)) (vt_secrets (snd rotated1)) = [(''t0'', 2, Active, None)]"
  "map (\<lambda>v. (sn_secret v, sn_number v, sn_value v)) (vt_versions (snd rotated1)) =
     [(''t0'', 1, ''ENC:test-key-1:hunter2''), (''t0'', 2, ''ENC:test-key-1:swordfish'')]"
  "map (\<lambda>r. (rf_secret r, rf_to r, rf_lifecycle r, rf_expires r)) (vt_refs (snd rotated1)) = [(''t0'', ''bob'', Active, Some ''2024-02-01'')]"
  "vt_log (snd rotated1) = []" "tn_principals (snd rotated1) = [''ann'', ''bob'']"
  using kept1_run shared1_run resolved1_run rotated1_run by (auto simp: split_beta)

lemma vault_sample_steps: "vault_steps v1_host0 vault_services0 vault0 (snd rotated1)"
proof -
  have "vault_step v1_host0 vault_services0 vault0 (snd kept1)" "vault_step v1_host0 vault_services0 (snd kept1) (snd shared1)"
    "vault_step v1_host0 vault_services0 (snd shared1) (snd rotated1)"
    unfolding kept1_def shared1_def rotated1_def by (rule vault_step.intros)+
  then show ?thesis by (meson converse_rtranclp_into_rtranclp rtranclp.rtrancl_refl)
qed

lemma vault0_ok: "vault_ok (vault_db vault0)"
  by (simp add: vault_ok_def vault_db_def vault0_def)

lemma Inr_of: "isl (fst p) = False \<Longrightarrow> \<exists>x t. p = (Inr x, t)"
  by (cases p; cases "fst p") auto

lemma token1_found: "\<exists>r. find (\<lambda>r. rf_token r = token1) (vt_refs (snd rotated1)) = Some r \<and> rf_secret r = ''t0'' \<and>
    rf_to r = ''bob'' \<and> rf_lifecycle r = Active \<and> rf_expires r = Some ''2024-02-01''"
proof -
  have "map (\<lambda>r. (rf_token r, rf_secret r, rf_to r, rf_lifecycle r, rf_expires r)) (vt_refs (snd rotated1)) =
      [(token1, ''t0'', ''bob'', Active, Some ''2024-02-01'')]" by code_simp
  then show ?thesis by (cases "vt_refs (snd rotated1)") auto
qed

section \<open>Witnesses\<close>

theorem secrets_follow_machine_witness:
  "vault_ok (vault_db (snd rotated1)) \<and> map sn_number (vt_versions (snd rotated1)) = [1, 2]"
proof
  show "vault_ok (vault_db (snd rotated1))"
    using secrets_follow_machine [OF vault_sample_steps vault0_ok] by simp
  show "map sn_number (vt_versions (snd rotated1)) = [1, 2]" by code_simp
qed

theorem resolve_decision_witness:
  "\<exists>r. find (\<lambda>r. rf_token r = token1) (vt_refs (snd rotated1)) = Some r \<and> entitled ''2024-01-04'' r ''bob'' None None"
proof -
  have "resolve v1_host0 vault_services0 ''2024-01-04'' token1 ''bob'' None None (snd rotated1) = (Inr ''swordfish'', snd resolved1)"
    using vault_run1(4) unfolding resolved1_def by (metis prod.collapse)
  from resolve_decision [OF this] show ?thesis by blast
qed

theorem attempts_logged_witness:
  "map sx_result (vt_log (snd (resolve v1_host0 vault_services0 ''2024-01-04'' token1 ''ann'' None None (snd rotated1)))) = [Denied]"
proof -
  have ok: "vault_ok (vault_db (snd rotated1))"
    using vault_run_ok [OF vault_steps_run [OF vault_sample_steps] vault0_ok] by blast
  obtain r where r: "find (\<lambda>r. rf_token r = token1) (vt_refs (snd rotated1)) = Some r" "rf_to r = ''bob''"
    "rf_expires r = Some ''2024-02-01''" using token1_found by blast
  have late: "\<not> ref_expired ''2024-01-04'' r" unfolding ref_expired_def r(3) option.case by code_simp
  have "\<not> entitled ''2024-01-04'' r ''ann'' None None" using r(2) by (simp add: entitled_def)
  with attempts_logged [OF ok, where a = "''ann''" and h = v1_host0 and tok = token1 and vs = vault_services0
      and now = "''2024-01-04''" and sc = None and en = None] r(1) late vault_run1(8,9)
  show ?thesis by (auto simp: access_entry_def)
qed

theorem resolve_gives_latest_witness: "fst resolved1 = Inr ''swordfish''"
proof -
  obtain v t where rot: "rotated1 = (Inr v, t)" using Inr_of [OF vault_run1(3)] by blast
  obtain r where r: "find (\<lambda>r. rf_token r = token1) (vt_refs (snd rotated1)) = Some r" "rf_secret r = ''t0''"
    using token1_found by blast
  have "isl (fst resolved1) = False" by (simp add: vault_run1(4))
  then obtain p u where res: "resolved1 = (Inr p, u)" using Inr_of by blast
  have "secret_backend (vs_crypto vault_services0)"
    unfolding vault_services0_def vault_services.simps by (rule memory.secret_backend_axioms)
  from resolve_gives_latest [OF this rot [unfolded rotated1_def] _ r(2)] r(1) res show ?thesis
    unfolding resolved1_def rot by (metis fst_conv snd_conv)
qed

theorem plaintext_confined_witness:
  "blind (snd rotated1) = blind (snd (rotate v1_host0 vault_services0 ''2024-01-03'' ''t0'' ''other'' ''ann'' ''due'' None (snd shared1)))"
proof -
  have "map_sum id (\<lambda>_. ()) (cy_encrypt (vs_crypto vault_services0) n k p) =
      map_sum id (\<lambda>_. ()) (cy_encrypt (vs_crypto vault_services0) n k q)" for n k p q
    by (simp add: vault_services0_def memory_crypto_def memory_encrypt_def)
  from plaintext_confined [OF this] show ?thesis unfolding rotated1_def alike_at_def by blast
qed

end
