(* ===== verification/V1_Temporal.thy ===== *)
theory V1_Temporal
  imports V1_Object_Transfer
begin

text \<open>
  \<open>legacy/v1/scoped/temporal\<close>: the state of a target at a time, read from the audit trail
  (\<open>reconstruction.py\<close>), the constraints on rollbacks (\<open>constraints.py\<close>) and rollbacks of single
  actions, to a time, and of an action with all that depend on it (\<open>rollback.py\<close>).

  Rollbacks write the tables of objects directly, and the columns of environments, which are held
  here as a table of their own. A version number or a state that has not the type of its column, which
  the database would coerce or refuse, is read as \<open>V1TypeError\<close>. The engine of the constraint
  checker, if it was given one, is the engine of the state.
\<close>

section \<open>Reconstruction\<close>

record reconstructed =
  rc_type :: string
  rc_target :: string
  rc_time :: string
  rc_state :: "json option"
  rc_trace :: "string option"
  rc_found :: bool

definition reconstructed_snapshot :: "reconstructed \<Rightarrow> json" where
  "reconstructed_snapshot r = JObj
     [(''target_type'', JStr (rc_type r)), (''target_id'', JStr (rc_target r)), (''timestamp'', JStr (rc_time r)),
      (''state'', opt_json (rc_state r)), (''trace_id'', opt_str (rc_trace r)), (''found'', JBool (rc_found r))]"

definition reconstruct :: "string \<Rightarrow> string \<Rightarrow> string \<Rightarrow> ('x v1_state_scheme, reconstructed) sop" where
  "reconstruct ttype tid at =
     getS (\<lambda>s.
       case sql_limit (Some 1) 0 (sql_order True tr_seq
              (filter (\<lambda>t. tr_ttype t = ttype \<and> tr_tid t = tid \<and> tr_time t \<le> at \<and> tr_after t \<noteq> None) (w_trail s))) of
         [] \<Rightarrow> \<lparr>rc_type = ttype, rc_target = tid, rc_time = at, rc_state = None, rc_trace = None, rc_found = False\<rparr>
       | t # _ \<Rightarrow> \<lparr>rc_type = ttype, rc_target = tid, rc_time = at, rc_state = tr_after t, rc_trace = Some (tr_id t),
                    rc_found = True\<rparr>)"

definition reconstruct_many :: "(string \<times> string) list \<Rightarrow> string \<Rightarrow> ('x v1_state_scheme, reconstructed list) sop" where
  "reconstruct_many targets at = mapS (\<lambda>(ttype, tid). reconstruct ttype tid at) targets"

definition history_at :: "string \<Rightarrow> string \<Rightarrow> string list \<Rightarrow> ('x v1_state_scheme, reconstructed list) sop" where
  "history_at ttype tid ats = mapS (reconstruct ttype tid) ats"

section \<open>The state\<close>

record env_columns =
  ec_id :: string
  ec_state :: string
  ec_meta :: json

record rollback_store = object_store +
  tm_envs :: "env_columns list"

section \<open>Constraints\<close>

record constraint_check =
  cc_permitted :: bool
  cc_reason :: string
  cc_trace :: trace
  cc_rules :: "rule list"

definition immutable_target_types :: "string list" where
  "immutable_target_types = [''audit'', ''trace'']"

definition immutable_reason :: "trace \<Rightarrow> string" where
  "immutable_reason e = ''Target type '' @ [CHR 0x27] @ tr_ttype e @ [CHR 0x27] @ '' is immutable and cannot be rolled back''"

definition rollback_query :: "trace \<Rightarrow> string \<Rightarrow> string option \<Rightarrow> access_request" where
  "rollback_query e actor kind =
     \<lparr>aq_action = ''rollback'', aq_principal = Some actor, aq_kind = kind, aq_type = Some (tr_ttype e),
      aq_object = Some (tr_tid e), aq_scope = tr_scope e, aq_env = None\<rparr>"

definition rollback_check ::
  "v1_host \<Rightarrow> string \<Rightarrow> (binding_target \<Rightarrow> int \<times> int) \<Rightarrow> string \<Rightarrow> string option \<Rightarrow> trace \<Rightarrow>
   ('x guarded_scheme, constraint_check) sop" where
  "rollback_check h now ticks actor kind e =
     (if tr_ttype e \<in> set immutable_target_types
      then returnS \<lparr>cc_permitted = False, cc_reason = immutable_reason e, cc_trace = e, cc_rules = []\<rparr>
      else bindS (getS gd_engine) (\<lambda>engine.
        case engine of
          None \<Rightarrow> returnS \<lparr>cc_permitted = True, cc_reason = ''Rollback permitted'', cc_trace = e, cc_rules = []\<rparr>
        | Some g \<Rightarrow>
            bindS (zoomS (engine_part g) engine_put (evaluate_request h now ticks (rollback_query e actor kind))) (\<lambda>res.
              if \<not> er_allowed res \<and> er_deny res \<noteq> []
              then returnS \<lparr>cc_permitted = False, cc_reason = ''Rollback denied by rule engine'', cc_trace = e, cc_rules = er_deny res\<rparr>
              else returnS \<lparr>cc_permitted = True, cc_reason = ''Rollback permitted'', cc_trace = e, cc_rules = []\<rparr>)))"

definition check_or_raise ::
  "v1_host \<Rightarrow> string \<Rightarrow> (binding_target \<Rightarrow> int \<times> int) \<Rightarrow> string \<Rightarrow> string option \<Rightarrow> trace \<Rightarrow>
   ('x guarded_scheme, constraint_check) sop" where
  "check_or_raise h now ticks actor kind e =
     bindS (rollback_check h now ticks actor kind e) (\<lambda>c.
       if \<not> cc_permitted c then raiseS RollbackDenied else returnS c)"

definition check_many ::
  "v1_host \<Rightarrow> string \<Rightarrow> (binding_target \<Rightarrow> int \<times> int) \<Rightarrow> string \<Rightarrow> string option \<Rightarrow> trace list \<Rightarrow>
   ('x guarded_scheme, constraint_check list) sop" where
  "check_many h now ticks actor kind = mapS (rollback_check h now ticks actor kind)"

section \<open>Restoring the tables\<close>

text \<open>The numbers of the versions before and after an action; the older form has the first in \<open>before_state\<close>.\<close>

definition version_pointers :: "trace \<Rightarrow> v1_error + (json \<times> json)" where
  "version_pointers e =
     bindE (case (meta_get (tr_meta e) ''before_version'' JNull, tr_before e) of
              (JNull, Some st) \<Rightarrow> json_get st ''current_version'' JNull
            | (v, _) \<Rightarrow> Inr v) (\<lambda>before.
       Inr (before, meta_get (tr_meta e) ''after_version'' JNull))"

definition point_at :: "string \<Rightarrow> nat \<Rightarrow> ('x tenant_scheme, unit) sop" where
  "point_at object_id n = update_object object_id (\<lambda>b. b\<lparr>ob_version := n\<rparr>)"

definition delete_version :: "string \<Rightarrow> nat \<Rightarrow> ('x object_store_scheme, unit) sop" where
  "delete_version object_id n =
     modifyS (\<lambda>s. s\<lparr>os_versions := filter (\<lambda>v. \<not> (ov_object v = object_id \<and> ov_number v = n)) (os_versions s)\<rparr>)"

definition restore_object :: "trace \<Rightarrow> ('x object_store_scheme, unit) sop" where
  "restore_object e =
     bindS (liftS (version_pointers e)) (\<lambda>(before, after).
       if before \<noteq> JNull then
         bindS (liftS (as_count before)) (\<lambda>n.
         bindS (point_at (tr_tid e) n) (\<lambda>_.
           if after \<noteq> JNull \<and> \<not> py_eq after before
           then bindS (liftS (as_count after)) (\<lambda>m. delete_version (tr_tid e) m)
           else returnS ()))
       else if tr_before e = None then update_object (tr_tid e) (\<lambda>b. b\<lparr>ob_lifecycle := Archived\<rparr>)
       else returnS ())"

definition update_env_columns :: "string \<Rightarrow> (env_columns \<Rightarrow> env_columns) \<Rightarrow> ('x rollback_store_scheme, unit) sop" where
  "update_env_columns env_id f = modifyS (\<lambda>s. s\<lparr>tm_envs := sql_update_where (\<lambda>x. ec_id x = env_id) f (tm_envs s)\<rparr>)"

text \<open>The columns that a former state of an environment restores: those it mentions.\<close>

definition restored_columns :: "json \<Rightarrow> v1_error + (env_columns \<Rightarrow> env_columns)" where
  "restored_columns st =
     bindE (as_dict st) (\<lambda>m.
     bindE (case map_of m ''state'' of
              None \<Rightarrow> Inr (\<lambda>x. x)
            | Some j \<Rightarrow> bindE (as_text j) (\<lambda>q. Inr (\<lambda>x. x\<lparr>ec_state := q\<rparr>))) (\<lambda>f.
       Inr (case map_of m ''metadata'' of None \<Rightarrow> f | Some j \<Rightarrow> (\<lambda>x. (f x)\<lparr>ec_meta := j\<rparr>))))"

definition restore_environment :: "trace \<Rightarrow> ('x rollback_store_scheme, unit) sop" where
  "restore_environment e =
     (case tr_before e of
        Some st \<Rightarrow> bindS (liftS (restored_columns st)) (update_env_columns (tr_tid e))
      | None \<Rightarrow> update_env_columns (tr_tid e) (\<lambda>x. x\<lparr>ec_state := ''discarded''\<rparr>))"

definition apply_rollback_state :: "trace \<Rightarrow> ('x rollback_store_scheme, unit) sop" where
  "apply_rollback_state e =
     bindS (getS (\<lambda>s. list_ex (\<lambda>b. ob_id b = tr_tid e) (tn_objects s))) (\<lambda>is_object.
       if is_object then restore_object e
       else
         bindS (getS (\<lambda>s. list_ex (\<lambda>x. ec_id x = tr_tid e) (tm_envs s))) (\<lambda>is_env.
           whenS is_env (restore_environment e)))"

section \<open>Rollbacks\<close>

record rollback_result =
  rb_success :: bool
  rb_rolled_back :: "string list"
  rb_traces :: "string list"
  rb_skipped :: "string list"
  rb_denied :: "string list"

record rollback_preview =
  rv_rollback :: "string list"
  rv_skip :: "string list"
  rv_deny :: "string list"
  rv_count :: nat

datatype rollback_outcome = RolledBack rollback_result | WouldRollBack rollback_preview

definition rollback_request :: "trace \<Rightarrow> string \<Rightarrow> string \<Rightarrow> string option \<Rightarrow> trace_request" where
  "rollback_request e actor reason parent =
     \<lparr>rq_actor = actor, rq_action = ''rollback'', rq_ttype = tr_ttype e, rq_tid = tr_tid e, rq_scope = tr_scope e,
      rq_before = tr_after e, rq_after = tr_before e,
      rq_meta = [(''rolled_back_trace_id'', JStr (tr_id e)), (''rolled_back_action'', JStr (tr_action e)),
                 (''reason'', JStr reason)],
      rq_parent = parent\<rparr>"

definition execute_single_rollback ::
  "v1_host \<Rightarrow> string \<Rightarrow> string \<Rightarrow> string \<Rightarrow> string option \<Rightarrow> trace \<Rightarrow> ('x rollback_store_scheme, trace) sop" where
  "execute_single_rollback h now actor reason parent e =
     bindS (apply_rollback_state e) (\<lambda>_.
       record_entry h (\<lambda>_. now) (\<lambda>_ rows. rows) (rollback_request e actor reason parent))"

definition check_constraints ::
  "v1_host \<Rightarrow> string \<Rightarrow> (binding_target \<Rightarrow> int \<times> int) \<Rightarrow> bool \<Rightarrow> string \<Rightarrow> string option \<Rightarrow> trace \<Rightarrow>
   ('x guarded_scheme, unit) sop" where
  "check_constraints h now ticks checked actor kind e =
     whenS checked (bindS (check_or_raise h now ticks actor kind e) (\<lambda>_. returnS ()))"

definition found_trace :: "string \<Rightarrow> ('x v1_state_scheme, trace) sop" where
  "found_trace trace_id =
     bindS (getS (\<lambda>s. trace_get trace_id (w_trail s))) (\<lambda>row.
       case row of None \<Rightarrow> raiseS RollbackFailed | Some e \<Rightarrow> returnS e)"

definition rollback_action ::
  "v1_host \<Rightarrow> string \<Rightarrow> (binding_target \<Rightarrow> int \<times> int) \<Rightarrow> bool \<Rightarrow> string \<Rightarrow> string \<Rightarrow> string option \<Rightarrow> string \<Rightarrow> bool \<Rightarrow>
   ('x rollback_store_scheme, rollback_outcome) sop" where
  "rollback_action h now ticks checked trace_id actor kind reason dry_run =
     bindS (found_trace trace_id) (\<lambda>e.
     bindS (check_constraints h now ticks checked actor kind e) (\<lambda>_.
       if dry_run then returnS (WouldRollBack \<lparr>rv_rollback = [tr_id e], rv_skip = [], rv_deny = [], rv_count = 1\<rparr>)
       else
         bindS (execute_single_rollback h now actor reason None e) (\<lambda>r.
           returnS (RolledBack \<lparr>rb_success = True, rb_rolled_back = [tr_id e], rb_traces = [tr_id r], rb_skipped = [], rb_denied = []\<rparr>))))"

text \<open>The loop over the constraints: the permitted entries and the identifiers of the denied ones.\<close>

fun sift ::
  "(trace \<Rightarrow> ('s, constraint_check) sop) \<Rightarrow> (trace \<Rightarrow> bool) \<Rightarrow> trace list \<Rightarrow> ('s, trace list \<times> string list) sop" where
  "sift check asked [] = returnS ([], [])"
| "sift check asked (e # es) =
     bindS (if asked e then bindS (check e) (\<lambda>c. returnS (cc_permitted c)) else returnS True) (\<lambda>ok.
     bindS (sift check asked es) (\<lambda>(permitted, denied).
       returnS (if ok then (e # permitted, denied) else (permitted, tr_id e # denied))))"

definition execute_all ::
  "v1_host \<Rightarrow> string \<Rightarrow> string \<Rightarrow> string \<Rightarrow> (trace \<Rightarrow> string option) \<Rightarrow> trace list \<Rightarrow> string list \<Rightarrow>
   ('x rollback_store_scheme, rollback_outcome) sop" where
  "execute_all h now actor reason parent permitted denied =
     bindS (mapS (\<lambda>e. execute_single_rollback h now actor reason (parent e) e) permitted) (\<lambda>rs.
       returnS (RolledBack \<lparr>rb_success = True, rb_rolled_back = map tr_id permitted, rb_traces = map tr_id rs,
         rb_skipped = [], rb_denied = denied\<rparr>))"

definition entries_after :: "string \<Rightarrow> string \<Rightarrow> string \<Rightarrow> trace list \<Rightarrow> trace list" where
  "entries_after ttype tid at rows =
     sql_order True tr_seq (filter (\<lambda>e. at < tr_time e)
       (trace_query (no_filter\<lparr>tf_ttype := Some ttype, tf_tid := Some tid, tf_since := Some at\<rparr>) ''sequence'' 10000 0 rows))"

definition rollback_to_timestamp ::
  "v1_host \<Rightarrow> string \<Rightarrow> (binding_target \<Rightarrow> int \<times> int) \<Rightarrow> bool \<Rightarrow> string \<Rightarrow> string \<Rightarrow> string \<Rightarrow> string \<Rightarrow> string option \<Rightarrow>
   string \<Rightarrow> bool \<Rightarrow> ('x rollback_store_scheme, rollback_outcome) sop" where
  "rollback_to_timestamp h now ticks checked ttype tid at actor kind reason dry_run =
     bindS (getS (\<lambda>s. entries_after ttype tid at (w_trail s))) (\<lambda>entries.
       if entries = []
       then returnS (RolledBack \<lparr>rb_success = True, rb_rolled_back = [], rb_traces = [], rb_skipped = [], rb_denied = []\<rparr>)
       else
         bindS (sift (rollback_check h now ticks actor kind) (\<lambda>_. checked) entries) (\<lambda>(permitted, denied).
           if denied \<noteq> [] \<and> permitted = [] then raiseS RollbackDenied
           else if dry_run
           then returnS (WouldRollBack \<lparr>rv_rollback = map tr_id permitted, rv_skip = [], rv_deny = denied, rv_count = length entries\<rparr>)
           else execute_all h now actor (if reason = [] then ''Point-in-time rollback to '' @ at else reason)
                  (\<lambda>_. None) permitted denied))"

text \<open>
  The descendants in breadth-first order, down to \<open>max_depth\<close>: an entry of the queue at depth \<open>d\<close>
  weighs more than all the entries it can add, which ends the loop.
\<close>

definition max_depth :: nat where
  "max_depth = 100"

definition queue_weight :: "trace list \<Rightarrow> (string \<times> nat) list \<Rightarrow> nat" where
  "queue_weight rows queue = sum_list (map (\<lambda>(_, d). (length rows + 2) ^ (max_depth + 1 - d)) queue)"

lemma children_bound: "length (trace_children i rows) \<le> length rows"
proof -
  have "length (filter P rows) \<le> length rows" for P by (rule length_filter_le)
  then show ?thesis
    by (simp add: trace_children_def trace_query_def sql_limit_def sql_order_def min.coboundedI1 min.coboundedI2
        Let_def)
qed

lemma queue_weight_less:
  assumes "d < max_depth"
  shows "queue_weight rows (queue @ map (\<lambda>c. (tr_id c, Suc d)) (trace_children i rows)) < queue_weight rows ((i, d) # queue)"
proof -
  let ?n = "length rows + 2"
  have "sum_list (map (\<lambda>(_, e). ?n ^ (max_depth + 1 - e)) (map (\<lambda>c. (tr_id c, Suc d)) cs)) = length cs * ?n ^ (max_depth - d)"
    for cs :: "trace list"
    by (induction cs) auto
  moreover have "length (trace_children i rows) * ?n ^ (max_depth - d) < ?n * ?n ^ (max_depth - d)"
    using children_bound [of i rows] by (intro mult_strict_right_mono) auto
  moreover have "?n * ?n ^ (max_depth - d) = ?n ^ (max_depth + 1 - d)"
    using assms by (simp add: Suc_diff_le flip: power_Suc)
  ultimately show ?thesis by (simp add: queue_weight_def)
qed

function descendants_bfs :: "trace list \<Rightarrow> (string \<times> nat) list \<Rightarrow> trace list" where
  "descendants_bfs rows [] = []"
| "descendants_bfs rows ((current, depth) # queue) =
     (if depth \<ge> max_depth then descendants_bfs rows queue
      else trace_children current rows @
           descendants_bfs rows (queue @ map (\<lambda>c. (tr_id c, Suc depth)) (trace_children current rows)))"
  by pat_completeness auto

termination
proof (relation "measure (\<lambda>(rows, queue). queue_weight rows queue)", goal_cases)
  case (2 rows current depth queue)
  then show ?case by (simp add: queue_weight_def)
next
  case (3 rows current depth queue)
  then have "depth < max_depth" by simp
  from queue_weight_less [OF this] show ?case by simp
qed simp

declare descendants_bfs.simps [simp del]

definition collect_descendants :: "string \<Rightarrow> trace list \<Rightarrow> trace list" where
  "collect_descendants parent_id rows = descendants_bfs rows [(parent_id, 0)]"

text \<open>The loop that keeps the first entry of each identifier.\<close>

fun first_of_each :: "string list \<Rightarrow> trace list \<Rightarrow> trace list" where
  "first_of_each seen [] = []"
| "first_of_each seen (e # es) =
     (if tr_id e \<in> set seen then first_of_each seen es else e # first_of_each (tr_id e # seen) es)"

definition cascade_entries :: "trace \<Rightarrow> trace list \<Rightarrow> trace list" where
  "cascade_entries root rows =
     first_of_each [] (sql_order True tr_seq (collect_descendants (tr_id root) rows @ [root]))"

definition rollback_cascade ::
  "v1_host \<Rightarrow> string \<Rightarrow> (binding_target \<Rightarrow> int \<times> int) \<Rightarrow> bool \<Rightarrow> string \<Rightarrow> string \<Rightarrow> string option \<Rightarrow> string \<Rightarrow> bool \<Rightarrow>
   ('x rollback_store_scheme, rollback_outcome) sop" where
  "rollback_cascade h now ticks checked trace_id actor kind reason dry_run =
     bindS (found_trace trace_id) (\<lambda>root.
     bindS (check_constraints h now ticks checked actor kind root) (\<lambda>_.
     bindS (getS (\<lambda>s. cascade_entries root (w_trail s))) (\<lambda>entries.
     bindS (sift (rollback_check h now ticks actor kind) (\<lambda>e. tr_id e \<noteq> tr_id root \<and> checked) entries) (\<lambda>(permitted, denied).
       if dry_run
       then returnS (WouldRollBack \<lparr>rv_rollback = map tr_id permitted, rv_skip = [], rv_deny = denied, rv_count = length entries\<rparr>)
       else execute_all h now actor (if reason = [] then ''Cascade rollback from '' @ trace_id else reason)
              (\<lambda>e. if tr_id e \<noteq> tr_id root then Some trace_id else None) permitted denied))))"

end
