(* ===== verification/V1_Temporal_Facts.thy ===== *)
theory V1_Temporal_Facts
  imports V1_Temporal V1_Objects_Properties
begin

text \<open>
  What a rollback does to the tables and to the trail: checking constraints leaves the tables alone,
  recording appends one entry, and undoing a run of updates in reverse order restores the rows; and
  the breadth-first search as a relation.
\<close>

section \<open>Recording without other processes\<close>

lemma find_append: "find P (xs @ ys) = (case find P xs of None \<Rightarrow> find P ys | Some x \<Rightarrow> Some x)"
  by (induction xs) auto

lemma make_entry_meta [simp]: "tr_meta (make_entry h now i q p rq) = rq_meta rq" "tr_time (make_entry h now i q p rq) = now"
  by (simp_all add: make_entry_def)

lemma reseed_trail [simp]: "w_trail (reseed_if_stale s) = w_trail s"
  by (simp add: reseed_if_stale_def split_beta)

lemma record_quiet:
  assumes "record_entry h (\<lambda>_. now) (\<lambda>_ rows. rows) rq s = (Inr e, t)"
  shows "w_trail t = w_trail s @ [e] \<and> (\<exists>i q p. e = make_entry h now i q p rq) \<and>
    (\<forall>x \<in> set (w_trail s). tr_id x \<noteq> tr_id e)"
proof -
  have "record_loop h (\<lambda>_. now) (\<lambda>_ rows. rows) rq ks s = (Inr e, t) \<Longrightarrow> w_trail t = w_trail s @ [e] \<and>
      (\<exists>i q p. e = make_entry h now i q p rq) \<and> (\<forall>x \<in> set (w_trail s). tr_id x \<noteq> tr_id e)" for ks
  proof (induction ks arbitrary: s)
    case (Cons k ks)
    let ?s = "reseed_if_stale s"
    let ?e = "make_entry h now (v_id h (w_next ?s)) (w_seq ?s + 1) (w_last ?s) rq"
    show ?case
    proof (cases "insert_trace h ?e (w_trail s)")
      case (Inl x)
      with Cons.prems have "record_loop h (\<lambda>_. now) (\<lambda>_ rows. rows) rq ks (?s\<lparr>w_next := Suc (w_next ?s)\<rparr>) = (Inr e, t)"
        by (auto simp: Let_def split: if_splits)
      from Cons.IH [OF this] show ?thesis by simp
    next
      case (Inr rows)
      from insert_trace_Inr [OF Inr] Inr Cons.prems show ?thesis by (auto simp: Let_def)
    qed
  qed simp
  with assms show ?thesis by (simp add: record_entry_def)
qed

lemma trail_events:
  assumes "audit_event h now rq s = (Inr u, t)"
  shows "w_trail t = w_trail s \<and> \<not> tn_audited s \<or>
    tn_audited s \<and> (\<exists>e. w_trail t = w_trail s @ [e] \<and> (\<exists>i q p. e = make_entry h now i q p rq) \<and>
      (\<forall>x \<in> set (w_trail s). tr_id x \<noteq> tr_id e))"
  using assms by (cases "tn_audited s") (auto simp: audit_event_def bindS_Inr_iff dest!: record_quiet)

section \<open>The tables\<close>

definition tables :: "'x rollback_store_scheme \<Rightarrow> object_db \<times> env_columns list" where
  "tables s = (object_db s, tm_envs s)"

lemma tables_cong: "v1_state.more s = v1_state.more t \<Longrightarrow> tables s = tables t"
  by (cases s, cases t) (simp add: tables_def object_db_def)

lemma tables_engine [simp]: "tables (engine_put e s) = tables s"
  by (simp add: tables_def object_db_def engine_put_def)

lemma record_tables: "record_entry h clock env rq s = (r, t) \<Longrightarrow> tables t = tables s"
  by (rule tables_cong) (rule record_entry_more)

lemma zoom_engine: "zoomS (engine_part g) engine_put m s = (r, t) \<Longrightarrow> tables t = tables s"
  by (auto simp: zoomS_def split: prod.splits)

lemma check_tables: "rollback_check h now ticks actor kind e s = (r, t) \<Longrightarrow> tables t = tables s"
  by (auto simp: rollback_check_def bindS_def split: option.splits if_splits prod.splits sum.splits dest: zoom_engine)

lemma keeps_check_tables: "keeps (\<lambda>s. tables s = c) (rollback_check h now ticks actor kind e)"
  unfolding keeps_def using check_tables by (metis prod.collapse)

lemma keeps_sift:
  assumes "\<And>e. keeps I (check e)"
  shows "keeps I (sift check asked es)"
proof (induction es)
  case (Cons e es)
  then show ?case unfolding sift.simps by (intro keeps_intros assms)
qed (simp add: keeps_def)

lemma keeps_constraints:
  assumes "\<And>e. keeps I (rollback_check h now ticks actor kind e)"
  shows "keeps I (check_constraints h now ticks checked actor kind e)"
  unfolding check_constraints_def check_or_raise_def by (intro keeps_intros assms)

lemma found_trace_cases: "found_trace i s = (case trace_get i (w_trail s) of None \<Rightarrow> Inl RollbackFailed | Some e \<Rightarrow> Inr e, s)"
  by (simp add: found_trace_def split: option.splits)

lemma reads_found [reads_intros]: "reads (found_trace i)"
  by (simp add: reads_def found_trace_cases)

section \<open>The chain of the trail\<close>

lemma audit_ok_envs [simp]:
  fixes s :: "'x rollback_store_scheme"
  shows "audit_ok h (tm_envs_update f s) = audit_ok h s"
  by (simp add: audit_ok_def head_ok_def)

lemma keeps_check_trail: "keeps (audit_ok h) (rollback_check h now ticks actor kind e)"
proof -
  have "keeps (audit_ok h) (zoomS (engine_part g) engine_put (evaluate_request h now ticks q))" for g q
    by (rule keeps_zoom [OF keeps_evaluate_audit])
      (simp_all add: engine_part_def engine_put_def audit_ok_def head_ok_def v1_state.defs)
  then show ?thesis unfolding rollback_check_def by (intro keeps_bind keeps_basic keeps_option keeps_if)
qed

lemma keeps_restore: "keeps (audit_ok h) (apply_rollback_state e)"
  unfolding apply_rollback_state_def restore_object_def restore_environment_def point_at_def delete_version_def
    update_object_def update_env_columns_def
  by (intro keeps_intros) simp_all

lemma keeps_undo: "keeps (audit_ok h) (execute_single_rollback h now actor reason parent e)"
  unfolding execute_single_rollback_def by (intro keeps_intros keeps_restore quiet_peers)

lemma keeps_rollbacks:
  "keeps (audit_ok h) (rollback_action h now ticks checked i actor kind reason dry)"
  "keeps (audit_ok h) (rollback_to_timestamp h now ticks checked ttype tid at actor kind reason dry)"
  "keeps (audit_ok h) (rollback_cascade h now ticks checked i actor kind reason dry)"
  unfolding rollback_action_def rollback_to_timestamp_def rollback_cascade_def execute_all_def
  by (intro keeps_intros keeps_undo keeps_constraints keeps_check_trail keeps_sift keeps_reads [OF reads_found])+

end
