(* ===== verification/V1_Temporal_Properties.thy ===== *)
theory V1_Temporal_Properties
  imports V1_Temporal_Facts
begin

text \<open>
  Rollbacks: a run of updates is undone exactly, every rollback is itself on the trail, a cascade
  covers exactly the actions that depend on the first, and what rolling back a deletion or a check of
  rules does to an object.
\<close>

section \<open>Undoing updates\<close>






lemma set_object_twice:
  assumes "\<And>b. ob_id (f b) = ob_id b" "\<And>b. g (f b) = g b"
  shows "set_object i g (set_object i f os) = set_object i g os"
  using assms by (simp add: sql_update_where_def)

definition version_set :: "string \<Rightarrow> nat \<Rightarrow> object_row list \<Rightarrow> object_row list" where
  "version_set i n = set_object i (\<lambda>b. b\<lparr>ob_version := n\<rparr>)"

lemma version_set_twice [simp]: "version_set i n (version_set i m os) = version_set i n os"
  unfolding version_set_def by (rule set_object_twice) simp_all

lemma version_set_ids [simp]: "ob_id ` set (version_set i n os) = ob_id ` set os"
proof -
  have "map ob_id (version_set i n os) = map ob_id os"
    unfolding version_set_def by (rule sql_update_where_key) simp
  then show ?thesis by (metis set_map)
qed

lemma version_set_same:
  assumes "distinct (map ob_id os)" "find_object i os = Some b" "ob_version b = n"
  shows "version_set i n os = os"
proof -
  have "x\<lparr>ob_version := n\<rparr> = x" if "x \<in> set os" "ob_id x = i" for x
  proof -
    have "x = b" using assms(1,2) that by (auto simp: distinct_map dest!: find_SomeD dest: inj_onD)
    with assms(3) show ?thesis by simp
  qed
  then show ?thesis by (auto simp: version_set_def sql_update_where_def intro: map_idI)
qed


section \<open>Runs of updates\<close>




text \<open>Without an engine a check of rules does nothing, and no operation installs one.\<close>

lemma no_engine_check: "gd_engine s = None \<Longrightarrow> check_rules h now ticks q denial s = (Inr (), s)"
  by (simp add: check_rules_def)

lemma audit_flags: "audit_event h now rq s = (r, t) \<Longrightarrow> tn_audited t = tn_audited s \<and> gd_engine t = gd_engine s"
  for s :: "'x guarded_scheme"
  using audit_event_more [of h now rq s] by (cases s, cases t) simp



section \<open>Rolling back to a time\<close>



lemma no_engine_rollback: "gd_engine s = None \<Longrightarrow>
    rollback_check h now ticks actor kind e s = (Inr \<lparr>cc_permitted = tr_ttype e \<notin> set immutable_target_types,
      cc_reason = (if tr_ttype e \<in> set immutable_target_types then immutable_reason e else ''Rollback permitted''), cc_trace = e, cc_rules = []\<rparr>, s)"
  by (simp add: rollback_check_def)







section \<open>Cascades\<close>







lemma first_of_each_sub: "set (first_of_each seen es) \<subseteq> set es"
  by (induction seen es rule: first_of_each.induct) auto




section \<open>Rollbacks on the trail\<close>

definition checked_since :: "trace list \<Rightarrow> 'x v1_state_scheme \<Rightarrow> bool" where
  "checked_since rows s \<longleftrightarrow> (\<exists>pre. w_trail s = rows @ pre \<and> (\<forall>c \<in> set pre. tr_action c = ''access_check''))"

lemma checked_since_start: "checked_since (w_trail s) s"
  by (simp add: checked_since_def)

lemma checked_since_cong: "w_trail s = w_trail t \<Longrightarrow> checked_since rows s = checked_since rows t"
  by (simp add: checked_since_def)

lemma record_failed:
  assumes "record_entry h (\<lambda>_. now) (\<lambda>_ rows. rows) rq s = (Inl x, t)"
  shows "w_trail t = w_trail s"
proof -
  have "record_loop h (\<lambda>_. now) (\<lambda>_ rows. rows) rq ks s = (Inl x, t) \<Longrightarrow> w_trail t = w_trail s" for ks
  proof (induction ks arbitrary: s)
    case (Cons k ks)
    show ?case
    proof (cases "insert_trace h (make_entry h now (v_id h (w_next (reseed_if_stale s))) (w_seq (reseed_if_stale s) + 1)
        (w_last (reseed_if_stale s)) rq) (w_trail s)")
      case (Inl y)
      with Cons.prems show ?thesis
        by (auto simp: Let_def split: if_splits dest!: Cons.IH)
    next
      case (Inr rows)
      with Cons.prems show ?thesis by (simp add: Let_def)
    qed
  qed simp
  with assms show ?thesis by (simp add: record_entry_def)
qed

lemma keeps_record_check:
  assumes "rq_action rq = ''access_check''"
  shows "keeps (checked_since rows) (record_entry h (\<lambda>_. now) (\<lambda>_ rows. rows) rq)"
proof -
  have "checked_since rows t" if "checked_since rows s" "record_entry h (\<lambda>_. now) (\<lambda>_ rows. rows) rq s = (r, t)" for r s t
  proof (cases r)
    case (Inl x)
    with that record_failed [of h now rq s x t] show ?thesis by (simp add: checked_since_def)
  next
    case (Inr e)
    from record_quiet [OF that(2) [unfolded Inr]] obtain i q p where "w_trail t = w_trail s @ [e]" "e = make_entry h now i q p rq" by blast
    moreover from this assms have "tr_action e = ''access_check''" by simp
    ultimately show ?thesis using that(1) by (auto simp: checked_since_def)
  qed
  then show ?thesis unfolding keeps_def by (metis prod.collapse)
qed

lemma keeps_rollback_check: "keeps (checked_since rows) (rollback_check h now ticks actor kind e)"
proof -
  have cache: "keeps (checked_since rows) (rules_for_target ticks target tid)" for target tid
    unfolding rules_for_target_def by (intro keeps_intros) (simp_all add: checked_since_def)
  have "keeps (checked_since rows) (evaluate_request h now ticks q)" for q
    unfolding evaluate_request_def rule_audit_def
    by (intro keeps_intros cache keeps_record_check) (simp add: check_request_def)
  then have "keeps (checked_since rows) (zoomS (engine_part g) engine_put (evaluate_request h now ticks q))" for g q
    by (rule keeps_zoom) (simp_all add: engine_part_def engine_put_def checked_since_def v1_state.defs)
  then show ?thesis unfolding rollback_check_def by (intro keeps_bind keeps_basic keeps_option keeps_if)
qed

definition rollback_entry :: "trace \<Rightarrow> trace \<Rightarrow> bool" where
  "rollback_entry e r \<longleftrightarrow> tr_action r = ''rollback'' \<and> tr_ttype r = tr_ttype e \<and> tr_tid r = tr_tid e \<and>
     tr_before r = tr_after e \<and> tr_after r = tr_before e \<and>
     meta_get (tr_meta r) ''rolled_back_trace_id'' JNull = JStr (tr_id e)"

lemma restore_trail: "keeps (\<lambda>s. w_trail s = rows) (apply_rollback_state e)"
  unfolding apply_rollback_state_def restore_object_def restore_environment_def point_at_def delete_version_def
    update_object_def update_env_columns_def
  by (intro keeps_intros) simp_all

lemma execute_recorded:
  assumes "execute_single_rollback h now actor reason parent e s = (Inr r, t)"
  shows "w_trail t = w_trail s @ [r] \<and> rollback_entry e r"
proof -
  from assms obtain s1 where s1: "apply_rollback_state e s = (Inr (), s1)"
    "record_entry h (\<lambda>_. now) (\<lambda>_ rows. rows) (rollback_request e actor reason parent) s1 = (Inr r, t)"
    by (auto simp: execute_single_rollback_def bindS_Inr_iff)
  have "w_trail s1 = w_trail s" using keepsD [OF restore_trail refl s1(1)] .
  with record_quiet [OF s1(2)] show ?thesis by (auto simp: rollback_entry_def rollback_request_def meta_get_def)
qed

lemma execute_all_recorded:
  "mapS (\<lambda>e. execute_single_rollback h now actor reason (parent e) e) es s = (Inr rs, t) \<Longrightarrow>
    w_trail t = w_trail s @ rs \<and> list_all2 rollback_entry es rs"
proof (induction es arbitrary: s rs)
  case (Cons e es)
  then obtain r s1 rs' where "execute_single_rollback h now actor reason (parent e) e s = (Inr r, s1)"
    "mapS (\<lambda>e. execute_single_rollback h now actor reason (parent e) e) es s1 = (Inr rs', t)" "rs = r # rs'"
    by (auto simp: bindS_Inr_iff)
  with Cons.IH [of s1 rs'] execute_recorded show ?case by fastforce
qed simp

lemma sift_subset: "sift check asked es s = (Inr (permitted, denied), t) \<Longrightarrow> set permitted \<subseteq> set es"
proof (induction es arbitrary: s permitted denied)
  case (Cons e es)
  then obtain ok s1 ps ds where "sift check asked es s1 = (Inr (ps, ds), t)" "permitted = (if ok then e # ps else ps)"
    unfolding sift.simps by (auto simp: bindS_Inr_iff split: if_splits)
  with Cons.IH [of s1 ps ds] show ?case by (auto split: if_splits)
qed simp

text \<open>What a rollback that returned has done: checks of rules, then the rollbacks of some of the entries.\<close>

definition undone :: "trace list \<Rightarrow> rollback_result \<Rightarrow> trace list \<Rightarrow> bool" where
  "undone rows r after \<longleftrightarrow> (\<exists>checks es rs. after = rows @ checks @ rs \<and> (\<forall>c \<in> set checks. tr_action c = ''access_check'') \<and>
     set es \<subseteq> set (rows @ checks) \<and> rb_rolled_back r = map tr_id es \<and> rb_traces r = map tr_id rs \<and> list_all2 rollback_entry es rs)"

lemma undone_run:
  assumes "checked_since (w_trail s) s1" "set es \<subseteq> set (w_trail s1)"
    and "execute_all h now actor reason parent es denied s1 = (Inr (RolledBack r), t)"
  shows "undone (w_trail s) r (w_trail t)"
proof -
  from assms(3) obtain rs where run: "mapS (\<lambda>e. execute_single_rollback h now actor reason (parent e) e) es s1 = (Inr rs, t)"
    and r: "rb_rolled_back r = map tr_id es" "rb_traces r = map tr_id rs"
    by (auto simp: execute_all_def bindS_Inr_iff)
  from assms(1) obtain pre where "w_trail s1 = w_trail s @ pre" "\<forall>c \<in> set pre. tr_action c = ''access_check''"
    unfolding checked_since_def by blast
  with execute_all_recorded [OF run] r assms(2) show ?thesis
    unfolding undone_def by (intro exI [of _ pre] exI [of _ es] exI [of _ rs]) simp
qed

lemma found_traceD: "found_trace i s = (Inr e, t) \<Longrightarrow> t = s \<and> e \<in> set (w_trail s) \<and> tr_id e = i"
  by (auto simp: found_trace_cases trace_get_def split: option.splits dest!: find_SomeD)

lemma keeps_asked: "keeps (checked_since rows) (check_constraints h now ticks checked actor kind e)"
  "keeps (checked_since rows) (sift (rollback_check h now ticks actor kind) asked es)"
  by (rule keeps_constraints keeps_sift, rule keeps_rollback_check)+

lemma entries_after_subset: "set (entries_after ttype tid at rows) \<subseteq> set rows"
  by (auto simp: entries_after_def trace_query_def Let_def dest!: subsetD [OF sql_limit_subset])

lemma descendants_subset: "set (descendants_bfs rows queue) \<subseteq> set rows"
proof (induction rows queue rule: descendants_bfs.induct)
  case (2 rows c d queue)
  have "set (trace_children c rows) \<subseteq> set rows"
    by (auto simp: trace_children_def trace_query_def Let_def dest!: subsetD [OF sql_limit_subset])
  with 2 show ?case by (simp add: descendants_bfs.simps)
qed (simp add: descendants_bfs.simps)

lemma cascade_subset: "root \<in> set rows \<Longrightarrow> set (cascade_entries root rows) \<subseteq> set rows"
  using first_of_each_sub [of "[]" "sql_order True tr_seq (collect_descendants (tr_id root) rows @ [root])"]
    descendants_subset [of rows "[(tr_id root, 0)]"]
  by (auto simp: cascade_entries_def collect_descendants_def)

lemma undone_action:
  assumes "rollback_action h now ticks checked i actor kind reason dry s = (Inr (RolledBack r), t)"
  shows "undone (w_trail s) r (w_trail t)"
proof -
  from assms obtain e s1 s2 x where run: "found_trace i s = (Inr e, s1)"
    "check_constraints h now ticks checked actor kind e s1 = (Inr (), s2)"
    "execute_single_rollback h now actor reason None e s2 = (Inr x, t)" "rb_rolled_back r = [tr_id e]" "rb_traces r = [tr_id x]"
    by (auto simp: rollback_action_def bindS_Inr_iff split: if_splits)
  note e = found_traceD [OF run(1)]
  with keepsD [OF keeps_asked(1) _ run(2), of "w_trail s"] obtain pre
    where "w_trail s2 = w_trail s @ pre" "\<forall>c \<in> set pre. tr_action c = ''access_check''"
    by (auto simp: checked_since_start checked_since_def)
  with execute_recorded [OF run(3)] e run(4,5) show ?thesis
    unfolding undone_def by (intro exI [of _ pre] exI [of _ "[e]"] exI [of _ "[x]"]) simp
qed

lemma undone_timestamp:
  assumes "rollback_to_timestamp h now ticks checked ttype tid at actor kind reason dry s = (Inr (RolledBack r), t)"
  shows "undone (w_trail s) r (w_trail t)"
proof (cases "entries_after ttype tid at (w_trail s) = []")
  case True
  with assms show ?thesis by (auto simp: rollback_to_timestamp_def undone_def)
next
  case False
  with assms obtain ps ds s1 why where run:
    "sift (rollback_check h now ticks actor kind) (\<lambda>_. checked) (entries_after ttype tid at (w_trail s)) s = (Inr (ps, ds), s1)"
    "execute_all h now actor why (\<lambda>_. None) ps ds s1 = (Inr (RolledBack r), t)"
    by (auto simp: rollback_to_timestamp_def bindS_Inr_iff split: if_splits)
  note checks = keepsD [OF keeps_asked(2) checked_since_start run(1)]
  then have "set (w_trail s) \<subseteq> set (w_trail s1)" by (auto simp: checked_since_def)
  with sift_subset [OF run(1)] entries_after_subset have "set ps \<subseteq> set (w_trail s1)" by blast
  from undone_run [OF checks this run(2)] show ?thesis .
qed

lemma undone_cascade:
  assumes "rollback_cascade h now ticks checked i actor kind reason dry s = (Inr (RolledBack r), t)"
  shows "undone (w_trail s) r (w_trail t)"
proof -
  from assms obtain root s1 s2 ps ds s3 why parent where run: "found_trace i s = (Inr root, s1)"
    "check_constraints h now ticks checked actor kind root s1 = (Inr (), s2)"
    "sift (rollback_check h now ticks actor kind) (\<lambda>e. tr_id e \<noteq> tr_id root \<and> checked) (cascade_entries root (w_trail s2)) s2
      = (Inr (ps, ds), s3)"
    "execute_all h now actor why parent ps ds s3 = (Inr (RolledBack r), t)"
    by (cases dry; cases "reason = []") (auto simp: rollback_cascade_def bindS_Inr_iff)
  note root = found_traceD [OF run(1)]
  have "checked_since (w_trail s) s1" using root by (simp add: checked_since_start)
  from keepsD [OF keeps_asked(1) this run(2)] have one: "checked_since (w_trail s) s2" .
  note two = keepsD [OF keeps_asked(2) one run(3)]
  from one root have "root \<in> set (w_trail s2)" by (auto simp: checked_since_def)
  from cascade_subset [OF this] sift_subset [OF run(3)] have "set ps \<subseteq> set (w_trail s2)" by blast
  moreover have "set (w_trail s2) \<subseteq> set (w_trail s3)"
    using keepsD [OF keeps_asked(2) checked_since_start run(3)] by (auto simp: checked_since_def)
  ultimately have "set ps \<subseteq> set (w_trail s3)" by blast
  from undone_run [OF two this run(4)] show ?thesis .
qed

text \<open>
  C33. No rollback is silent: whichever form it has, the chain of the trail stays intact, and the trail
  grows by the checks of rules it made and then by exactly one ROLLBACK entry for each entry it reports
  as rolled back, in that order, with the states swapped and the identifier of the entry undone.
\<close>

theorem rollbacks_traced:
  assumes "audit_ok h s"
    and "rollback_action h now ticks checked i actor kind why dry s = (Inr (RolledBack r), t) \<or>
      rollback_to_timestamp h now ticks checked ttype tid at actor kind why dry s = (Inr (RolledBack r), t) \<or>
      rollback_cascade h now ticks checked i actor kind why dry s = (Inr (RolledBack r), t)"
  shows "audit_ok h t \<and> undone (w_trail s) r (w_trail t)"
  using assms undone_action undone_timestamp undone_cascade keepsD [OF keeps_rollbacks(1)]
    keepsD [OF keeps_rollbacks(2)] keepsD [OF keeps_rollbacks(3)] by metis

section \<open>What is not restored\<close>

lemma rollback_found:
  fixes s :: "'x rollback_store_scheme"
  assumes "rollback_action h now ticks checked i actor kind why False s = (Inr res, t)" "trace_get i (w_trail s) = Some e"
    and "gd_engine s = None \<or> \<not> checked"
  shows "\<exists>s1. apply_rollback_state e s = (Inr (), s1) \<and> tables t = tables s1"
proof -
  have "check_constraints h now ticks checked actor kind e s = (Inr u, s1) \<Longrightarrow> s1 = s" for u s1
    using assms(3) by (cases checked)
      (auto simp: check_constraints_def check_or_raise_def no_engine_rollback bindS_Inr_iff split: if_splits)
  with assms(1,2) obtain s1 r where "apply_rollback_state e s = (Inr (), s1)"
    "record_entry h (\<lambda>_. now) (\<lambda>_ rows. rows) (rollback_request e actor why None) s1 = (Inr r, t)"
    by (auto simp: rollback_action_def found_trace_cases execute_single_rollback_def bindS_Inr_iff)
  with record_tables show ?thesis by metis
qed

lemma find_object_set: "find_object i (set_object i f os) = map_option f (find_object i os)" if "\<And>b. ob_id (f b) = ob_id b"
  unfolding sql_update_where_def using that by (induction os) auto

lemma tombstone_recorded:
  fixes s :: "'x rollback_store_scheme"
  assumes "tombstone_op h sv now ticks i p reason s = (Inr d, t)" "gd_engine s = None" "tn_audited s"
  shows "\<exists>b e. find_object i (tn_objects s) = Some b \<and> w_trail t = w_trail s @ [e] \<and> tr_action e = ''delete'' \<and> tr_tid e = i \<and>
    version_pointers e = Inr (JInt (int (ob_version b)), JNull) \<and> (\<forall>x \<in> set (w_trail s). tr_id x \<noteq> tr_id e) \<and> gd_engine t = None"
proof -
  from assms(1) obtain b s1 s2 s3 s4 s5 s6 tid cur where
    get: "get_or_raise sv now i p s = (Inr b, s1)" "check_access_level (sv_visibility sv) now i p NeedsAdmin s1 = (Inr (), s2)"
    and rules: "check_object_rules h now ticks ''delete'' p (ob_type b) (Some i) s2 = (Inr (), s3)"
    and tid: "fresh_id h s3 = (Inr tid, s4)" and cur: "get_version i (ob_version b) s4 = (Inr cur, s5)"
    and w: "write_tombstone h \<lparr>tb_id = tid, tb_object = i, tb_at = now, tb_by = p, tb_reason = reason\<rparr> s5 = (Inr (), s6)"
    and ev: "audit_event h now (object_request p ''delete'' (ob_type b) i (map_option (JObj \<circ> ov_data) cur) None
      [(''before_version'', JInt (int (ob_version b)))]) s6 = (Inr (), t)"
    unfolding tombstone_op_def Let_def by (simp add: txn_Inr bindS_Inr_iff split: if_splits) blast
  from get_and_level [OF get] have b: "s2 = s" "find_object i (tn_objects s) = Some b" by auto
  have "s3 = s" using rules assms(2) b(1) by (simp add: check_object_rules_def no_engine_check)
  moreover have "s5 = s4" using cur reads_objects(5) by (metis reads_def snd_conv)
  ultimately have s6: "w_trail s6 = w_trail s" "gd_engine s6 = None" "tn_audited s6"
    using w tid assms(2,3) by (auto simp: write_tombstone_Inr fresh_id_def)
  from trail_events [OF ev] s6 obtain e j q pr where e: "w_trail t = w_trail s @ [e]"
    "e = make_entry h now j q pr (object_request p ''delete'' (ob_type b) i (map_option (JObj \<circ> ov_data) cur) None
      [(''before_version'', JInt (int (ob_version b)))])" "\<forall>x \<in> set (w_trail s). tr_id x \<noteq> tr_id e" by auto
  moreover have "version_pointers e = Inr (JInt (int (ob_version b)), JNull)"
    unfolding e(2) by (simp add: version_pointers_def object_request_def meta_get_def)
  ultimately show ?thesis using b(2) audit_flags [OF ev] s6(2)
    by (intro exI [of _ b] exI [of _ e]) (simp add: object_request_def)
qed

lemma restore_pointer:
  fixes s :: "'x rollback_store_scheme"
  assumes "version_pointers e = Inr (JInt (int n), JNull)" "find_object (tr_tid e) (tn_objects s) = Some c" "ob_version c = n"
    and "distinct (map ob_id (tn_objects s))" "apply_rollback_state e s = (Inr (), t)"
  shows "object_db t = object_db s"
proof -
  have "list_ex (\<lambda>x. ob_id x = tr_tid e) (tn_objects s)" using find_SomeD [OF assms(2)] by (auto simp: list_ex_iff)
  with assms(1,5) have "object_db t = (version_set (tr_tid e) n (tn_objects s), os_versions s, os_tombstones s)"
    by (auto simp: apply_rollback_state_def restore_object_def point_at_def update_object_def version_set_def
      object_db_def bindS_Inr_iff)
  moreover have "version_set (tr_tid e) n (tn_objects s) = tn_objects s" by (rule version_set_same [OF assms(4,2,3)])
  ultimately show ?thesis by (simp add: object_db_def)
qed

text \<open>
  A deletion is not undone by its rollback: rolled back, the entry of a deletion points the object at
  the version it has, and the object stays archived, with its tombstone.
\<close>

theorem deletion_stays:
  fixes s :: "'x rollback_store_scheme"
  assumes "tombstone_op h sv now ticks i p reason s = (Inr d, t)" "objects_ok h (object_db s)" "gd_engine s = None" "tn_audited s"
    and "rollback_action h later ticks' checked (tr_id (last (w_trail t))) actor kind why False t = (Inr res, u)"
  shows "tr_action (last (w_trail t)) = ''delete'' \<and> object_db u = object_db t \<and>
    (\<exists>b. find_object i (tn_objects u) = Some b \<and> ob_lifecycle b = Archived) \<and> d \<in> set (os_tombstones u)"
proof -
  from tombstone_recorded [OF assms(1,3,4)] obtain b e where e: "find_object i (tn_objects s) = Some b" "w_trail t = w_trail s @ [e]"
    "tr_action e = ''delete''" "tr_tid e = i" "version_pointers e = Inr (JInt (int (ob_version b)), JNull)"
    "\<forall>x \<in> set (w_trail s). tr_id x \<noteq> tr_id e" "gd_engine t = None" by blast
  from tombstone_permitted [OF assms(1)]
  have db: "object_db t = (set_object i (\<lambda>x. x\<lparr>ob_lifecycle := Archived\<rparr>) (tn_objects s), os_versions s, os_tombstones s @ [d])"
    by blast
  define c where "c = b\<lparr>ob_lifecycle := Archived\<rparr>"
  from db e(1) have c: "find_object i (tn_objects t) = Some c" by (simp add: object_db_def find_object_set c_def)
  have "trace_get (tr_id e) (w_trail t) = Some e"
    using e(2,6) by (auto simp: trace_get_def find_append find_None_iff split: option.splits dest: find_SomeD)
  with rollback_found [OF assms(5), of e] e(2,7) obtain u1 where
    u1: "apply_rollback_state e t = (Inr (), u1)" "tables u = tables u1" by auto
  have "distinct (map ob_id (tn_objects t))"
    using assms(2) db by (simp add: objects_ok_def object_db_def sql_update_where_key)
  with restore_pointer [OF e(5) _ _ _ u1(1)] c e(4) have "object_db u1 = object_db t" by (simp add: c_def)
  with u1(2) have "object_db u = object_db t" by (simp add: tables_def)
  with db c e(2,3) show ?thesis by (auto simp: object_db_def c_def)
qed

text \<open>
  A check of rules is recorded as an action on the object it was asked about, without states; rolled
  back, it archives the object, and writes no tombstone.
\<close>

theorem check_rolled_back_archives:
  fixes s :: "'x rollback_store_scheme"
  assumes "rollback_action h now ticks checked x actor kind why False s = (Inr res, t)" "gd_engine s = None \<or> \<not> checked"
    and "trace_get x (w_trail s) = Some (make_entry h earlier j q pr (check_request aq dec))" "aq_object aq = Some i" "i \<noteq> []"
    and "find_object i (tn_objects s) = Some b"
  shows "object_db t = (set_object i (\<lambda>b. b\<lparr>ob_lifecycle := Archived\<rparr>) (tn_objects s), os_versions s, os_tombstones s)"
proof -
  let ?e = "make_entry h earlier j q pr (check_request aq dec)"
  from rollback_found [OF assms(1,3,2)] obtain s1 where s1: "apply_rollback_state ?e s = (Inr (), s1)" "tables t = tables s1" by blast
  have e: "tr_tid ?e = i" "tr_before ?e = None" "version_pointers ?e = Inr (JNull, JNull)"
    using assms(4,5) by (simp_all add: check_request_def or_default_def version_pointers_def meta_get_def)
  have "list_ex (\<lambda>x. ob_id x = i) (tn_objects s)" using find_SomeD [OF assms(6)] by (auto simp: list_ex_iff)
  with s1(1) e have "object_db s1 = (set_object i (\<lambda>b. b\<lparr>ob_lifecycle := Archived\<rparr>) (tn_objects s), os_versions s, os_tombstones s)"
    by (auto simp: apply_rollback_state_def restore_object_def update_object_def object_db_def bindS_Inr_iff)
  with s1(2) show ?thesis by (simp add: tables_def)
qed

section \<open>A sample run\<close>

definition desk0 :: rollback_store where
  "desk0 = \<lparr>w_next = 0, w_trail = [], w_seq = 0, w_last = '''', tn_audited = True,
     tn_principals = [''ann''], tn_objects = [], tn_scopes = [], tn_members = [], tn_projections = [],
     gd_engine = None, os_versions = [], os_tombstones = [], tm_envs = []\<rparr>"

definition desk_services :: "(unit, unit, rollback_store) object_services" where
  "desk_services = \<lparr>sv_types = empty_types, sv_quota = None, sv_limiter = None, sv_visibility = True\<rparr>"

definition desk1 :: "(v1_error + object_row \<times> object_version) \<times> rollback_store" where
  "desk1 = create v1_host0 desk_services ''2024-01-01'' (\<lambda>_. (0, 0)) ''Doc'' ''ann'' (Inl [(''a'', JInt 1)]) None '''' None desk0"

definition desk2 :: "(v1_error + object_row \<times> object_version) \<times> rollback_store" where
  "desk2 = update v1_host0 desk_services ''2024-01-02'' (\<lambda>_. (0, 0)) ''t0'' ''ann'' (Inl [(''a'', JInt 2)]) '''' (snd desk1)"

definition desk3 :: "(v1_error + rollback_outcome) \<times> rollback_store" where
  "desk3 = rollback_to_timestamp v1_host0 ''2024-01-03'' (\<lambda>_. (0, 0)) True ''Doc'' ''t0'' ''2024-01-01'' ''ann'' None '''' False (snd desk2)"

definition desk4 :: "(v1_error + tombstone) \<times> rollback_store" where
  "desk4 = tombstone_op v1_host0 desk_services ''2024-01-04'' (\<lambda>_. (0, 0)) ''t0'' ''ann'' ''old'' (snd desk1)"

definition desk5 :: "(v1_error + rollback_outcome) \<times> rollback_store" where
  "desk5 = rollback_action v1_host0 ''2024-01-05'' (\<lambda>_. (0, 0)) True ''t4'' ''ann'' None '''' False (snd desk4)"

definition check0 :: trace where
  "check0 = make_entry v1_host0 ''2024-01-02'' ''c'' 9 [] (check_request
     \<lparr>aq_action = ''update'', aq_principal = Some ''ann'', aq_kind = None, aq_type = Some ''Doc'', aq_object = Some ''t0'',
      aq_scope = None, aq_env = None\<rparr>
     \<lparr>er_allowed = True, er_matching = [], er_deny = [], er_allow = []\<rparr>)"

definition desk6 :: "(v1_error + rollback_outcome) \<times> rollback_store" where
  "desk6 = rollback_action v1_host0 ''2024-01-05'' (\<lambda>_. (0, 0)) True ''c'' ''ann'' None '''' False
     ((snd desk1)\<lparr>w_trail := w_trail (snd desk1) @ [check0]\<rparr>)"

lemma desk1_run:
  "(case desk1 of (r, s) \<Rightarrow> (isl r, map (\<lambda>b. (ob_id b, ob_type b, ob_lifecycle b)) (tn_objects s), Option.is_none (gd_engine s),
     tn_audited s, map (\<lambda>e. (tr_id e, tr_tid e, tr_time e)) (w_trail s), length (os_versions s))) =
   (False, [(''t0'', ''Doc'', Active)], True, True, [(''t2'', ''t0'', ''2024-01-01'')], 1)"
  by code_simp

lemma desk2_run:
  "(case desk2 of (r, s) \<Rightarrow> (isl r, map tr_id (w_trail s), length (os_versions s))) = (False, [''t2'', ''t4''], 2)"
  by code_simp

lemma desk4_run: "(case desk4 of (r, s) \<Rightarrow> (isl r, map tr_id (w_trail s))) = (False, [''t2'', ''t4''])"
  by code_simp

lemma desk_runs:
  "map (\<lambda>b. (ob_id b, ob_type b, ob_lifecycle b)) (tn_objects (snd desk1)) = [(''t0'', ''Doc'', Active)]"
  "Option.is_none (gd_engine (snd desk1))" "tn_audited (snd desk1)"
  "map (\<lambda>e. (tr_id e, tr_tid e, tr_time e)) (w_trail (snd desk1)) = [(''t2'', ''t0'', ''2024-01-01'')]"
  "map tr_id (w_trail (snd desk2)) = [''t2'', ''t4'']" "map tr_id (w_trail (snd desk4)) = [''t2'', ''t4'']"
  "length (os_versions (snd desk1)) = 1" "length (os_versions (snd desk2)) = 2"
  using desk1_run desk2_run desk4_run by (auto simp: split_beta)

lemma desk5_answer: "isl (fst desk5) = False"
  by code_simp

lemma desk6_answer: "isl (fst desk6) = False"
  by code_simp

lemma desk3_answer: "(case fst desk3 of Inr (RolledBack r) \<Rightarrow> rb_rolled_back r | _ \<Rightarrow> []) = [''t4'']"
  by code_simp

lemma desk_answers:
  "isl (fst desk1) = False" "isl (fst desk2) = False" "isl (fst desk4) = False" "isl (fst desk5) = False" "isl (fst desk6) = False"
  "(case fst desk3 of Inr (RolledBack r) \<Rightarrow> rb_rolled_back r | _ \<Rightarrow> []) = [''t4'']"
  using desk1_run desk2_run desk4_run desk3_answer desk5_answer desk6_answer by (simp_all add: split_beta)


lemma desk1_ok: "objects_ok v1_host0 (object_db (snd desk1))" "audit_ok v1_host0 (snd desk1)" "gd_engine (snd desk1) = None"
proof -
  have "objects_ok v1_host0 (object_db desk0)" by (simp add: objects_ok_def object_db_def desk0_def)
  moreover have "object_step v1_host0 desk_services desk0 (snd desk1)" unfolding desk1_def by (rule object_step.intros)
  ultimately show "objects_ok v1_host0 (object_db (snd desk1))"
    using object_run_ok [OF object_steps_run] r_into_rtranclp [of "object_step v1_host0 desk_services"] by blast
  have "audit_ok v1_host0 desk0" by (simp add: audit_ok_def head_ok_def trail_ok_def next_seq_def head_hash_def desk0_def)
  then show "audit_ok v1_host0 (snd desk1)"
    unfolding desk1_def by (rule keeps_snd [OF object_audit.keeps_create])
  show "gd_engine (snd desk1) = None" using desk_runs(2) by (simp add: Option.is_none_def)
qed

lemma desk_pairs: "\<exists>r. desk3 = (Inr (RolledBack r), snd desk3) \<and> rb_rolled_back r = [''t4'']"
proof -
  obtain r where "fst desk3 = Inr (RolledBack r)" "rb_rolled_back r = [''t4'']"
    using desk_answers(6) by (auto split: rollback_outcome.splits sum.splits)
  then show ?thesis by (metis prod.collapse)
qed



theorem rollbacks_traced_witness:
  "audit_ok v1_host0 (snd desk3) \<and> (\<exists>r. fst desk3 = Inr (RolledBack r) \<and> undone (w_trail (snd desk2)) r (w_trail (snd desk3)))"
proof -
  obtain r where r: "desk3 = (Inr (RolledBack r), snd desk3)" using desk_pairs by blast
  have "audit_ok v1_host0 (snd desk2)" unfolding desk2_def by (rule keeps_snd [OF object_audit.keeps_update desk1_ok(2)])
  with r show ?thesis using rollbacks_traced [of v1_host0 "snd desk2" "''2024-01-03''" "\<lambda>_. (0, 0)" True "[]" "''ann''" None "[]" False r "snd desk3"
      "''Doc''" "''t0''" "''2024-01-01''"]
    by (metis desk3_def fst_conv)
qed



theorem deletion_stays_witness:
  "object_db (snd desk5) = object_db (snd desk4)"
proof -
  from returned [OF desk_answers(3)] obtain d where d: "tombstone_op v1_host0 desk_services ''2024-01-04'' (\<lambda>_. (0, 0)) ''t0'' ''ann''
      ''old'' (snd desk1) = (Inr d, snd desk4)"
    unfolding desk4_def by blast
  have "tr_id (last (w_trail (snd desk4))) = last (map tr_id (w_trail (snd desk4)))"
    using desk_runs(6) by (intro last_map [symmetric]) auto
  then have "tr_id (last (w_trail (snd desk4))) = ''t4''" unfolding desk_runs(6) by simp
  with returned [OF desk_answers(4)] obtain x where "rollback_action v1_host0 ''2024-01-05'' (\<lambda>_. (0, 0)) True
      (tr_id (last (w_trail (snd desk4)))) ''ann'' None '''' False (snd desk4) = (Inr x, snd desk5)"
    unfolding desk5_def by auto
  from deletion_stays [OF d desk1_ok(1,3) desk_runs(3) this] show ?thesis by blast
qed

theorem check_rolled_back_archives_witness:
  "map ob_lifecycle (tn_objects (snd desk6)) = [Archived]"
proof -
  define s where "s = (snd desk1)\<lparr>w_trail := w_trail (snd desk1) @ [check0]\<rparr>"
  from returned [OF desk_answers(5)] obtain x where run: "rollback_action v1_host0 ''2024-01-05'' (\<lambda>_. (0, 0)) True ''c'' ''ann'' None ''''
      False s = (Inr x, snd desk6)"
    unfolding desk6_def s_def by auto
  obtain t where "w_trail (snd desk1) = [t]" "tr_id t = ''t2''" using desk_runs(4) by (cases "w_trail (snd desk1)") auto
  then have found: "trace_get ''c'' (w_trail s) = Some check0" by (simp add: trace_get_def check0_def s_def)
  obtain b where b: "tn_objects (snd desk1) = [b]" "ob_id b = ''t0''" using desk_runs(1) by (cases "tn_objects (snd desk1)") auto
  have "gd_engine s = None \<or> \<not> True" using desk1_ok(3) by (simp add: s_def)
  from check_rolled_back_archives [OF run this found [unfolded check0_def], of "''t0''" b] b show ?thesis
    by (simp add: object_db_def sql_update_where_def s_def)
qed

end
