(* ===== verification/V1_Contracts.thy ===== *)
theory V1_Contracts
  imports V1_Object_Transfer
begin

text \<open>
  \<open>legacy/v1/scoped/registry/contracts.py\<close>: contracts declare the fields of an object type, their
  types and constraints; they have versions, and data is validated against a version.

  Validation errors are values here, with the parts that the messages of the code are made of; the text
  of the messages is left out. JSON numbers have no fraction. What \<open>re.match\<close> answers is a parameter.
  A version row holds the JSON of its fields and constraints, which is read back with \<open>from_dict\<close>; what
  has not the type of its annotation is read as \<open>V1TypeError\<close>. The store records nothing on the trail.
\<close>

section \<open>Fields and constraints\<close>

datatype field_type =
    StringField | IntegerField | FloatField | BooleanField | DatetimeField | JsonField | ListField | RefField
  | BlobField | AnyField

fun field_type_value :: "field_type \<Rightarrow> string" where
  "field_type_value StringField = ''string''"
| "field_type_value IntegerField = ''integer''"
| "field_type_value FloatField = ''float''"
| "field_type_value BooleanField = ''boolean''"
| "field_type_value DatetimeField = ''datetime''"
| "field_type_value JsonField = ''json''"
| "field_type_value ListField = ''list''"
| "field_type_value RefField = ''ref''"
| "field_type_value BlobField = ''blob''"
| "field_type_value AnyField = ''any''"

definition field_types :: "field_type list" where
  "field_types = [StringField, IntegerField, FloatField, BooleanField, DatetimeField, JsonField, ListField, RefField,
     BlobField, AnyField]"

fun field_type_of :: "json \<Rightarrow> v1_error + field_type" where
  "field_type_of (JStr v) =
     (case find (\<lambda>t. field_type_value t = v) field_types of None \<Rightarrow> Inl V1ValueError | Some t \<Rightarrow> Inr t)"
| "field_type_of _ = Inl V1ValueError"

fun as_flag :: "json \<Rightarrow> v1_error + bool" where
  "as_flag (JBool b) = Inr b"
| "as_flag _ = Inl V1TypeError"

record contract_field =
  cf_name :: string
  cf_type :: field_type
  cf_required :: bool
  cf_default :: json
  cf_description :: string
  cf_constraints :: metadata

definition field_snapshot :: "contract_field \<Rightarrow> json" where
  "field_snapshot f = JObj
     [(''name'', JStr (cf_name f)), (''field_type'', JStr (field_type_value (cf_type f))), (''required'', JBool (cf_required f)),
      (''default'', cf_default f), (''description'', JStr (cf_description f)), (''constraints'', JObj (cf_constraints f))]"

definition field_from_dict :: "json \<Rightarrow> v1_error + contract_field" where
  "field_from_dict d =
     bindE (text_at d ''name'') (\<lambda>name.
     bindE (bindE (json_item d ''field_type'') field_type_of) (\<lambda>ty.
     bindE (bindE (json_get d ''required'' (JBool True)) as_flag) (\<lambda>required.
     bindE (json_get d ''default'' JNull) (\<lambda>dflt.
     bindE (bindE (json_get d ''description'' (JStr [])) as_text) (\<lambda>description.
     bindE (bindE (json_get d ''constraints'' (JObj [])) as_dict) (\<lambda>constraints.
       Inr \<lparr>cf_name = name, cf_type = ty, cf_required = required, cf_default = dflt, cf_description = description,
            cf_constraints = constraints\<rparr>))))))"

record contract_constraint =
  ck_name :: string
  ck_kind :: string
  ck_config :: metadata
  ck_description :: string

definition constraint_snapshot :: "contract_constraint \<Rightarrow> json" where
  "constraint_snapshot c = JObj
     [(''name'', JStr (ck_name c)), (''constraint_type'', JStr (ck_kind c)), (''config'', JObj (ck_config c)),
      (''description'', JStr (ck_description c))]"

definition constraint_from_dict :: "json \<Rightarrow> v1_error + contract_constraint" where
  "constraint_from_dict d =
     bindE (text_at d ''name'') (\<lambda>name.
     bindE (text_at d ''constraint_type'') (\<lambda>kind.
     bindE (bindE (json_get d ''config'' (JObj [])) as_dict) (\<lambda>config.
     bindE (bindE (json_get d ''description'' (JStr [])) as_text) (\<lambda>description.
       Inr \<lparr>ck_name = name, ck_kind = kind, ck_config = config, ck_description = description\<rparr>))))"

section \<open>Contracts and versions\<close>

record contract =
  co_id :: string
  co_name :: string
  co_type :: string
  co_owner :: string
  co_created :: string
  co_description :: string
  co_version :: nat
  co_lifecycle :: lifecycle
  co_meta :: metadata

definition contract_active :: "contract \<Rightarrow> bool" where
  "contract_active c \<longleftrightarrow> co_lifecycle c = Active"

definition contract_snapshot :: "contract \<Rightarrow> json" where
  "contract_snapshot c = JObj
     [(''id'', JStr (co_id c)), (''name'', JStr (co_name c)), (''object_type'', JStr (co_type c)),
      (''owner_id'', JStr (co_owner c)), (''current_version'', JInt (int (co_version c))),
      (''lifecycle'', JStr (lifecycle_name (co_lifecycle c))), (''created_at'', JStr (co_created c)),
      (''description'', JStr (co_description c)), (''metadata'', JObj (co_meta c))]"

record contract_version =
  kv_id :: string
  kv_contract :: string
  kv_version :: nat
  kv_fields :: "contract_field list"
  kv_created :: string
  kv_by :: string
  kv_constraints :: "contract_constraint list"
  kv_reason :: string

definition contract_version_snapshot :: "contract_version \<Rightarrow> json" where
  "contract_version_snapshot v = JObj
     [(''id'', JStr (kv_id v)), (''contract_id'', JStr (kv_contract v)), (''version'', JInt (int (kv_version v))),
      (''fields'', JArr (map field_snapshot (kv_fields v))), (''constraints'', JArr (map constraint_snapshot (kv_constraints v))),
      (''created_at'', JStr (kv_created v)), (''created_by'', JStr (kv_by v)), (''change_reason'', JStr (kv_reason v))]"

definition field_names :: "contract_version \<Rightarrow> string list" where
  "field_names v = map cf_name (kv_fields v)"

definition required_fields :: "contract_version \<Rightarrow> string list" where
  "required_fields v = map cf_name (filter cf_required (kv_fields v))"

definition get_field_named :: "contract_version \<Rightarrow> string \<Rightarrow> contract_field option" where
  "get_field_named v name = find (\<lambda>f. cf_name f = name) (kv_fields v)"

text \<open>A row of the table of versions: fields and constraints are JSON.\<close>

record contract_version_row =
  kr_id :: string
  kr_contract :: string
  kr_version :: nat
  kr_fields :: json
  kr_constraints :: json
  kr_created :: string
  kr_by :: string
  kr_reason :: string

definition contract_version_from_row :: "contract_version_row \<Rightarrow> v1_error + contract_version" where
  "contract_version_from_row r =
     bindE (bindE (as_list (kr_fields r)) (mapE field_from_dict)) (\<lambda>fs.
     bindE (bindE (as_list (kr_constraints r)) (mapE constraint_from_dict)) (\<lambda>cs.
       Inr \<lparr>kv_id = kr_id r, kv_contract = kr_contract r, kv_version = kr_version r, kv_fields = fs,
            kv_created = kr_created r, kv_by = kr_by r, kv_constraints = cs, kv_reason = kr_reason r\<rparr>))"

section \<open>Validation\<close>

datatype contract_error =
    MissingField string
  | WrongType string field_type string
  | TooShort string nat json
  | TooLong string nat json
  | BelowMin string json json
  | AboveMax string json json
  | NoMatch string json
  | NotAChoice string json json
  | UnknownField string
  | NoneProvided string json
  | DependencyMissing string json json
  | Exclusive string "json list"

record validation_result =
  va_valid :: bool
  va_errors :: "contract_error list"

definition raise_if_invalid :: "validation_result \<Rightarrow> v1_error + unit" where
  "raise_if_invalid r = (if \<not> va_valid r then Inl ContractInvalid else Inr ())"

fun py_type_name :: "json \<Rightarrow> string" where
  "py_type_name JNull = ''NoneType''"
| "py_type_name (JBool _) = ''bool''"
| "py_type_name (JInt _) = ''int''"
| "py_type_name (JStr _) = ''str''"
| "py_type_name (JArr _) = ''list''"
| "py_type_name (JObj _) = ''dict''"

text \<open>\<open>isinstance\<close> against the table of types; a truth value is an \<open>int\<close>.\<close>

definition is_text :: "json \<Rightarrow> bool" where
  "is_text v = (case v of JStr _ \<Rightarrow> True | _ \<Rightarrow> False)"

definition is_number :: "json \<Rightarrow> bool" where
  "is_number v = (case v of JInt _ \<Rightarrow> True | JBool _ \<Rightarrow> True | _ \<Rightarrow> False)"

fun has_field_type :: "field_type \<Rightarrow> json \<Rightarrow> bool" where
  "has_field_type StringField v = is_text v"
| "has_field_type IntegerField v = is_number v"
| "has_field_type FloatField v = is_number v"
| "has_field_type BooleanField v = (case v of JBool _ \<Rightarrow> True | _ \<Rightarrow> False)"
| "has_field_type DatetimeField v = is_text v"
| "has_field_type JsonField v = (case v of JObj _ \<Rightarrow> True | JArr _ \<Rightarrow> True | _ \<Rightarrow> False)"
| "has_field_type ListField v = (case v of JArr _ \<Rightarrow> True | _ \<Rightarrow> False)"
| "has_field_type RefField v = is_text v"
| "has_field_type BlobField v = is_text v"
| "has_field_type AnyField v = True"

text \<open>An operand of a comparison with a number.\<close>

fun number :: "json \<Rightarrow> v1_error + int" where
  "number (JInt i) = Inr i"
| "number (JBool b) = Inr (if b then 1 else 0)"
| "number _ = Inl V1TypeError"

text \<open>\<open>value in container\<close>\<close>

fun unhashable :: "json \<Rightarrow> bool" where
  "unhashable (JArr _) = True"
| "unhashable (JObj _) = True"
| "unhashable _ = False"

definition key_in :: "json \<Rightarrow> metadata \<Rightarrow> v1_error + bool" where
  "key_in v m = (if unhashable v then Inl V1TypeError
     else Inr (case v of JStr s \<Rightarrow> map_of m s \<noteq> None | _ \<Rightarrow> False))"

fun member_of :: "json \<Rightarrow> json \<Rightarrow> v1_error + bool" where
  "member_of v (JArr xs) = Inr (list_ex (\<lambda>x. py_eq x v) xs)"
| "member_of v (JObj m) = key_in v m"
| "member_of v (JStr t) = (case v of JStr s \<Rightarrow> Inr (has_infix s t) | _ \<Rightarrow> Inl V1TypeError)"
| "member_of v _ = Inl V1TypeError"

type_synonym matcher = "string \<Rightarrow> string \<Rightarrow> v1_error + bool"

definition check_length :: "string \<Rightarrow> metadata \<Rightarrow> json \<Rightarrow> v1_error + contract_error list" where
  "check_length name c v =
     (case v of
        JStr s \<Rightarrow>
          bindE (case map_of c ''min_length'' of
                   None \<Rightarrow> Inr []
                 | Some b \<Rightarrow> bindE (number b) (\<lambda>m. Inr (if int (length s) < m then [TooShort name (length s) b] else [])))
            (\<lambda>es.
          bindE (case map_of c ''max_length'' of
                   None \<Rightarrow> Inr []
                 | Some b \<Rightarrow> bindE (number b) (\<lambda>m. Inr (if int (length s) > m then [TooLong name (length s) b] else [])))
            (\<lambda>fs. Inr (es @ fs)))
      | _ \<Rightarrow> Inr [])"

definition check_range :: "string \<Rightarrow> metadata \<Rightarrow> json \<Rightarrow> v1_error + contract_error list" where
  "check_range name c v =
     (if is_number v then
        bindE (number v) (\<lambda>n.
        bindE (case map_of c ''min_value'' of
                 None \<Rightarrow> Inr []
               | Some b \<Rightarrow> bindE (number b) (\<lambda>m. Inr (if n < m then [BelowMin name v b] else []))) (\<lambda>es.
        bindE (case map_of c ''max_value'' of
                 None \<Rightarrow> Inr []
               | Some b \<Rightarrow> bindE (number b) (\<lambda>m. Inr (if n > m then [AboveMax name v b] else []))) (\<lambda>fs.
          Inr (es @ fs))))
      else Inr [])"

definition check_pattern :: "matcher \<Rightarrow> string \<Rightarrow> metadata \<Rightarrow> json \<Rightarrow> v1_error + contract_error list" where
  "check_pattern rx name c v =
     (case (map_of c ''pattern'', v) of
        (Some p, JStr s) \<Rightarrow> bindE (as_text p) (\<lambda>t. bindE (rx t s) (\<lambda>ok. Inr (if \<not> ok then [NoMatch name p] else [])))
      | _ \<Rightarrow> Inr [])"

definition check_choices :: "string \<Rightarrow> metadata \<Rightarrow> json \<Rightarrow> v1_error + contract_error list" where
  "check_choices name c v =
     (case map_of c ''choices'' of
        None \<Rightarrow> Inr []
      | Some xs \<Rightarrow> bindE (member_of v xs) (\<lambda>found. Inr (if \<not> found then [NotAChoice name v xs] else [])))"

definition check_field :: "matcher \<Rightarrow> metadata \<Rightarrow> contract_field \<Rightarrow> v1_error + contract_error list" where
  "check_field rx data f =
     (case map_of data (cf_name f) of
        None \<Rightarrow> Inr []
      | Some v \<Rightarrow>
          if \<not> has_field_type (cf_type f) v then Inr [WrongType (cf_name f) (cf_type f) (py_type_name v)]
          else
            bindE (check_length (cf_name f) (cf_constraints f) v) (\<lambda>es1.
            bindE (check_range (cf_name f) (cf_constraints f) v) (\<lambda>es2.
            bindE (check_pattern rx (cf_name f) (cf_constraints f) v) (\<lambda>es3.
            bindE (check_choices (cf_name f) (cf_constraints f) v) (\<lambda>es4.
              Inr (es1 @ es2 @ es3 @ es4))))))"

text \<open>What a loop over a JSON value visits, and the two loops over the names of fields.\<close>

fun iterated :: "json \<Rightarrow> v1_error + json list" where
  "iterated (JArr xs) = Inr xs"
| "iterated (JStr s) = Inr (map (\<lambda>c. JStr [c]) s)"
| "iterated (JObj m) = Inr (map (JStr \<circ> fst) m)"
| "iterated _ = Inl V1TypeError"

fun any_provided :: "metadata \<Rightarrow> json list \<Rightarrow> v1_error + bool" where
  "any_provided data [] = Inr False"
| "any_provided data (f # fs) =
     bindE (key_in f data) (\<lambda>present.
       if present \<and> (case f of JStr s \<Rightarrow> json_truthy (meta_get data s JNull) | _ \<Rightarrow> False) then Inr True
       else any_provided data fs)"

fun present_fields :: "metadata \<Rightarrow> json list \<Rightarrow> v1_error + json list" where
  "present_fields data [] = Inr []"
| "present_fields data (f # fs) =
     bindE (key_in f data) (\<lambda>present.
     bindE (present_fields data fs) (\<lambda>rest.
       Inr (if present then f # rest else rest)))"

definition validate_constraint :: "metadata \<Rightarrow> contract_constraint \<Rightarrow> v1_error + contract_error list" where
  "validate_constraint data k =
     (if ck_kind k = ''at_least_one'' then
        let names = meta_get (ck_config k) ''fields'' (JArr [])
        in bindE (bindE (iterated names) (any_provided data)) (\<lambda>some.
             Inr (if \<not> some then [NoneProvided (ck_name k) names] else []))
      else if ck_kind k = ''depends_on'' then
        let name = meta_get (ck_config k) ''field'' (JStr []);
            needed = meta_get (ck_config k) ''depends_on'' (JStr [])
        in bindE (key_in name data) (\<lambda>here.
             if \<not> here then Inr []
             else bindE (key_in needed data) (\<lambda>there.
               Inr (if \<not> there then [DependencyMissing (ck_name k) name needed] else [])))
      else if ck_kind k = ''mutually_exclusive'' then
        bindE (bindE (iterated (meta_get (ck_config k) ''fields'' (JArr []))) (present_fields data)) (\<lambda>present.
          Inr (if length present > 1 then [Exclusive (ck_name k) present] else []))
      else Inr [])"

definition missing_fields :: "metadata \<Rightarrow> contract_field list \<Rightarrow> contract_error list" where
  "missing_fields data fs =
     map (MissingField \<circ> cf_name) (filter (\<lambda>f. cf_required f \<and> map_of data (cf_name f) = None \<and> cf_default f = JNull) fs)"

definition unknown_fields :: "metadata \<Rightarrow> contract_version \<Rightarrow> contract_error list" where
  "unknown_fields data v = map UnknownField (filter (\<lambda>k. k \<notin> set (field_names v)) (map fst data))"

definition validate_against_version :: "matcher \<Rightarrow> metadata \<Rightarrow> contract_version \<Rightarrow> v1_error + validation_result" where
  "validate_against_version rx data v =
     bindE (mapE (check_field rx data) (kv_fields v)) (\<lambda>ess.
     bindE (mapE (validate_constraint data) (kv_constraints v)) (\<lambda>css.
       let errors = missing_fields data (kv_fields v) @ concat ess @ unknown_fields data v @ concat css
       in Inr \<lparr>va_valid = (errors = []), va_errors = errors\<rparr>))"

section \<open>Differences\<close>

record contract_diff =
  cd_added :: "string list"
  cd_removed :: "string list"
  cd_modified :: "string list"
  cd_old :: nat
  cd_new :: nat

text \<open>The dict of the fields by their names: the last field of a name counts, in the place of the first.\<close>

definition fields_by_name :: "contract_field list \<Rightarrow> (string \<times> contract_field) list" where
  "fields_by_name fs = foldl (\<lambda>m f. set_key (cf_name f) f m) [] fs"

definition diff_contracts :: "contract_version \<Rightarrow> contract_version \<Rightarrow> contract_diff" where
  "diff_contracts old new =
     (let olds = fields_by_name (kv_fields old); news = fields_by_name (kv_fields new)
      in \<lparr>cd_added = filter (\<lambda>n. map_of olds n = None) (field_names new),
          cd_removed = filter (\<lambda>n. map_of news n = None) (field_names old),
          cd_modified = map fst (filter (\<lambda>(n, f). case map_of news n of
              None \<Rightarrow> False | Some g \<Rightarrow> \<not> py_eq (field_snapshot f) (field_snapshot g)) olds),
          cd_old = kv_version old, cd_new = kv_version new\<rparr>)"

section \<open>The store\<close>

record contract_store = tenant +
  kt_contracts :: "contract list"
  kt_versions :: "contract_version_row list"

abbreviation find_contract :: "string \<Rightarrow> contract list \<Rightarrow> contract option" where
  "find_contract i \<equiv> find (\<lambda>c. co_id c = i)"

definition insert_contract :: "v1_host \<Rightarrow> contract \<Rightarrow> ('x contract_store_scheme, unit) sop" where
  "insert_contract h c s =
     (if list_ex (\<lambda>x. co_id x = co_id c) (kt_contracts s) then (Inl (v_violation h KeyTaken), s)
      else if co_owner c \<notin> set (tn_principals s) then (Inl (v_violation h ForeignKeyMissing), s)
      else (Inr (), s\<lparr>kt_contracts := kt_contracts s @ [c]\<rparr>))"

definition insert_contract_version :: "v1_host \<Rightarrow> contract_version_row \<Rightarrow> ('x contract_store_scheme, unit) sop" where
  "insert_contract_version h r s =
     (if list_ex (\<lambda>x. kr_id x = kr_id r) (kt_versions s)
         \<or> list_ex (\<lambda>x. kr_contract x = kr_contract r \<and> kr_version x = kr_version r) (kt_versions s)
      then (Inl (v_violation h KeyTaken), s)
      else if \<not> list_ex (\<lambda>c. co_id c = kr_contract r) (kt_contracts s) then (Inl (v_violation h ForeignKeyMissing), s)
      else (Inr (), s\<lparr>kt_versions := kt_versions s @ [r]\<rparr>))"

definition update_contract_row :: "string \<Rightarrow> (contract \<Rightarrow> contract) \<Rightarrow> ('x contract_store_scheme, unit) sop" where
  "update_contract_row i f = modifyS (\<lambda>s. s\<lparr>kt_contracts := sql_update_where (\<lambda>c. co_id c = i) f (kt_contracts s)\<rparr>)"

definition version_row :: "contract_version \<Rightarrow> contract_version_row" where
  "version_row v =
     \<lparr>kr_id = kv_id v, kr_contract = kv_contract v, kr_version = kv_version v, kr_fields = JArr (map field_snapshot (kv_fields v)),
      kr_constraints = JArr (map constraint_snapshot (kv_constraints v)), kr_created = kv_created v, kr_by = kv_by v,
      kr_reason = kv_reason v\<rparr>"

definition create_contract ::
  "v1_host \<Rightarrow> string \<Rightarrow> string \<Rightarrow> string \<Rightarrow> string \<Rightarrow> contract_field list \<Rightarrow> string \<Rightarrow> contract_constraint list \<Rightarrow> metadata \<Rightarrow>
   ('x contract_store_scheme, contract) sop" where
  "create_contract h now name object_type owner fs description constraints meta =
     bindS (fresh_id h) (\<lambda>i.
     let c = \<lparr>co_id = i, co_name = name, co_type = object_type, co_owner = owner, co_created = now, co_description = description,
              co_version = 1, co_lifecycle = Active, co_meta = meta\<rparr>
     in bindS (insert_contract h c) (\<lambda>_.
        bindS (fresh_id h) (\<lambda>vid.
        bindS (insert_contract_version h (version_row \<lparr>kv_id = vid, kv_contract = i, kv_version = 1, kv_fields = fs,
          kv_created = now, kv_by = owner, kv_constraints = constraints, kv_reason = ''Initial version''\<rparr>)) (\<lambda>_.
          returnS c))))"

definition get_contract :: "string \<Rightarrow> ('x contract_store_scheme, contract option) sop" where
  "get_contract i = getS (\<lambda>s. find_contract i (kt_contracts s))"

definition get_contract_or_raise :: "string \<Rightarrow> ('x contract_store_scheme, contract) sop" where
  "get_contract_or_raise i =
     bindS (get_contract i) (\<lambda>r. case r of None \<Rightarrow> raiseS ContractNotFound | Some c \<Rightarrow> returnS c)"

definition get_contract_for_type :: "string \<Rightarrow> ('x contract_store_scheme, contract option) sop" where
  "get_contract_for_type object_type =
     getS (\<lambda>s.
       case sql_limit (Some 1) 0 (sql_order True co_created
              (filter (\<lambda>c. co_type c = object_type \<and> co_lifecycle c = Active) (kt_contracts s))) of
         [] \<Rightarrow> None
       | c # _ \<Rightarrow> Some c)"

text \<open>A filter that is skipped when it is absent or empty.\<close>

definition chosen :: "string option \<Rightarrow> string \<Rightarrow> bool" where
  "chosen x v = (case x of None \<Rightarrow> True | Some y \<Rightarrow> y = [] \<or> v = y)"

definition list_contracts :: "string option \<Rightarrow> string option \<Rightarrow> bool \<Rightarrow> nat \<Rightarrow> ('x contract_store_scheme, contract list) sop" where
  "list_contracts owner object_type active_only limit =
     getS (\<lambda>s. sql_limit (Some limit) 0 (sql_order True co_created
       (filter (\<lambda>c. chosen owner (co_owner c) \<and> chosen object_type (co_type c) \<and> (active_only \<longrightarrow> co_lifecycle c = Active))
         (kt_contracts s))))"

definition get_contract_version ::
  "string \<Rightarrow> nat option \<Rightarrow> ('x contract_store_scheme, contract_version option) sop" where
  "get_contract_version contract_id version =
     bindS (getS (\<lambda>s.
       case version of
         Some n \<Rightarrow> filter (\<lambda>r. kr_contract r = contract_id \<and> kr_version r = n) (kt_versions s)
       | None \<Rightarrow> sql_limit (Some 1) 0 (sql_order True kr_version (filter (\<lambda>r. kr_contract r = contract_id) (kt_versions s)))))
       (\<lambda>rows. case rows of
          [] \<Rightarrow> returnS None
        | r # _ \<Rightarrow> bindS (liftS (contract_version_from_row r)) (\<lambda>v. returnS (Some v)))"

definition get_all_contract_versions :: "string \<Rightarrow> ('x contract_store_scheme, contract_version list) sop" where
  "get_all_contract_versions contract_id =
     bindS (getS (\<lambda>s. sql_order False kr_version (filter (\<lambda>r. kr_contract r = contract_id) (kt_versions s)))) (\<lambda>rows.
       liftS (mapE contract_version_from_row rows))"

definition update_contract ::
  "v1_host \<Rightarrow> string \<Rightarrow> string \<Rightarrow> contract_field list \<Rightarrow> string \<Rightarrow> contract_constraint list \<Rightarrow> string \<Rightarrow>
   ('x contract_store_scheme, contract_version) sop" where
  "update_contract h now contract_id fs actor constraints reason =
     bindS (get_contract_or_raise contract_id) (\<lambda>c.
     bindS (fresh_id h) (\<lambda>vid.
     let v = \<lparr>kv_id = vid, kv_contract = contract_id, kv_version = co_version c + 1, kv_fields = fs, kv_created = now,
              kv_by = actor, kv_constraints = constraints, kv_reason = reason\<rparr>
     in bindS (insert_contract_version h (version_row v)) (\<lambda>_.
        bindS (update_contract_row contract_id (\<lambda>x. x\<lparr>co_version := kv_version v\<rparr>)) (\<lambda>_.
          returnS v))))"

definition set_contract_lifecycle :: "lifecycle \<Rightarrow> string \<Rightarrow> ('x contract_store_scheme, contract) sop" where
  "set_contract_lifecycle l contract_id =
     bindS (get_contract_or_raise contract_id) (\<lambda>c.
     bindS (update_contract_row contract_id (\<lambda>x. x\<lparr>co_lifecycle := l\<rparr>)) (\<lambda>_.
       returnS (c\<lparr>co_lifecycle := l\<rparr>)))"

definition deprecate_contract :: "string \<Rightarrow> ('x contract_store_scheme, contract) sop" where
  "deprecate_contract = set_contract_lifecycle Deprecated"

definition archive_contract :: "string \<Rightarrow> ('x contract_store_scheme, contract) sop" where
  "archive_contract = set_contract_lifecycle Archived"

definition validate_contract ::
  "matcher \<Rightarrow> metadata \<Rightarrow> string \<Rightarrow> nat option \<Rightarrow> ('x contract_store_scheme, validation_result) sop" where
  "validate_contract rx data contract_id version =
     bindS (get_contract_version contract_id version) (\<lambda>v.
       case v of None \<Rightarrow> raiseS ContractNotFound | Some cv \<Rightarrow> liftS (validate_against_version rx data cv))"

definition validate_for_type :: "matcher \<Rightarrow> metadata \<Rightarrow> string \<Rightarrow> ('x contract_store_scheme, validation_result) sop" where
  "validate_for_type rx data object_type =
     bindS (get_contract_for_type object_type) (\<lambda>c.
       case c of None \<Rightarrow> returnS \<lparr>va_valid = True, va_errors = []\<rparr> | Some x \<Rightarrow> validate_contract rx data (co_id x) None)"

end
