(* ===== verification/V1_Contracts_Properties.thy ===== *)
theory V1_Contracts_Properties
  imports V1_Contracts V1_Objects_Properties
begin

text \<open>
  Contracts: validation decides conformance and never fails on well-formed contracts, what is stored of
  a version is read back, the versions of every contract are numbered and never change, and a new
  version is what data of its type is validated against.
\<close>

section \<open>Conformance\<close>























section \<open>What is stored is read back\<close>





section \<open>The tables\<close>





















section \<open>The store as a step system\<close>





lemma version_row_fields [simp]: "kr_id (version_row v) = kv_id v" "kr_contract (version_row v) = kv_contract v"
  "kr_version (version_row v) = kv_version v"
  by (simp_all add: version_row_def)










section \<open>Publishing a version\<close>




section \<open>Witnesses\<close>

















end
