(* ===== verification/V1_Scheduling.thy ===== *)
theory V1_Scheduling
  imports V1_Secrets V1_Object_Transfer
begin

text \<open>
  \<open>legacy/v1/scoped/scheduling\<close>: recurring schedules and scheduled actions (\<open>scheduler.py\<close>) and the
  queue of jobs (\<open>queue.py\<close>); the rotation of secrets on a schedule (\<open>secrets/rotation.py\<close>), which
  works on their tables and on those of the vault.

  Times are texts; their arithmetic and the parser of cron expressions are given with the services. The
  executor of jobs is any operation on the whole state. A failed job holds the exception whose text the code
  stores. Errors of the trail are swallowed, as in the code; the entries that \<open>create_schedule\<close> tries to
  put into the registry are left out.
\<close>

section \<open>Data\<close>

datatype job_state = JobQueued | JobRunning | JobCompleted | JobFailed | JobCancelled

record recurring_schedule =
  rs_id :: string
  rs_name :: string
  rs_owner :: string
  rs_cron :: "string option"
  rs_interval :: "int option"
  rs_created :: string
  rs_lifecycle :: lifecycle

record scheduled_action =
  ac_id :: string
  ac_name :: string
  ac_owner :: string
  ac_type :: string
  ac_config :: metadata
  ac_next :: string
  ac_schedule :: "string option"
  ac_scope :: "string option"
  ac_created :: string
  ac_lifecycle :: lifecycle

record job =
  jb_id :: string
  jb_name :: string
  jb_type :: string
  jb_config :: metadata
  jb_owner :: string
  jb_state :: job_state
  jb_created :: string
  jb_started :: "string option"
  jb_completed :: "string option"
  jb_result :: metadata
  jb_error :: "v1_error option"
  jb_action :: "string option"
  jb_scope :: "string option"
  jb_lifecycle :: lifecycle

record scheduling = vault +
  sg_schedules :: "recurring_schedule list"
  sg_actions :: "scheduled_action list"
  sg_jobs :: "job list"

record calendar =
  cl_plus :: "string \<Rightarrow> int \<Rightarrow> string"
  cl_cron :: "(string \<Rightarrow> string \<Rightarrow> v1_error + string) option"

type_synonym 's job_executor = "string \<Rightarrow> metadata \<Rightarrow> ('s, metadata) sop"

text \<open>\<open>try: ... except Exception: pass\<close>\<close>

definition quietly :: "('s, 'a) sop \<Rightarrow> ('s, unit) sop" where
  "quietly m s = (Inr (), snd (m s))"

definition schedule_request ::
  "string \<Rightarrow> string \<Rightarrow> string \<Rightarrow> string \<Rightarrow> json option \<Rightarrow> json option \<Rightarrow> trace_request" where
  "schedule_request actor action ttype tid before after =
     \<lparr>rq_actor = actor, rq_action = action, rq_ttype = ttype, rq_tid = tid, rq_scope = None, rq_before = before,
      rq_after = after, rq_meta = [], rq_parent = None\<rparr>"

definition lifecycle_state :: "string \<Rightarrow> json option" where
  "lifecycle_state l = Some (JObj [(''lifecycle'', JStr l)])"

section \<open>Schedules\<close>

definition insert_schedule :: "v1_host \<Rightarrow> recurring_schedule \<Rightarrow> ('x scheduling_scheme, unit) sop" where
  "insert_schedule h r s =
     (if list_ex (\<lambda>x. rs_id x = rs_id r) (sg_schedules s) then (Inl (v_violation h KeyTaken), s)
      else if rs_owner r \<notin> set (tn_principals s) then (Inl (v_violation h ForeignKeyMissing), s)
      else (Inr (), s\<lparr>sg_schedules := sg_schedules s @ [r]\<rparr>))"

text \<open>Truth of an optional text or number.\<close>

definition some_text :: "string option \<Rightarrow> bool" where
  "some_text x \<longleftrightarrow> x \<noteq> None \<and> x \<noteq> Some []"

definition some_number :: "int option \<Rightarrow> bool" where
  "some_number x \<longleftrightarrow> x \<noteq> None \<and> x \<noteq> Some 0"

definition create_schedule ::
  "v1_host \<Rightarrow> string \<Rightarrow> string \<Rightarrow> string \<Rightarrow> string option \<Rightarrow> int option \<Rightarrow> ('x scheduling_scheme, recurring_schedule) sop" where
  "create_schedule h now name owner cron interval =
     (if \<not> some_text cron \<and> \<not> some_number interval then raiseS V1ValueError
      else if some_text cron \<and> some_number interval then raiseS V1ValueError
      else
        bindS (fresh_id h) (\<lambda>i.
        let r = \<lparr>rs_id = i, rs_name = name, rs_owner = owner, rs_cron = cron, rs_interval = interval, rs_created = now,
                 rs_lifecycle = Active\<rparr>
        in bindS (insert_schedule h r) (\<lambda>_.
           bindS (quietly (audit_event h now (schedule_request owner ''schedule_create'' ''recurring_schedule'' i None
             (Some (JObj [(''name'', JStr name)]))))) (\<lambda>_.
             returnS r))))"

definition get_schedule :: "string \<Rightarrow> ('x scheduling_scheme, recurring_schedule option) sop" where
  "get_schedule i = getS (\<lambda>s. find (\<lambda>r. rs_id r = i) (sg_schedules s))"

definition list_schedules :: "string option \<Rightarrow> bool \<Rightarrow> ('x scheduling_scheme, recurring_schedule list) sop" where
  "list_schedules owner active_only =
     getS (\<lambda>s. sql_order True rs_created
       (filter (\<lambda>r. (active_only \<longrightarrow> rs_lifecycle r = Active) \<and> given owner (rs_owner r)) (sg_schedules s)))"

definition archive_schedule :: "v1_host \<Rightarrow> string \<Rightarrow> string \<Rightarrow> ('x scheduling_scheme, unit) sop" where
  "archive_schedule h now i =
     bindS (modifyS (\<lambda>s. s\<lparr>sg_schedules := sql_update_where (\<lambda>r. rs_id r = i) (\<lambda>r. r\<lparr>rs_lifecycle := Archived\<rparr>) (sg_schedules s)\<rparr>)) (\<lambda>_.
       quietly (audit_event h now (schedule_request ''system'' ''schedule_archive'' ''recurring_schedule'' i
         (lifecycle_state ''ACTIVE'') (lifecycle_state ''ARCHIVED''))))"

section \<open>Actions\<close>

definition insert_action :: "v1_host \<Rightarrow> scheduled_action \<Rightarrow> ('x scheduling_scheme, unit) sop" where
  "insert_action h a s =
     (if list_ex (\<lambda>x. ac_id x = ac_id a) (sg_actions s) then (Inl (v_violation h KeyTaken), s)
      else if ac_owner a \<notin> set (tn_principals s) then (Inl (v_violation h ForeignKeyMissing), s)
      else if (case ac_schedule a of None \<Rightarrow> False | Some i \<Rightarrow> \<not> list_ex (\<lambda>r. rs_id r = i) (sg_schedules s))
      then (Inl (v_violation h ForeignKeyMissing), s)
      else (Inr (), s\<lparr>sg_actions := sg_actions s @ [a]\<rparr>))"

definition update_action :: "string \<Rightarrow> (scheduled_action \<Rightarrow> scheduled_action) \<Rightarrow> ('x scheduling_scheme, unit) sop" where
  "update_action i f = modifyS (\<lambda>s. s\<lparr>sg_actions := sql_update_where (\<lambda>a. ac_id a = i) f (sg_actions s)\<rparr>)"

definition create_action ::
  "v1_host \<Rightarrow> string \<Rightarrow> string \<Rightarrow> string \<Rightarrow> string \<Rightarrow> metadata \<Rightarrow> string \<Rightarrow> string option \<Rightarrow> string option \<Rightarrow>
   ('x scheduling_scheme, scheduled_action) sop" where
  "create_action h now name owner action_type config next_run schedule_id scope_id =
     bindS (fresh_id h) (\<lambda>i.
     let a = \<lparr>ac_id = i, ac_name = name, ac_owner = owner, ac_type = action_type, ac_config = config, ac_next = next_run,
              ac_schedule = schedule_id, ac_scope = scope_id, ac_created = now, ac_lifecycle = Active\<rparr>
     in bindS (insert_action h a) (\<lambda>_.
        bindS (quietly (audit_event h now (schedule_request owner ''create'' ''scheduled_action'' i None
          (Some (JObj [(''name'', JStr name), (''action_type'', JStr action_type)]))))) (\<lambda>_.
          returnS a)))"

definition get_action :: "string \<Rightarrow> ('x scheduling_scheme, scheduled_action option) sop" where
  "get_action i = getS (\<lambda>s. find (\<lambda>a. ac_id a = i) (sg_actions s))"

definition list_actions :: "string option \<Rightarrow> bool \<Rightarrow> ('x scheduling_scheme, scheduled_action list) sop" where
  "list_actions owner active_only =
     getS (\<lambda>s. sql_order False ac_next
       (filter (\<lambda>a. (active_only \<longrightarrow> ac_lifecycle a = Active) \<and> given owner (ac_owner a)) (sg_actions s)))"

definition due_actions :: "string \<Rightarrow> scheduled_action list \<Rightarrow> scheduled_action list" where
  "due_actions as_of actions =
     sql_order False ac_next (filter (\<lambda>a. ac_lifecycle a = Active \<and> ac_next a \<le> as_of) actions)"

definition get_due_actions :: "string \<Rightarrow> ('x scheduling_scheme, scheduled_action list) sop" where
  "get_due_actions as_of = getS (\<lambda>s. due_actions as_of (sg_actions s))"

definition advance_action :: "string \<Rightarrow> string \<Rightarrow> ('x scheduling_scheme, unit) sop" where
  "advance_action i next_run = update_action i (\<lambda>a. a\<lparr>ac_next := next_run\<rparr>)"

definition archive_action :: "v1_host \<Rightarrow> string \<Rightarrow> string \<Rightarrow> ('x scheduling_scheme, unit) sop" where
  "archive_action h now i =
     bindS (update_action i (\<lambda>a. a\<lparr>ac_lifecycle := Archived\<rparr>)) (\<lambda>_.
       quietly (audit_event h now (schedule_request ''system'' ''lifecycle_change'' ''scheduled_action'' i
         (lifecycle_state ''ACTIVE'') (lifecycle_state ''ARCHIVED''))))"

section \<open>Jobs\<close>

definition insert_job :: "v1_host \<Rightarrow> job \<Rightarrow> ('x scheduling_scheme, unit) sop" where
  "insert_job h j s =
     (if list_ex (\<lambda>x. jb_id x = jb_id j) (sg_jobs s) then (Inl (v_violation h KeyTaken), s)
      else if jb_owner j \<notin> set (tn_principals s) then (Inl (v_violation h ForeignKeyMissing), s)
      else if (case jb_action j of None \<Rightarrow> False | Some i \<Rightarrow> \<not> list_ex (\<lambda>a. ac_id a = i) (sg_actions s))
      then (Inl (v_violation h ForeignKeyMissing), s)
      else (Inr (), s\<lparr>sg_jobs := sg_jobs s @ [j]\<rparr>))"

definition update_job :: "(job \<Rightarrow> bool) \<Rightarrow> (job \<Rightarrow> job) \<Rightarrow> ('x scheduling_scheme, unit) sop" where
  "update_job P f = modifyS (\<lambda>s. s\<lparr>sg_jobs := sql_update_where P f (sg_jobs s)\<rparr>)"

definition enqueue ::
  "v1_host \<Rightarrow> string \<Rightarrow> string \<Rightarrow> string \<Rightarrow> metadata \<Rightarrow> string \<Rightarrow> string option \<Rightarrow> string option \<Rightarrow> ('x scheduling_scheme, job) sop" where
  "enqueue h now name action_type config owner action_id scope_id =
     bindS (fresh_id h) (\<lambda>i.
     let j = \<lparr>jb_id = i, jb_name = name, jb_type = action_type, jb_config = config, jb_owner = owner, jb_state = JobQueued,
              jb_created = now, jb_started = None, jb_completed = None, jb_result = [], jb_error = None, jb_action = action_id,
              jb_scope = scope_id, jb_lifecycle = Active\<rparr>
     in bindS (insert_job h j) (\<lambda>_. returnS j))"

definition get_job :: "string \<Rightarrow> ('x scheduling_scheme, job option) sop" where
  "get_job i = getS (\<lambda>s. find (\<lambda>j. jb_id j = i) (sg_jobs s))"

definition list_jobs :: "string option \<Rightarrow> job_state option \<Rightarrow> nat \<Rightarrow> ('x scheduling_scheme, job list) sop" where
  "list_jobs owner state limit =
     getS (\<lambda>s. sql_limit (Some limit) 0 (sql_order True jb_created
       (filter (\<lambda>j. given owner (jb_owner j) \<and> given state (jb_state j)) (sg_jobs s))))"

definition count_jobs :: "job_state option \<Rightarrow> ('x scheduling_scheme, nat) sop" where
  "count_jobs state = getS (\<lambda>s. length (filter (\<lambda>j. given state (jb_state j)) (sg_jobs s)))"

definition cancel_job :: "string \<Rightarrow> ('x scheduling_scheme, unit) sop" where
  "cancel_job i = update_job (\<lambda>j. jb_id j = i \<and> jb_state j = JobQueued) (\<lambda>j. j\<lparr>jb_state := JobCancelled\<rparr>)"

text \<open>The row read back after a job; without a row, the mapper fails on \<open>None\<close>.\<close>

definition refetched :: "string \<Rightarrow> ('x scheduling_scheme, job) sop" where
  "refetched i =
     bindS (get_job i) (\<lambda>r. case r of None \<Rightarrow> raiseS V1TypeError | Some j \<Rightarrow> returnS j)"

definition fail_job :: "string \<Rightarrow> string \<Rightarrow> v1_error \<Rightarrow> ('x scheduling_scheme, job) sop" where
  "fail_job now i e =
     bindS (update_job (\<lambda>j. jb_id j = i) (\<lambda>j. j\<lparr>jb_state := JobFailed, jb_completed := Some now, jb_error := Some e\<rparr>)) (\<lambda>_.
       refetched i)"

definition complete_job :: "string \<Rightarrow> string \<Rightarrow> metadata \<Rightarrow> ('x scheduling_scheme, job) sop" where
  "complete_job now i result =
     bindS (update_job (\<lambda>j. jb_id j = i) (\<lambda>j. j\<lparr>jb_state := JobCompleted, jb_completed := Some now, jb_result := result\<rparr>)) (\<lambda>_.
       refetched i)"

definition run_job :: "'x scheduling_scheme job_executor \<Rightarrow> string \<Rightarrow> job \<Rightarrow> ('x scheduling_scheme, job) sop" where
  "run_job execute now row =
     bindS (update_job (\<lambda>j. jb_id j = jb_id row) (\<lambda>j. j\<lparr>jb_state := JobRunning, jb_started := Some now\<rparr>)) (\<lambda>_ s.
       case bindS (execute (jb_type row) (jb_config row)) (complete_job now (jb_id row)) s of
         (Inr j, t) \<Rightarrow> (Inr j, t)
       | (Inl e, t) \<Rightarrow> fail_job now (jb_id row) e t)"

definition queued_jobs :: "job list \<Rightarrow> job list" where
  "queued_jobs js = sql_order False jb_created (filter (\<lambda>j. jb_state j = JobQueued) js)"

definition run_next :: "'x scheduling_scheme job_executor \<Rightarrow> string \<Rightarrow> ('x scheduling_scheme, job option) sop" where
  "run_next execute now =
     bindS (getS (\<lambda>s. sql_limit (Some 1) 0 (queued_jobs (sg_jobs s)))) (\<lambda>rows.
       case rows of
         [] \<Rightarrow> returnS None
       | row # _ \<Rightarrow> bindS (run_job execute now row) (\<lambda>j. returnS (Some j)))"

definition run_all :: "'x scheduling_scheme job_executor \<Rightarrow> string \<Rightarrow> ('x scheduling_scheme, job list) sop" where
  "run_all execute now = bindS (getS (\<lambda>s. queued_jobs (sg_jobs s))) (mapS (run_job execute now))"

definition default_executor :: "'s job_executor" where
  "default_executor action_type config = returnS [(''status'', JStr ''ok''), (''action_type'', JStr action_type)]"

section \<open>From actions to jobs\<close>

text \<open>What becomes of an action that fired.\<close>

definition next_occurrence :: "v1_host \<Rightarrow> calendar \<Rightarrow> string \<Rightarrow> scheduled_action \<Rightarrow> ('x scheduling_scheme, unit) sop" where
  "next_occurrence h cal now a =
     (case ac_schedule a of
        None \<Rightarrow> archive_action h now (ac_id a)
      | Some i \<Rightarrow>
          if i = [] then archive_action h now (ac_id a)
          else bindS (get_schedule i) (\<lambda>r.
            case r of
              None \<Rightarrow> archive_action h now (ac_id a)
            | Some x \<Rightarrow>
                if some_number (rs_interval x) then advance_action (ac_id a) (cl_plus cal (ac_next a) (the (rs_interval x)))
                else if some_text (rs_cron x) then
                  (case cl_cron cal of
                     None \<Rightarrow> advance_action (ac_id a) (cl_plus cal (ac_next a) 3600)
                   | Some parse \<Rightarrow> bindS (liftS (parse (the (rs_cron x)) (ac_next a))) (advance_action (ac_id a)))
                else archive_action h now (ac_id a)))"

definition fire_action :: "v1_host \<Rightarrow> calendar \<Rightarrow> string \<Rightarrow> scheduled_action \<Rightarrow> ('x scheduling_scheme, job) sop" where
  "fire_action h cal now a =
     bindS (enqueue h now (ac_name a) (ac_type a) (ac_config a) (ac_owner a) (Some (ac_id a)) (ac_scope a)) (\<lambda>j.
     bindS (next_occurrence h cal now a) (\<lambda>_.
     bindS (quietly (audit_event h now (schedule_request ''system'' ''job_enqueue'' ''job'' (jb_id j) None
       (Some (JObj [(''action_type'', JStr (ac_type a)), (''scheduled_action_id'', JStr (ac_id a))]))))) (\<lambda>_.
       returnS j)))"

definition process_due_actions :: "v1_host \<Rightarrow> calendar \<Rightarrow> string \<Rightarrow> string \<Rightarrow> ('x scheduling_scheme, job list) sop" where
  "process_due_actions h cal now as_of =
     bindS (get_due_actions as_of) (mapS (fire_action h cal now))"

section \<open>Rotating secrets on a schedule\<close>

text \<open>
  What makes new values, and whether a time is older than a number of seconds, are parameters. A
  \<open>secret_id\<close> in a configuration that is not a text is read as \<open>V1TypeError\<close>.
\<close>

definition rotation_action_type :: string where
  "rotation_action_type = ''secret_auto_rotate''"

definition rotation_executor ::
  "v1_host \<Rightarrow> ('c, 'v, 's) vault_services \<Rightarrow> (string \<Rightarrow> int \<Rightarrow> bool) \<Rightarrow> (string \<Rightarrow> string) \<Rightarrow> string \<Rightarrow>
   'x scheduling_scheme job_executor" where
  "rotation_executor h vs aged gen now action_type config =
     (if action_type \<noteq> rotation_action_type
      then returnS [(''skipped'', JBool True), (''reason'', JStr (''unknown action_type: '' @ action_type))]
      else
        let sid = meta_get config ''secret_id'' JNull
        in if \<not> json_truthy sid then returnS [(''rotated'', JBool False), (''reason'', JStr ''missing secret_id in config'')]
        else bindS (liftS (as_text sid)) (\<lambda>i.
             bindS (getS (needs_rotation aged i)) (\<lambda>due.
               if \<not> due
               then returnS [(''rotated'', JBool False), (''secret_id'', JStr i), (''reason'', JStr ''not_due'')]
               else bindS (rotate h vs now i (gen i) ''system:auto-rotation'' ''auto-rotation policy'' None) (\<lambda>v.
                 returnS [(''rotated'', JBool True), (''secret_id'', JStr i), (''new_version'', JInt (int (sn_number v)))]))))"

definition scheduled_secrets :: "scheduled_action list \<Rightarrow> json list" where
  "scheduled_secrets actions =
     filter json_truthy (map (\<lambda>a. meta_get (ac_config a) ''secret_id'' JNull)
       (filter (\<lambda>a. ac_type a = rotation_action_type \<and> ac_lifecycle a = Active) actions))"

text \<open>The time of the next rotation: the age counted from the last one, but not before now.\<close>

definition rotation_time :: "calendar \<Rightarrow> string \<Rightarrow> secret \<Rightarrow> int \<Rightarrow> string" where
  "rotation_time cal now x max_age =
     (let t = cl_plus cal (case se_rotated x of None \<Rightarrow> se_created x | Some r \<Rightarrow> r) max_age in if t < now then now else t)"

fun schedule_rotations ::
  "v1_host \<Rightarrow> calendar \<Rightarrow> string \<Rightarrow> string \<Rightarrow> secret_policy list \<Rightarrow> json list \<Rightarrow> ('x scheduling_scheme, scheduled_action list) sop" where
  "schedule_rotations h cal now owner [] already = returnS []"
| "schedule_rotations h cal now owner (p # ps) already =
     (case (sp_secret p, sp_max_age p) of
        (Some i, Some max_age) \<Rightarrow>
          if i = [] \<or> JStr i \<in> set already then schedule_rotations h cal now owner ps already
          else bindS (getS (\<lambda>s. find (\<lambda>x. se_id x = i) (vt_secrets s))) (\<lambda>row.
            case row of
              None \<Rightarrow> schedule_rotations h cal now owner ps already
            | Some x \<Rightarrow>
                bindS (create_action h now (''auto-rotate-'' @ take 8 i) owner rotation_action_type
                  [(''secret_id'', JStr i), (''policy_id'', JStr (sp_id p))] (rotation_time cal now x max_age) None None) (\<lambda>a.
                bindS (schedule_rotations h cal now owner ps (JStr i # already)) (\<lambda>rest.
                  returnS (a # rest))))
      | _ \<Rightarrow> schedule_rotations h cal now owner ps already)"

definition schedule_auto_rotations :: "v1_host \<Rightarrow> calendar \<Rightarrow> string \<Rightarrow> string \<Rightarrow> ('x scheduling_scheme, scheduled_action list) sop" where
  "schedule_auto_rotations h cal now owner =
     bindS (getS (\<lambda>s. (filter sp_auto (vt_policies s), scheduled_secrets (sg_actions s)))) (\<lambda>(policies, already).
       schedule_rotations h cal now owner policies already)"

definition run_rotation ::
  "v1_host \<Rightarrow> calendar \<Rightarrow> 'x scheduling_scheme job_executor \<Rightarrow> string \<Rightarrow> scheduled_action \<Rightarrow> ('x scheduling_scheme, job option) sop" where
  "run_rotation h cal execute now a =
     bindS (liftS (as_text (meta_get (ac_config a) ''secret_id'' (JStr ''unknown'')))) (\<lambda>i.
     bindS (enqueue h now (''rotate-'' @ take 8 i) (ac_type a) (ac_config a) (ac_owner a) (Some (ac_id a)) None) (\<lambda>_.
     bindS (run_next execute now) (\<lambda>result.
     let max_age = meta_get (ac_config a) ''max_age_seconds'' JNull
     in bindS (if json_truthy max_age then liftS (json_int max_age) else returnS (24 * 3600)) (\<lambda>n.
        bindS (advance_action (ac_id a) (cl_plus cal now n)) (\<lambda>_.
          returnS result)))))"

definition run_pending_rotations ::
  "v1_host \<Rightarrow> calendar \<Rightarrow> 'x scheduling_scheme job_executor \<Rightarrow> string \<Rightarrow> ('x scheduling_scheme, job list) sop" where
  "run_pending_rotations h cal execute now =
     bindS (get_due_actions now) (\<lambda>due.
     bindS (mapS (run_rotation h cal execute now) (filter (\<lambda>a. ac_type a = rotation_action_type) due)) (\<lambda>results.
       returnS (concat (map (\<lambda>r. case r of None \<Rightarrow> [] | Some j \<Rightarrow> [j]) results))))"

end
