(* ===== verification/V1_Scheduling_Properties.thy ===== *)
theory V1_Scheduling_Properties
  imports V1_Scheduling V1_Secrets_Properties
begin

text \<open>
  Schedules and jobs: what processing the due actions does to the tables, that an action without a
  schedule fires at most once, and that a queue is drained whatever its jobs do.
\<close>

section \<open>The tables\<close>

definition sched_tables :: "'x scheduling_scheme \<Rightarrow> recurring_schedule list \<times> scheduled_action list \<times> job list" where
  "sched_tables s = (sg_schedules s, sg_actions s, sg_jobs s)"

lemma sched_tables_cong: "v1_state.more s = v1_state.more t \<Longrightarrow> sched_tables s = sched_tables t"
  by (cases s, cases t) (simp add: sched_tables_def)

lemma quietly_audit: "quietly (audit_event h now rq) s = (r, t) \<Longrightarrow> r = Inr () \<and> sched_tables t = sched_tables s"
  unfolding quietly_def using audit_event_more [of h now rq s] by (auto intro: sched_tables_cong)

lemma fresh_sched: "fresh_id h s = (Inr i, t) \<Longrightarrow> sched_tables t = sched_tables s"
  by (auto simp: fresh_id_def sched_tables_def)

lemma insert_job_Inr: "insert_job h j s = (Inr u, t) \<longleftrightarrow>
    (\<forall>x \<in> set (sg_jobs s). jb_id x \<noteq> jb_id j) \<and> jb_owner j \<in> set (tn_principals s) \<and>
    (\<forall>i. jb_action j = Some i \<longrightarrow> (\<exists>a \<in> set (sg_actions s). ac_id a = i)) \<and> t = s\<lparr>sg_jobs := sg_jobs s @ [j]\<rparr>"
  by (auto simp: insert_job_def list_ex_iff split: if_splits option.splits)


lemma enqueue_Inr:
  assumes "enqueue h now name ty config owner a sc s = (Inr j, t)"
  shows "sched_tables t = (sg_schedules s, sg_actions s, sg_jobs s @ [j]) \<and> jb_action j = a \<and> jb_state j = JobQueued \<and>
    jb_type j = ty \<and> jb_config j = config \<and> jb_owner j = owner \<and> jb_scope j = sc \<and> jb_created j = now \<and>
    (\<forall>x \<in> set (sg_jobs s). jb_id x \<noteq> jb_id j)"
proof -
  from assms obtain i s1 where run: "fresh_id h s = (Inr i, s1)" "insert_job h j s1 = (Inr (), t)"
    and j: "jb_action j = a" "jb_state j = JobQueued" "jb_type j = ty" "jb_config j = config" "jb_owner j = owner" "jb_scope j = sc"
      "jb_created j = now"
    unfolding enqueue_def Let_def by (auto simp: bindS_Inr_iff)
  from fresh_sched [OF run(1)] run(2) j show ?thesis by (auto simp: insert_job_Inr sched_tables_def)
qed

lemma enqueue_Inl: "enqueue h now name ty config owner a sc s = (Inl e, t) \<Longrightarrow> sched_tables t = sched_tables s"
  unfolding enqueue_def Let_def
  by (auto simp: bindS_def insert_job_def fresh_id_def sched_tables_def returnS_def split: prod.splits sum.splits if_splits)

section \<open>What becomes of an action that fired\<close>






lemma archive_action_run:
  assumes "archive_action h now i s = (r, t)"
  shows "r = Inr () \<and> sched_tables t =
    (sg_schedules s, sql_update_where (\<lambda>x. ac_id x = i) (\<lambda>a. a\<lparr>ac_lifecycle := Archived\<rparr>) (sg_actions s), sg_jobs s)"
proof -
  let ?s = "s\<lparr>sg_actions := sql_update_where (\<lambda>x. ac_id x = i) (\<lambda>a. a\<lparr>ac_lifecycle := Archived\<rparr>) (sg_actions s)\<rparr>"
  from assms obtain rq where "quietly (audit_event h now rq) ?s = (r, t)"
    by (auto simp: archive_action_def update_action_def bindS_def modifyS_def)
  from quietly_audit [OF this] show ?thesis by (simp add: sched_tables_def)
qed


section \<open>Processing what is due\<close>




lemma due_distinct: "distinct (map ac_id as) \<Longrightarrow> distinct (map ac_id (due_actions at as))"
proof -
  assume "distinct (map ac_id as)"
  then have "distinct (map ac_id (filter P as))" for P by (rule distinct_map_filter)
  then show ?thesis by (simp add: due_actions_def sql_order_def distinct_map)
qed

lemma due_set: "set (due_actions at as) = {a \<in> set as. ac_lifecycle a = Active \<and> ac_next a \<le> at}"
  by (auto simp: due_actions_def)


section \<open>Running jobs\<close>

text \<open>What a run makes of a job.\<close>

definition job_ran :: "string \<Rightarrow> job \<Rightarrow> job \<Rightarrow> bool" where
  "job_ran now j k \<longleftrightarrow> jb_id k = jb_id j \<and> jb_type k = jb_type j \<and> jb_config k = jb_config j \<and> jb_owner k = jb_owner j \<and>
     jb_action k = jb_action j \<and> jb_created k = jb_created j \<and> jb_state k \<in> {JobCompleted, JobFailed} \<and>
     jb_started k = Some now \<and> jb_completed k = Some now"

abbreviation set_job :: "string \<Rightarrow> (job \<Rightarrow> job) \<Rightarrow> job list \<Rightarrow> job list" where
  "set_job i \<equiv> sql_update_where (\<lambda>j. jb_id j = i)"

lemma find_set_job: "(\<And>j. jb_id (f j) = jb_id j) \<Longrightarrow>
    find (\<lambda>j. jb_id j = i) (set_job i f js) = map_option f (find (\<lambda>j. jb_id j = i) js)"
  unfolding sql_update_where_def by (induction js) auto

lemma set_job_twice: "(\<And>j. jb_id (f j) = jb_id j) \<Longrightarrow> set_job i g (set_job i f js) = set_job i (g \<circ> f) js"
  by (simp add: sql_update_where_def)

lemma refetched_run: "refetched i s = (case find (\<lambda>j. jb_id j = i) (sg_jobs s) of None \<Rightarrow> (Inl V1TypeError, s) | Some j \<Rightarrow> (Inr j, s))"
  by (simp add: refetched_def get_job_def split: option.splits)

text \<open>Executors that leave the tables of scheduling alone.\<close>

locale job_runner =
  fixes execute :: "'x scheduling_scheme job_executor"
  assumes leaves: "sched_tables (snd (execute ty config s)) = sched_tables s"
begin

lemma run_job_spec:
  assumes "find (\<lambda>j. jb_id j = jb_id row) (sg_jobs s) = Some j"
  shows "\<exists>f t. run_job execute now row s = (Inr (f j), t) \<and> (\<forall>j. job_ran now j (f j)) \<and>
    sched_tables t = (sg_schedules s, sg_actions s, set_job (jb_id row) f (sg_jobs s))"
proof -
  let ?i = "jb_id row" and ?g = "\<lambda>j. j\<lparr>jb_state := JobRunning, jb_started := Some now\<rparr>"
  let ?s = "s\<lparr>sg_jobs := set_job ?i ?g (sg_jobs s)\<rparr>"
  obtain x s2 where x: "execute (jb_type row) (jb_config row) ?s = (x, s2)" by fastforce
  with leaves [of "jb_type row" "jb_config row" ?s] have s2: "sg_schedules s2 = sg_schedules s" "sg_actions s2 = sg_actions s"
    "sg_jobs s2 = set_job ?i ?g (sg_jobs s)" by (simp_all add: sched_tables_def)
  have last: "\<exists>t. bindS (update_job (\<lambda>j. jb_id j = ?i) f) (\<lambda>_. refetched ?i) s2 = (Inr (f (?g j)), t) \<and>
      sched_tables t = (sg_schedules s, sg_actions s, set_job ?i (f \<circ> ?g) (sg_jobs s))"
    if f: "\<And>j. jb_id (f j) = jb_id j" for f
  proof -
    have twice: "set_job ?i f (sg_jobs s2) = set_job ?i (f \<circ> ?g) (sg_jobs s)" unfolding s2(3) by (rule set_job_twice) simp
    moreover have "find (\<lambda>j. jb_id j = ?i) (set_job ?i (f \<circ> ?g) (sg_jobs s)) = Some (f (?g j))"
      using assms f by (subst find_set_job) simp_all
    ultimately show ?thesis by (simp add: update_job_def refetched_run sched_tables_def s2(1,2))
  qed
  show ?thesis
  proof (cases x)
    case (Inl e)
    let ?f = "\<lambda>j. j\<lparr>jb_state := JobFailed, jb_completed := Some now, jb_error := Some e\<rparr>"
    from last [of ?f] obtain t where "fail_job now ?i e s2 = (Inr (?f (?g j)), t)"
      "sched_tables t = (sg_schedules s, sg_actions s, set_job ?i (?f \<circ> ?g) (sg_jobs s))" by (auto simp: fail_job_def)
    with x Inl show ?thesis
      by (intro exI [of _ "?f \<circ> ?g"] exI [of _ t]) (simp add: run_job_def update_job_def bindS_def modifyS_def job_ran_def)
  next
    case (Inr res)
    let ?f = "\<lambda>j. j\<lparr>jb_state := JobCompleted, jb_completed := Some now, jb_result := res\<rparr>"
    from last [of ?f] obtain t where "complete_job now ?i res s2 = (Inr (?f (?g j)), t)"
      "sched_tables t = (sg_schedules s, sg_actions s, set_job ?i (?f \<circ> ?g) (sg_jobs s))" by (auto simp: complete_job_def)
    with x Inr show ?thesis
      by (intro exI [of _ "?f \<circ> ?g"] exI [of _ t]) (simp add: run_job_def update_job_def bindS_def modifyS_def job_ran_def)
  qed
qed

end

lemma list_all2_mono_in:
  assumes "list_all2 P xs ys" "\<And>x y. x \<in> set xs \<Longrightarrow> P x y \<Longrightarrow> Q x y"
  shows "list_all2 Q xs ys"
  using assms by (simp add: list_all2_conv_all_nth)

lemma list_all2_backward: "list_all2 P xs ys \<Longrightarrow> y \<in> set ys \<Longrightarrow> \<exists>x \<in> set xs. P x y"
  by (induction rule: list_all2_induct) auto

text \<open>A list of rows: their jobs ran, the others stay.\<close>

definition ran_those :: "string \<Rightarrow> string set \<Rightarrow> job list \<Rightarrow> job list \<Rightarrow> bool" where
  "ran_those now ids = list_all2 (\<lambda>j k. if jb_id j \<in> ids then job_ran now j k else k = j)"

lemma ran_those_one: "(\<And>j. job_ran now j (f j)) \<Longrightarrow> ran_those now {i} js (set_job i f js)"
  by (simp add: ran_those_def sql_update_where_def list_all2_conv_all_nth)

lemma ran_those_trans:
  assumes "ran_those now A js ks" "ran_those now B ks ls" "A \<inter> B = {}"
  shows "ran_those now (A \<union> B) js ls"
  unfolding ran_those_def
proof (rule list_all2_trans [OF _ assms(1,2) [unfolded ran_those_def]])
  fix j k l
  assume one: "if jb_id j \<in> A then job_ran now j k else k = j" and two: "if jb_id k \<in> B then job_ran now k l else l = k"
  from one have "jb_id k = jb_id j" by (auto simp: job_ran_def split: if_splits)
  with one two assms(3) show "if jb_id j \<in> A \<union> B then job_ran now j l else l = j" by (auto split: if_splits)
qed

lemma ran_those_ids: "ran_those now A js ks \<Longrightarrow> map jb_id ks = map jb_id js"
  unfolding ran_those_def by (induction rule: list_all2_induct) (auto simp: job_ran_def split: if_splits)

lemma ran_those_kept: "ran_those now A js ks \<Longrightarrow> j \<in> set js \<Longrightarrow> jb_id j \<notin> A \<Longrightarrow> j \<in> set ks"
  unfolding ran_those_def by (induction rule: list_all2_induct) auto

context job_runner
begin

lemma run_rows_spec:
  assumes "distinct (map jb_id rows)" "jb_id ` set rows \<subseteq> jb_id ` set (sg_jobs s)"
  shows "\<exists>ks t. mapS (run_job execute now) rows s = (Inr ks, t) \<and> map jb_id ks = map jb_id rows \<and> set ks \<subseteq> set (sg_jobs t) \<and>
    sg_schedules t = sg_schedules s \<and> sg_actions t = sg_actions s \<and> ran_those now (jb_id ` set rows) (sg_jobs s) (sg_jobs t)"
  using assms
proof (induction rows arbitrary: s)
  case Nil
  then show ?case by (simp add: ran_those_def list_all2_refl)
next
  case (Cons row rows)
  then have "jb_id row \<in> jb_id ` set (sg_jobs s)" by simp
  then have "find (\<lambda>j. jb_id j = jb_id row) (sg_jobs s) \<noteq> None" by (auto simp: find_None_iff' image_iff)
  then obtain j where j: "find (\<lambda>j. jb_id j = jb_id row) (sg_jobs s) = Some j" by blast
  from run_job_spec [OF this, of now] obtain f s1 where run: "run_job execute now row s = (Inr (f j), s1)" "\<And>j. job_ran now j (f j)"
    and s1: "sg_schedules s1 = sg_schedules s" "sg_actions s1 = sg_actions s" "sg_jobs s1 = set_job (jb_id row) f (sg_jobs s)"
    by (auto simp: sched_tables_def)
  have one: "ran_those now {jb_id row} (sg_jobs s) (sg_jobs s1)" unfolding s1(3) by (rule ran_those_one [OF run(2)])
  from ran_those_ids [OF this] have "jb_id ` set (sg_jobs s1) = jb_id ` set (sg_jobs s)" by (metis set_map)
  with Cons.IH [of s1] Cons.prems obtain ks t where rest: "mapS (run_job execute now) rows s1 = (Inr ks, t)"
    "map jb_id ks = map jb_id rows" "set ks \<subseteq> set (sg_jobs t)" "sg_schedules t = sg_schedules s1" "sg_actions t = sg_actions s1"
    "ran_those now (jb_id ` set rows) (sg_jobs s1) (sg_jobs t)" by auto
  have fj: "jb_id (f j) = jb_id row" using run(2) [of j] find_SomeD [OF j] by (simp add: job_ran_def)
  have "f j \<in> set (sg_jobs s1)"
    using find_SomeD [OF j] unfolding s1(3) sql_update_where_def by (auto simp: image_iff)
  with ran_those_kept [OF rest(6)] fj Cons.prems(1) have "f j \<in> set (sg_jobs t)" by simp
  moreover have "ran_those now (jb_id ` set (row # rows)) (sg_jobs s) (sg_jobs t)"
    using ran_those_trans [OF one rest(6)] Cons.prems(1) by simp
  ultimately show ?case using run(1) rest fj s1(1,2)
    by (intro exI [of _ "f j # ks"] exI [of _ t]) (simp add: bindS_Inr)
qed

end

lemma queued_distinct: "distinct (map jb_id js) \<Longrightarrow> distinct (map jb_id (queued_jobs js))"
proof -
  assume "distinct (map jb_id js)"
  then have "distinct (map jb_id (filter P js))" for P by (rule distinct_map_filter)
  then show ?thesis by (simp add: queued_jobs_def sql_order_def distinct_map)
qed

lemma queued_set: "set (queued_jobs js) = {j \<in> set js. jb_state j = JobQueued}"
  by (auto simp: queued_jobs_def)

text \<open>
  C40. A queue is drained whatever its jobs do: with an executor that leaves the tables of scheduling
  alone, \<open>run_all\<close> returns, also when the executor raises, with one job for each that was queued, in
  the order of their creation; each of these is completed or failed, no job is queued any more, and no
  other job, action or schedule has changed.
\<close>

theorem run_all_drains:
  assumes "\<And>ty config s. sched_tables (snd (execute ty config s)) = sched_tables s" "distinct (map jb_id (sg_jobs s))"
  shows "\<exists>ks t. run_all execute now s = (Inr ks, t) \<and> map jb_id ks = map jb_id (queued_jobs (sg_jobs s)) \<and>
    (\<forall>k \<in> set ks. k \<in> set (sg_jobs t) \<and> jb_state k \<in> {JobCompleted, JobFailed}) \<and>
    (\<forall>k \<in> set (sg_jobs t). jb_state k \<noteq> JobQueued) \<and> sg_schedules t = sg_schedules s \<and> sg_actions t = sg_actions s \<and>
    list_all2 (\<lambda>j k. if jb_state j = JobQueued then job_ran now j k else k = j) (sg_jobs s) (sg_jobs t)"
proof -
  let ?js = "sg_jobs s" and ?ids = "jb_id ` set (queued_jobs (sg_jobs s))"
  have sub: "?ids \<subseteq> jb_id ` set ?js" by (auto simp: queued_set)
  have queued: "jb_id j \<in> ?ids \<longleftrightarrow> jb_state j = JobQueued" if "j \<in> set ?js" for j
    using that assms(2) by (auto simp: queued_set distinct_map dest: inj_onD)
  have runner: "job_runner execute" by (rule job_runner.intro) (rule assms(1))
  from job_runner.run_rows_spec [OF runner queued_distinct [OF assms(2)] sub, where now = now] obtain ks t where
    run: "mapS (run_job execute now) (queued_jobs ?js) s = (Inr ks, t)" "map jb_id ks = map jb_id (queued_jobs ?js)"
      "set ks \<subseteq> set (sg_jobs t)" "sg_schedules t = sg_schedules s" "sg_actions t = sg_actions s"
    and those: "ran_those now ?ids ?js (sg_jobs t)" by blast
  have all: "list_all2 (\<lambda>j k. if jb_state j = JobQueued then job_ran now j k else k = j) ?js (sg_jobs t)"
    using those [unfolded ran_those_def] by (rule list_all2_mono_in) (simp add: queued)
  have state: "jb_state k \<noteq> JobQueued \<and> (jb_id k \<in> ?ids \<longrightarrow> jb_state k \<in> {JobCompleted, JobFailed})"
    if "k \<in> set (sg_jobs t)" for k
  proof -
    from list_all2_backward [OF all that] obtain j where "j \<in> set ?js" "if jb_state j = JobQueued then job_ran now j k else k = j"
      by blast
    with queued [of j] show ?thesis by (auto simp: job_ran_def split: if_splits)
  qed
  have "jb_id k \<in> ?ids" if "k \<in> set ks" for k using run(2) that by (metis image_eqI set_map)
  with state run(3) have "\<forall>k \<in> set ks. k \<in> set (sg_jobs t) \<and> jb_state k \<in> {JobCompleted, JobFailed}" by blast
  with run state all show ?thesis by (intro exI [of _ ks] exI [of _ t]) (simp add: run_all_def)
qed

section \<open>The executors of the library\<close>

lemma sched_tables_engine [simp]: "sched_tables (engine_put e s) = sched_tables s"
  by (simp add: sched_tables_def engine_put_def)

interpretation sched_fixed: vault_invariant h "\<lambda>s. sched_tables s = c" for h c
proof -
  have "object_invariant h (\<lambda>s. sched_tables s = c)"
    by (rule object_of_column [of sched_tables]) (erule sched_tables_cong, simp_all, simp_all add: sched_tables_def)
  then show "vault_invariant h (\<lambda>s. sched_tables s = c)"
    by (rule vault_invariant.intro, unfold_locales)
      (auto simp: keeps_def vault_inserts sched_tables_def split: if_splits)
qed

interpretation default_jobs: job_runner default_executor
  by unfold_locales (simp add: default_executor_def)

lemma keeps_rotation: "keeps (\<lambda>s. sched_tables s = c) (rotation_executor h vs aged gen now ty config)"
  unfolding rotation_executor_def Let_def by (intro keeps_intros sched_fixed.keeps_rotate)

interpretation rotation_jobs: job_runner "rotation_executor h vs aged gen now" for h vs aged gen now
  by unfold_locales (rule keeps_snd [OF keeps_rotation refl])

section \<open>Actions without a schedule\<close>

text \<open>
  The scheduler and the queue, with calls that return or raise; jobs that are put into the queue directly
  belong to no action.
\<close>

inductive sched_step ::
  "v1_host \<Rightarrow> calendar \<Rightarrow> 'x scheduling_scheme job_executor \<Rightarrow> 'x scheduling_scheme \<Rightarrow> 'x scheduling_scheme \<Rightarrow> bool"
  for h cal execute where
  add_schedule: "create_schedule h now name owner cron interval s = (r, t) \<Longrightarrow> sched_step h cal execute s t"
| end_schedule: "archive_schedule h now i s = (r, t) \<Longrightarrow> sched_step h cal execute s t"
| add_action: "create_action h now name owner ty config next sid sc s = (r, t) \<Longrightarrow> sched_step h cal execute s t"
| move_action: "advance_action i next s = (r, t) \<Longrightarrow> sched_step h cal execute s t"
| end_action: "archive_action h now i s = (r, t) \<Longrightarrow> sched_step h cal execute s t"
| process_due: "process_due_actions h cal now at s = (r, t) \<Longrightarrow> sched_step h cal execute s t"
| add_job: "enqueue h now name ty config owner None sc s = (r, t) \<Longrightarrow> sched_step h cal execute s t"
| cancel: "cancel_job i s = (r, t) \<Longrightarrow> sched_step h cal execute s t"
| run_one: "run_next execute now s = (r, t) \<Longrightarrow> sched_step h cal execute s t"
| run_each: "run_all execute now s = (r, t) \<Longrightarrow> sched_step h cal execute s t"

definition one_shot :: "scheduled_action \<Rightarrow> bool" where
  "one_shot a \<longleftrightarrow> ac_schedule a = None \<or> ac_schedule a = Some []"

definition firings :: "string \<Rightarrow> string option list \<Rightarrow> nat" where
  "firings i js = length (filter (\<lambda>j. j = Some i) js)"

text \<open>The actions and, for each job, the action it belongs to.\<close>

definition sched_view :: "'x scheduling_scheme \<Rightarrow> scheduled_action list \<times> string option list" where
  "sched_view s = (sg_actions s, map jb_action (sg_jobs s))"

definition fired_ok :: "scheduled_action list \<times> string option list \<Rightarrow> bool" where
  "fired_ok x \<longleftrightarrow> (case x of (as, js) \<Rightarrow>
     distinct (map ac_id as) \<and> (\<forall>i. Some i \<in> set js \<longrightarrow> i \<in> ac_id ` set as) \<and>
     (\<forall>a \<in> set as. one_shot a \<longrightarrow> firings (ac_id a) js \<le> (if ac_lifecycle a = Active then 0 else 1)))"

lemma view_of_tables: "sched_tables t = (r, as, js) \<Longrightarrow> sched_view t = (as, map jb_action js)"
  by (simp add: sched_tables_def sched_view_def)

lemma same_view: "sched_tables t = sched_tables s \<Longrightarrow> sched_view t = sched_view s"
  by (simp add: sched_tables_def sched_view_def)

lemma no_firings: "Some i \<notin> set js \<Longrightarrow> firings i js = 0"
  by (auto simp: firings_def filter_empty_conv)

text \<open>Updates of actions that keep the identifier and the schedule, and archive or leave the life cycle.\<close>

definition tame :: "(scheduled_action \<Rightarrow> scheduled_action) \<Rightarrow> bool" where
  "tame f \<longleftrightarrow> (\<forall>a. ac_id (f a) = ac_id a \<and> ac_schedule (f a) = ac_schedule a \<and>
     (ac_lifecycle (f a) = ac_lifecycle a \<or> ac_lifecycle (f a) = Archived))"

abbreviation set_action :: "string \<Rightarrow> (scheduled_action \<Rightarrow> scheduled_action) \<Rightarrow> scheduled_action list \<Rightarrow> scheduled_action list" where
  "set_action i \<equiv> sql_update_where (\<lambda>a. ac_id a = i)"

lemma tame_archive: "tame (\<lambda>a. a\<lparr>ac_lifecycle := Archived\<rparr>)"
  by (simp add: tame_def)

lemma tame_next: "tame (\<lambda>a. a\<lparr>ac_next := q\<rparr>)"
  by (simp add: tame_def)

lemma tame_ids: "tame f \<Longrightarrow> map ac_id (set_action i f as) = map ac_id as"
  by (rule sql_update_where_key) (simp add: tame_def)

lemma tame_row:
  assumes "tame f" "b \<in> set (set_action i f as)"
  shows "\<exists>a \<in> set as. ac_id b = ac_id a \<and> ac_schedule b = ac_schedule a \<and> (ac_lifecycle b = ac_lifecycle a \<or> ac_lifecycle b = Archived) \<and>
    (ac_id a = i \<longrightarrow> b = f a) \<and> (ac_id a \<noteq> i \<longrightarrow> b = a)"
  using assms by (auto simp: sql_update_where_set tame_def split: if_splits)

lemma fired_ok_tame:
  assumes "fired_ok (as, js)" "tame f"
  shows "fired_ok (set_action i f as, js)"
proof -
  have ids: "ac_id ` set (set_action i f as) = ac_id ` set as" using tame_ids [OF assms(2), of i as] by (metis set_map)
  have "firings (ac_id b) js \<le> (if ac_lifecycle b = Active then 0 else 1)" if "b \<in> set (set_action i f as)" "one_shot b" for b
  proof -
    from tame_row [OF assms(2) that(1)] obtain a where "a \<in> set as" "ac_id b = ac_id a" "ac_schedule b = ac_schedule a"
      "ac_lifecycle b = ac_lifecycle a \<or> ac_lifecycle b = Archived" by blast
    moreover from this that(2) have "one_shot a" by (simp add: one_shot_def)
    ultimately show ?thesis using assms(1) by (fastforce simp: fired_ok_def split: if_splits)
  qed
  with assms(1) ids tame_ids [OF assms(2)] show ?thesis by (simp add: fired_ok_def)
qed

lemma fired_ok_job:
  assumes "fired_ok (as, js)"
  shows "fired_ok (as, js @ [None])"
  using assms by (simp add: fired_ok_def firings_def)

lemma fired_ok_action:
  assumes "fired_ok (as, js)" "ac_id a \<notin> ac_id ` set as"
  shows "fired_ok (as @ [a], js)"
proof -
  have "firings (ac_id a) js = 0" using assms by (intro no_firings) (auto simp: fired_ok_def)
  with assms show ?thesis by (auto simp: fired_ok_def)
qed

text \<open>A firing of an action whose row is, if it has no schedule, active, and then archived.\<close>

lemma fired_ok_fire:
  assumes "fired_ok (as, js)" "tame f" "x \<in> set as" "ac_id x = i"
    and "one_shot x \<Longrightarrow> ac_lifecycle x = Active \<and> ac_lifecycle (f x) = Archived"
  shows "fired_ok (set_action i f as, js @ [Some i])"
proof -
  from fired_ok_tame [OF assms(1,2)] have ok: "fired_ok (set_action i f as, js)" .
  have ids: "ac_id ` set (set_action i f as) = ac_id ` set as" using tame_ids [OF assms(2), of i as] by (metis set_map)
  have "firings (ac_id b) (js @ [Some i]) \<le> (if ac_lifecycle b = Active then 0 else 1)"
    if b: "b \<in> set (set_action i f as)" "one_shot b" for b
  proof (cases "ac_id b = i")
    case True
    from tame_row [OF assms(2) b(1)] True obtain a where a: "a \<in> set as" "ac_id a = i" "b = f a" "ac_schedule b = ac_schedule a" by auto
    have "a = x" using assms(1,3,4) a(1,2) by (auto simp: fired_ok_def distinct_map dest: inj_onD)
    moreover from this a(4) b(2) have "one_shot x" by (simp add: one_shot_def)
    ultimately have "ac_lifecycle b = Archived" "firings i js = 0"
      using assms(1,3,4,5) a(3) by (auto simp: fired_ok_def)
    with True show ?thesis by (simp add: firings_def)
  next
    case False
    then have "firings (ac_id b) (js @ [Some i]) = firings (ac_id b) js" by (simp add: firings_def)
    with ok b show ?thesis by (simp add: fired_ok_def)
  qed
  with ok ids assms(3,4) show ?thesis by (auto simp: fired_ok_def)
qed

section \<open>What the calls do to the actions\<close>

lemma advance_view: "advance_action i q s = (r, t) \<Longrightarrow> sched_view t = (set_action i (\<lambda>a. a\<lparr>ac_next := q\<rparr>) (sg_actions s), map jb_action (sg_jobs s))"
  by (auto simp: advance_action_def update_action_def modifyS_def sched_view_def)

lemma archive_view: "archive_action h now i s = (r, t) \<Longrightarrow>
    sched_view t = (set_action i (\<lambda>a. a\<lparr>ac_lifecycle := Archived\<rparr>) (sg_actions s), map jb_action (sg_jobs s)) \<and> r = Inr ()"
  using archive_action_run view_of_tables by blast
lemma keeps_quiet_view: "keeps (\<lambda>s. sched_view s = c) (quietly (audit_event h now rq))"
  unfolding keeps_def
proof (intro allI impI)
  fix s :: "'a scheduling_scheme"
  assume s: "sched_view s = c"
  obtain r t where run: "quietly (audit_event h now rq) s = (r, t)" by fastforce
  from quietly_audit [OF run] same_view [of t s] s run show "sched_view (snd (quietly (audit_event h now rq) s)) = c" by simp
qed

lemma keeps_fresh_view: "keeps (\<lambda>s. sched_view s = c) (fresh_id h)"
  by (auto simp: keeps_def fresh_id_def sched_view_def)

lemma keeps_insert_schedule: "keeps (\<lambda>s. sched_view s = c) (insert_schedule h x)"
  by (auto simp: keeps_def insert_schedule_def sched_view_def)

lemma keeps_create_schedule: "keeps (\<lambda>s. sched_view s = c) (create_schedule h now name owner cron interval)"
  unfolding create_schedule_def Let_def by (intro keeps_intros keeps_quiet_view keeps_fresh_view keeps_insert_schedule)

lemma keeps_archive_schedule: "keeps (\<lambda>s. sched_view s = c) (archive_schedule h now i)"
  unfolding archive_schedule_def by (intro keeps_intros keeps_quiet_view) (simp add: sched_view_def)

lemma keeps_update_job: "(\<And>j. jb_action (f j) = jb_action j) \<Longrightarrow> keeps (\<lambda>s. sched_view s = c) (update_job P f)"
  unfolding update_job_def by (rule keeps_modify) (simp add: sched_view_def sql_update_where_def comp_def if_distrib cong: if_cong)

lemma keeps_refetched: "keeps I (refetched i)"
  by (simp add: keeps_def refetched_run split: option.splits)

lemma keeps_complete_job: "keeps (\<lambda>s. sched_view s = c) (complete_job now i res)"
  unfolding complete_job_def by (intro keeps_intros keeps_update_job keeps_refetched) simp

lemma keeps_fail_job: "keeps (\<lambda>s. sched_view s = c) (fail_job now i e)"
  unfolding fail_job_def by (intro keeps_intros keeps_update_job keeps_refetched) simp

lemma keeps_cancel_job: "keeps (\<lambda>s. sched_view s = c) (cancel_job i)"
  unfolding cancel_job_def by (intro keeps_update_job) simp

lemma keeps_handled:
  assumes "keeps I m" "\<And>e. keeps I (f e)"
  shows "keeps I (\<lambda>s. case m s of (Inr x, t) \<Rightarrow> (Inr x, t) | (Inl e, t) \<Rightarrow> f e t)"
  using assms unfolding keeps_def by (auto split: prod.splits sum.splits)

context job_runner
begin

lemma keeps_run_job: "keeps (\<lambda>s. sched_view s = c) (run_job execute now row)"
proof -
  have execute: "keeps (\<lambda>s. sched_view s = c) (execute ty config)" for ty config
    unfolding keeps_def by (simp add: same_view [OF leaves])
  show ?thesis
    unfolding run_job_def
    by (intro keeps_bind keeps_handled execute keeps_update_job keeps_complete_job keeps_fail_job) simp
qed

lemma keeps_run_all: "keeps (\<lambda>s. sched_view s = c) (run_all execute now)"
  unfolding run_all_def by (intro keeps_intros keeps_run_job)

lemma keeps_run_next: "keeps (\<lambda>s. sched_view s = c) (run_next execute now)"
proof -
  have "keeps (\<lambda>s. sched_view s = c) (case rows of [] \<Rightarrow> returnS None | row # x \<Rightarrow>
      bindS (run_job execute now row) (\<lambda>j. returnS (Some j)))" for rows
    by (cases rows) (auto intro!: keeps_intros keeps_run_job)
  then show ?thesis unfolding run_next_def by (intro keeps_bind keeps_basic)
qed

end
lemma fresh_id_Inr: "\<exists>i t. fresh_id h s = (Inr i, t)"
  by (simp add: fresh_id_def)

lemma create_action_view:
  assumes "create_action h now name owner ty config next sid sc s = (r, t)"
  shows "sched_view t = sched_view s \<or>
    (\<exists>a. sched_view t = (sg_actions s @ [a], map jb_action (sg_jobs s)) \<and> ac_id a \<notin> ac_id ` set (sg_actions s))"
proof -
  obtain i s1 where i: "fresh_id h s = (Inr i, s1)" using fresh_id_Inr by blast
  let ?a = "\<lparr>ac_id = i, ac_name = name, ac_owner = owner, ac_type = ty, ac_config = config, ac_next = next,
    ac_schedule = sid, ac_scope = sc, ac_created = now, ac_lifecycle = Active\<rparr>"
  obtain u s2 where a: "insert_action h ?a s1 = (u, s2)" by fastforce
  have s1: "sg_actions s1 = sg_actions s" "sg_jobs s1 = sg_jobs s" using fresh_sched [OF i] by (simp_all add: sched_tables_def)
  show ?thesis
  proof (cases u)
    case (Inl e)
    with a have "s2 = s1" by (auto simp: insert_action_def split: if_splits)
    with assms i a Inl s1 show ?thesis by (auto simp: create_action_def Let_def bindS_def sched_view_def)
  next
    case (Inr u')
    with a have s2: "s2 = s1\<lparr>sg_actions := sg_actions s1 @ [?a]\<rparr>" "\<forall>x \<in> set (sg_actions s1). ac_id x \<noteq> i"
      by (auto simp: insert_action_def list_ex_iff split: if_splits)
    from assms i a Inr obtain rq where "bindS (quietly (audit_event h now rq)) (\<lambda>_. returnS ?a) s2 = (r, t)"
      by (simp add: create_action_def Let_def bindS_Inr [of _ _ _ s1] bindS_Inr [of _ _ _ s2])
    from keepsD [OF keeps_bind [OF keeps_quiet_view keeps_basic(1)] refl this] s1 s2(1)
    have "sched_view t = (sg_actions s @ [?a], map jb_action (sg_jobs s))" by (simp add: sched_view_def)
    with s2(2) s1 show ?thesis by (intro disjI2 exI [of _ ?a]) auto
  qed
qed

text \<open>What firing an action does to the rows: a tame update, which archives an action without a schedule.\<close>

definition fires :: "scheduled_action \<Rightarrow> (scheduled_action \<Rightarrow> scheduled_action) \<Rightarrow> bool" where
  "fires a f \<longleftrightarrow> tame f \<and> (one_shot a \<longrightarrow> (\<forall>x. ac_lifecycle (f x) = Archived))"

lemma set_action_id: "set_action i (\<lambda>x. x) as = as"
  by (simp add: sql_update_where_def)

lemma next_occurrence_view:
  assumes "next_occurrence h cal now a s = (r, t)"
  shows "\<exists>f. fires a f \<and> sched_view t = (set_action (ac_id a) f (sg_actions s), map jb_action (sg_jobs s))"
proof -
  have archived: ?thesis if "archive_action h now (ac_id a) s = (r, t)"
    using archive_view [OF that] tame_archive by (intro exI [of _ "\<lambda>a. a\<lparr>ac_lifecycle := Archived\<rparr>"]) (simp add: fires_def)
  have moved: ?thesis if "advance_action (ac_id a) q s = (r, t)" "\<not> one_shot a" for q
    using advance_view [OF that(1)] that(2) tame_next [of q] by (intro exI [of _ "\<lambda>a. a\<lparr>ac_next := q\<rparr>"]) (simp add: fires_def)
  have stuck: ?thesis if "t = s" "\<not> one_shot a"
    using that set_action_id by (intro exI [of _ "\<lambda>x. x"]) (simp add: fires_def tame_def sched_view_def)
  show ?thesis
  proof (cases "one_shot a")
    case True
    then show ?thesis using archived assms by (auto simp: next_occurrence_def one_shot_def)
  next
    case False
    then obtain i where i: "ac_schedule a = Some i" "i \<noteq> []" by (auto simp: one_shot_def)
    with assms have run: "(case find (\<lambda>r. rs_id r = i) (sg_schedules s) of
        None \<Rightarrow> archive_action h now (ac_id a)
      | Some x \<Rightarrow>
          if some_number (rs_interval x) then advance_action (ac_id a) (cl_plus cal (ac_next a) (the (rs_interval x)))
          else if some_text (rs_cron x) then
            (case cl_cron cal of
               None \<Rightarrow> advance_action (ac_id a) (cl_plus cal (ac_next a) 3600)
             | Some parse \<Rightarrow> bindS (liftS (parse (the (rs_cron x)) (ac_next a))) (advance_action (ac_id a)))
          else archive_action h now (ac_id a)) s = (r, t)"
      by (simp add: next_occurrence_def get_schedule_def)
    have parsed: ?thesis if "bindS (liftS p) (advance_action (ac_id a)) s = (r, t)" for p
      using that False moved stuck by (cases p) (auto simp: bindS_def liftS_def)
    from run False archived moved parsed show ?thesis by (auto split: option.splits if_splits)
  qed
qed

lemma fire_action_view:
  assumes "fire_action h cal now a s = (r, t)"
  shows "sched_view t = sched_view s \<and> (\<exists>e. r = Inl e) \<or>
    (\<exists>f. fires a f \<and> sched_view t = (set_action (ac_id a) f (sg_actions s), map jb_action (sg_jobs s) @ [Some (ac_id a)]))"
proof -
  let ?q = "enqueue h now (ac_name a) (ac_type a) (ac_config a) (ac_owner a) (Some (ac_id a)) (ac_scope a)"
  obtain q s1 where q: "?q s = (q, s1)" by fastforce
  show ?thesis
  proof (cases q)
    case (Inl e)
    with q enqueue_Inl [of h now "ac_name a" "ac_type a" "ac_config a" "ac_owner a" "Some (ac_id a)" "ac_scope a" s e s1]
      assms same_view [of s1 s] show ?thesis by (auto simp: fire_action_def bindS_def)
  next
    case (Inr j)
    with q have s1: "sg_actions s1 = sg_actions s" "map jb_action (sg_jobs s1) = map jb_action (sg_jobs s) @ [Some (ac_id a)]"
      using enqueue_Inr [of h now "ac_name a" "ac_type a" "ac_config a" "ac_owner a" "Some (ac_id a)" "ac_scope a" s j s1]
      by (simp_all add: sched_tables_def)
    obtain n s2 where n: "next_occurrence h cal now a s1 = (n, s2)" by fastforce
    from next_occurrence_view [OF this] s1 obtain f where f: "fires a f"
      "sched_view s2 = (set_action (ac_id a) f (sg_actions s), map jb_action (sg_jobs s) @ [Some (ac_id a)])" by auto
    have "sched_view t = sched_view s2"
    proof (cases n)
      case (Inl e)
      with assms q Inr n show ?thesis by (simp add: fire_action_def bindS_def)
    next
      case (Inr u)
      with assms q \<open>q = Inr j\<close> n obtain rq where "bindS (quietly (audit_event h now rq)) (\<lambda>_. returnS j) s2 = (r, t)"
        by (simp add: fire_action_def bindS_Inr [of _ _ _ s1] bindS_Inr [of _ _ _ s2])
      from keepsD [OF keeps_bind [OF keeps_quiet_view keeps_basic(1)] refl this] show ?thesis .
    qed
    with f show ?thesis by auto
  qed
qed

text \<open>The actions that a run has read and not yet fired.\<close>

definition pending :: "scheduled_action list \<Rightarrow> scheduled_action list \<Rightarrow> bool" where
  "pending todo rows \<longleftrightarrow> distinct (map ac_id todo) \<and>
     (\<forall>a \<in> set todo. \<exists>x \<in> set rows. ac_id x = ac_id a \<and> ac_schedule x = ac_schedule a \<and> (one_shot a \<longrightarrow> ac_lifecycle x = Active))"

lemma pending_rest:
  assumes "pending (a # todo) rows" "tame f"
  shows "pending todo (set_action (ac_id a) f rows)"
  unfolding pending_def
proof (intro conjI ballI)
  show "distinct (map ac_id todo)" using assms(1) by (simp add: pending_def)
  fix b assume "b \<in> set todo"
  moreover from this assms(1) have "ac_id b \<noteq> ac_id a" unfolding pending_def by (metis image_eqI distinct.simps(2) list.map(2) set_map)
  ultimately obtain x where "x \<in> set rows" "ac_id x = ac_id b" "ac_schedule x = ac_schedule b" "one_shot b \<longrightarrow> ac_lifecycle x = Active"
    "ac_id x \<noteq> ac_id a" using assms(1) by (auto simp: pending_def)
  moreover from this have "x \<in> set (set_action (ac_id a) f rows)" by (force simp: sql_update_where_def)
  ultimately show "\<exists>x \<in> set (set_action (ac_id a) f rows). ac_id x = ac_id b \<and> ac_schedule x = ac_schedule b \<and>
      (one_shot b \<longrightarrow> ac_lifecycle x = Active)" by blast
qed

lemma fire_all_ok:
  assumes "mapS (fire_action h cal now) todo s = (r, t)" "pending todo (sg_actions s)" "fired_ok (sched_view s)"
  shows "fired_ok (sched_view t)"
  using assms
proof (induction todo arbitrary: s r)
  case Nil
  then show ?case by simp
next
  case (Cons a todo)
  obtain q s1 where q: "fire_action h cal now a s = (q, s1)" by fastforce
  from fire_action_view [OF q] show ?case
  proof
    assume "sched_view s1 = sched_view s \<and> (\<exists>e. q = Inl e)"
    with q Cons.prems show ?thesis by (auto simp: bindS_def)
  next
    assume "\<exists>f. fires a f \<and> sched_view s1 = (set_action (ac_id a) f (sg_actions s), map jb_action (sg_jobs s) @ [Some (ac_id a)])"
    then obtain f where f: "tame f" "one_shot a \<Longrightarrow> ac_lifecycle (f x) = Archived"
      "sched_view s1 = (set_action (ac_id a) f (sg_actions s), map jb_action (sg_jobs s) @ [Some (ac_id a)])" for x
      by (auto simp: fires_def)
    from Cons.prems(2) obtain x where x: "x \<in> set (sg_actions s)" "ac_id x = ac_id a" "ac_schedule x = ac_schedule a"
      "one_shot a \<longrightarrow> ac_lifecycle x = Active" by (auto simp: pending_def)
    then have "one_shot x = one_shot a" by (simp add: one_shot_def)
    with x f(2) have "one_shot x \<Longrightarrow> ac_lifecycle x = Active \<and> ac_lifecycle (f x) = Archived" by simp
    from fired_ok_fire [OF _ f(1) x(1,2) this] Cons.prems(3) f(3) have ok: "fired_ok (sched_view s1)" by (simp add: sched_view_def)
    have rest: "pending todo (sg_actions s1)" using pending_rest [OF Cons.prems(2) f(1)] f(3) by (simp add: sched_view_def)
    show ?thesis
    proof (cases q)
      case (Inl e)
      with Cons.prems(1) q ok show ?thesis by (simp add: bindS_def)
    next
      case (Inr j)
      obtain v t1 where v: "mapS (fire_action h cal now) todo s1 = (v, t1)" by fastforce
      with Cons.prems(1) q Inr have "t = t1" by (auto simp: bindS_def returnS_def split: sum.splits)
      with v have "mapS (fire_action h cal now) todo s1 = (v, t)" by simp
      from Cons.IH [OF this rest ok] show ?thesis .
    qed
  qed
qed
lemma process_due_ok:
  assumes "process_due_actions h cal now at s = (r, t)" "fired_ok (sched_view s)"
  shows "fired_ok (sched_view t)"
proof -
  let ?due = "due_actions at (sg_actions s)"
  from assms(1) have "mapS (fire_action h cal now) ?due s = (r, t)" by (simp add: process_due_actions_def get_due_actions_def)
  moreover have "distinct (map ac_id ?due)" using assms(2) by (intro due_distinct) (simp add: fired_ok_def sched_view_def)
  then have "pending ?due (sg_actions s)" unfolding pending_def by (auto simp: due_set)
  ultimately show ?thesis using assms(2) by (rule fire_all_ok)
qed

lemma tame_view_ok:
  assumes "sched_view t = (set_action i f (sg_actions s), map jb_action (sg_jobs s))" "tame f" "fired_ok (sched_view s)"
  shows "fired_ok (sched_view t)"
  using assms fired_ok_tame by (simp add: sched_view_def)

lemma enqueue_ok:
  assumes "enqueue h now name ty config owner None sc s = (r, t)" "fired_ok (sched_view s)"
  shows "fired_ok (sched_view t)"
proof (cases r)
  case (Inl e)
  with assms enqueue_Inl same_view show ?thesis by metis
next
  case (Inr j)
  with assms(1) enqueue_Inr [of h now name ty config owner None sc s j t]
  have "sched_view t = (sg_actions s, map jb_action (sg_jobs s) @ [None])" by (simp add: sched_tables_def sched_view_def)
  with assms(2) fired_ok_job show ?thesis by (simp add: sched_view_def)
qed

lemma create_action_ok:
  assumes "create_action h now name owner ty config next sid sc s = (r, t)" "fired_ok (sched_view s)"
  shows "fired_ok (sched_view t)"
  using create_action_view [OF assms(1)]
proof
  assume "\<exists>a. sched_view t = (sg_actions s @ [a], map jb_action (sg_jobs s)) \<and> ac_id a \<notin> ac_id ` set (sg_actions s)"
  with assms(2) fired_ok_action show ?thesis by (auto simp: sched_view_def)
qed (use assms(2) in simp)

context job_runner
begin

lemma sched_step_ok:
  assumes "sched_step h cal execute s t" "fired_ok (sched_view s)"
  shows "fired_ok (sched_view t)"
  using assms
proof (induction rule: sched_step.induct)
  case (add_schedule now name owner cron interval s r t)
  from keepsD [OF keeps_create_schedule refl add_schedule(1)] add_schedule(2) show ?case by simp
next
  case (end_schedule now i s r t)
  from keepsD [OF keeps_archive_schedule refl end_schedule(1)] end_schedule(2) show ?case by simp
next
  case (add_action now name owner ty config q sid sc s r t)
  then show ?case by (rule create_action_ok)
next
  case (move_action i q s r t)
  from tame_view_ok [OF advance_view [OF move_action(1)] tame_next move_action(2)] show ?case .
next
  case (end_action now i s r t)
  from tame_view_ok [OF archive_view [OF end_action(1), THEN conjunct1] tame_archive end_action(2)] show ?case .
next
  case (process_due now at s r t)
  then show ?case by (rule process_due_ok)
next
  case (add_job now name ty config owner sc s r t)
  then show ?case by (rule enqueue_ok)
next
  case (cancel i s r t)
  from keepsD [OF keeps_cancel_job refl cancel(1)] cancel(2) show ?case by simp
next
  case (run_one now s r t)
  from keepsD [OF keeps_run_next refl run_one(1)] run_one(2) show ?case by simp
next
  case (run_each now s r t)
  from keepsD [OF keeps_run_all refl run_each(1)] run_each(2) show ?case by simp
qed

lemma sched_steps_ok: "(sched_step h cal execute)\<^sup>*\<^sup>* s t \<Longrightarrow> fired_ok (sched_view s) \<Longrightarrow> fired_ok (sched_view t)"
  by (induction rule: rtranclp_induct) (auto intro: sched_step_ok)

end

section \<open>A sample\<close>

definition sched0 :: scheduling where
  "sched0 = \<lparr>w_next = 0, w_trail = [], w_seq = 0, w_last = '''', tn_audited = False,
     tn_principals = [''ann''], tn_objects = [], tn_scopes = [], tn_members = [], tn_projections = [],
     gd_engine = None, os_versions = [], os_tombstones = [],
     vt_secrets = [], vt_versions = [], vt_refs = [], vt_log = [], vt_policies = [],
     sg_schedules = [], sg_actions = [], sg_jobs = []\<rparr>"

definition calendar0 :: calendar where
  "calendar0 = \<lparr>cl_plus = (\<lambda>t n. t @ ''+''), cl_cron = None\<rparr>"

text \<open>An executor that raises for one kind of job.\<close>

definition picky :: "scheduling job_executor" where
  "picky ty config = (if ty = ''mail'' then raiseS V1ValueError else returnS [])"

definition hourly1 :: "(v1_error + recurring_schedule) \<times> scheduling" where
  "hourly1 = create_schedule v1_host0 ''d1'' ''hourly'' ''ann'' None (Some 3600) sched0"

definition backup1 :: "(v1_error + scheduled_action) \<times> scheduling" where
  "backup1 = create_action v1_host0 ''d1'' ''backup'' ''ann'' ''dump'' [] ''d2'' (Some ''t0'') None (snd hourly1)"

definition mail1 :: "(v1_error + scheduled_action) \<times> scheduling" where
  "mail1 = create_action v1_host0 ''d1'' ''news'' ''ann'' ''mail'' [] ''d3'' None None (snd backup1)"

definition due1 :: "(v1_error + job list) \<times> scheduling" where
  "due1 = process_due_actions v1_host0 calendar0 ''d4'' ''d4'' (snd mail1)"

definition ran1 :: "(v1_error + job list) \<times> scheduling" where
  "ran1 = run_all picky ''d5'' (snd due1)"

lemma picky_leaves: "sched_tables (snd (picky ty config s)) = sched_tables s"
  by (simp add: picky_def)


lemma due1_run: "(case due1 of (r, s) \<Rightarrow> (isl r, map (\<lambda>a. (ac_id a, ac_next a, ac_schedule a, ac_lifecycle a)) (sg_actions s),
      map (\<lambda>j. (jb_id j, jb_action j, jb_state j)) (sg_jobs s))) =
    (False, [(''t1'', ''d2+'', Some ''t0'', Active), (''t2'', ''d3'', None, Archived)],
     [(''t3'', Some ''t1'', JobQueued), (''t4'', Some ''t2'', JobQueued)])"
  by code_simp


lemma run_all_drains_witness:
  "\<exists>ks. fst ran1 = Inr ks \<and> map jb_id ks = [''t3'', ''t4'']"
proof -
  have ids: "distinct (map jb_id (sg_jobs (snd due1)))"
    using arg_cong [OF due1_run, of "\<lambda>x. map fst (snd (snd x))"] by (simp add: split_beta comp_def)
  have "map jb_id (queued_jobs (sg_jobs (snd due1))) = [''t3'', ''t4'']" by code_simp
  with run_all_drains [where execute = picky and s = "snd due1" and now = "''d5''", OF picky_leaves ids]
  show ?thesis by (auto simp: ran1_def)
qed


end
