(* ===== verification/Spec2Isabelle.thy ===== *)
theory Spec2Isabelle
  imports Scoped_Contracts V1_Tenancy_Properties V1_Rule_Tools V1_Rules_Properties
    V1_Rule_Checks_Properties V1_Types_Properties V1_Deployments_Properties V1_Flow_Properties
    V1_Object_Transfer_Properties V1_Secrets_Properties V1_Temporal_Properties V1_Contracts_Properties V1_Scheduling_Properties
begin

text \<open>
  Verification of pyscoped: data isolation and audit for Python applications.

  The repository holds two programs. \<open>src/pyscoped\<close> (version 2) is a Django package: models
  registered with it are read and written only under a current scope, and every change is
  appended to per-row histories protected by a chain of digests. \<open>src/legacy/v1/scoped\<close> (version
  1) is a framework of services over SQL tables; its audit trail, tenancy, rules, deployments,
  environments, flow, objects, secrets, temporal rollback, contracts and scheduling are modelled here, the other services
  are not.

  \<^bold>\<open>Version 2.\<close> One call is a function from an explicit state (the database, the context
  variable or both) to \<open>py_error + result\<close>; a raised exception rolls the transaction back, so
  it carries no state. Machine integers do not occur: revisions are Python integers.

  \<^item> \<open>Scoped_Prelude\<close>: the result type, its sequencing, traversals of lists, generic lemmas.
  \<^item> \<open>Json_Encode\<close>: the canonical JSON text that is digested; it is injective.
  \<^item> \<open>Hash_Chain\<close>: the locale of hash chains over an abstract digest, with tamper evidence up
    to an exhibited collision. Both audit logs interpret it.
  \<^item> \<open>Scope_Context\<close>: \<open>context.py\<close>, \<open>integration.py\<close>, \<open>middleware.py\<close>. The context variable, the
    scope manager as context manager and decorator, the request middleware and its streams.
  \<^item> \<open>Audit_Core\<close>: \<open>models.py\<close>, \<open>audit.py\<close>. Rows, snapshots, the resource heads and events,
    \<open>append_event\<close> with its checks; what an append adds.
  \<^item> \<open>Model_Registry\<close>: \<open>registry.py\<close>, \<open>checks.py\<close>. Registration, the wrapped save and delete,
    relation guards, the system check.
  \<^item> \<open>Scoped_Query\<close>: \<open>query.py\<close>. Managers, querysets and the audited bulk operations.
  \<^item> \<open>History_Ops\<close>: \<open>history.py\<close> and the backfill command. Verification, backfill, restore.
  \<^item> \<open>Scoped_System\<close>: one call of the library, or an untracked write of rows, as an inductive
    step; reachable databases and the invariant every step keeps.
  \<^item> \<open>Scoped_Properties\<close>, \<open>Scoped_Contracts\<close>: the properties of version 2.

  The ORM outside the repository enters as parameters: \<open>orm\<close> (what a base save or delete does
  to the rows), the hash function, and the request's resolver and view.

  \<^bold>\<open>Version 1.\<close> Services write autocommitting tables, so an operation returns a result and the
  state it left, also when it raised (\<open>V1_Monad\<close>).

  \<^item> \<open>V1_Monad\<close>: operations with errors and state, a calculus of the invariants they keep, SQL
    idioms (limit, order, update), Python string functions.
  \<^item> \<open>V1_Types\<close>, \<open>V1_Types_Properties\<close>: \<open>types.py\<close>. URNs and their text, lifecycle states, action
    types, metadata; the round trip of URNs.
  \<^item> \<open>V1_Audit\<close>: \<open>audit/models.py\<close>, \<open>writer.py\<close>, \<open>query.py\<close>, \<open>retention.py\<close>. The writer keeps the
    last sequence number and digest in memory and reseeds them; other processes enter as an
    environment that may change the trail between reseeding and insert. \<open>max_sequence_retries\<close>
    is the code's bound of three; the list of attempts makes the loop structural.
  \<^item> \<open>V1_Audit_Facts\<close>, \<open>V1_Audit_Properties\<close>: the chain invariant, what each operation keeps of
    it, verification in chunks, retention; the properties of the trail.
  \<^item> \<open>V1_Tenancy\<close>: \<open>tenancy/models.py\<close>, \<open>lifecycle.py\<close>. Scopes, memberships, life cycle, walks of
    the hierarchy. The walks terminate because every round sees a new stored scope.
  \<^item> \<open>V1_Visibility\<close>: \<open>tenancy/projection.py\<close>, \<open>engine.py\<close>. Projections and what a principal can
    see; recursive queries are computed level by level, \<open>cte_depth\<close> is the code's bound of
    twenty levels.
  \<^item> \<open>V1_Tenancy_Facts\<close>, \<open>V1_Tenancy_Properties\<close>: the interface of invariants of the service, interpreted
    for the tables and for the audit trail, the service as a step system; its properties.
  \<^item> \<open>V1_Rules\<close>: \<open>rules/models.py\<close>, \<open>engine.py\<close>, \<open>cache.py\<close>. The rule store with its versions
    and bindings, the cache and the deny-overrides evaluation. \<open>V1_Rule_Tools\<close>: explanations,
    \<open>compiler.py\<close> and \<open>builtins.py\<close>. \<open>V1_Rules_Facts\<close>: the cache agrees with the tables (the
    locale \<open>rule_source\<close>, interpreted for the cached look-up), keys and versions.
    \<open>V1_Rules_Properties\<close>: the service as a step system and the properties of decisions.
  \<^item> \<open>V1_Rule_Checks\<close>: \<open>redaction.py\<close>, \<open>rate_limit.py\<close>, \<open>quotas.py\<close>, \<open>features.py\<close>, with the
    exceptions that malformed conditions raise. \<open>V1_Rule_Checks_Facts\<close>: redaction as a function
    of each field, the scan for the first violation as a locale interpreted for rate limits and
    quotas. \<open>V1_Rule_Checks_Properties\<close>: the properties of these checks.
  \<^item> \<open>V1_Deployments\<close>: \<open>deployments/\<close>. Targets, deployments, gates, execution with a callback and
    rollbacks. \<open>V1_Deployments_Facts\<close>: an abstract machine on the three tables and the locale of
    invariants of the service, interpreted for the machine and for the trail.
    \<open>V1_Deployments_Properties\<close>: what the machine keeps, the chain of rollbacks, gates.
  \<^item> \<open>V1_Guard\<close>, \<open>V1_Guard_Facts\<close>: services that ask the rule engine before they act. The engine,
    if one is given, runs on the rule tables and the shared trail; the locale of invariants of such
    services extends that of tenancy, and environments, flow, objects and secrets extend it.
  \<^item> \<open>V1_Environments\<close>: \<open>environments/lifecycle.py\<close>, \<open>container.py\<close>, \<open>models.py\<close>. The state machine of
    environments, templates and contents. \<open>V1_Flow\<close>: \<open>flow/\<close> and \<open>EnvironmentLifecycle.promote\<close>. Pipelines,
    stages, channels, promotions. \<open>V1_Environments_Facts\<close>, \<open>V1_Flow_Facts\<close>: two abstract machines
    and the locales of invariants, which extend that of tenancy. \<open>V1_Flow_Properties\<close>: tenancy,
    environments and flow as one step system; the life of an environment, the path of an object
    through the stages, discarding and promoting.
  \<^item> \<open>V1_Objects\<close>: \<open>objects/manager.py\<close>, \<open>models.py\<close>, \<open>versioning.py\<close>, \<open>isolation.py\<close> and
    \<open>_type_registry.py\<close>. Objects, their versions and tombstones, transactions, differences. The
    checkers of quotas and rate limits and the adapters of typed values are parameters. \<open>V1_Objects_Facts\<close>: the
    abstract machine of objects and the locale of invariants of the manager. \<open>V1_Objects_Properties\<close>:
    what every run keeps, who reaches an object, what an update does, differences.
  \<^item> \<open>V1_Object_Transfer\<close>: \<open>objects/export.py\<close>, \<open>import_.py\<close>. Packages, streams and their import.
    \<open>V1_Object_Transfer_Properties\<close>: the round trips, failed imports.
  \<^item> \<open>V1_Secrets\<close>: \<open>secrets/vault.py\<close>, \<open>policy.py\<close>, \<open>models.py\<close>, \<open>backend.py\<close>, \<open>leak_detection.py\<close>.
    \<open>V1_Secrets_Facts\<close>: the law of encryption as a locale, interpreted for the backend in memory (and
    proved for the one over a cipher that decrypts what it encrypts), the abstract machine of secrets,
    the locale of invariants of the vault. \<open>V1_Secrets_Properties\<close>: vault, manager and tenancy as one
    step system, resolution, noninterference of plaintexts, leaks.
  \<^item> \<open>V1_Temporal\<close>: \<open>temporal/\<close>. Reconstruction of states from the trail, constraints on rollbacks and
    the three forms of rollback; the search of a cascade terminates by a measure on its queue, and
    \<open>max_depth\<close> is the code's bound. \<open>V1_Temporal_Facts\<close>: recording without other writers, what a rollback
    leaves alone. \<open>V1_Temporal_Properties\<close>: rolling back a run of updates restores the tables, every
    rollback is on the trail, what a cascade covers, what is not restored.
  \<^item> \<open>V1_Contracts\<close>: \<open>registry/contracts.py\<close>. Fields, constraints, versions, validation, differences, the
    store. \<open>V1_Contracts_Properties\<close>: validation decides conformance, versions are permanent, a published
    version is what counts.
  \<^item> \<open>V1_Scheduling\<close>: \<open>scheduling/\<close> and \<open>secrets/rotation.py\<close>. Schedules, actions, the queue of jobs and
    the rotation of secrets; the arithmetic of times, the cron parser and the executor of jobs are
    parameters. \<open>V1_Scheduling_Properties\<close>: what processing the due actions does, the locale of executors
    that leave the tables alone, interpreted for the two executors of the library, a step system in which
    an action without a schedule fires at most once, and the draining of the queue.

  \<^bold>\<open>Abstractions.\<close> A table is the list of its rows in insertion order; constraints (primary
  keys, unique keys, foreign keys) are tested by the model of each insert. Times are ISO texts
  compared as the queries compare them, and are arguments. Logging is left out. Threads of one
  process are serialised by the locks the code takes and are not modelled; asynchronous twins of
  synchronous functions are not repeated.

  \<^bold>\<open>Not modelled.\<close> Database drivers, schema migrations, the framework adapters, the client
  facade, JSON numbers with a fraction in rule conditions, the Pydantic models of \<open>conditions.py\<close>,
  snapshots of environments, search and blobs of objects, the key services of clouds, and the other
  services of version 1: identity, events, integrations, connectors, the rest of the registry, sync and
  manifests.
\<close>

end
